(* ===== verification/Prelude.thy ===== *)
theory Prelude
  imports Main "HOL-Library.Word"
begin

text \<open>
  Shared vocabulary of the development: the machine integer types of the C
  sources, the error codes of \<open>ext2_err.h\<close> and \<open>errno.h\<close> that the modelled
  functions return, the reading of a byte array as a sequence of bits (bit
  \<open>n\<close> is bit \<open>n mod 8\<close> of byte \<open>n div 8\<close>, the layout of every bitmap of the
  library), and the arithmetic lemmas on words, lists and bits that the
  component theories share.
\<close>

unbundle bit_operations_syntax

type_synonym u8 = "8 word"
type_synonym u16 = "16 word"
type_synonym u32 = "32 word"
type_synonym u64 = "64 word"

text \<open>\<open>errcode_t\<close> is a C \<open>long\<close>; 0 is success.\<close>

type_synonym errcode = int

abbreviation EINVAL :: errcode where "EINVAL \<equiv> 22"
abbreviation ENOENT :: errcode where "ENOENT \<equiv> 2"
abbreviation EXT2_ET_NO_MEMORY :: errcode where "EXT2_ET_NO_MEMORY \<equiv> 2133571398"

text \<open>Collections: equations that turn word operations into \<open>nat\<close> arithmetic,
  and the introduction rules of the invariants.\<close>

named_theorems word_nat "word operations read as natural numbers"
named_theorems invar_intros "preservation of the component invariants"

section \<open>Words as natural numbers\<close>

lemma unat_drop_bit_3 [word_nat]: "unat (drop_bit 3 (w :: 'a::len word)) = unat w div 8"
  using unat_drop_bit_eq [of 3 w] by (simp only: drop_bit_nat_def) simp

lemma unat_and_7 [word_nat]: "unat ((w :: 'a::len word) AND 7) = unat w mod 8"
proof -
  have "unat (w AND mask 3) = take_bit 3 (unat w)"
    by (simp only: unsigned_take_bit_eq flip: take_bit_eq_mask)
  then show ?thesis
    by (simp only: take_bit_nat_def) (simp add: mask_eq_decr_exp)
qed

lemma unat_plus_less [word_nat]:
  "unat (a :: 'a::len word) + unat b < 2 ^ LENGTH('a) \<Longrightarrow> unat (a + b) = unat a + unat b"
  by (simp add: unat_word_ariths)

lemma unat_minus_le [word_nat]:
  "unat (b :: 'a::len word) \<le> unat a \<Longrightarrow> unat (a - b) = unat a - unat b"
  by (simp add: unat_sub word_le_nat_alt)

lemma unat_push_drop_3 [word_nat]: "unat (push_bit 3 (drop_bit 3 (w :: u64))) = 8 * (unat w div 8)"
proof -
  have "unat w < 2 ^ 64" using unsigned_less [of w] by simp
  then have "unat w div 8 * 8 < 2 ^ 64" by linarith
  then show ?thesis
    by (simp add: push_bit_eq_mult unat_word_ariths unat_drop_bit_3 mult.commute)
qed

lemma unat_u64_less: "unat (w :: u64) < 2 ^ 64"
  using unsigned_less [of w] by simp

lemma unat_u32_less: "unat (w :: u32) < 2 ^ 32"
  using unsigned_less [of w] by simp

lemma less_8_Suc_div: "(x :: nat) < 8 * Suc (x div 8)"
  by presburger

lemma unat_word_of_nat: "n < 2 ^ LENGTH('a) \<Longrightarrow> unat (word_of_nat n :: 'a::len word) = n"
  by (simp add: unat_of_nat)

lemma unat_ucast_u64 [simp]: "unat (ucast (n :: u32) :: u64) = unat n"
proof -
  have "unat n < 2 ^ 32" using unsigned_less [of n] by simp
  then show ?thesis by (simp add: unsigned_ucast_eq take_bit_nat_eq_self)
qed

lemma unat_drop_bit: "unat (drop_bit k (w :: 'a::len word)) = unat w div 2 ^ k"
  using unat_drop_bit_eq [of k w] by (simp only: drop_bit_nat_def)

lemma unat_push_bit:
  assumes "unat w * 2 ^ k < 2 ^ 64"
  shows "unat (push_bit k (w :: u64)) = unat w * 2 ^ k"
proof (cases "k < 64")
  case True
  then have "(2::nat) ^ k < 2 ^ 64" by (intro power_strict_increasing) auto
  then have "unat (2 ^ k :: u64) = 2 ^ k" using unat_word_of_nat [where 'a = 64, of "2 ^ k"] by simp
  with assms show ?thesis by (simp add: push_bit_eq_mult unat_word_ariths)
next
  case False
  then have "(2::nat) ^ 64 \<le> 2 ^ k" by (intro power_increasing) auto
  with assms have "unat w = 0" by (metis less_le_trans mult_le_mono1 nat_mult_1 neq0_conv not_less Suc_leI One_nat_def)
  then have "w = 0" by (simp add: unat_eq_0)
  then show ?thesis by simp
qed

lemma unat_ucast_32: "unat (ucast (w :: u64) :: u32) = unat w mod 2 ^ 32"
  by (simp add: unsigned_ucast_eq take_bit_eq_mod)

lemma sint_small:
  assumes "unat (num :: u32) < 2 ^ 31"
  shows "sint num = int (unat num)"
proof -
  have "uint num < 2 ^ 31" using assms by (metis of_nat_less_iff of_nat_numeral of_nat_power uint_nat)
  then have "signed_take_bit 31 (uint num) = uint num"
    using uint_ge_0 [of num] by (intro signed_take_bit_int_eq_self) linarith+
  then show ?thesis by (simp add: sint_uint)
qed

lemma sint_bounds:
  assumes "0 < (num :: u32)" "unat num < 2 ^ 31"
  shows "0 < sint num" "sint num < 2 ^ 31" "nat (sint num) = unat num" "0 < unat num"
proof -
  show 0: "0 < unat num" using assms(1) by (simp add: word_less_nat_alt)
  have "int (unat num) < int (2 ^ 31)" using assms(2) by (simp only: of_nat_less_iff)
  with 0 show "0 < sint num" "sint num < 2 ^ 31" "nat (sint num) = unat num"
    unfolding sint_small [OF assms(2)] by (simp_all only: of_nat_0_less_iff nat_int of_nat_power of_nat_numeral)
qed

section \<open>Byte arrays as bit sequences\<close>

definition bit_at :: "u8 list \<Rightarrow> nat \<Rightarrow> bool" where
  "bit_at bs n \<longleftrightarrow> n div 8 < length bs \<and> bit (bs ! (n div 8)) (n mod 8)"

lemma bit_at_beyond: "8 * length bs \<le> n \<Longrightarrow> \<not> bit_at bs n"
  unfolding bit_at_def by linarith

lemma div_mod_8_eq_iff: "(m div 8 = n div 8 \<and> m mod 8 = n mod 8) \<longleftrightarrow> m = (n::nat)"
  by (metis div_mult_mod_eq)

lemma bit_exp_u8 [simp]: "bit ((2::u8) ^ k) j \<longleftrightarrow> j = k \<and> k < 8"
  by (auto simp: bit_exp_iff)

lemma bit_at_list_update:
  assumes "i < length bs"
  shows "bit_at (bs[i := v]) n = (if n div 8 = i then bit v (n mod 8) else bit_at bs n)"
  using assms by (auto simp: bit_at_def)

lemma bit_at_or:
  assumes "n div 8 < length bs"
  shows "bit_at (bs[n div 8 := bs ! (n div 8) OR push_bit (n mod 8) 1]) m \<longleftrightarrow> m = n \<or> bit_at bs m"
  using assms div_mod_8_eq_iff [of m n]
  by (auto simp: bit_at_list_update bit_or_iff) (auto simp: bit_at_def)

lemma bit_at_and_not:
  assumes "n div 8 < length bs"
  shows "bit_at (bs[n div 8 := bs ! (n div 8) AND NOT (push_bit (n mod 8) 1)]) m
    \<longleftrightarrow> m \<noteq> n \<and> bit_at bs m"
  using assms div_mod_8_eq_iff [of m n]
  by (auto simp: bit_at_list_update bit_and_iff bit_not_iff) (auto simp: bit_at_def)

lemma u8_eq_iff: "(a :: u8) = b \<longleftrightarrow> (\<forall>n<8. bit a n = bit b n)"
  by (auto intro: bit_word_eqI)

lemma and_push_bit_eq_0_iff:
  "k < 8 \<Longrightarrow> push_bit k 1 AND (b :: u8) = 0 \<longleftrightarrow> \<not> bit b k"
  by (auto simp: u8_eq_iff bit_and_iff)

lemma bit_at_append:
  "bit_at (xs @ ys) n = (if n < 8 * length xs then bit_at xs n else bit_at ys (n - 8 * length xs))"
proof (cases "n < 8 * length xs")
  case True
  then have "n div 8 < length xs" by linarith
  with True show ?thesis by (simp add: bit_at_def nth_append)
next
  case False
  then obtain k where "n = 8 * length xs + k"
    using le_Suc_ex not_less by blast
  then show ?thesis by (simp add: bit_at_def nth_append)
qed

lemma bit_at_replicate_0 [simp]: "\<not> bit_at (replicate k 0) n"
  by (simp add: bit_at_def)

lemma bit_at_Nil [simp]: "\<not> bit_at [] n"
  by (simp add: bit_at_def)

lemma byte_zero_iff: "(b :: u8) = 0 \<longleftrightarrow> (\<forall>k<8. \<not> bit b k)"
  by (auto simp: bit_eq_iff dest: bit_imp_le_length)

lemma byte_ones_iff: "(b :: u8) = 0xff \<longleftrightarrow> (\<forall>k<8. bit b k)"
proof -
  have "(0xff :: u8) = - 1"
    by simp
  then show ?thesis
    by (auto simp: bit_eq_iff dest: bit_imp_le_length)
qed

text \<open>\<open>memset\<close> and \<open>memcpy\<close> into a byte array at an offset.\<close>

definition memset :: "u8 list \<Rightarrow> nat \<Rightarrow> u8 \<Rightarrow> nat \<Rightarrow> u8 list" where
  "memset bs off v n = take off bs @ replicate n v @ drop (off + n) bs"

definition memcpy :: "u8 list \<Rightarrow> nat \<Rightarrow> u8 list \<Rightarrow> nat \<Rightarrow> u8 list" where
  "memcpy dest off src n = take off dest @ take n src @ drop (off + n) dest"

lemma length_memset [simp]: "off + n \<le> length bs \<Longrightarrow> length (memset bs off v n) = length bs"
  by (simp add: memset_def)

lemma length_memcpy [simp]:
  "off + n \<le> length dest \<Longrightarrow> n \<le> length src \<Longrightarrow> length (memcpy dest off src n) = length dest"
  by (simp add: memcpy_def)

lemma nth_memset:
  "off + n \<le> length bs \<Longrightarrow> i < length bs \<Longrightarrow>
   memset bs off v n ! i = (if off \<le> i \<and> i < off + n then v else bs ! i)"
  by (auto simp: memset_def nth_append min_def)

lemma nth_memcpy:
  "off + n \<le> length dest \<Longrightarrow> n \<le> length src \<Longrightarrow> i < length dest \<Longrightarrow>
   memcpy dest off src n ! i = (if off \<le> i \<and> i < off + n then src ! (i - off) else dest ! i)"
  by (auto simp: memcpy_def nth_append min_def)

lemma bit_at_memset:
  assumes "off + n \<le> length bs"
  shows "bit_at (memset bs off v n) m =
    (if off \<le> m div 8 \<and> m div 8 < off + n then bit v (m mod 8) else bit_at bs m)"
  using assms by (auto simp: bit_at_def nth_memset)

lemma sub_div_mod_8: "off \<le> m div 8 \<Longrightarrow> (m - 8 * off) div 8 = m div 8 - off \<and> (m - 8 * off) mod 8 = (m::nat) mod 8"
proof -
  assume "off \<le> m div 8"
  then have "m = 8 * off + (m - 8 * off)" by linarith
  then obtain k where "m = 8 * off + k" by blast
  then show ?thesis by simp
qed

lemma bit_at_memcpy:
  assumes "off + n \<le> length dest" "n \<le> length src"
  shows "bit_at (memcpy dest off src n) m =
    (if off \<le> m div 8 \<and> m div 8 < off + n then bit_at src (m - 8 * off) else bit_at dest m)"
proof (cases "off \<le> m div 8 \<and> m div 8 < off + n")
  case True
  then have "m div 8 < length dest" "m div 8 - off < length src" using assms by linarith+
  with True assms sub_div_mod_8 [of off m] show ?thesis by (simp add: bit_at_def nth_memcpy)
next
  case False
  then show ?thesis using assms by (auto simp: bit_at_def nth_memcpy)
qed

end
