(* ===== verification/Ext2_Err.thy ===== *)
theory Ext2_Err
  imports Prelude
begin

text \<open>
  The error codes of \<open>lib/ext2fs/ext2_err.h\<close> that the components return or
  compare with, by their names there. The magic numbers of the structures are
  error codes too.
\<close>

abbreviation EXT2_ET_MAGIC_EXT2FS_FILSYS :: errcode where "EXT2_ET_MAGIC_EXT2FS_FILSYS \<equiv> 2133571329"
abbreviation EXT2_ET_MAGIC_BADBLOCKS_LIST :: errcode where "EXT2_ET_MAGIC_BADBLOCKS_LIST \<equiv> 2133571330"
abbreviation EXT2_ET_MAGIC_BADBLOCKS_ITERATE :: errcode where "EXT2_ET_MAGIC_BADBLOCKS_ITERATE \<equiv> 2133571331"
abbreviation EXT2_ET_MAGIC_BLOCK_BITMAP :: errcode where "EXT2_ET_MAGIC_BLOCK_BITMAP \<equiv> 2133571336"
abbreviation EXT2_ET_MAGIC_INODE_BITMAP :: errcode where "EXT2_ET_MAGIC_INODE_BITMAP \<equiv> 2133571337"
abbreviation EXT2_ET_MAGIC_GENERIC_BITMAP :: errcode where "EXT2_ET_MAGIC_GENERIC_BITMAP \<equiv> 2133571338"
abbreviation EXT2_ET_MAGIC_ICOUNT :: errcode where "EXT2_ET_MAGIC_ICOUNT \<equiv> 2133571341"
abbreviation EXT2_ET_DIR_CORRUPTED :: errcode where "EXT2_ET_DIR_CORRUPTED \<equiv> 2133571363"
abbreviation EXT2_ET_NO_INODE_BITMAP :: errcode where "EXT2_ET_NO_INODE_BITMAP \<equiv> 2133571367"
abbreviation EXT2_ET_NO_BLOCK_BITMAP :: errcode where "EXT2_ET_NO_BLOCK_BITMAP \<equiv> 2133571368"
abbreviation EXT2_ET_BAD_BLOCK_MARK :: errcode where "EXT2_ET_BAD_BLOCK_MARK \<equiv> 2133571373"
abbreviation EXT2_ET_BAD_INODE_MARK :: errcode where "EXT2_ET_BAD_INODE_MARK \<equiv> 2133571376"
abbreviation EXT2_ET_FUDGE_BLOCK_BITMAP_END :: errcode where "EXT2_ET_FUDGE_BLOCK_BITMAP_END \<equiv> 2133571379"
abbreviation EXT2_ET_FUDGE_INODE_BITMAP_END :: errcode where "EXT2_ET_FUDGE_INODE_BITMAP_END \<equiv> 2133571380"
abbreviation EXT2_ET_NEQ_BLOCK_BITMAP :: errcode where "EXT2_ET_NEQ_BLOCK_BITMAP \<equiv> 2133571384"
abbreviation EXT2_ET_NEQ_INODE_BITMAP :: errcode where "EXT2_ET_NEQ_INODE_BITMAP \<equiv> 2133571385"
abbreviation EXT2_ET_BAD_GENERIC_MARK :: errcode where "EXT2_ET_BAD_GENERIC_MARK \<equiv> 2133571389"
abbreviation EXT2_ET_INVALID_ARGUMENT :: errcode where "EXT2_ET_INVALID_ARGUMENT \<equiv> 2133571399"
abbreviation EXT2_ET_BLOCK_ALLOC_FAIL :: errcode where "EXT2_ET_BLOCK_ALLOC_FAIL \<equiv> 2133571400"
abbreviation EXT2_ET_INODE_ALLOC_FAIL :: errcode where "EXT2_ET_INODE_ALLOC_FAIL \<equiv> 2133571401"
abbreviation EXT2_ET_DB_NOT_FOUND :: errcode where "EXT2_ET_DB_NOT_FOUND \<equiv> 2133571406"
abbreviation EXT2_ET_FILE_TOO_BIG :: errcode where "EXT2_ET_FILE_TOO_BIG \<equiv> 2133571410"
abbreviation EXT2_ET_MAGIC_GENERIC_BITMAP64 :: errcode where "EXT2_ET_MAGIC_GENERIC_BITMAP64 \<equiv> 2133571437"
abbreviation EXT2_ET_MAGIC_BLOCK_BITMAP64 :: errcode where "EXT2_ET_MAGIC_BLOCK_BITMAP64 \<equiv> 2133571438"
abbreviation EXT2_ET_MAGIC_INODE_BITMAP64 :: errcode where "EXT2_ET_MAGIC_INODE_BITMAP64 \<equiv> 2133571439"
abbreviation EXT2_ET_CANT_USE_LEGACY_BITMAPS :: errcode where "EXT2_ET_CANT_USE_LEGACY_BITMAPS \<equiv> 2133571465"
abbreviation EXT2_ET_DIR_NO_SPACE_FOR_CSUM :: errcode where "EXT2_ET_DIR_NO_SPACE_FOR_CSUM \<equiv> 2133571477"
abbreviation EXT2_FILSYS_CORRUPTED :: errcode where "EXT2_FILSYS_CORRUPTED \<equiv> 2133571508"

end
