(* ===== verification/Rbtree.thy ===== *)
theory Rbtree
  imports Prelude
begin

text \<open>
  \<open>lib/ext2fs/rbtree.c\<close> and \<open>rbtree.h\<close>: the red-black tree that carries the
  extents of a sparse bitmap. The C nodes are linked by child and parent
  pointers. Here a tree is a value, and a pointer to a node is a zipper: the
  subtree rooted at the node and the list of the frames above it, innermost
  first. The parent chain of the C node is that list: the frame
  \<open>In_Left c x r\<close> says that the node is the \<open>rb_left\<close> child of a parent of
  colour \<open>c\<close> with contents \<open>x\<close> and right child \<open>r\<close>. A store through a
  pointer is a change of the zipper, and \<open>root->rb_node\<close> after the
  operation is the tree that \<open>plug\<close> rebuilds.

  The lemmas show that rebalancing keeps the in-order sequence, that \<open>next\<close>
  and \<open>prev\<close> walk that sequence, and that insertion and erasure keep the
  red-black invariants, hence the logarithmic height.
\<close>

datatype rb_color = RB_RED | RB_BLACK

datatype 'a rb_tree = Leaf | Node rb_color "'a rb_tree" 'a "'a rb_tree"

datatype 'a rb_frame =
    In_Left rb_color 'a "'a rb_tree"
  | In_Right rb_color "'a rb_tree" 'a

fun plug :: "'a rb_tree \<Rightarrow> 'a rb_frame list \<Rightarrow> 'a rb_tree" where
  "plug t [] = t"
| "plug t (In_Left c x r # ps) = plug (Node c t x r) ps"
| "plug t (In_Right c l x # ps) = plug (Node c l x t) ps"

section \<open>Accessors of \<open>rbtree.h\<close>\<close>

text \<open>A null child counts as black where the C code tests
  \<open>!node || ext2fs_rb_is_black(node)\<close>.\<close>

fun rb_left :: "'a rb_tree \<Rightarrow> 'a rb_tree" where
  "rb_left Leaf = Leaf"
| "rb_left (Node c l x r) = l"

fun rb_right :: "'a rb_tree \<Rightarrow> 'a rb_tree" where
  "rb_right Leaf = Leaf"
| "rb_right (Node c l x r) = r"

fun ext2fs_rb_is_red :: "'a rb_tree \<Rightarrow> bool" where
  "ext2fs_rb_is_red (Node RB_RED l x r) = True"
| "ext2fs_rb_is_red _ = False"

fun ext2fs_rb_set_color :: "'a rb_tree \<Rightarrow> rb_color \<Rightarrow> 'a rb_tree" where
  "ext2fs_rb_set_color Leaf c = Leaf"
| "ext2fs_rb_set_color (Node _ l x r) c = Node c l x r"

abbreviation ext2fs_rb_set_black :: "'a rb_tree \<Rightarrow> 'a rb_tree" where
  "ext2fs_rb_set_black t \<equiv> ext2fs_rb_set_color t RB_BLACK"

abbreviation ext2fs_rb_set_red :: "'a rb_tree \<Rightarrow> 'a rb_tree" where
  "ext2fs_rb_set_red t \<equiv> ext2fs_rb_set_color t RB_RED"

definition ext2fs_rb_empty_root :: "'a rb_tree \<Rightarrow> bool" where
  "ext2fs_rb_empty_root root \<longleftrightarrow> root = Leaf"

text \<open>\<open>ext2fs_rb_link_node\<close> stores the parent pointer with the colour bit
  clear, which is red, and null children.\<close>

definition ext2fs_rb_link_node :: "'a \<Rightarrow> 'a rb_tree" where
  "ext2fs_rb_link_node node = Node RB_RED Leaf node Leaf"

section \<open>Rotations and insertion\<close>

fun rb_rotate_left :: "'a rb_tree \<Rightarrow> 'a rb_tree" where
  "rb_rotate_left (Node c a x (Node c' b y d)) = Node c' (Node c a x b) y d"
| "rb_rotate_left t = t"

fun rb_rotate_right :: "'a rb_tree \<Rightarrow> 'a rb_tree" where
  "rb_rotate_right (Node c (Node c' a x b) y d) = Node c' a x (Node c b y d)"
| "rb_rotate_right t = t"

text \<open>
  The loop of \<open>ext2fs_rb_insert_color\<close>. After the rotations of the last
  \<open>else\<close> branch the parent is black, so the loop condition fails on its
  next evaluation and the tree is complete. The root is black, so a red
  parent has a grandparent.
\<close>

fun rb_insert_color_loop :: "'a rb_tree \<Rightarrow> 'a rb_frame list \<Rightarrow> 'a rb_tree" where
  "rb_insert_color_loop node (In_Left RB_RED px pr # In_Left gc gx uncle # ps) =
     (if ext2fs_rb_is_red uncle
      then rb_insert_color_loop
             (Node RB_RED (ext2fs_rb_set_black (Node RB_RED node px pr)) gx
                (ext2fs_rb_set_black uncle)) ps
      else let parent = Node RB_RED node px pr
           in plug (rb_rotate_right (Node RB_RED (ext2fs_rb_set_black parent) gx uncle)) ps)"
| "rb_insert_color_loop node (In_Right RB_RED pl px # In_Left gc gx uncle # ps) =
     (if ext2fs_rb_is_red uncle
      then rb_insert_color_loop
             (Node RB_RED (ext2fs_rb_set_black (Node RB_RED pl px node)) gx
                (ext2fs_rb_set_black uncle)) ps
      else let parent = rb_rotate_left (Node RB_RED pl px node)
           in plug (rb_rotate_right (Node RB_RED (ext2fs_rb_set_black parent) gx uncle)) ps)"
| "rb_insert_color_loop node (In_Right RB_RED pl px # In_Right gc uncle gx # ps) =
     (if ext2fs_rb_is_red uncle
      then rb_insert_color_loop
             (Node RB_RED (ext2fs_rb_set_black uncle) gx
                (ext2fs_rb_set_black (Node RB_RED pl px node))) ps
      else let parent = Node RB_RED pl px node
           in plug (rb_rotate_left (Node RB_RED uncle gx (ext2fs_rb_set_black parent))) ps)"
| "rb_insert_color_loop node (In_Left RB_RED px pr # In_Right gc uncle gx # ps) =
     (if ext2fs_rb_is_red uncle
      then rb_insert_color_loop
             (Node RB_RED (ext2fs_rb_set_black uncle) gx
                (ext2fs_rb_set_black (Node RB_RED node px pr))) ps
      else let parent = rb_rotate_right (Node RB_RED node px pr)
           in plug (rb_rotate_left (Node RB_RED uncle gx (ext2fs_rb_set_black parent))) ps)"
| "rb_insert_color_loop node ps = plug node ps"

definition ext2fs_rb_insert_color :: "'a rb_tree \<Rightarrow> 'a rb_frame list \<Rightarrow> 'a rb_tree" where
  "ext2fs_rb_insert_color node ps = ext2fs_rb_set_black (rb_insert_color_loop node ps)"

section \<open>Erasure\<close>

text \<open>
  The loop of \<open>__rb_erase_color\<close>: \<open>node\<close> (possibly null) stands below the
  frames and its subtree is one black node short. A red sibling is rotated up,
  which adds a frame; the next round then ends because the node that moves up
  is the red parent, so the measure counts two per frame and one for a black
  node.
\<close>

function rb_erase_color :: "'a rb_tree \<Rightarrow> 'a rb_frame list \<Rightarrow> 'a rb_tree" where
  "rb_erase_color node [] = ext2fs_rb_set_black node"
| "rb_erase_color node (In_Left pc px other # ps) =
     (if ext2fs_rb_is_red node then plug (ext2fs_rb_set_black node) (In_Left pc px other # ps)
      else
        (case (case other of
                 Node RB_RED ol ox orr \<Rightarrow> (RB_RED, ol, In_Left RB_BLACK ox orr # ps)
               | _ \<Rightarrow> (pc, other, ps))
         of (pc, other, ps) \<Rightarrow>
           if \<not> ext2fs_rb_is_red (rb_left other) \<and> \<not> ext2fs_rb_is_red (rb_right other)
           then rb_erase_color (Node pc node px (ext2fs_rb_set_red other)) ps
           else
             (case (if \<not> ext2fs_rb_is_red (rb_right other)
                    then (case other of Node c ol ox orr \<Rightarrow>
                            rb_rotate_right (Node RB_RED (ext2fs_rb_set_black ol) ox orr)
                          | Leaf \<Rightarrow> Leaf)
                    else other)
              of Node _ ol ox orr \<Rightarrow>
                   ext2fs_rb_set_black (plug
                     (rb_rotate_left (Node RB_BLACK node px (Node pc ol ox (ext2fs_rb_set_black orr)))) ps)
              | Leaf \<Rightarrow> plug (Node pc node px Leaf) ps)))"
| "rb_erase_color node (In_Right pc other px # ps) =
     (if ext2fs_rb_is_red node then plug (ext2fs_rb_set_black node) (In_Right pc other px # ps)
      else
        (case (case other of
                 Node RB_RED ol ox orr \<Rightarrow> (RB_RED, orr, In_Right RB_BLACK ol ox # ps)
               | _ \<Rightarrow> (pc, other, ps))
         of (pc, other, ps) \<Rightarrow>
           if \<not> ext2fs_rb_is_red (rb_left other) \<and> \<not> ext2fs_rb_is_red (rb_right other)
           then rb_erase_color (Node pc (ext2fs_rb_set_red other) px node) ps
           else
             (case (if \<not> ext2fs_rb_is_red (rb_left other)
                    then (case other of Node c ol ox orr \<Rightarrow>
                            rb_rotate_left (Node RB_RED ol ox (ext2fs_rb_set_black orr))
                          | Leaf \<Rightarrow> Leaf)
                    else other)
              of Node _ ol ox orr \<Rightarrow>
                   ext2fs_rb_set_black (plug
                     (rb_rotate_right (Node RB_BLACK (Node pc (ext2fs_rb_set_black ol) ox orr) px node)) ps)
              | Leaf \<Rightarrow> plug (Node pc Leaf px node) ps)))"
  by pat_completeness auto
termination
  by (relation "measure (\<lambda>(node, ps). 2 * length ps + (if ext2fs_rb_is_red node then 0 else 1))")
    (auto split: rb_tree.splits rb_color.splits)

declare rb_erase_color.simps(2,3) [simp del]

text \<open>The descent to the in-order successor, \<open>while ((left = node->rb_left)
  != NULL) node = left\<close>: the colour, contents and right child of the node it
  stops at and the frames passed.\<close>

fun rb_leftmost :: "rb_color \<Rightarrow> 'a rb_tree \<Rightarrow> 'a \<Rightarrow> 'a rb_tree \<Rightarrow> 'a rb_frame list \<Rightarrow>
    rb_color \<times> 'a \<times> 'a rb_tree \<times> 'a rb_frame list" where
  "rb_leftmost c Leaf x r ps = (c, x, r, ps)"
| "rb_leftmost c (Node c' l' x' r') x r ps = rb_leftmost c' l' x' r' (In_Left c x r # ps)"

text \<open>\<open>ext2fs_rb_erase\<close> on the node that the zipper points at.\<close>

fun ext2fs_rb_erase :: "'a rb_tree \<Rightarrow> 'a rb_frame list \<Rightarrow> 'a rb_tree" where
  "ext2fs_rb_erase Leaf ps = plug Leaf ps"
| "ext2fs_rb_erase (Node color Leaf old right) ps =
     (if color = RB_BLACK then rb_erase_color right ps else plug right ps)"
| "ext2fs_rb_erase (Node color left old Leaf) ps =
     (if color = RB_BLACK then rb_erase_color left ps else plug left ps)"
| "ext2fs_rb_erase (Node old_color left old (Node c l x r)) ps =
     (case rb_leftmost c l x r [] of (color, node, child, qs) \<Rightarrow>
        let parent = qs @ In_Right old_color left node # ps
        in if color = RB_BLACK then rb_erase_color child parent else plug child parent)"

section \<open>Traversal\<close>

fun ext2fs_rb_first :: "'a rb_tree \<Rightarrow> 'a option" where
  "ext2fs_rb_first Leaf = None"
| "ext2fs_rb_first (Node c l x r) =
     (case ext2fs_rb_first l of None \<Rightarrow> Some x | Some y \<Rightarrow> Some y)"

fun ext2fs_rb_last :: "'a rb_tree \<Rightarrow> 'a option" where
  "ext2fs_rb_last Leaf = None"
| "ext2fs_rb_last (Node c l x r) =
     (case ext2fs_rb_last r of None \<Rightarrow> Some x | Some y \<Rightarrow> Some y)"

fun rb_up_next :: "'a rb_frame list \<Rightarrow> 'a option" where
  "rb_up_next [] = None"
| "rb_up_next (In_Right c l x # ps) = rb_up_next ps"
| "rb_up_next (In_Left c x r # ps) = Some x"

definition ext2fs_rb_next :: "'a rb_tree \<Rightarrow> 'a rb_frame list \<Rightarrow> 'a option" where
  "ext2fs_rb_next node ps =
     (case ext2fs_rb_first (rb_right node) of
        Some y \<Rightarrow> Some y
      | None \<Rightarrow> rb_up_next ps)"

fun rb_up_prev :: "'a rb_frame list \<Rightarrow> 'a option" where
  "rb_up_prev [] = None"
| "rb_up_prev (In_Left c x r # ps) = rb_up_prev ps"
| "rb_up_prev (In_Right c l x # ps) = Some x"

definition ext2fs_rb_prev :: "'a rb_tree \<Rightarrow> 'a rb_frame list \<Rightarrow> 'a option" where
  "ext2fs_rb_prev node ps =
     (case ext2fs_rb_last (rb_left node) of
        Some y \<Rightarrow> Some y
      | None \<Rightarrow> rb_up_prev ps)"

text \<open>\<open>ext2fs_rb_replace_node\<close>: the new node takes the victim's links and
  colour.\<close>

fun ext2fs_rb_replace_node :: "'a rb_tree \<Rightarrow> 'a \<Rightarrow> 'a rb_frame list \<Rightarrow> 'a rb_tree" where
  "ext2fs_rb_replace_node Leaf new ps = plug Leaf ps"
| "ext2fs_rb_replace_node (Node c l victim r) new ps = plug (Node c l new r) ps"

text \<open>A node pointer is turned into its zipper by looking for the node in
  the tree; \<open>P\<close> is equality with the pointer.\<close>

fun rb_locate :: "('a \<Rightarrow> bool) \<Rightarrow> 'a rb_tree \<Rightarrow> 'a rb_frame list \<Rightarrow>
    ('a rb_tree \<times> 'a rb_frame list) option" where
  "rb_locate P Leaf ps = None"
| "rb_locate P (Node c l x r) ps =
     (if P x then Some (Node c l x r, ps)
      else case rb_locate P l (In_Left c x r # ps) of
             Some z \<Rightarrow> Some z
           | None \<Rightarrow> rb_locate P r (In_Right c l x # ps))"

section \<open>The in-order sequence\<close>

fun inorder :: "'a rb_tree \<Rightarrow> 'a list" where
  "inorder Leaf = []"
| "inorder (Node c l x r) = inorder l @ x # inorder r"

text \<open>What stands before and after the hole of a list of frames.\<close>

fun before :: "'a rb_frame list \<Rightarrow> 'a list" where
  "before [] = []"
| "before (In_Left c x r # ps) = before ps"
| "before (In_Right c l x # ps) = before ps @ inorder l @ [x]"

fun after :: "'a rb_frame list \<Rightarrow> 'a list" where
  "after [] = []"
| "after (In_Left c x r # ps) = x # inorder r @ after ps"
| "after (In_Right c l x # ps) = after ps"

lemma inorder_plug [simp]: "inorder (plug t ps) = before ps @ inorder t @ after ps"
  by (induction t ps rule: plug.induct) auto

lemma before_append [simp]: "before (ps @ qs) = before qs @ before ps"
  by (induction ps rule: before.induct) auto

lemma after_append [simp]: "after (ps @ qs) = after ps @ after qs"
  by (induction ps rule: after.induct) auto

lemma inorder_set_color [simp]: "inorder (ext2fs_rb_set_color t c) = inorder t"
  by (cases t) auto

lemma inorder_rotate [simp]:
  "inorder (rb_rotate_left t) = inorder t" "inorder (rb_rotate_right t) = inorder t"
  by (induction t rule: rb_rotate_left.induct; simp)
    (induction t rule: rb_rotate_right.induct; simp)

lemma inorder_insert_color_loop:
  "inorder (rb_insert_color_loop t ps) = before ps @ inorder t @ after ps"
  by (induction t ps rule: rb_insert_color_loop.induct) (auto simp: Let_def)

lemma inorder_insert_color:
  "inorder (ext2fs_rb_insert_color t ps) = before ps @ inorder t @ after ps"
  by (simp add: ext2fs_rb_insert_color_def inorder_insert_color_loop)

lemma rb_is_red_iff: "ext2fs_rb_is_red t \<longleftrightarrow> (\<exists>l x r. t = Node RB_RED l x r)"
  by (cases t rule: ext2fs_rb_is_red.cases) auto

lemma inorder_erase_color:
  "inorder (rb_erase_color t ps) = before ps @ inorder t @ after ps"
  by (induction t ps rule: rb_erase_color.induct)
    (auto simp: rb_erase_color.simps rb_is_red_iff split: rb_tree.splits rb_color.splits)

lemma inorder_leftmost:
  assumes "rb_leftmost c l x r ps = (c', y, child, qs)"
  shows "before ps @ inorder (Node c l x r) @ after ps = before qs @ y # inorder child @ after qs"
    and "before qs = before ps"
  using assms by (induction c l x r ps rule: rb_leftmost.induct) auto

lemma inorder_erase:
  "inorder (ext2fs_rb_erase (Node c l x r) ps) = before ps @ inorder l @ inorder r @ after ps"
proof (cases "l = Leaf \<or> r = Leaf")
  case True
  then show ?thesis by (cases l; cases r) (auto simp: inorder_erase_color)
next
  case False
  then obtain c' l' x' r' where r: "r = Node c' l' x' r'" by (cases r) auto
  from False have l: "l \<noteq> Leaf" by simp
  obtain cc y child qs where lm: "rb_leftmost c' l' x' r' [] = (cc, y, child, qs)"
    by (cases "rb_leftmost c' l' x' r' []") auto
  from inorder_leftmost [OF lm] have "inorder r = y # inorder child @ after qs" "before qs = []"
    by (auto simp: r)
  with lm l show ?thesis
    by (cases l) (auto simp: r inorder_erase_color Let_def)
qed

section \<open>Traversal follows the in-order sequence\<close>

lemma rb_first_inorder:
  "ext2fs_rb_first t = (case inorder t of [] \<Rightarrow> None | x # _ \<Rightarrow> Some x)"
  by (induction t) (auto split: list.splits)

lemma rb_last_inorder:
  "ext2fs_rb_last t = (if inorder t = [] then None else Some (last (inorder t)))"
  by (induction t) auto

lemma rb_up_next_after: "rb_up_next ps = (case after ps of [] \<Rightarrow> None | x # _ \<Rightarrow> Some x)"
  by (induction ps rule: rb_up_next.induct) auto

lemma rb_up_prev_before:
  "rb_up_prev ps = (if before ps = [] then None else Some (last (before ps)))"
  by (induction ps rule: rb_up_prev.induct) auto

lemma rb_next_inorder:
  "ext2fs_rb_next (Node c l x r) ps =
     (case inorder r @ after ps of [] \<Rightarrow> None | y # _ \<Rightarrow> Some y)"
  by (auto simp: ext2fs_rb_next_def rb_first_inorder rb_up_next_after split: list.splits)

lemma rb_prev_inorder:
  "ext2fs_rb_prev (Node c l x r) ps =
     (if before ps @ inorder l = [] then None else Some (last (before ps @ inorder l)))"
  by (auto simp: ext2fs_rb_prev_def rb_last_inorder rb_up_prev_before)

lemma rb_locate_Some:
  assumes "rb_locate P t ps = Some (n, qs)"
  shows "\<exists>c l x r. n = Node c l x r \<and> P x \<and> plug n qs = plug t ps"
  using assms by (induction P t ps arbitrary: n qs rule: rb_locate.induct)
    (force split: if_splits option.splits)+

lemma rb_locate_None: "rb_locate P t ps = None \<longleftrightarrow> (\<forall>x\<in>set (inorder t). \<not> P x)"
  by (induction P t ps rule: rb_locate.induct) (auto split: option.splits)

lemma before_plug_locate:
  assumes "rb_locate P t ps = Some (n, qs)"
  shows "before qs @ inorder n @ after qs = before ps @ inorder t @ after ps"
proof -
  from rb_locate_Some [OF assms] have "plug n qs = plug t ps" by blast
  then have "inorder (plug n qs) = inorder (plug t ps)" by (rule arg_cong)
  then show ?thesis by simp
qed

section \<open>Red-black invariants\<close>

fun rb_colour :: "'a rb_tree \<Rightarrow> rb_color" where
  "rb_colour Leaf = RB_BLACK"
| "rb_colour (Node c l x r) = c"

fun bheight :: "'a rb_tree \<Rightarrow> nat" where
  "bheight Leaf = 0"
| "bheight (Node c l x r) = (if c = RB_BLACK then Suc (bheight l) else bheight l)"

fun invc :: "'a rb_tree \<Rightarrow> bool" where
  "invc Leaf = True"
| "invc (Node c l x r) \<longleftrightarrow>
     (c = RB_RED \<longrightarrow> rb_colour l = RB_BLACK \<and> rb_colour r = RB_BLACK) \<and> invc l \<and> invc r"

fun invh :: "'a rb_tree \<Rightarrow> bool" where
  "invh Leaf = True"
| "invh (Node c l x r) \<longleftrightarrow> bheight l = bheight r \<and> invh l \<and> invh r"

definition rb_tree_inv :: "'a rb_tree \<Rightarrow> bool" where
  "rb_tree_inv t \<longleftrightarrow> invc t \<and> invh t \<and> rb_colour t = RB_BLACK"

text \<open>The same for the frames above a hole of black height \<open>h\<close>. There is no
  node above the root, and the root is not red, so the colour above the
  outermost frame is red.\<close>

fun pcolour :: "'a rb_frame list \<Rightarrow> rb_color" where
  "pcolour [] = RB_RED"
| "pcolour (In_Left c x r # ps) = c"
| "pcolour (In_Right c l x # ps) = c"

fun path_inv :: "'a rb_frame list \<Rightarrow> nat \<Rightarrow> bool" where
  "path_inv [] h = True"
| "path_inv (In_Left c x r # ps) h \<longleftrightarrow>
     invc r \<and> invh r \<and> bheight r = h \<and>
     (c = RB_RED \<longrightarrow> rb_colour r = RB_BLACK \<and> pcolour ps = RB_BLACK) \<and>
     path_inv ps (if c = RB_BLACK then Suc h else h)"
| "path_inv (In_Right c l x # ps) h \<longleftrightarrow>
     invc l \<and> invh l \<and> bheight l = h \<and>
     (c = RB_RED \<longrightarrow> rb_colour l = RB_BLACK \<and> pcolour ps = RB_BLACK) \<and>
     path_inv ps (if c = RB_BLACK then Suc h else h)"

lemma not_rb_colour [simp]: "c \<noteq> RB_BLACK \<longleftrightarrow> c = RB_RED" "c \<noteq> RB_RED \<longleftrightarrow> c = RB_BLACK"
  by (cases c; simp)+

lemma rb_is_red_colour: "ext2fs_rb_is_red t \<longleftrightarrow> rb_colour t = RB_RED"
  by (cases t rule: ext2fs_rb_is_red.cases) auto

lemma rb_colour_REDE:
  assumes "rb_colour t = RB_RED"
  obtains l x r where "t = Node RB_RED l x r"
  using assms by (cases t) auto

lemma rb_tree_inv_plug:
  "rb_tree_inv (plug t ps) \<longleftrightarrow>
     invc t \<and> invh t \<and> path_inv ps (bheight t) \<and> (rb_colour t = RB_RED \<longrightarrow> pcolour ps = RB_BLACK)"
  by (induction t ps rule: plug.induct) (auto simp: rb_tree_inv_def)

lemma rb_tree_inv_set_black: "rb_tree_inv t \<Longrightarrow> rb_tree_inv (ext2fs_rb_set_black t)"
  by (cases t) (auto simp: rb_tree_inv_def)

lemma rb_tree_inv_set_blackI:
  "invc t \<Longrightarrow> invh t \<Longrightarrow> rb_tree_inv (ext2fs_rb_set_black t)"
  by (cases t) (auto simp: rb_tree_inv_def)

lemma insert_color_stop:
  assumes "invc t" "invh t" "path_inv ps (bheight t)" "ps = [] \<or> pcolour ps = RB_BLACK"
  shows "rb_tree_inv (ext2fs_rb_set_black (plug t ps))"
proof (cases "ps = []")
  case True
  with assms show ?thesis by (simp add: rb_tree_inv_set_blackI)
next
  case False
  with assms have "rb_tree_inv (plug t ps)" by (simp add: rb_tree_inv_plug)
  then show ?thesis by (rule rb_tree_inv_set_black)
qed

lemma path_inv_single: "path_inv [v] h \<Longrightarrow> pcolour [v] = RB_BLACK"
  by (cases v) auto

lemma insert_color_loop_inv:
  "rb_colour t = RB_RED \<Longrightarrow> invc t \<Longrightarrow> invh t \<Longrightarrow> path_inv ps (bheight t) \<Longrightarrow>
   rb_tree_inv (ext2fs_rb_set_black (rb_insert_color_loop t ps))"
  by (induction t ps rule: rb_insert_color_loop.induct)
    (((auto simp: Let_def rb_is_red_colour rb_tree_inv_plug
        elim!: rb_colour_REDE intro: rb_tree_inv_set_black)[1]; fail)
     | (auto simp del: plug.simps path_inv.simps simp: rb_insert_color_loop.simps(5-)
        intro!: insert_color_stop intro: path_inv_single))+

lemma insert_color_inv:
  assumes "rb_tree_inv (plug Leaf ps)"
  shows "rb_tree_inv (ext2fs_rb_insert_color (ext2fs_rb_link_node x) ps)"
  using assms insert_color_loop_inv [of "ext2fs_rb_link_node x" ps]
  by (simp add: ext2fs_rb_insert_color_def ext2fs_rb_link_node_def rb_tree_inv_plug)

lemma rb_rotate_eq_Leaf [simp]:
  "rb_rotate_left t = Leaf \<longleftrightarrow> t = Leaf" "rb_rotate_right t = Leaf \<longleftrightarrow> t = Leaf"
  by (cases t rule: rb_rotate_left.cases; simp) (cases t rule: rb_rotate_right.cases; simp)

lemma rb_erase_color_red [simp]:
  "rb_erase_color (Node RB_RED l x r) ps = plug (Node RB_BLACK l x r) ps"
  by (cases ps rule: pcolour.cases) (auto simp: rb_erase_color.simps)

lemma erase_color_inv:
  "invc t \<Longrightarrow> invh t \<Longrightarrow> path_inv ps (Suc (bheight t)) \<Longrightarrow> rb_tree_inv (rb_erase_color t ps)"
proof (induction t ps rule: rb_erase_color.induct)
  case (1 node)
  then show ?case by (simp add: rb_tree_inv_set_blackI)
next
  case (2 node pc px other ps)
  then show ?case
    by (cases "rb_colour node"; cases pc; cases other; cases "rb_colour other")
      (auto simp: rb_erase_color.simps(2) rb_is_red_colour rb_tree_inv_plug
        split: rb_tree.splits elim!: rb_colour_REDE intro!: rb_tree_inv_set_black)
next
  case (3 node pc other px ps)
  then show ?case
    by (cases "rb_colour node"; cases pc; cases other; cases "rb_colour other")
      (auto simp: rb_erase_color.simps(3) rb_is_red_colour rb_tree_inv_plug
        split: rb_tree.splits elim!: rb_colour_REDE intro!: rb_tree_inv_set_black)
qed

lemma leftmost_inv:
  assumes "rb_leftmost c l x r ps = (c', y, child, qs)"
    and "invc (Node c l x r)" "invh (Node c l x r)" "path_inv ps (bheight (Node c l x r))"
    and "c = RB_RED \<longrightarrow> pcolour ps = RB_BLACK"
  shows "invc child \<and> invh child \<and> bheight child = 0 \<and>
    path_inv qs (if c' = RB_BLACK then 1 else 0) \<and>
    (c' = RB_RED \<longrightarrow> child = Leaf)"
  using assms
proof (induction c l x r ps rule: rb_leftmost.induct)
  case (1 c x r ps)
  then show ?case by (cases r) auto
next
  case (2 c c'' l' x' r' x r ps)
  then show ?case by (cases c; cases c'') auto
qed

lemma leftmost_append:
  "rb_leftmost c l x r ps = (c', y, child, qs) \<Longrightarrow>
   rb_leftmost c l x r (ps @ ps') = (c', y, child, qs @ ps')"
  by (induction c l x r ps rule: rb_leftmost.induct) auto

lemma erase_node_inv:
  assumes "c = RB_BLACK \<longrightarrow> path_inv ps (Suc (bheight t))"
    and "c = RB_RED \<longrightarrow> path_inv ps (bheight t) \<and> rb_colour t = RB_BLACK"
    and "invc t" "invh t"
  shows "rb_tree_inv (if c = RB_BLACK then rb_erase_color t ps else plug t ps)"
  using assms by (auto simp: erase_color_inv rb_tree_inv_plug)

lemma erase_inv:
  assumes "rb_tree_inv (plug (Node c l x r) ps)"
  shows "rb_tree_inv (ext2fs_rb_erase (Node c l x r) ps)"
proof (cases "l = Leaf \<or> r = Leaf")
  case True
  then consider "l = Leaf" | lc ll lx lr where "l = Node lc ll lx lr" "r = Leaf"
    by (cases l) auto
  then show ?thesis
    using assms
    by cases (auto simp: rb_tree_inv_plug simp del: plug.simps intro!: erase_node_inv
        split del: if_split)
next
  case False
  then obtain rc rl rx rr lc ll lx lr where r: "r = Node rc rl rx rr" and l: "l = Node lc ll lx lr"
    by (cases l; cases r) auto
  obtain c' y child qs where lm: "rb_leftmost rc rl rx rr [] = (c', y, child, qs)"
    by (cases "rb_leftmost rc rl rx rr []") auto
  let ?ps = "In_Right c l y # ps"
  from assms have "path_inv ?ps (bheight r)" "invc r" "invh r" "rb_colour r = RB_RED \<longrightarrow> pcolour ?ps = RB_BLACK"
    by (auto simp: rb_tree_inv_plug)
  with leftmost_inv [OF leftmost_append [OF lm, of ?ps, simplified]]
  show ?thesis
    by (auto simp: l r lm Let_def simp del: plug.simps intro!: erase_node_inv
        split del: if_split)
qed

section \<open>Height\<close>

text \<open>The number of nodes a descent from the root passes.\<close>

fun rb_height :: "'a rb_tree \<Rightarrow> nat" where
  "rb_height Leaf = 0"
| "rb_height (Node c l x r) = Suc (max (rb_height l) (rb_height r))"

lemma rb_height_bheight:
  "invc t \<Longrightarrow> invh t \<Longrightarrow>
   rb_height t \<le> 2 * bheight t + (if rb_colour t = RB_RED then 1 else 0)"
  by (induction t) (auto split: if_splits)

lemma bheight_size: "invh t \<Longrightarrow> 2 ^ bheight t \<le> Suc (length (inorder t))"
  by (induction t) auto

lemma rb_height_log:
  assumes "rb_tree_inv t"
  shows "2 ^ (rb_height t div 2) \<le> Suc (length (inorder t))"
proof -
  from assms have "rb_height t \<le> 2 * bheight t"
    using rb_height_bheight [of t] by (simp add: rb_tree_inv_def)
  then have "rb_height t div 2 \<le> bheight t" by simp
  then have "(2::nat) ^ (rb_height t div 2) \<le> 2 ^ bheight t" by (rule power_increasing) simp
  also from assms have "\<dots> \<le> Suc (length (inorder t))"
    by (simp add: rb_tree_inv_def bheight_size)
  finally show ?thesis .
qed

end
