(* ===== verification/Bmap64.thy ===== *)
theory Bmap64
  imports Rbtree
begin

text \<open>
  \<open>lib/ext2fs/bmap64.h\<close> and the private structures of its two back ends: the
  64-bit generic bitmap, with the fields that decide its behaviour. The
  \<open>private\<close> pointer is a value of one of two forms, the bit array of
  \<open>blkmap64_ba.c\<close> or the extent tree of \<open>blkmap64_rb.c\<close>; the form is also
  what \<open>bitmap_ops\<close> points at. Bit numbers are absolute: bit \<open>bm_start\<close> is the
  first bit of the map, \<open>bm_end\<close> the last one in use and \<open>bm_real_end\<close> the last
  one for which there is room.

  The interface that the generic layer relies on is the locale
  \<open>bmap_backend\<close>: the set of marked bits after each operation, under an
  invariant that every operation keeps.
\<close>

section \<open>Data\<close>

text \<open>\<open>struct bmap_rb_extent\<close>. \<open>ext_node\<close> is the address of the extent: the
  cursors point at extents, and an extent keeps its address while its bounds
  change.\<close>

record bmap_rb_extent =
  ext_node :: nat
  ext_start :: u64
  ext_count :: u64

text \<open>\<open>struct ext2fs_rb_private\<close>. \<open>rb_brk\<close> is the allocator of the model: the
  next address that was never handed out.\<close>

record ext2fs_rb_private =
  rb_root :: "bmap_rb_extent rb_tree"
  wcursor :: "nat option"
  rcursor :: "nat option"
  rcursor_next :: "nat option"
  rb_brk :: nat

datatype bmap_private =
    BA_private "u8 list"
  | RB_private ext2fs_rb_private

record bmap64 =
  bm_magic :: errcode
  bm_start :: u64
  bm_end :: u64
  bm_real_end :: u64
  bm_cluster_bits :: nat
  bm_description :: "string option"
  bm_private :: bmap_private
  bm_base_error_code :: errcode

definition in_range :: "bmap64 \<Rightarrow> u64 \<Rightarrow> bool" where
  "in_range bm b \<longleftrightarrow> bm_start bm \<le> b \<and> b \<le> bm_real_end bm"

text \<open>The absolute bit numbers of the range \<open>arg\<close>, \<open>arg + 1\<close>, \dots of \<open>num\<close> bits.\<close>

definition bit_range :: "u64 \<Rightarrow> u32 \<Rightarrow> u64 set" where
  "bit_range arg num = {b. unat arg \<le> unat b \<and> unat b < unat arg + unat num}"

text \<open>What a range operation of the generic layer may be called with: the
  whole range lies in the map.\<close>

definition range_ok :: "bmap64 \<Rightarrow> u64 \<Rightarrow> u32 \<Rightarrow> bool" where
  "range_ok bm arg num \<longleftrightarrow>
     unat (bm_start bm) \<le> unat arg \<and> unat arg + unat num \<le> Suc (unat (bm_real_end bm))"

text \<open>The header fields, which no bit operation changes.\<close>

definition same_header :: "bmap64 \<Rightarrow> bmap64 \<Rightarrow> bool" where
  "same_header bm bm' \<longleftrightarrow> bm' = bm\<lparr>bm_private := bm_private bm'\<rparr>"

lemma same_headerD [simp]:
  assumes "same_header bm bm'"
  shows "bm_magic bm' = bm_magic bm" "bm_start bm' = bm_start bm" "bm_end bm' = bm_end bm"
    "bm_real_end bm' = bm_real_end bm" "bm_cluster_bits bm' = bm_cluster_bits bm"
    "bm_description bm' = bm_description bm" "bm_base_error_code bm' = bm_base_error_code bm"
proof -
  obtain p where "bm' = bm\<lparr>bm_private := p\<rparr>"
    using assms unfolding same_header_def by blast
  then show "bm_magic bm' = bm_magic bm" "bm_start bm' = bm_start bm" "bm_end bm' = bm_end bm"
    "bm_real_end bm' = bm_real_end bm" "bm_cluster_bits bm' = bm_cluster_bits bm"
    "bm_description bm' = bm_description bm" "bm_base_error_code bm' = bm_base_error_code bm"
    by simp_all
qed

lemma same_header_private [simp]: "same_header bm (bm\<lparr>bm_private := p\<rparr>)"
  by (simp add: same_header_def)

lemma same_header_refl [simp]: "same_header bm bm"
  by (simp add: same_header_def)

lemma same_header_trans: "same_header a b \<Longrightarrow> same_header b c \<Longrightarrow> same_header a c"
  unfolding same_header_def by (metis (no_types, lifting) bmap64.fold_congs(7) bmap64.surjective
      bmap64.update_convs(7))

section \<open>The table of operations\<close>

text \<open>
  \<open>struct ext2_bitmap_ops\<close>. An operation that allocates takes the outcome of the
  allocations of the call (\<open>mem i\<close> tells whether the \<open>i\<close>-th one succeeds) and the
  content of fresh memory. A search returns the error code or the bit found.
\<close>

record ext2_bitmap_ops =
  new_bmap :: "(nat \<Rightarrow> bool) \<Rightarrow> (nat \<Rightarrow> u8) \<Rightarrow> bmap64 \<Rightarrow> errcode \<times> bmap64"
  copy_bmap :: "(nat \<Rightarrow> bool) \<Rightarrow> (nat \<Rightarrow> u8) \<Rightarrow> bmap64 \<Rightarrow> bmap64 \<Rightarrow> errcode \<times> bmap64 \<times> bmap64"
  resize_bmap :: "(nat \<Rightarrow> bool) \<Rightarrow> (nat \<Rightarrow> u8) \<Rightarrow> bmap64 \<Rightarrow> u64 \<Rightarrow> u64 \<Rightarrow> errcode \<times> bmap64"
  mark_bmap :: "bmap64 \<Rightarrow> u64 \<Rightarrow> int \<times> bmap64"
  unmark_bmap :: "bmap64 \<Rightarrow> u64 \<Rightarrow> int \<times> bmap64"
  test_bmap :: "bmap64 \<Rightarrow> u64 \<Rightarrow> int \<times> bmap64"
  mark_bmap_extent :: "bmap64 \<Rightarrow> u64 \<Rightarrow> u32 \<Rightarrow> bmap64"
  unmark_bmap_extent :: "bmap64 \<Rightarrow> u64 \<Rightarrow> u32 \<Rightarrow> bmap64"
  test_clear_bmap_extent :: "bmap64 \<Rightarrow> u64 \<Rightarrow> u32 \<Rightarrow> int"
  set_bmap_range :: "bmap64 \<Rightarrow> u64 \<Rightarrow> u64 \<Rightarrow> u8 list \<Rightarrow> errcode \<times> bmap64"
  get_bmap_range :: "bmap64 \<Rightarrow> u64 \<Rightarrow> u64 \<Rightarrow> u8 list \<Rightarrow> errcode \<times> u8 list"
  clear_bmap :: "bmap64 \<Rightarrow> bmap64"
  ops_find_first_zero :: "(bmap64 \<Rightarrow> u64 \<Rightarrow> u64 \<Rightarrow> errcode + u64) option"
  ops_find_first_set :: "(bmap64 \<Rightarrow> u64 \<Rightarrow> u64 \<Rightarrow> errcode + u64) option"

text \<open>The header of a map that can be used: the bounds are in order and there is
  room for the end of the last extent.\<close>

definition header_ok :: "bmap64 \<Rightarrow> bool" where
  "header_ok bm \<longleftrightarrow> bm_start bm \<le> bm_end bm \<and> bm_end bm \<le> bm_real_end bm \<and>
     Suc (unat (bm_real_end bm)) < 2 ^ 64"

section \<open>Absolute and relative bit numbers\<close>

lemma header_okD:
  assumes "header_ok bm"
  shows "unat (bm_start bm) \<le> unat (bm_end bm)" "unat (bm_end bm) \<le> unat (bm_real_end bm)"
    "Suc (unat (bm_real_end bm)) < 2 ^ 64"
  using assms by (simp_all add: header_ok_def word_le_nat_alt)

lemma header_ok_cong [simp]: "header_ok (bm\<lparr>bm_private := p\<rparr>) = header_ok bm"
  by (simp add: header_ok_def)

lemma rel_in_range:
  assumes "in_range bm b"
  shows "unat (b - bm_start bm) = unat b - unat (bm_start bm)"
    "unat (bm_start bm) \<le> unat b" "unat b \<le> unat (bm_real_end bm)"
  using assms by (simp_all add: in_range_def word_le_nat_alt unat_minus_le)

lemma rel_range_ok:
  assumes "range_ok bm b n"
  shows "unat (b - bm_start bm) = unat b - unat (bm_start bm)"
    "unat (bm_start bm) \<le> unat b" "unat b + unat n \<le> Suc (unat (bm_real_end bm))"
  using assms by (simp_all add: range_ok_def unat_minus_le)

lemma bit_range_rel:
  assumes "unat s \<le> unat a"
  shows "s \<le> b \<Longrightarrow> unat b - unat s \<in> {unat a - unat s..<unat a - unat s + unat n} \<longleftrightarrow> b \<in> bit_range a n"
    and "b \<in> bit_range a n \<Longrightarrow> s \<le> b"
  using assms by (auto simp: bit_range_def word_le_nat_alt)

lemma range_ok_single: "in_range bm b \<Longrightarrow> range_ok bm b 1" "bit_range b 1 = {b}"
  by (auto simp: in_range_def range_ok_def bit_range_def word_le_nat_alt word_unat_eq_iff)

text \<open>The result of a search on absolute bit numbers: the first bit of the
  range that satisfies \<open>P\<close>, or \<open>ENOENT\<close>.\<close>

definition search_result :: "('a::linorder \<Rightarrow> bool) \<Rightarrow> 'a \<Rightarrow> 'a \<Rightarrow> errcode + 'a \<Rightarrow> bool" where
  "search_result P start end' r \<longleftrightarrow>
     (case r of
        Inr b \<Rightarrow> start \<le> b \<and> b \<le> end' \<and> P b \<and> (\<forall>x. start \<le> x \<and> x < b \<longrightarrow> \<not> P x)
      | Inl e \<Rightarrow> e = ENOENT \<and> (\<forall>x. start \<le> x \<and> x \<le> end' \<longrightarrow> \<not> P x))"

section \<open>The calls of the operation table\<close>

text \<open>
  A sequence of calls, as a client of the library makes them, and what the
  client sees of each: the truth of the result where there is one.
\<close>

datatype bm_call =
    Mark_call u64
  | Unmark_call u64
  | Test_call u64
  | Mark_extent_call u64 u32
  | Unmark_extent_call u64 u32
  | Test_clear_call u64 u32
  | Clear_call

fun call_ok :: "bmap64 \<Rightarrow> bm_call \<Rightarrow> bool" where
  "call_ok bm (Mark_call b) = in_range bm b"
| "call_ok bm (Unmark_call b) = in_range bm b"
| "call_ok bm (Test_call b) = in_range bm b"
| "call_ok bm (Mark_extent_call b n) = range_ok bm b n"
| "call_ok bm (Unmark_extent_call b n) = range_ok bm b n"
| "call_ok bm (Test_clear_call b n) = range_ok bm b n"
| "call_ok bm Clear_call = True"

fun bm_exec :: "ext2_bitmap_ops \<Rightarrow> bm_call \<Rightarrow> bmap64 \<Rightarrow> bool \<times> bmap64" where
  "bm_exec ops (Mark_call b) bm = (case mark_bmap ops bm b of (r, bm) \<Rightarrow> (r \<noteq> 0, bm))"
| "bm_exec ops (Unmark_call b) bm = (case unmark_bmap ops bm b of (r, bm) \<Rightarrow> (r \<noteq> 0, bm))"
| "bm_exec ops (Test_call b) bm = (case test_bmap ops bm b of (r, bm) \<Rightarrow> (r \<noteq> 0, bm))"
| "bm_exec ops (Mark_extent_call b n) bm = (False, mark_bmap_extent ops bm b n)"
| "bm_exec ops (Unmark_extent_call b n) bm = (False, unmark_bmap_extent ops bm b n)"
| "bm_exec ops (Test_clear_call b n) bm = (test_clear_bmap_extent ops bm b n \<noteq> 0, bm)"
| "bm_exec ops Clear_call bm = (False, clear_bmap ops bm)"

fun bm_run :: "ext2_bitmap_ops \<Rightarrow> bm_call list \<Rightarrow> bmap64 \<Rightarrow> bool list \<times> bmap64" where
  "bm_run ops [] bm = ([], bm)"
| "bm_run ops (c # cs) bm =
     (case bm_exec ops c bm of (r, bm) \<Rightarrow> case bm_run ops cs bm of (rs, bm) \<Rightarrow> (r # rs, bm))"

section \<open>What the generic layer relies on\<close>

text \<open>The result of clearing a bit is whether it was set. A \<open>wide\<close> back end, the extent tree,
  looks one bit too far: its result is also true when the bit after it is set.\<close>

definition next_marked :: "u64 set \<Rightarrow> u64 \<Rightarrow> bool" where
  "next_marked S b \<longleftrightarrow> b + 1 \<in> S"

locale bmap_backend =
  fixes ops :: ext2_bitmap_ops
    and valid :: "bmap64 \<Rightarrow> bool"
    and marked :: "bmap64 \<Rightarrow> u64 set"
    and wide :: "bmap64 \<Rightarrow> bool"
  assumes new_bmap_marked:
      "header_ok bm \<Longrightarrow> new_bmap ops mem junk bm = (0, bm') \<Longrightarrow>
       valid bm' \<and> same_header bm bm' \<and> marked bm' = {}"
    and marked_in_range: "valid bm \<Longrightarrow> b \<in> marked bm \<Longrightarrow> in_range bm b"
    and mark_marked:
      "valid bm \<Longrightarrow> in_range bm b \<Longrightarrow> mark_bmap ops bm b = (r, bm') \<Longrightarrow>
       valid bm' \<and> same_header bm bm' \<and> marked bm' = insert b (marked bm) \<and>
       (r \<noteq> 0 \<longleftrightarrow> b \<in> marked bm)"
    and unmark_marked:
      "valid bm \<Longrightarrow> in_range bm b \<Longrightarrow> unmark_bmap ops bm b = (r, bm') \<Longrightarrow>
       valid bm' \<and> same_header bm bm' \<and> marked bm' = marked bm - {b} \<and>
       (r \<noteq> 0 \<longleftrightarrow> b \<in> marked bm \<or> wide bm \<and> next_marked (marked bm) b)"
    and test_marked:
      "valid bm \<Longrightarrow> in_range bm b \<Longrightarrow> test_bmap ops bm b = (r, bm') \<Longrightarrow>
       valid bm' \<and> same_header bm bm' \<and> marked bm' = marked bm \<and> (r \<noteq> 0 \<longleftrightarrow> b \<in> marked bm)"
    and mark_extent_marked:
      "valid bm \<Longrightarrow> range_ok bm b n \<Longrightarrow> mark_bmap_extent ops bm b n = bm' \<Longrightarrow>
       valid bm' \<and> same_header bm bm' \<and> marked bm' = marked bm \<union> bit_range b n"
    and unmark_extent_marked:
      "valid bm \<Longrightarrow> range_ok bm b n \<Longrightarrow> unmark_bmap_extent ops bm b n = bm' \<Longrightarrow>
       valid bm' \<and> same_header bm bm' \<and> marked bm' = marked bm - bit_range b n"
    and test_clear_marked:
      "valid bm \<Longrightarrow> range_ok bm b n \<Longrightarrow>
       test_clear_bmap_extent ops bm b n \<noteq> 0 \<longleftrightarrow> marked bm \<inter> bit_range b n = {}"
    and clear_marked:
      "valid bm \<Longrightarrow> clear_bmap ops bm = bm' \<Longrightarrow>
       valid bm' \<and> same_header bm bm' \<and> marked bm' = {}"
    and wide_kept:
      "valid bm \<Longrightarrow> call_ok bm c \<Longrightarrow> bm_exec ops c bm = (ret, bm') \<Longrightarrow> wide bm' = wide bm"

text \<open>The abstract specification: the same calls on a set of bits.\<close>

fun set_exec :: "bool \<Rightarrow> bm_call \<Rightarrow> u64 set \<Rightarrow> bool \<times> u64 set" where
  "set_exec w (Mark_call b) S = (b \<in> S, insert b S)"
| "set_exec w (Unmark_call b) S = (b \<in> S \<or> w \<and> next_marked S b, S - {b})"
| "set_exec w (Test_call b) S = (b \<in> S, S)"
| "set_exec w (Mark_extent_call b n) S = (False, S \<union> bit_range b n)"
| "set_exec w (Unmark_extent_call b n) S = (False, S - bit_range b n)"
| "set_exec w (Test_clear_call b n) S = (S \<inter> bit_range b n = {}, S)"
| "set_exec w Clear_call S = (False, {})"

fun set_run :: "bool \<Rightarrow> bm_call list \<Rightarrow> u64 set \<Rightarrow> bool list \<times> u64 set" where
  "set_run w [] S = ([], S)"
| "set_run w (c # cs) S = (case set_exec w c S of (r, S) \<Rightarrow> case set_run w cs S of (rs, S) \<Rightarrow> (r # rs, S))"

lemma call_ok_header: "same_header bm bm' \<Longrightarrow> call_ok bm' c = call_ok bm c"
  by (cases c) (simp_all add: in_range_def range_ok_def)

context bmap_backend
begin

lemma exec_refines:
  assumes "valid bm" "call_ok bm c" "bm_exec ops c bm = (r, bm')"
  shows "valid bm' \<and> same_header bm bm' \<and> set_exec (wide bm) c (marked bm) = (r, marked bm') \<and> wide bm' = wide bm"
  using assms wide_kept [OF assms]
  by (cases c) (auto split: prod.splits
    dest: mark_marked unmark_marked test_marked mark_extent_marked [OF _ _ refl]
      unmark_extent_marked [OF _ _ refl] clear_marked [OF _ refl] simp: test_clear_marked)

lemma run_refines:
  assumes "valid bm" "list_all (call_ok bm) cs" "bm_run ops cs bm = (rs, bm')"
  shows "valid bm' \<and> same_header bm bm' \<and> set_run (wide bm) cs (marked bm) = (rs, marked bm')"
  using assms
proof (induction cs arbitrary: bm rs)
  case Nil
  then show ?case by simp
next
  case (Cons c cs)
  obtain r bm1 where e: "bm_exec ops c bm = (r, bm1)" by fastforce
  obtain rs1 where r: "bm_run ops cs bm1 = (rs1, bm')" "rs = r # rs1"
    using Cons.prems(3) e by (auto split: prod.splits)
  from exec_refines [OF Cons.prems(1) _ e] Cons.prems(2) have
    1: "valid bm1" "same_header bm bm1" "set_exec (wide bm) c (marked bm) = (r, marked bm1)" "wide bm1 = wide bm" by auto
  then have "list_all (call_ok bm1) cs"
    using Cons.prems(2) by (simp add: list_all_iff call_ok_header)
  from Cons.IH [OF 1(1) this r(1)] 1 r show ?case by (auto intro: same_header_trans)
qed

end

end
