(* ===== verification/Bitops.thy ===== *)
theory Bitops
  imports Prelude
begin

text \<open>
  \<open>lib/ext2fs/bitops.c\<close> and the inline functions of \<open>lib/ext2fs/bitops.h\<close>:
  single-bit access to a byte array, byte swapping and the population count.
  An array is the list of its bytes; the C function that writes through
  \<open>addr\<close> returns the written array. A C \<open>int\<close> result is an \<open>int\<close>: the
  bit functions return the masked byte, not a normalised truth value.
\<close>

section \<open>Single-bit operations\<close>

definition ext2fs_set_bit :: "u32 \<Rightarrow> u8 list \<Rightarrow> int \<times> u8 list" where
  "ext2fs_set_bit nr ADDR =
     (let i = unat (drop_bit 3 nr);
          mask = push_bit (unat (nr AND 7)) 1;
          retval = uint (mask AND ADDR ! i)
      in (retval, ADDR[i := ADDR ! i OR mask]))"

definition ext2fs_clear_bit :: "u32 \<Rightarrow> u8 list \<Rightarrow> int \<times> u8 list" where
  "ext2fs_clear_bit nr ADDR =
     (let i = unat (drop_bit 3 nr);
          mask = push_bit (unat (nr AND 7)) 1;
          retval = uint (mask AND ADDR ! i)
      in (retval, ADDR[i := ADDR ! i AND NOT mask]))"

definition ext2fs_test_bit :: "u32 \<Rightarrow> u8 list \<Rightarrow> int" where
  "ext2fs_test_bit nr ADDR =
     (let i = unat (drop_bit 3 nr);
          mask = push_bit (unat (nr AND 7)) 1
      in uint (mask AND ADDR ! i))"

definition ext2fs_set_bit64 :: "u64 \<Rightarrow> u8 list \<Rightarrow> int \<times> u8 list" where
  "ext2fs_set_bit64 nr ADDR =
     (let i = unat (drop_bit 3 nr);
          mask = push_bit (unat (nr AND 7)) 1;
          retval = uint (mask AND ADDR ! i)
      in (retval, ADDR[i := ADDR ! i OR mask]))"

definition ext2fs_clear_bit64 :: "u64 \<Rightarrow> u8 list \<Rightarrow> int \<times> u8 list" where
  "ext2fs_clear_bit64 nr ADDR =
     (let i = unat (drop_bit 3 nr);
          mask = push_bit (unat (nr AND 7)) 1;
          retval = uint (mask AND ADDR ! i)
      in (retval, ADDR[i := ADDR ! i AND NOT mask]))"

definition ext2fs_test_bit64 :: "u64 \<Rightarrow> u8 list \<Rightarrow> int" where
  "ext2fs_test_bit64 nr ADDR =
     (let i = unat (drop_bit 3 nr);
          mask = push_bit (unat (nr AND 7)) 1
      in uint (mask AND ADDR ! i))"

definition ext2fs_fast_set_bit :: "u32 \<Rightarrow> u8 list \<Rightarrow> u8 list" where
  "ext2fs_fast_set_bit nr ADDR =
     (let i = unat (drop_bit 3 nr)
      in ADDR[i := ADDR ! i OR push_bit (unat (nr AND 7)) 1])"

definition ext2fs_fast_clear_bit :: "u32 \<Rightarrow> u8 list \<Rightarrow> u8 list" where
  "ext2fs_fast_clear_bit nr ADDR =
     (let i = unat (drop_bit 3 nr)
      in ADDR[i := ADDR ! i AND NOT (push_bit (unat (nr AND 7)) 1)])"

definition ext2fs_fast_set_bit64 :: "u64 \<Rightarrow> u8 list \<Rightarrow> u8 list" where
  "ext2fs_fast_set_bit64 nr ADDR =
     (let i = unat (drop_bit 3 nr)
      in ADDR[i := ADDR ! i OR push_bit (unat (nr AND 7)) 1])"

definition ext2fs_fast_clear_bit64 :: "u64 \<Rightarrow> u8 list \<Rightarrow> u8 list" where
  "ext2fs_fast_clear_bit64 nr ADDR =
     (let i = unat (drop_bit 3 nr)
      in ADDR[i := ADDR ! i AND NOT (push_bit (unat (nr AND 7)) 1)])"

section \<open>Byte swapping\<close>

definition ext2fs_swab16 :: "u16 \<Rightarrow> u16" where
  "ext2fs_swab16 val = drop_bit 8 val OR push_bit 8 val"

definition ext2fs_swab32 :: "u32 \<Rightarrow> u32" where
  "ext2fs_swab32 val =
     drop_bit 24 val OR (drop_bit 8 val AND 0xFF00) OR
     (push_bit 8 val AND 0xFF0000) OR push_bit 24 val"

definition ext2fs_swab64 :: "u64 \<Rightarrow> u64" where
  "ext2fs_swab64 val =
     ucast (ext2fs_swab32 (ucast (drop_bit 32 val))) OR
     push_bit 32 (ucast (ext2fs_swab32 (ucast (val AND 0xFFFFFFFF))))"

section \<open>Population count\<close>

definition popcount8 :: "u32 \<Rightarrow> u32" where
  "popcount8 w =
     (let res = w - (drop_bit 1 w AND 0x55);
          res = (res AND 0x33) + (drop_bit 2 res AND 0x33)
      in (res + drop_bit 4 res) AND 0x0F)"

definition popcount32 :: "u32 \<Rightarrow> u32" where
  "popcount32 w =
     (let res = w - (drop_bit 1 w AND 0x55555555);
          res = (res AND 0x33333333) + (drop_bit 2 res AND 0x33333333);
          res = (res + drop_bit 4 res) AND 0x0F0F0F0F;
          res = res + drop_bit 8 res
      in (res + drop_bit 16 res) AND 0x000000FF)"

text \<open>
  \<open>ext2fs_bitcount\<close> has three loops: bytes up to a four-byte aligned address,
  then 32-bit words while more than four bytes remain, then the remaining bytes.
  \<open>cp\<close> is the pointer as an address, \<open>bs\<close> the bytes it points at; a 32-bit
  word is read in little-endian order.
\<close>

definition load32 :: "u8 list \<Rightarrow> u32" where
  "load32 p = ucast (p ! 0) OR push_bit 8 (ucast (p ! 1)) OR
     push_bit 16 (ucast (p ! 2)) OR push_bit 24 (ucast (p ! 3))"

fun bitcount_bytes :: "u8 list \<Rightarrow> nat \<Rightarrow> u32 \<Rightarrow> u32" where
  "bitcount_bytes cp 0 res = res"
| "bitcount_bytes cp (Suc nbytes) res =
     bitcount_bytes (tl cp) nbytes (res + popcount8 (ucast (hd cp)))"

fun bitcount_words :: "u8 list \<Rightarrow> nat \<Rightarrow> u32 \<Rightarrow> u32" where
  "bitcount_words p nbytes res =
     (if nbytes > 4 then bitcount_words (drop 4 p) (nbytes - 4) (res + popcount32 (load32 p))
      else bitcount_bytes p nbytes res)"

declare bitcount_words.simps [simp del]

fun bitcount_align :: "nat \<Rightarrow> u8 list \<Rightarrow> nat \<Rightarrow> u32 \<Rightarrow> u32" where
  "bitcount_align addr cp nbytes res =
     (if addr mod 4 \<noteq> 0 \<and> nbytes > 0
      then bitcount_align (Suc addr) (tl cp) (nbytes - 1) (res + popcount8 (ucast (hd cp)))
      else bitcount_words cp nbytes res)"

declare bitcount_align.simps [simp del]

definition ext2fs_bitcount :: "nat \<Rightarrow> u8 list \<Rightarrow> u32 \<Rightarrow> u32" where
  "ext2fs_bitcount addr bs nbytes = bitcount_align addr bs (unat nbytes) 0"

section \<open>The bit operations on bit sequences\<close>

lemmas bitop_defs =
  ext2fs_set_bit_def ext2fs_clear_bit_def ext2fs_test_bit_def
  ext2fs_set_bit64_def ext2fs_clear_bit64_def ext2fs_test_bit64_def
  ext2fs_fast_set_bit_def ext2fs_fast_clear_bit_def
  ext2fs_fast_set_bit64_def ext2fs_fast_clear_bit64_def

lemma length_bitops [simp]:
  "length (snd (ext2fs_set_bit nr bs)) = length bs"
  "length (snd (ext2fs_clear_bit nr bs)) = length bs"
  "length (snd (ext2fs_set_bit64 nr' bs)) = length bs"
  "length (snd (ext2fs_clear_bit64 nr' bs)) = length bs"
  "length (ext2fs_fast_set_bit nr bs) = length bs"
  "length (ext2fs_fast_clear_bit nr bs) = length bs"
  "length (ext2fs_fast_set_bit64 nr' bs) = length bs"
  "length (ext2fs_fast_clear_bit64 nr' bs) = length bs"
  by (simp_all add: bitop_defs Let_def)

lemma bit_at_set_bit:
  assumes "unat nr div 8 < length bs"
  shows "bit_at (snd (ext2fs_set_bit nr bs)) m \<longleftrightarrow> m = unat nr \<or> bit_at bs m"
    and "bit_at (ext2fs_fast_set_bit nr bs) m \<longleftrightarrow> m = unat nr \<or> bit_at bs m"
  using bit_at_or [OF assms] by (simp_all add: bitop_defs Let_def unat_drop_bit_3 unat_and_7)

lemma bit_at_set_bit64:
  assumes "unat nr div 8 < length bs"
  shows "bit_at (snd (ext2fs_set_bit64 nr bs)) m \<longleftrightarrow> m = unat nr \<or> bit_at bs m"
    and "bit_at (ext2fs_fast_set_bit64 nr bs) m \<longleftrightarrow> m = unat nr \<or> bit_at bs m"
  using bit_at_or [OF assms] by (simp_all add: bitop_defs Let_def unat_drop_bit_3 unat_and_7)

lemma bit_at_clear_bit:
  assumes "unat nr div 8 < length bs"
  shows "bit_at (snd (ext2fs_clear_bit nr bs)) m \<longleftrightarrow> m \<noteq> unat nr \<and> bit_at bs m"
    and "bit_at (ext2fs_fast_clear_bit nr bs) m \<longleftrightarrow> m \<noteq> unat nr \<and> bit_at bs m"
  using bit_at_and_not [OF assms]
  by (simp_all add: bitop_defs Let_def unat_drop_bit_3 unat_and_7)

lemma bit_at_clear_bit64:
  assumes "unat nr div 8 < length bs"
  shows "bit_at (snd (ext2fs_clear_bit64 nr bs)) m \<longleftrightarrow> m \<noteq> unat nr \<and> bit_at bs m"
    and "bit_at (ext2fs_fast_clear_bit64 nr bs) m \<longleftrightarrow> m \<noteq> unat nr \<and> bit_at bs m"
  using bit_at_and_not [OF assms]
  by (simp_all add: bitop_defs Let_def unat_drop_bit_3 unat_and_7)

lemma test_bit_iff:
  assumes "unat nr div 8 < length bs"
  shows "ext2fs_test_bit nr bs \<noteq> 0 \<longleftrightarrow> bit_at bs (unat nr)"
    and "fst (ext2fs_set_bit nr bs) \<noteq> 0 \<longleftrightarrow> bit_at bs (unat nr)"
    and "fst (ext2fs_clear_bit nr bs) \<noteq> 0 \<longleftrightarrow> bit_at bs (unat nr)"
  using assms and_push_bit_eq_0_iff [of "unat nr mod 8" "bs ! (unat nr div 8)"]
  by (simp_all add: bitop_defs Let_def unat_drop_bit_3 unat_and_7 bit_at_def uint_0_iff)

lemma test_bit64_iff:
  assumes "unat nr div 8 < length bs"
  shows "ext2fs_test_bit64 nr bs \<noteq> 0 \<longleftrightarrow> bit_at bs (unat nr)"
    and "fst (ext2fs_set_bit64 nr bs) \<noteq> 0 \<longleftrightarrow> bit_at bs (unat nr)"
    and "fst (ext2fs_clear_bit64 nr bs) \<noteq> 0 \<longleftrightarrow> bit_at bs (unat nr)"
  using assms and_push_bit_eq_0_iff [of "unat nr mod 8" "bs ! (unat nr div 8)"]
  by (simp_all add: bitop_defs Let_def unat_drop_bit_3 unat_and_7 bit_at_def uint_0_iff)

lemma uint_byte_exp: "k < 8 \<Longrightarrow> uint (2 ^ k :: u8) = 2 ^ k"
proof (rule uint_2p)
  assume "k < 8"
  then have "bit (2 ^ k :: u8) k" by simp
  then have "(2 ^ k :: u8) \<noteq> 0" by (metis bit_0_eq bot_apply bot_bool_def)
  then show "0 < (2 ^ k :: u8)" by (simp add: word_gt_0)
qed

lemma test_bit_value:
  assumes "unat nr div 8 < length bs"
  shows "ext2fs_test_bit nr bs = (if bit_at bs (unat nr) then 2 ^ (unat nr mod 8) else 0)"
proof -
  have "push_bit k 1 AND (b :: u8) = (if bit b k then push_bit k 1 else 0)" if "k < 8" for k b
    by (rule bit_eqI) (auto simp: bit_and_iff bit_push_bit_iff bit_1_iff)
  from this [of "unat nr mod 8" "bs ! (unat nr div 8)"] assms show ?thesis
    by (simp add: ext2fs_test_bit_def Let_def unat_drop_bit_3 unat_and_7 bit_at_def uint_byte_exp)
qed

text \<open>A loop that sets, or clears, the bits \<open>f 0\<close>, \<open>f 1\<close>, \dots of an array.\<close>

lemma fold_bits:
  assumes "\<forall>i<n. \<forall>bs. length bs = L \<longrightarrow> length (g i bs) = L \<and>
      (\<forall>m. bit_at (g i bs) m = (if m = r + i then v else bit_at bs m))"
    and "length bs = L"
  shows "length (fold g [0..<n] bs) = L \<and>
    (\<forall>m. bit_at (fold g [0..<n] bs) m = (if m \<in> {r..<r + n} then v else bit_at bs m))"
  using assms by (induction n) auto

lemma fold_set_bits:
  assumes "\<And>i. i < n \<Longrightarrow> unat (f i :: u64) = r + i" "r + n \<le> 8 * length bs"
  shows "length (fold (\<lambda>i. ext2fs_fast_set_bit64 (f i)) [0..<n] bs) = length bs \<and>
    (\<forall>m. bit_at (fold (\<lambda>i. ext2fs_fast_set_bit64 (f i)) [0..<n] bs) m \<longleftrightarrow>
       m \<in> {r..<r + n} \<or> bit_at bs m)"
  using fold_bits [where g = "\<lambda>i. ext2fs_fast_set_bit64 (f i)" and n = n and r = r and v = True, OF _ refl] assms
  by (auto simp: bit_at_set_bit64)

lemma fold_clear_bits:
  assumes "\<And>i. i < n \<Longrightarrow> unat (f i :: u64) = r + i" "r + n \<le> 8 * length bs"
  shows "length (fold (\<lambda>i. ext2fs_fast_clear_bit64 (f i)) [0..<n] bs) = length bs \<and>
    (\<forall>m. bit_at (fold (\<lambda>i. ext2fs_fast_clear_bit64 (f i)) [0..<n] bs) m \<longleftrightarrow>
       m \<notin> {r..<r + n} \<and> bit_at bs m)"
  using fold_bits [where g = "\<lambda>i. ext2fs_fast_clear_bit64 (f i)" and n = n and r = r and v = False, OF _ refl] assms
  by (simp add: bit_at_clear_bit64)

lemma fold_set_bits_32:
  assumes "\<And>i. i < n \<Longrightarrow> unat (f i :: u32) = r + i" "r + n \<le> 8 * length bs"
  shows "length (fold (\<lambda>i. ext2fs_fast_set_bit (f i)) [0..<n] bs) = length bs \<and>
    (\<forall>m. bit_at (fold (\<lambda>i. ext2fs_fast_set_bit (f i)) [0..<n] bs) m \<longleftrightarrow>
       m \<in> {r..<r + n} \<or> bit_at bs m)"
  using fold_bits [where g = "\<lambda>i. ext2fs_fast_set_bit (f i)" and n = n and r = r and v = True, OF _ refl] assms
  by (auto simp: bit_at_set_bit)

lemma fold_clear_bits_32:
  assumes "\<And>i. i < n \<Longrightarrow> unat (f i :: u32) = r + i" "r + n \<le> 8 * length bs"
  shows "length (fold (\<lambda>i. ext2fs_fast_clear_bit (f i)) [0..<n] bs) = length bs \<and>
    (\<forall>m. bit_at (fold (\<lambda>i. ext2fs_fast_clear_bit (f i)) [0..<n] bs) m \<longleftrightarrow>
       m \<notin> {r..<r + n} \<and> bit_at bs m)"
  using fold_bits [where g = "\<lambda>i. ext2fs_fast_clear_bit (f i)" and n = n and r = r and v = False, OF _ refl] assms
  by (simp add: bit_at_clear_bit)

end
