(* ===== verification/Blkmap64_BA.thy ===== *)
theory Blkmap64_BA
  imports Bmap64 Bitops
begin

text \<open>
  \<open>lib/ext2fs/blkmap64_ba.c\<close>: the bitmap back end that keeps one bit per number
  in a flat array, and \<open>ext2fs_mem_is_zero\<close> of \<open>gen_bitmap.c\<close>, which it uses.
  \<open>mem i\<close> tells whether the \<open>i\<close>-th allocation of a call succeeds and \<open>junk\<close> is
  what fresh memory holds. The two searches read the array in 8-byte blocks at
  aligned addresses; \<open>addr\<close> is the address of the array. Bit positions and counts
  of the searches are bounded by the array, so they are natural numbers after the
  64-bit subtractions that compute them.
\<close>

section \<open>Allocation\<close>

definition ba_size :: "bmap64 \<Rightarrow> nat" where
  "ba_size bitmap = Suc (unat ((bm_real_end bitmap - bm_start bitmap) div 8))"

definition ba_priv :: "bmap64 \<Rightarrow> u8 list" where
  "ba_priv bitmap = (case bm_private bitmap of BA_private bs \<Rightarrow> bs | RB_private _ \<Rightarrow> [])"

abbreviation ba_upd :: "bmap64 \<Rightarrow> u8 list \<Rightarrow> bmap64" where
  "ba_upd bitmap bs \<equiv> bitmap\<lparr>bm_private := BA_private bs\<rparr>"

definition ba_alloc_private_data :: "(nat \<Rightarrow> bool) \<Rightarrow> (nat \<Rightarrow> u8) \<Rightarrow> bmap64 \<Rightarrow> errcode \<times> bmap64" where
  "ba_alloc_private_data mem junk bitmap =
     (if \<not> mem 0 then (EXT2_ET_NO_MEMORY, bitmap)
      else if \<not> mem 1 then (EXT2_ET_NO_MEMORY, bitmap)
      else (0, ba_upd bitmap (map junk [0..<ba_size bitmap])))"

definition ba_new_bmap :: "(nat \<Rightarrow> bool) \<Rightarrow> (nat \<Rightarrow> u8) \<Rightarrow> bmap64 \<Rightarrow> errcode \<times> bmap64" where
  "ba_new_bmap mem junk bitmap =
     (case ba_alloc_private_data mem junk bitmap of (retval, bitmap) \<Rightarrow>
        if retval \<noteq> 0 then (retval, bitmap)
        else (0, ba_upd bitmap (memset (ba_priv bitmap) 0 0 (ba_size bitmap))))"

definition ba_copy_bmap :: "(nat \<Rightarrow> bool) \<Rightarrow> (nat \<Rightarrow> u8) \<Rightarrow> bmap64 \<Rightarrow> bmap64 \<Rightarrow>
    errcode \<times> bmap64 \<times> bmap64" where
  "ba_copy_bmap mem junk src dest =
     (case ba_alloc_private_data mem junk dest of (retval, dest) \<Rightarrow>
        if retval \<noteq> 0 then (retval, src, dest)
        else (0, src, ba_upd dest (memcpy (ba_priv dest) 0 (ba_priv src) (ba_size src))))"

text \<open>\<open>ext2fs_resize_mem\<close>: the common part is kept, the rest is fresh.\<close>

definition resize_mem :: "(nat \<Rightarrow> u8) \<Rightarrow> nat \<Rightarrow> u8 list \<Rightarrow> u8 list" where
  "resize_mem junk new_size bs = take new_size bs @ map junk [length bs..<new_size]"

function ba_resize_clear :: "u64 \<Rightarrow> u64 \<Rightarrow> u64 \<Rightarrow> u8 list \<Rightarrow> u8 list" where
  "ba_resize_clear start end' bitno bs =
     (if bitno > end'
      then ba_resize_clear start end' (bitno - 1) (snd (ext2fs_clear_bit64 (bitno - start) bs))
      else bs)"
  by pat_completeness auto
termination
proof (relation "measure (\<lambda>(start, end', bitno, bs). unat bitno)", goal_cases)
  case (2 start end' bitno bs)
  then have "0 < unat bitno" by (simp add: word_less_nat_alt)
  then show ?case by (simp add: unat_minus_le)
qed simp

declare ba_resize_clear.simps [simp del]

definition ba_resize_bmap :: "(nat \<Rightarrow> bool) \<Rightarrow> (nat \<Rightarrow> u8) \<Rightarrow> bmap64 \<Rightarrow> u64 \<Rightarrow> u64 \<Rightarrow> errcode \<times> bmap64" where
  "ba_resize_bmap mem junk bmap new_end new_real_end =
     (let bs = (if new_end > bm_end bmap
                then ba_resize_clear (bm_start bmap) (bm_end bmap)
                       (if bm_real_end bmap > new_end then new_end else bm_real_end bmap) (ba_priv bmap)
                else ba_priv bmap);
          bmap = ba_upd bmap bs
      in if new_real_end = bm_real_end bmap then (0, bmap\<lparr>bm_end := new_end\<rparr>)
         else
           let size = ba_size bmap;
               new_size = Suc (unat ((new_real_end - bm_start bmap) div 8))
           in if size \<noteq> new_size \<and> \<not> mem 0 then (EXT2_ET_NO_MEMORY, bmap)
              else
                let bs = (if size \<noteq> new_size then resize_mem junk new_size bs else bs);
                    bs = (if new_size > size then memset bs size 0 (new_size - size) else bs)
                in (0, ba_upd bmap bs\<lparr>bm_end := new_end, bm_real_end := new_real_end\<rparr>))"

section \<open>Single bits and ranges\<close>

definition ba_mark_bmap :: "bmap64 \<Rightarrow> u64 \<Rightarrow> int \<times> bmap64" where
  "ba_mark_bmap bitmap arg =
     (case ext2fs_set_bit64 (arg - bm_start bitmap) (ba_priv bitmap) of
        (retval, bs) \<Rightarrow> (retval, ba_upd bitmap bs))"

definition ba_unmark_bmap :: "bmap64 \<Rightarrow> u64 \<Rightarrow> int \<times> bmap64" where
  "ba_unmark_bmap bitmap arg =
     (case ext2fs_clear_bit64 (arg - bm_start bitmap) (ba_priv bitmap) of
        (retval, bs) \<Rightarrow> (retval, ba_upd bitmap bs))"

definition ba_test_bmap :: "bmap64 \<Rightarrow> u64 \<Rightarrow> int \<times> bmap64" where
  "ba_test_bmap bitmap arg = (ext2fs_test_bit64 (arg - bm_start bitmap) (ba_priv bitmap), bitmap)"

definition ba_mark_bmap_extent :: "bmap64 \<Rightarrow> u64 \<Rightarrow> u32 \<Rightarrow> bmap64" where
  "ba_mark_bmap_extent bitmap arg num =
     ba_upd bitmap (fold (\<lambda>i. ext2fs_fast_set_bit64 (arg + word_of_nat i - bm_start bitmap))
       [0..<unat num] (ba_priv bitmap))"

definition ba_unmark_bmap_extent :: "bmap64 \<Rightarrow> u64 \<Rightarrow> u32 \<Rightarrow> bmap64" where
  "ba_unmark_bmap_extent bitmap arg num =
     ba_upd bitmap (fold (\<lambda>i. ext2fs_fast_clear_bit64 (arg + word_of_nat i - bm_start bitmap))
       [0..<unat num] (ba_priv bitmap))"

fun ext2fs_mem_is_zero :: "u8 list \<Rightarrow> nat \<Rightarrow> int" where
  "ext2fs_mem_is_zero mem len =
     (if len \<ge> 256
      then if take 256 mem \<noteq> replicate 256 0 then 0
           else ext2fs_mem_is_zero (drop 256 mem) (len - 256)
      else if len \<noteq> 0 then (if take len mem = replicate len 0 then 1 else 0)
      else 1)"

declare ext2fs_mem_is_zero.simps [simp del]

text \<open>The loop \<open>for (i = mark_count; i > 0; i--, mark_bit--) m |= 1 << mark_bit\<close>.\<close>

fun mark_mask :: "nat \<Rightarrow> nat \<Rightarrow> u8 \<Rightarrow> u8" where
  "mark_mask 0 mark_bit m = m"
| "mark_mask (Suc i) mark_bit m = mark_mask i (mark_bit - 1) (m OR push_bit mark_bit 1)"

text \<open>The body that \<open>ba_test_clear_bmap_extent\<close> and
  \<open>ext2fs_test_clear_generic_bitmap_range\<close> share: \<open>start\<close> is relative to the start
  of the map. \<open>test_clear_rest\<close> is its part from a byte boundary on.\<close>

definition test_clear_rest :: "u8 list \<Rightarrow> nat \<Rightarrow> nat \<Rightarrow> nat \<Rightarrow> int" where
  "test_clear_rest ADDR start_byte len_byte len_bit =
     (if len_bit \<noteq> 0
      then if mark_mask len_bit (len_bit - 1) 0 AND ADDR ! (start_byte + len_byte) \<noteq> 0 then 0
           else if len_byte = 0 then 1
           else ext2fs_mem_is_zero (drop start_byte ADDR) len_byte
      else ext2fs_mem_is_zero (drop start_byte ADDR) len_byte)"

definition test_clear_range :: "u8 list \<Rightarrow> nat \<Rightarrow> nat \<Rightarrow> int" where
  "test_clear_range ADDR start len =
     (let start_byte = start div 8; start_bit = start mod 8
      in if start_bit \<noteq> 0
         then
           let mark_count = (if len < 8 - start_bit then len else 8 - start_bit);
               mark_bit = (if len < 8 - start_bit then len + start_bit - 1 else 7)
           in if mark_mask mark_count mark_bit 0 AND ADDR ! start_byte \<noteq> 0 then 0
              else if len \<le> 8 - start_bit then 1
              else test_clear_rest ADDR (Suc start_byte) ((len - mark_count) div 8) ((len - mark_count) mod 8)
         else test_clear_rest ADDR start_byte (len div 8) (len mod 8))"

definition ba_test_clear_bmap_extent :: "bmap64 \<Rightarrow> u64 \<Rightarrow> u32 \<Rightarrow> int" where
  "ba_test_clear_bmap_extent bitmap start len =
     test_clear_range (ba_priv bitmap) (unat (start - bm_start bitmap)) (unat len)"

definition ba_set_bmap_range :: "bmap64 \<Rightarrow> u64 \<Rightarrow> u64 \<Rightarrow> u8 list \<Rightarrow> errcode \<times> bmap64" where
  "ba_set_bmap_range bitmap start num in' =
     (0, ba_upd bitmap (memcpy (ba_priv bitmap) (unat (drop_bit 3 start)) in' (unat (drop_bit 3 (num + 7)))))"

definition ba_get_bmap_range :: "bmap64 \<Rightarrow> u64 \<Rightarrow> u64 \<Rightarrow> u8 list \<Rightarrow> errcode \<times> u8 list" where
  "ba_get_bmap_range bitmap start num out =
     (0, memcpy out 0 (drop (unat (drop_bit 3 start)) (ba_priv bitmap)) (unat (drop_bit 3 (num + 7))))"

definition ba_clear_bmap :: "bmap64 \<Rightarrow> bmap64" where
  "ba_clear_bmap bitmap = ba_upd bitmap (memset (ba_priv bitmap) 0 0 (ba_size bitmap))"

section \<open>Searching\<close>

text \<open>
  \<open>ba_find_first_zero\<close> and \<open>ba_find_first_set\<close> differ in the test of a bit,
  \<open>hit\<close>, and in the byte value that has no such bit, \<open>skip\<close>. The scan over single
  bits stops at a hit or where \<open>stop\<close> holds.
\<close>

fun ba_scan_bits :: "(int \<Rightarrow> bool) \<Rightarrow> (nat \<Rightarrow> bool) \<Rightarrow> u8 list \<Rightarrow> nat \<Rightarrow> nat \<Rightarrow> nat + nat \<times> nat" where
  "ba_scan_bits hit stop bs bitpos 0 = Inr (bitpos, 0)"
| "ba_scan_bits hit stop bs bitpos (Suc count) =
     (if stop bitpos then Inr (bitpos, Suc count)
      else if hit (ext2fs_test_bit64 (word_of_nat bitpos) bs) then Inl bitpos
      else ba_scan_bits hit stop bs (Suc bitpos) count)"

text \<open>Bytes up to an aligned address: \<open>addr\<close> is the address of the byte at
  \<open>bitpos\<close>; the result tells whether a byte with a hit was found.\<close>

fun ba_scan_align :: "u8 \<Rightarrow> u8 list \<Rightarrow> nat \<Rightarrow> nat \<Rightarrow> nat \<Rightarrow> bool \<times> nat \<times> nat" where
  "ba_scan_align skip bs addr bitpos count =
     (if count \<ge> 8 \<and> addr mod 8 \<noteq> 0
      then if bs ! (bitpos div 8) \<noteq> skip then (True, bitpos, count)
           else ba_scan_align skip bs (Suc addr) (bitpos + 8) (count - 8)
      else (False, bitpos, count))"

declare ba_scan_align.simps [simp del]

text \<open>The loops over \<open>i\<close> blocks of \<open>n\<close> bytes return how many blocks were passed. A
  64-bit load is all ones or all zeros when each of its bytes is.\<close>

fun ba_scan_blocks :: "nat \<Rightarrow> u8 \<Rightarrow> u8 list \<Rightarrow> nat \<Rightarrow> nat" where
  "ba_scan_blocks n skip pos 0 = 0"
| "ba_scan_blocks n skip pos (Suc i) =
     (if take n pos \<noteq> replicate n skip then 0
      else Suc (ba_scan_blocks n skip (drop n pos) i))"

definition ba_find_first :: "(int \<Rightarrow> bool) \<Rightarrow> u8 \<Rightarrow> nat \<Rightarrow> bmap64 \<Rightarrow> u64 \<Rightarrow> u64 \<Rightarrow> errcode + u64" where
  "ba_find_first hit skip addr bitmap start end' =
     (let bs = ba_priv bitmap;
          bitpos = unat (start - bm_start bitmap);
          count = unat (end' - start + 1);
          found = (\<lambda>bitpos. Inr (word_of_nat bitpos + bm_start bitmap))
      in case ba_scan_bits hit (\<lambda>b. b mod 8 = 0) bs bitpos count of
           Inl bitpos \<Rightarrow> found bitpos
         | Inr (bitpos, count) \<Rightarrow>
             if count = 0 then Inl ENOENT
             else
               case ba_scan_align skip bs (addr + bitpos div 8) bitpos count of
                 (byte_found, bitpos, count) \<Rightarrow>
               case (if byte_found then (bitpos, count)
                     else
                       let k = ba_scan_blocks 8 skip (drop (bitpos div 8) bs) (count div 64);
                           bitpos = bitpos + 64 * k; count = count - 64 * k;
                           j = ba_scan_blocks 1 skip (drop (bitpos div 8) bs) (count div 8)
                       in (bitpos + 8 * j, count - 8 * j)) of
                 (bitpos, count) \<Rightarrow>
               case ba_scan_bits hit (\<lambda>_. False) bs bitpos count of
                 Inl bitpos \<Rightarrow> found bitpos
               | Inr _ \<Rightarrow> Inl ENOENT)"

definition ba_find_first_zero :: "nat \<Rightarrow> bmap64 \<Rightarrow> u64 \<Rightarrow> u64 \<Rightarrow> errcode + u64" where
  "ba_find_first_zero = ba_find_first (\<lambda>b. b = 0) 0xFF"

definition ba_find_first_set :: "nat \<Rightarrow> bmap64 \<Rightarrow> u64 \<Rightarrow> u64 \<Rightarrow> errcode + u64" where
  "ba_find_first_set = ba_find_first (\<lambda>b. b \<noteq> 0) 0"

section \<open>The table of operations\<close>

definition ext2fs_blkmap64_bitarray :: "nat \<Rightarrow> ext2_bitmap_ops" where
  "ext2fs_blkmap64_bitarray addr = \<lparr>
     new_bmap = ba_new_bmap,
     copy_bmap = ba_copy_bmap,
     resize_bmap = ba_resize_bmap,
     mark_bmap = ba_mark_bmap,
     unmark_bmap = ba_unmark_bmap,
     test_bmap = ba_test_bmap,
     mark_bmap_extent = ba_mark_bmap_extent,
     unmark_bmap_extent = ba_unmark_bmap_extent,
     test_clear_bmap_extent = ba_test_clear_bmap_extent,
     set_bmap_range = ba_set_bmap_range,
     get_bmap_range = ba_get_bmap_range,
     clear_bmap = ba_clear_bmap,
     ops_find_first_zero = Some (ba_find_first_zero addr),
     ops_find_first_set = Some (ba_find_first_set addr)\<rparr>"

end
