(* ===== verification/Gen_Bitmap.thy ===== *)
theory Gen_Bitmap
  imports Ext2_Err Blkmap64_BA
begin

text \<open>
  \<open>lib/ext2fs/gen_bitmap.c\<close>: the 32-bit generic bitmap. The structure carries a
  magic number that tells its layout, so a pointer to a generic bitmap is one of
  the two layouts, \<open>Bitmap32\<close> or \<open>Bitmap64\<close>; a null pointer is \<open>None\<close> where the
  code looks for one. The functions of this file that hand a 64-bit map on to
  \<open>gen_bitmap64.c\<close> are completed in \<open>Gen_Bitmap64\<close>; here \<open>f_32\<close> is the part of
  \<open>f\<close> that runs on a map with a 32-bit magic number. Loops over \<open>__u32\<close> counters
  that need not end are partial functions; \<open>None\<close> is a call that does not return.
  Messages on stderr are not part of the model.
\<close>

section \<open>The structure and its magic numbers\<close>

record bitmap32 =
  b32_magic :: errcode
  b32_start :: u32
  b32_end :: u32
  b32_real_end :: u32
  b32_description :: "string option"
  b32_bitmap :: "u8 list"
  b32_base_error_code :: errcode

datatype generic_bitmap = Bitmap32 bitmap32 | Bitmap64 bmap64

fun bitmap_magic :: "generic_bitmap \<Rightarrow> errcode" where
  "bitmap_magic (Bitmap32 b) = b32_magic b"
| "bitmap_magic (Bitmap64 b) = bm_magic b"

definition EXT2FS_IS_32_BITMAP :: "errcode \<Rightarrow> bool" where
  "EXT2FS_IS_32_BITMAP magic \<longleftrightarrow> magic = EXT2_ET_MAGIC_GENERIC_BITMAP \<or>
     magic = EXT2_ET_MAGIC_BLOCK_BITMAP \<or> magic = EXT2_ET_MAGIC_INODE_BITMAP"

definition EXT2FS_IS_64_BITMAP :: "errcode \<Rightarrow> bool" where
  "EXT2FS_IS_64_BITMAP magic \<longleftrightarrow> magic = EXT2_ET_MAGIC_GENERIC_BITMAP64 \<or>
     magic = EXT2_ET_MAGIC_BLOCK_BITMAP64 \<or> magic = EXT2_ET_MAGIC_INODE_BITMAP64"

definition check_magic :: "generic_bitmap option \<Rightarrow> errcode" where
  "check_magic bitmap =
     (case bitmap of
        None \<Rightarrow> EXT2_ET_MAGIC_GENERIC_BITMAP
      | Some b \<Rightarrow>
          if bitmap_magic b = EXT2_ET_MAGIC_GENERIC_BITMAP \<or> bitmap_magic b = EXT2_ET_MAGIC_INODE_BITMAP \<or>
             bitmap_magic b = EXT2_ET_MAGIC_BLOCK_BITMAP
          then 0 else EXT2_ET_MAGIC_GENERIC_BITMAP)"

section \<open>Creating, copying and freeing\<close>

definition b32_size :: "u32 \<Rightarrow> u32 \<Rightarrow> nat" where
  "b32_size start real_end = Suc (unat ((real_end - start) div 8))"

text \<open>Reading \<open>n\<close> bytes from the start of an array; what lies behind the array is
  not determined by it.\<close>

definition read_bytes :: "(nat \<Rightarrow> u8) \<Rightarrow> u8 list \<Rightarrow> nat \<Rightarrow> u8 list" where
  "read_bytes junk bs n = map (\<lambda>i. if i < length bs then bs ! i else junk i) [0..<n]"

definition ext2fs_make_generic_bitmap :: "(nat \<Rightarrow> bool) \<Rightarrow> (nat \<Rightarrow> u8) \<Rightarrow> errcode \<Rightarrow>
    u32 \<Rightarrow> u32 \<Rightarrow> u32 \<Rightarrow> string option \<Rightarrow> u8 list option \<Rightarrow> errcode + generic_bitmap" where
  "ext2fs_make_generic_bitmap mem junk magic start end' real_end descr init_map =
     (if \<not> mem 0 then Inl EXT2_ET_NO_MEMORY
      else
        let base = (if magic = EXT2_ET_MAGIC_INODE_BITMAP then EXT2_ET_BAD_INODE_MARK
                    else if magic = EXT2_ET_MAGIC_BLOCK_BITMAP then EXT2_ET_BAD_BLOCK_MARK
                    else EXT2_ET_BAD_GENERIC_MARK)
        in if descr \<noteq> None \<and> \<not> mem 1 then Inl EXT2_ET_NO_MEMORY
           else
             let sz = b32_size start real_end;
                 sz = 4 * ((sz + 7) div 4)
             in if \<not> mem (if descr = None then 1 else 2) then Inl EXT2_ET_NO_MEMORY
                else Inr (Bitmap32 \<lparr>b32_magic = magic, b32_start = start, b32_end = end',
                       b32_real_end = real_end, b32_description = descr,
                       b32_bitmap = (case init_map of Some m \<Rightarrow> read_bytes junk m sz | None \<Rightarrow> replicate sz 0),
                       b32_base_error_code = base\<rparr>))"

definition ext2fs_allocate_generic_bitmap :: "(nat \<Rightarrow> bool) \<Rightarrow> (nat \<Rightarrow> u8) \<Rightarrow>
    u32 \<Rightarrow> u32 \<Rightarrow> u32 \<Rightarrow> string option \<Rightarrow> errcode + generic_bitmap" where
  "ext2fs_allocate_generic_bitmap mem junk start end' real_end descr =
     ext2fs_make_generic_bitmap mem junk EXT2_ET_MAGIC_GENERIC_BITMAP start end' real_end descr None"

definition ext2fs_copy_generic_bitmap :: "(nat \<Rightarrow> bool) \<Rightarrow> (nat \<Rightarrow> u8) \<Rightarrow> bitmap32 \<Rightarrow> errcode + generic_bitmap" where
  "ext2fs_copy_generic_bitmap mem junk src =
     ext2fs_make_generic_bitmap mem junk (b32_magic src) (b32_start src) (b32_end src)
       (b32_real_end src) (b32_description src) (Some (b32_bitmap src))"

text \<open>Freeing returns what is left of the structure: nothing, or the untouched
  pointer where its magic number is not one of a 32-bit map.\<close>

definition ext2fs_free_generic_bitmap :: "generic_bitmap option \<Rightarrow> generic_bitmap option" where
  "ext2fs_free_generic_bitmap bitmap = (if check_magic bitmap \<noteq> 0 then bitmap else None)"

section \<open>Single bits\<close>

definition ext2fs_test_generic_bitmap_32 :: "bitmap32 \<Rightarrow> u32 \<Rightarrow> int" where
  "ext2fs_test_generic_bitmap_32 b bitno =
     (if bitno < b32_start b \<or> bitno > b32_end b then 0
      else ext2fs_test_bit (bitno - b32_start b) (b32_bitmap b))"

definition ext2fs_mark_generic_bitmap_32 :: "bitmap32 \<Rightarrow> u32 \<Rightarrow> int \<times> bitmap32" where
  "ext2fs_mark_generic_bitmap_32 b bitno =
     (if bitno < b32_start b \<or> bitno > b32_end b then (0, b)
      else case ext2fs_set_bit (bitno - b32_start b) (b32_bitmap b) of
             (r, bs) \<Rightarrow> (r, b\<lparr>b32_bitmap := bs\<rparr>))"

definition ext2fs_unmark_generic_bitmap_32 :: "bitmap32 \<Rightarrow> u32 \<Rightarrow> int \<times> bitmap32" where
  "ext2fs_unmark_generic_bitmap_32 b bitno =
     (if bitno < b32_start b \<or> bitno > b32_end b then (0, b)
      else case ext2fs_clear_bit (bitno - b32_start b) (b32_bitmap b) of
             (r, bs) \<Rightarrow> (r, b\<lparr>b32_bitmap := bs\<rparr>))"

definition ext2fs_clear_generic_bitmap_32 :: "bitmap32 \<Rightarrow> bitmap32" where
  "ext2fs_clear_generic_bitmap_32 b =
     b\<lparr>b32_bitmap := memset (b32_bitmap b) 0 0 (b32_size (b32_start b) (b32_real_end b))\<rparr>"

section \<open>Bounds\<close>

text \<open>\<open>oend\<close> is what the call stores through the pointer of that name, \<open>None\<close> if it
  stores nothing.\<close>

fun ext2fs_fudge_generic_bitmap_end :: "generic_bitmap \<Rightarrow> errcode \<Rightarrow> errcode \<Rightarrow> u32 \<Rightarrow>
    errcode \<times> u32 option \<times> generic_bitmap" where
  "ext2fs_fudge_generic_bitmap_end (Bitmap32 b) magic neq end' =
     (if b32_magic b \<noteq> magic then (magic, None, Bitmap32 b)
      else if end' > b32_real_end b then (neq, None, Bitmap32 b)
      else (0, Some (b32_end b), Bitmap32 (b\<lparr>b32_end := end'\<rparr>)))"
| "ext2fs_fudge_generic_bitmap_end (Bitmap64 b) magic neq end' = (magic, None, Bitmap64 b)"

function resize_clear_32 :: "u32 \<Rightarrow> u32 \<Rightarrow> u32 \<Rightarrow> u8 list \<Rightarrow> u8 list" where
  "resize_clear_32 start end' bitno bs =
     (if bitno > end'
      then resize_clear_32 start end' (bitno - 1) (snd (ext2fs_clear_bit (bitno - start) bs))
      else bs)"
  by pat_completeness auto
termination
proof (relation "measure (\<lambda>(start, end', bitno, bs). unat bitno)", goal_cases)
  case (2 start end' bitno bs)
  then have "0 < unat bitno" by (simp add: word_less_nat_alt)
  then show ?case by (simp add: unat_minus_le)
qed simp

declare resize_clear_32.simps [simp del]

fun ext2fs_resize_generic_bitmap :: "(nat \<Rightarrow> bool) \<Rightarrow> (nat \<Rightarrow> u8) \<Rightarrow> errcode \<Rightarrow> u32 \<Rightarrow> u32 \<Rightarrow>
    generic_bitmap option \<Rightarrow> errcode \<times> generic_bitmap option" where
  "ext2fs_resize_generic_bitmap mem junk magic new_end new_real_end (Some (Bitmap32 b)) =
     (if b32_magic b \<noteq> magic then (magic, Some (Bitmap32 b))
      else
        let bs = (if new_end > b32_end b
                  then resize_clear_32 (b32_start b) (b32_end b)
                         (if b32_real_end b > new_end then new_end else b32_real_end b) (b32_bitmap b)
                  else b32_bitmap b);
            b = b\<lparr>b32_bitmap := bs\<rparr>
        in if new_real_end = b32_real_end b then (0, Some (Bitmap32 (b\<lparr>b32_end := new_end\<rparr>)))
           else
             let sz = b32_size (b32_start b) (b32_real_end b);
                 new_size = b32_size (b32_start b) new_real_end
             in if sz \<noteq> new_size \<and> \<not> mem 0 then (EXT2_ET_NO_MEMORY, Some (Bitmap32 b))
                else
                  let bs = (if sz \<noteq> new_size then resize_mem junk new_size bs else bs);
                      bs = (if new_size > sz then memset bs sz 0 (new_size - sz) else bs)
                  in (0, Some (Bitmap32 (b\<lparr>b32_bitmap := bs, b32_end := new_end, b32_real_end := new_real_end\<rparr>))))"
| "ext2fs_resize_generic_bitmap mem junk magic new_end new_real_end bmap = (magic, bmap)"

section \<open>Comparing\<close>

text \<open>The loop over the bits of the last byte: \<open>Some True\<close> is the return in its
  middle, \<open>Some False\<close> its end.\<close>

partial_function (option) compare_tail_32 :: "bitmap32 \<Rightarrow> bitmap32 \<Rightarrow> u32 \<Rightarrow> bool option" where
  "compare_tail_32 bm1 bm2 i =
     (if i \<le> b32_end bm1
      then if ext2fs_test_generic_bitmap_32 bm1 i \<noteq> ext2fs_test_generic_bitmap_32 bm2 i then Some True
           else compare_tail_32 bm1 bm2 (i + 1)
      else Some False)"

declare compare_tail_32.simps [code]

fun ext2fs_compare_generic_bitmap :: "errcode \<Rightarrow> errcode \<Rightarrow> generic_bitmap option \<Rightarrow> generic_bitmap option \<Rightarrow>
    errcode option" where
  "ext2fs_compare_generic_bitmap magic neq (Some (Bitmap32 bm1)) (Some (Bitmap32 bm2)) =
     (if b32_magic bm1 \<noteq> magic then Some magic
      else if b32_magic bm2 \<noteq> magic then Some magic
      else
        let n = unat ((b32_end bm1 - b32_start bm1) div 8)
        in if b32_start bm1 \<noteq> b32_start bm2 \<or> b32_end bm1 \<noteq> b32_end bm2 \<or>
              take n (b32_bitmap bm1) \<noteq> take n (b32_bitmap bm2)
           then Some neq
           else map_option (\<lambda>differ. if differ then neq else 0)
                  (compare_tail_32 bm1 bm2 (b32_end bm1 - (b32_end bm1 - b32_start bm1) mod 8)))"
| "ext2fs_compare_generic_bitmap magic neq gen_bm1 gen_bm2 = Some magic"

section \<open>Padding and whole ranges\<close>

function set_padding_32 :: "u32 \<Rightarrow> u32 \<Rightarrow> u32 \<Rightarrow> u32 \<Rightarrow> u8 list \<Rightarrow> u8 list" where
  "set_padding_32 real_end end' i j bs =
     (if i \<le> real_end \<and> i > end'
      then set_padding_32 real_end end' (i + 1) (j + 1) (snd (ext2fs_set_bit j bs))
      else bs)"
  by pat_completeness auto
termination
proof (relation "measure (\<lambda>(real_end, end', i, j, bs). if i > end' then 2 ^ 32 - unat i else 0)", goal_cases)
  case (2 real_end end' i j bs)
  show ?case
  proof (cases "i + 1 = 0")
    case True
    with 2 unat_u32_less [of i] show ?thesis by simp
  next
    case False
    then have "unat (i + 1) = Suc (unat i)" by (metis add.commute unatSuc)
    with 2 unat_u32_less [of i] show ?thesis by auto
  qed
qed simp

declare set_padding_32.simps [simp del]

definition ext2fs_set_generic_bitmap_padding :: "bitmap32 \<Rightarrow> bitmap32" where
  "ext2fs_set_generic_bitmap_padding b =
     b\<lparr>b32_bitmap := set_padding_32 (b32_real_end b) (b32_end b) (b32_end b + 1)
        (b32_end b + 1 - b32_start b) (b32_bitmap b)\<rparr>"

fun ext2fs_get_generic_bitmap_range :: "generic_bitmap option \<Rightarrow> errcode \<Rightarrow> u32 \<Rightarrow> u32 \<Rightarrow> u8 list \<Rightarrow>
    errcode \<times> u8 list" where
  "ext2fs_get_generic_bitmap_range (Some (Bitmap32 b)) magic start num out =
     (if b32_magic b \<noteq> magic then (magic, out)
      else if start < b32_start b \<or> start + num - 1 > b32_real_end b then (EXT2_ET_INVALID_ARGUMENT, out)
      else (0, memcpy out 0 (drop (unat (drop_bit 3 (start - b32_start b))) (b32_bitmap b))
                 (unat (drop_bit 3 (num + 7)))))"
| "ext2fs_get_generic_bitmap_range bmap magic start num out = (magic, out)"

fun ext2fs_set_generic_bitmap_range :: "generic_bitmap option \<Rightarrow> errcode \<Rightarrow> u32 \<Rightarrow> u32 \<Rightarrow> u8 list \<Rightarrow>
    errcode \<times> generic_bitmap option" where
  "ext2fs_set_generic_bitmap_range (Some (Bitmap32 b)) magic start num in' =
     (if b32_magic b \<noteq> magic then (magic, Some (Bitmap32 b))
      else if start < b32_start b \<or> start + num - 1 > b32_real_end b
      then (EXT2_ET_INVALID_ARGUMENT, Some (Bitmap32 b))
      else (0, Some (Bitmap32 (b\<lparr>b32_bitmap :=
              memcpy (b32_bitmap b) (unat (drop_bit 3 (start - b32_start b))) in' (unat (drop_bit 3 (num + 7)))\<rparr>))))"
| "ext2fs_set_generic_bitmap_range bmap magic start num in' = (magic, bmap)"

section \<open>Searching and testing ranges\<close>

definition ext2fs_test_clear_generic_bitmap_range :: "bitmap32 \<Rightarrow> u32 \<Rightarrow> u32 \<Rightarrow> int" where
  "ext2fs_test_clear_generic_bitmap_range b start len =
     test_clear_range (b32_bitmap b) (unat (start - b32_start b)) (unat len)"

partial_function (option) find_first_32 :: "(int \<Rightarrow> bool) \<Rightarrow> bitmap32 \<Rightarrow> u32 \<Rightarrow> u32 \<Rightarrow> (errcode + u32) option" where
  "find_first_32 hit b start end' =
     (if start \<le> end'
      then if hit (ext2fs_test_bit (start - b32_start b) (b32_bitmap b)) then Some (Inr start)
           else find_first_32 hit b (start + 1) end'
      else Some (Inl ENOENT))"

declare find_first_32.simps [code]

definition ext2fs_find_first_zero_generic_bitmap :: "bitmap32 \<Rightarrow> u32 \<Rightarrow> u32 \<Rightarrow> (errcode + u32) option" where
  "ext2fs_find_first_zero_generic_bitmap b start end' =
     (if start < b32_start b \<or> end' > b32_end b \<or> start > end' then Some (Inl EINVAL)
      else find_first_32 (\<lambda>r. r = 0) b start end')"

definition ext2fs_find_first_set_generic_bitmap :: "bitmap32 \<Rightarrow> u32 \<Rightarrow> u32 \<Rightarrow> (errcode + u32) option" where
  "ext2fs_find_first_set_generic_bitmap b start end' =
     (if start < b32_start b \<or> end' > b32_end b \<or> start > end' then Some (Inl EINVAL)
      else find_first_32 (\<lambda>r. r \<noteq> 0) b start end')"

text \<open>\<open>num\<close> is a C \<open>int\<close>; in sums with a \<open>blk_t\<close> it is taken modulo \<open>2 ^ 32\<close>.\<close>

fun ext2fs_test_block_bitmap_range :: "generic_bitmap \<Rightarrow> u32 \<Rightarrow> int \<Rightarrow> int" where
  "ext2fs_test_block_bitmap_range (Bitmap32 b) block num =
     (if b32_magic b \<noteq> EXT2_ET_MAGIC_BLOCK_BITMAP then EXT2_ET_MAGIC_BLOCK_BITMAP
      else if block < b32_start b \<or> block > b32_real_end b \<or> block + word_of_int num - 1 > b32_real_end b then 0
      else ext2fs_test_clear_generic_bitmap_range b block (word_of_int num))"
| "ext2fs_test_block_bitmap_range (Bitmap64 b) block num = EXT2_ET_MAGIC_BLOCK_BITMAP"

fun ext2fs_test_inode_bitmap_range :: "generic_bitmap \<Rightarrow> u32 \<Rightarrow> int \<Rightarrow> int" where
  "ext2fs_test_inode_bitmap_range (Bitmap32 b) inode num =
     (if b32_magic b \<noteq> EXT2_ET_MAGIC_INODE_BITMAP then EXT2_ET_MAGIC_INODE_BITMAP
      else if inode < b32_start b \<or> inode > b32_real_end b \<or> inode + word_of_int num - 1 > b32_real_end b then 0
      else ext2fs_test_clear_generic_bitmap_range b inode (word_of_int num))"
| "ext2fs_test_inode_bitmap_range (Bitmap64 b) inode num = EXT2_ET_MAGIC_INODE_BITMAP"

definition ext2fs_mark_block_bitmap_range :: "bitmap32 \<Rightarrow> u32 \<Rightarrow> int \<Rightarrow> bitmap32" where
  "ext2fs_mark_block_bitmap_range b block num =
     (if block < b32_start b \<or> block > b32_end b \<or> block + word_of_int num - 1 > b32_end b then b
      else b\<lparr>b32_bitmap := fold (\<lambda>i. ext2fs_fast_set_bit (block + word_of_nat i - b32_start b))
             [0..<nat num] (b32_bitmap b)\<rparr>)"

definition ext2fs_unmark_block_bitmap_range :: "bitmap32 \<Rightarrow> u32 \<Rightarrow> int \<Rightarrow> bitmap32" where
  "ext2fs_unmark_block_bitmap_range b block num =
     (if block < b32_start b \<or> block > b32_end b \<or> block + word_of_int num - 1 > b32_end b then b
      else b\<lparr>b32_bitmap := fold (\<lambda>i. ext2fs_fast_clear_bit (block + word_of_nat i - b32_start b))
             [0..<nat num] (b32_bitmap b)\<rparr>)"

end
