(* ===== verification/Filsys.thy ===== *)
theory Filsys
  imports Gen_Bitmap
begin

text \<open>
  The structures of \<open>lib/ext2fs/ext2_fs.h\<close> and \<open>lib/ext2fs/ext2fs.h\<close> with the
  fields that the modelled components read or write, their feature and flag
  macros, and the inline functions on them. The group descriptors are a list of
  records: a file system without the 64-bit feature has 32-byte descriptors and
  never touches the fields of the second half, one with it has descriptors of at
  least 64 bytes, so that two of them never share memory.
\<close>

section \<open>On-disk structures\<close>

record ext2_super_block =
  s_inodes_count :: u32
  s_blocks_count :: u32
  s_r_blocks_count :: u32
  s_free_blocks_count :: u32
  s_free_inodes_count :: u32
  s_first_data_block :: u32
  s_log_block_size :: u32
  s_log_cluster_size :: u32
  s_blocks_per_group :: u32
  s_clusters_per_group :: u32
  s_inodes_per_group :: u32
  s_rev_level :: u32
  s_first_ino :: u32
  s_inode_size :: u16
  s_feature_compat :: u32
  s_feature_incompat :: u32
  s_feature_ro_compat :: u32
  s_uuid :: "u8 list"
  s_desc_size :: u16
  s_blocks_count_hi :: u32
  s_r_blocks_count_hi :: u32
  s_free_blocks_hi :: u32
  s_checksum_type :: u8
  s_checksum_seed :: u32

text \<open>\<open>bg_rest\<close> are the bytes of a descriptor that is larger than the structure.\<close>

record ext4_group_desc =
  bg_block_bitmap :: u32
  bg_inode_bitmap :: u32
  bg_inode_table :: u32
  bg_free_blocks_count :: u16
  bg_free_inodes_count :: u16
  bg_used_dirs_count :: u16
  bg_flags :: u16
  bg_exclude_bitmap_lo :: u32
  bg_block_bitmap_csum_lo :: u16
  bg_inode_bitmap_csum_lo :: u16
  bg_itable_unused :: u16
  bg_checksum :: u16
  bg_block_bitmap_hi :: u32
  bg_inode_bitmap_hi :: u32
  bg_inode_table_hi :: u32
  bg_free_blocks_count_hi :: u16
  bg_free_inodes_count_hi :: u16
  bg_used_dirs_count_hi :: u16
  bg_itable_unused_hi :: u16
  bg_exclude_bitmap_hi :: u32
  bg_block_bitmap_csum_hi :: u16
  bg_inode_bitmap_csum_hi :: u16
  bg_reserved :: u32
  bg_rest :: "u8 list"

record ext2_inode =
  i_mode :: u16
  i_size :: u32
  i_blocks :: u32
  i_flags :: u32
  i_file_acl :: u32
  i_size_high :: u32
  l_i_blocks_hi :: u16
  l_i_file_acl_high :: u16

section \<open>The handle of an open file system\<close>

text \<open>The callback pointers (\<open>get_alloc_block\<close>, \<open>block_alloc_stats\<close>, \<open>new_range\<close>
  and their variants) are the record \<open>alloc_hooks\<close> of the theory on allocation statistics.\<close>

record ext2_filsys =
  fs_magic :: errcode
  fs_flags :: u32
  fs_super :: ext2_super_block
  fs_blocksize :: u32
  fs_group_desc_count :: u32
  fs_group_desc :: "ext4_group_desc list"
  fs_inode_map :: "generic_bitmap option"
  fs_block_map :: "generic_bitmap option"
  fs_cluster_ratio_bits :: nat
  fs_default_bitmap_type :: u16
  fs_csum_seed :: u32

section \<open>Features and flags\<close>

definition ext2fs_has_feature_64bit :: "ext2_super_block \<Rightarrow> bool" where
  "ext2fs_has_feature_64bit sb \<longleftrightarrow> s_feature_incompat sb AND 0x0080 \<noteq> 0"

definition ext2fs_has_feature_largedir :: "ext2_super_block \<Rightarrow> bool" where
  "ext2fs_has_feature_largedir sb \<longleftrightarrow> s_feature_incompat sb AND 0x4000 \<noteq> 0"

definition ext2fs_set_feature_largedir :: "ext2_super_block \<Rightarrow> ext2_super_block" where
  "ext2fs_set_feature_largedir sb = sb\<lparr>s_feature_incompat := s_feature_incompat sb OR 0x4000\<rparr>"

definition ext2fs_has_feature_large_file :: "ext2_super_block \<Rightarrow> bool" where
  "ext2fs_has_feature_large_file sb \<longleftrightarrow> s_feature_ro_compat sb AND 0x0002 \<noteq> 0"

definition ext2fs_set_feature_large_file :: "ext2_super_block \<Rightarrow> ext2_super_block" where
  "ext2fs_set_feature_large_file sb = sb\<lparr>s_feature_ro_compat := s_feature_ro_compat sb OR 0x0002\<rparr>"

definition ext2fs_has_feature_huge_file :: "ext2_super_block \<Rightarrow> bool" where
  "ext2fs_has_feature_huge_file sb \<longleftrightarrow> s_feature_ro_compat sb AND 0x0008 \<noteq> 0"

definition ext2fs_has_feature_gdt_csum :: "ext2_super_block \<Rightarrow> bool" where
  "ext2fs_has_feature_gdt_csum sb \<longleftrightarrow> s_feature_ro_compat sb AND 0x0010 \<noteq> 0"

definition ext2fs_has_feature_metadata_csum :: "ext2_super_block \<Rightarrow> bool" where
  "ext2fs_has_feature_metadata_csum sb \<longleftrightarrow> s_feature_ro_compat sb AND 0x0400 \<noteq> 0"

definition ext2fs_has_feature_ea_inode :: "ext2_super_block \<Rightarrow> bool" where
  "ext2fs_has_feature_ea_inode sb \<longleftrightarrow> s_feature_incompat sb AND 0x0400 \<noteq> 0"

definition ext2fs_has_feature_csum_seed :: "ext2_super_block \<Rightarrow> bool" where
  "ext2fs_has_feature_csum_seed sb \<longleftrightarrow> s_feature_incompat sb AND 0x2000 \<noteq> 0"

definition ext2fs_has_group_desc_csum :: "ext2_filsys \<Rightarrow> bool" where
  "ext2fs_has_group_desc_csum fs \<longleftrightarrow>
     ext2fs_has_feature_metadata_csum (fs_super fs) \<or> ext2fs_has_feature_gdt_csum (fs_super fs)"

abbreviation EXT2_FLAG_CHANGED :: u32 where "EXT2_FLAG_CHANGED \<equiv> 0x02"
abbreviation EXT2_FLAG_DIRTY :: u32 where "EXT2_FLAG_DIRTY \<equiv> 0x04"
abbreviation EXT2_FLAG_VALID :: u32 where "EXT2_FLAG_VALID \<equiv> 0x08"
abbreviation EXT2_FLAG_IB_DIRTY :: u32 where "EXT2_FLAG_IB_DIRTY \<equiv> 0x10"
abbreviation EXT2_FLAG_BB_DIRTY :: u32 where "EXT2_FLAG_BB_DIRTY \<equiv> 0x20"
abbreviation EXT2_FLAG_SWAP_BYTES :: u32 where "EXT2_FLAG_SWAP_BYTES \<equiv> 0x40"
abbreviation EXT2_FLAG_IGNORE_CSUM_ERRORS :: u32 where "EXT2_FLAG_IGNORE_CSUM_ERRORS \<equiv> 0x200000"
abbreviation EXT2_FLAG_64BITS :: u32 where "EXT2_FLAG_64BITS \<equiv> 0x20000"

abbreviation EXT2_BG_INODE_UNINIT :: u16 where "EXT2_BG_INODE_UNINIT \<equiv> 0x0001"
abbreviation EXT2_BG_BLOCK_UNINIT :: u16 where "EXT2_BG_BLOCK_UNINIT \<equiv> 0x0002"

definition ext2fs_mark_super_dirty :: "ext2_filsys \<Rightarrow> ext2_filsys" where
  "ext2fs_mark_super_dirty fs = fs\<lparr>fs_flags := fs_flags fs OR (EXT2_FLAG_DIRTY OR EXT2_FLAG_CHANGED)\<rparr>"

definition ext2fs_mark_changed :: "ext2_filsys \<Rightarrow> ext2_filsys" where
  "ext2fs_mark_changed fs = fs\<lparr>fs_flags := fs_flags fs OR EXT2_FLAG_CHANGED\<rparr>"

definition ext2fs_test_changed :: "ext2_filsys \<Rightarrow> u32" where
  "ext2fs_test_changed fs = fs_flags fs AND EXT2_FLAG_CHANGED"

definition ext2fs_mark_valid :: "ext2_filsys \<Rightarrow> ext2_filsys" where
  "ext2fs_mark_valid fs = fs\<lparr>fs_flags := fs_flags fs OR EXT2_FLAG_VALID\<rparr>"

definition ext2fs_unmark_valid :: "ext2_filsys \<Rightarrow> ext2_filsys" where
  "ext2fs_unmark_valid fs = fs\<lparr>fs_flags := fs_flags fs AND NOT EXT2_FLAG_VALID\<rparr>"

definition ext2fs_test_valid :: "ext2_filsys \<Rightarrow> u32" where
  "ext2fs_test_valid fs = fs_flags fs AND EXT2_FLAG_VALID"

definition ext2fs_mark_ib_dirty :: "ext2_filsys \<Rightarrow> ext2_filsys" where
  "ext2fs_mark_ib_dirty fs = fs\<lparr>fs_flags := fs_flags fs OR (EXT2_FLAG_IB_DIRTY OR EXT2_FLAG_CHANGED)\<rparr>"

definition ext2fs_mark_bb_dirty :: "ext2_filsys \<Rightarrow> ext2_filsys" where
  "ext2fs_mark_bb_dirty fs = fs\<lparr>fs_flags := fs_flags fs OR (EXT2_FLAG_BB_DIRTY OR EXT2_FLAG_CHANGED)\<rparr>"

definition ext2fs_test_ib_dirty :: "ext2_filsys \<Rightarrow> u32" where
  "ext2fs_test_ib_dirty fs = fs_flags fs AND EXT2_FLAG_IB_DIRTY"

definition ext2fs_test_bb_dirty :: "ext2_filsys \<Rightarrow> u32" where
  "ext2fs_test_bb_dirty fs = fs_flags fs AND EXT2_FLAG_BB_DIRTY"

section \<open>Clusters, inodes and divisions\<close>

definition EXT2FS_CLUSTER_RATIO :: "ext2_filsys \<Rightarrow> u64" where
  "EXT2FS_CLUSTER_RATIO fs = push_bit (fs_cluster_ratio_bits fs) 1"

definition EXT2FS_CLUSTER_MASK :: "ext2_filsys \<Rightarrow> u64" where
  "EXT2FS_CLUSTER_MASK fs = EXT2FS_CLUSTER_RATIO fs - 1"

definition EXT2FS_B2C :: "ext2_filsys \<Rightarrow> u64 \<Rightarrow> u64" where
  "EXT2FS_B2C fs blk = drop_bit (fs_cluster_ratio_bits fs) blk"

definition EXT2FS_C2B :: "ext2_filsys \<Rightarrow> u64 \<Rightarrow> u64" where
  "EXT2FS_C2B fs cluster = push_bit (fs_cluster_ratio_bits fs) cluster"

definition EXT2FS_NUM_B2C :: "ext2_filsys \<Rightarrow> u64 \<Rightarrow> u64" where
  "EXT2FS_NUM_B2C fs blks = drop_bit (fs_cluster_ratio_bits fs) (blks + EXT2FS_CLUSTER_MASK fs)"

definition EXT2_INODE_SIZE :: "ext2_super_block \<Rightarrow> u16" where
  "EXT2_INODE_SIZE sb = (if s_rev_level sb = 0 then 128 else s_inode_size sb)"

definition EXT2_FIRST_INODE :: "ext2_super_block \<Rightarrow> u32" where
  "EXT2_FIRST_INODE sb = (if s_rev_level sb = 0 then 11 else s_first_ino sb)"

definition ext2fs_group_of_ino :: "ext2_filsys \<Rightarrow> u32 \<Rightarrow> u32" where
  "ext2fs_group_of_ino fs ino = (ino - 1) div s_inodes_per_group (fs_super fs)"

definition ext2fs_div_ceil :: "u32 \<Rightarrow> u32 \<Rightarrow> u32" where
  "ext2fs_div_ceil a b = (if a = 0 then 0 else (a - 1) div b + 1)"

definition ext2fs_div64_ceil :: "u64 \<Rightarrow> u64 \<Rightarrow> u64" where
  "ext2fs_div64_ceil a b = (if a = 0 then 0 else (a - 1) div b + 1)"

definition ext2fs_needs_large_file_feature :: "u64 \<Rightarrow> bool" where
  "ext2fs_needs_large_file_feature file_size \<longleftrightarrow> file_size \<ge> 0x80000000"

definition ext2fs_update_dynamic_rev :: "ext2_filsys \<Rightarrow> ext2_filsys" where
  "ext2fs_update_dynamic_rev fs =
     (if s_rev_level (fs_super fs) > 0 then fs
      else fs\<lparr>fs_super := (fs_super fs)\<lparr>s_rev_level := 1, s_first_ino := 11, s_inode_size := 128\<rparr>\<rparr>)"

text \<open>\<open>ext2fs_resize_array\<close> on the bytes of the array: the outcome of \<open>realloc\<close> is
  \<open>mem\<close>, what it leaves in the new part is \<open>junk\<close>. \<open>unsigned long\<close> has 64 bits.\<close>

definition ext2fs_resize_array :: "bool \<Rightarrow> (nat \<Rightarrow> u8) \<Rightarrow> u64 \<Rightarrow> u64 \<Rightarrow> u64 \<Rightarrow> u8 list \<Rightarrow> errcode \<times> u8 list" where
  "ext2fs_resize_array mem junk sz old_count count p =
     (if count \<noteq> 0 \<and> (- 1) div count < sz then (EXT2_ET_NO_MEMORY, p)
      else
        let sz = sz * count; old_size = sz * old_count
        in if \<not> mem then (EXT2_ET_NO_MEMORY, p)
           else
             let p = resize_mem junk (unat sz) p
             in (0, if sz > old_size then memset p (unat old_size) 0 (unat (sz - old_size)) else p))"

end
