(* ===== verification/Blknum.thy ===== *)
theory Blknum
  imports Filsys
begin

text \<open>
  \<open>lib/ext2fs/blknum.c\<close>: 64-bit block numbers and counts that are stored in two
  halves, of the super block, the group descriptors and the inodes, and the
  blocks of a group. \<open>lib/ext2fs/get_num_dirs.c\<close> sums one of the counters. The
  descriptors have been read: \<open>fs->group_desc\<close> is not null.
\<close>

section \<open>The super block\<close>

definition ext2fs_blocks_count :: "ext2_super_block \<Rightarrow> u64" where
  "ext2fs_blocks_count super =
     ucast (s_blocks_count super) OR
     (if ext2fs_has_feature_64bit super then push_bit 32 (ucast (s_blocks_count_hi super)) else 0)"

definition ext2fs_blocks_count_set :: "ext2_super_block \<Rightarrow> u64 \<Rightarrow> ext2_super_block" where
  "ext2fs_blocks_count_set super blk =
     (let super = super\<lparr>s_blocks_count := ucast blk\<rparr>
      in if ext2fs_has_feature_64bit super then super\<lparr>s_blocks_count_hi := ucast (drop_bit 32 blk)\<rparr> else super)"

definition ext2fs_blocks_count_add :: "ext2_super_block \<Rightarrow> u64 \<Rightarrow> ext2_super_block" where
  "ext2fs_blocks_count_add super blk = ext2fs_blocks_count_set super (ext2fs_blocks_count super + blk)"

definition ext2fs_r_blocks_count :: "ext2_super_block \<Rightarrow> u64" where
  "ext2fs_r_blocks_count super =
     ucast (s_r_blocks_count super) OR
     (if ext2fs_has_feature_64bit super then push_bit 32 (ucast (s_r_blocks_count_hi super)) else 0)"

definition ext2fs_r_blocks_count_set :: "ext2_super_block \<Rightarrow> u64 \<Rightarrow> ext2_super_block" where
  "ext2fs_r_blocks_count_set super blk =
     (let super = super\<lparr>s_r_blocks_count := ucast blk\<rparr>
      in if ext2fs_has_feature_64bit super then super\<lparr>s_r_blocks_count_hi := ucast (drop_bit 32 blk)\<rparr> else super)"

definition ext2fs_r_blocks_count_add :: "ext2_super_block \<Rightarrow> u64 \<Rightarrow> ext2_super_block" where
  "ext2fs_r_blocks_count_add super blk = ext2fs_r_blocks_count_set super (ext2fs_r_blocks_count super + blk)"

definition ext2fs_free_blocks_count :: "ext2_super_block \<Rightarrow> u64" where
  "ext2fs_free_blocks_count super =
     ucast (s_free_blocks_count super) OR
     (if ext2fs_has_feature_64bit super then push_bit 32 (ucast (s_free_blocks_hi super)) else 0)"

definition ext2fs_free_blocks_count_set :: "ext2_super_block \<Rightarrow> u64 \<Rightarrow> ext2_super_block" where
  "ext2fs_free_blocks_count_set super blk =
     (let super = super\<lparr>s_free_blocks_count := ucast blk\<rparr>
      in if ext2fs_has_feature_64bit super then super\<lparr>s_free_blocks_hi := ucast (drop_bit 32 blk)\<rparr> else super)"

definition ext2fs_free_blocks_count_add :: "ext2_super_block \<Rightarrow> u64 \<Rightarrow> ext2_super_block" where
  "ext2fs_free_blocks_count_add super blk = ext2fs_free_blocks_count_set super (ext2fs_free_blocks_count super + blk)"

section \<open>The blocks of a group\<close>

definition ext2fs_group_of_blk2 :: "ext2_filsys \<Rightarrow> u64 \<Rightarrow> u32" where
  "ext2fs_group_of_blk2 fs blk =
     ucast ((blk - ucast (s_first_data_block (fs_super fs))) div ucast (s_blocks_per_group (fs_super fs)))"

definition ext2fs_group_first_block2 :: "ext2_filsys \<Rightarrow> u32 \<Rightarrow> u64" where
  "ext2fs_group_first_block2 fs grp =
     ucast (s_first_data_block (fs_super fs)) + ucast (s_blocks_per_group (fs_super fs)) * ucast grp"

definition ext2fs_group_last_block2 :: "ext2_filsys \<Rightarrow> u32 \<Rightarrow> u64" where
  "ext2fs_group_last_block2 fs grp =
     (if grp = fs_group_desc_count fs - 1 then ext2fs_blocks_count (fs_super fs) - 1
      else ext2fs_group_first_block2 fs grp + ucast (s_blocks_per_group (fs_super fs) - 1))"

definition ext2fs_group_blocks_count :: "ext2_filsys \<Rightarrow> u32 \<Rightarrow> int" where
  "ext2fs_group_blocks_count fs grp =
     (if grp = fs_group_desc_count fs - 1
      then
        let num_blocks = sint (ucast ((ext2fs_blocks_count (fs_super fs) - ucast (s_first_data_block (fs_super fs)))
                           mod ucast (s_blocks_per_group (fs_super fs))) :: u32)
        in if num_blocks = 0 then sint (s_blocks_per_group (fs_super fs)) else num_blocks
      else sint (s_blocks_per_group (fs_super fs)))"

section \<open>Counts of an inode\<close>

definition ext2fs_inode_i_blocks :: "ext2_filsys \<Rightarrow> ext2_inode \<Rightarrow> u64" where
  "ext2fs_inode_i_blocks fs inode =
     ucast (i_blocks inode) OR
     (if ext2fs_has_feature_huge_file (fs_super fs) then push_bit 32 (ucast (l_i_blocks_hi inode)) else 0)"

definition ext2fs_inode_data_blocks2 :: "ext2_filsys \<Rightarrow> ext2_inode \<Rightarrow> u64" where
  "ext2fs_inode_data_blocks2 fs inode =
     (ucast (i_blocks inode) OR
      (if ext2fs_has_feature_huge_file (fs_super fs) then push_bit 32 (ucast (l_i_blocks_hi inode)) else 0)) -
     (if i_file_acl inode \<noteq> 0 then drop_bit 9 (push_bit (unat (s_log_cluster_size (fs_super fs))) 1024) else 0)"

definition ext2fs_get_stat_i_blocks :: "ext2_filsys \<Rightarrow> ext2_inode \<Rightarrow> u64" where
  "ext2fs_get_stat_i_blocks fs inode =
     (let ret = ucast (i_blocks inode)
      in if ext2fs_has_feature_huge_file (fs_super fs)
         then
           let ret = ret + push_bit 32 (ucast (l_i_blocks_hi inode))
           in if i_flags inode AND 0x00040000 \<noteq> 0 then ret * ucast (fs_blocksize fs div 512) else ret
         else ret)"

text \<open>\<open>fs\<close> may be a null pointer here.\<close>

definition ext2fs_file_acl_block :: "ext2_filsys option \<Rightarrow> ext2_inode \<Rightarrow> u64" where
  "ext2fs_file_acl_block fs inode =
     (case fs of
        Some f \<Rightarrow> if ext2fs_has_feature_64bit (fs_super f)
                  then ucast (i_file_acl inode) OR push_bit 32 (ucast (l_i_file_acl_high inode))
                  else ucast (i_file_acl inode)
      | None \<Rightarrow> ucast (i_file_acl inode))"

definition ext2fs_file_acl_block_set :: "ext2_filsys option \<Rightarrow> ext2_inode \<Rightarrow> u64 \<Rightarrow> ext2_inode" where
  "ext2fs_file_acl_block_set fs inode blk =
     (let inode = inode\<lparr>i_file_acl := ucast blk\<rparr>
      in case fs of
           Some f \<Rightarrow> if ext2fs_has_feature_64bit (fs_super f)
                     then inode\<lparr>l_i_file_acl_high := ucast (drop_bit 32 blk)\<rparr> else inode
         | None \<Rightarrow> inode)"

abbreviation EXT2_I_SIZE :: "ext2_inode \<Rightarrow> u64" where
  "EXT2_I_SIZE inode \<equiv> ucast (i_size inode) OR push_bit 32 (ucast (i_size_high inode))"

abbreviation LINUX_S_ISREG :: "u16 \<Rightarrow> bool" where
  "LINUX_S_ISREG m \<equiv> m AND 0xF000 = 0x8000"

abbreviation LINUX_S_ISDIR :: "u16 \<Rightarrow> bool" where
  "LINUX_S_ISDIR m \<equiv> m AND 0xF000 = 0x4000"

text \<open>\<open>sz\<close> is a signed 64-bit number. \<open>size_feature\<close> is the part that turns a
  feature on: the file system and whether it was off.\<close>

definition size_feature :: "ext2_filsys \<Rightarrow> ext2_inode \<Rightarrow> (ext2_filsys \<times> bool) option" where
  "size_feature fs inode =
     (if LINUX_S_ISREG (i_mode inode)
      then Some (if \<not> ext2fs_has_feature_large_file (fs_super fs)
                 then (fs\<lparr>fs_super := ext2fs_set_feature_large_file (fs_super fs)\<rparr>, True) else (fs, False))
      else if LINUX_S_ISDIR (i_mode inode)
      then Some (if \<not> ext2fs_has_feature_largedir (fs_super fs)
                 then (fs\<lparr>fs_super := ext2fs_set_feature_largedir (fs_super fs)\<rparr>, True) else (fs, False))
      else None)"

definition ext2fs_inode_size_set :: "ext2_filsys \<Rightarrow> ext2_inode \<Rightarrow> int \<Rightarrow> errcode \<times> ext2_filsys \<times> ext2_inode" where
  "ext2fs_inode_size_set fs inode sz =
     (if sz < 0 then (EINVAL, fs, inode)
      else
        let set_size = (\<lambda>fs. (0, fs, inode\<lparr>i_size := ucast ((word_of_int sz :: u64) AND 0xffffffff),
                                i_size_high := ucast (drop_bit 32 (word_of_int sz :: u64))\<rparr>))
        in if ext2fs_needs_large_file_feature (word_of_int sz)
           then case size_feature fs inode of
                  None \<Rightarrow> (EXT2_ET_FILE_TOO_BIG, fs, inode)
                | Some (fs, dirty_sb) \<Rightarrow>
                    if dirty_sb
                    then
                      let fs = (if s_rev_level (fs_super fs) = 0 then ext2fs_update_dynamic_rev fs else fs)
                      in set_size (ext2fs_mark_super_dirty fs)
                    else set_size fs
           else set_size fs)"

section \<open>Group descriptors\<close>

definition EXT2_DESC_SIZE :: "ext2_super_block \<Rightarrow> nat" where
  "EXT2_DESC_SIZE sb = (if ext2fs_has_feature_64bit sb then unat (s_desc_size sb) else 32)"

text \<open>The pointer to a descriptor is its index; \<open>None\<close> is the null pointer.\<close>

definition ext2fs_group_desc :: "ext2_filsys \<Rightarrow> u32 \<Rightarrow> nat option" where
  "ext2fs_group_desc fs grp = (if grp > fs_group_desc_count fs then None else Some (unat grp))"

abbreviation ext4fs_group_desc :: "ext2_filsys \<Rightarrow> u32 \<Rightarrow> ext4_group_desc" where
  "ext4fs_group_desc fs grp \<equiv> fs_group_desc fs ! the (ext2fs_group_desc fs grp)"

definition gd_upd :: "(ext4_group_desc \<Rightarrow> ext4_group_desc) \<Rightarrow> ext2_filsys \<Rightarrow> u32 \<Rightarrow> ext2_filsys" where
  "gd_upd f fs grp =
     fs\<lparr>fs_group_desc := (fs_group_desc fs)[the (ext2fs_group_desc fs grp) := f (ext4fs_group_desc fs grp)]\<rparr>"

definition ext2fs_block_bitmap_checksum :: "ext2_filsys \<Rightarrow> u32 \<Rightarrow> u32" where
  "ext2fs_block_bitmap_checksum fs grp =
     (let gdp = ext4fs_group_desc fs grp; csum = ucast (bg_block_bitmap_csum_lo gdp)
      in if EXT2_DESC_SIZE (fs_super fs) \<ge> 0x3A
         then csum OR push_bit 16 (ucast (bg_block_bitmap_csum_hi gdp)) else csum)"

definition ext2fs_block_bitmap_loc :: "ext2_filsys \<Rightarrow> u32 \<Rightarrow> u64" where
  "ext2fs_block_bitmap_loc fs grp =
     (let gdp = ext4fs_group_desc fs grp
      in ucast (bg_block_bitmap gdp) OR
         (if ext2fs_has_feature_64bit (fs_super fs) then push_bit 32 (ucast (bg_block_bitmap_hi gdp)) else 0))"

definition ext2fs_block_bitmap_loc_set :: "ext2_filsys \<Rightarrow> u32 \<Rightarrow> u64 \<Rightarrow> ext2_filsys" where
  "ext2fs_block_bitmap_loc_set fs grp blk =
     gd_upd (\<lambda>gdp.
       let gdp = gdp\<lparr>bg_block_bitmap := ucast blk\<rparr>
       in if ext2fs_has_feature_64bit (fs_super fs)
          then gdp\<lparr>bg_block_bitmap_hi := ucast (drop_bit 32 blk)\<rparr> else gdp) fs grp"

definition ext2fs_inode_bitmap_checksum :: "ext2_filsys \<Rightarrow> u32 \<Rightarrow> u32" where
  "ext2fs_inode_bitmap_checksum fs grp =
     (let gdp = ext4fs_group_desc fs grp; csum = ucast (bg_inode_bitmap_csum_lo gdp)
      in if EXT2_DESC_SIZE (fs_super fs) \<ge> 0x3C
         then csum OR push_bit 16 (ucast (bg_inode_bitmap_csum_hi gdp)) else csum)"

definition ext2fs_inode_bitmap_loc :: "ext2_filsys \<Rightarrow> u32 \<Rightarrow> u64" where
  "ext2fs_inode_bitmap_loc fs grp =
     (let gdp = ext4fs_group_desc fs grp
      in ucast (bg_inode_bitmap gdp) OR
         (if ext2fs_has_feature_64bit (fs_super fs) then push_bit 32 (ucast (bg_inode_bitmap_hi gdp)) else 0))"

definition ext2fs_inode_bitmap_loc_set :: "ext2_filsys \<Rightarrow> u32 \<Rightarrow> u64 \<Rightarrow> ext2_filsys" where
  "ext2fs_inode_bitmap_loc_set fs grp blk =
     gd_upd (\<lambda>gdp.
       let gdp = gdp\<lparr>bg_inode_bitmap := ucast blk\<rparr>
       in if ext2fs_has_feature_64bit (fs_super fs)
          then gdp\<lparr>bg_inode_bitmap_hi := ucast (drop_bit 32 blk)\<rparr> else gdp) fs grp"

definition ext2fs_inode_table_loc :: "ext2_filsys \<Rightarrow> u32 \<Rightarrow> u64" where
  "ext2fs_inode_table_loc fs grp =
     (let gdp = ext4fs_group_desc fs grp
      in ucast (bg_inode_table gdp) OR
         (if ext2fs_has_feature_64bit (fs_super fs) then push_bit 32 (ucast (bg_inode_table_hi gdp)) else 0))"

definition ext2fs_inode_table_loc_set :: "ext2_filsys \<Rightarrow> u32 \<Rightarrow> u64 \<Rightarrow> ext2_filsys" where
  "ext2fs_inode_table_loc_set fs grp blk =
     gd_upd (\<lambda>gdp.
       let gdp = gdp\<lparr>bg_inode_table := ucast blk\<rparr>
       in if ext2fs_has_feature_64bit (fs_super fs)
          then gdp\<lparr>bg_inode_table_hi := ucast (drop_bit 32 blk)\<rparr> else gdp) fs grp"

definition ext2fs_bg_free_blocks_count :: "ext2_filsys \<Rightarrow> u32 \<Rightarrow> u32" where
  "ext2fs_bg_free_blocks_count fs grp =
     (let gdp = ext4fs_group_desc fs grp
      in ucast (bg_free_blocks_count gdp) OR
         (if ext2fs_has_feature_64bit (fs_super fs) then push_bit 16 (ucast (bg_free_blocks_count_hi gdp)) else 0))"

definition ext2fs_bg_free_blocks_count_set :: "ext2_filsys \<Rightarrow> u32 \<Rightarrow> u32 \<Rightarrow> ext2_filsys" where
  "ext2fs_bg_free_blocks_count_set fs grp n =
     gd_upd (\<lambda>gdp.
       let gdp = gdp\<lparr>bg_free_blocks_count := ucast n\<rparr>
       in if ext2fs_has_feature_64bit (fs_super fs)
          then gdp\<lparr>bg_free_blocks_count_hi := ucast (drop_bit 16 n)\<rparr> else gdp) fs grp"

definition ext2fs_bg_free_inodes_count :: "ext2_filsys \<Rightarrow> u32 \<Rightarrow> u32" where
  "ext2fs_bg_free_inodes_count fs grp =
     (let gdp = ext4fs_group_desc fs grp
      in ucast (bg_free_inodes_count gdp) OR
         (if ext2fs_has_feature_64bit (fs_super fs) then push_bit 16 (ucast (bg_free_inodes_count_hi gdp)) else 0))"

definition ext2fs_bg_free_inodes_count_set :: "ext2_filsys \<Rightarrow> u32 \<Rightarrow> u32 \<Rightarrow> ext2_filsys" where
  "ext2fs_bg_free_inodes_count_set fs grp n =
     gd_upd (\<lambda>gdp.
       let gdp = gdp\<lparr>bg_free_inodes_count := ucast n\<rparr>
       in if ext2fs_has_feature_64bit (fs_super fs)
          then gdp\<lparr>bg_free_inodes_count_hi := ucast (drop_bit 16 n)\<rparr> else gdp) fs grp"

definition ext2fs_bg_used_dirs_count :: "ext2_filsys \<Rightarrow> u32 \<Rightarrow> u32" where
  "ext2fs_bg_used_dirs_count fs grp =
     (let gdp = ext4fs_group_desc fs grp
      in ucast (bg_used_dirs_count gdp) OR
         (if ext2fs_has_feature_64bit (fs_super fs) then push_bit 16 (ucast (bg_used_dirs_count_hi gdp)) else 0))"

definition ext2fs_bg_used_dirs_count_set :: "ext2_filsys \<Rightarrow> u32 \<Rightarrow> u32 \<Rightarrow> ext2_filsys" where
  "ext2fs_bg_used_dirs_count_set fs grp n =
     gd_upd (\<lambda>gdp.
       let gdp = gdp\<lparr>bg_used_dirs_count := ucast n\<rparr>
       in if ext2fs_has_feature_64bit (fs_super fs)
          then gdp\<lparr>bg_used_dirs_count_hi := ucast (drop_bit 16 n)\<rparr> else gdp) fs grp"

definition ext2fs_bg_itable_unused :: "ext2_filsys \<Rightarrow> u32 \<Rightarrow> u32" where
  "ext2fs_bg_itable_unused fs grp =
     (let gdp = ext4fs_group_desc fs grp
      in ucast (bg_itable_unused gdp) OR
         (if ext2fs_has_feature_64bit (fs_super fs) then push_bit 16 (ucast (bg_itable_unused_hi gdp)) else 0))"

definition ext2fs_bg_itable_unused_set :: "ext2_filsys \<Rightarrow> u32 \<Rightarrow> u32 \<Rightarrow> ext2_filsys" where
  "ext2fs_bg_itable_unused_set fs grp n =
     gd_upd (\<lambda>gdp.
       let gdp = gdp\<lparr>bg_itable_unused := ucast n\<rparr>
       in if ext2fs_has_feature_64bit (fs_super fs)
          then gdp\<lparr>bg_itable_unused_hi := ucast (drop_bit 16 n)\<rparr> else gdp) fs grp"

definition ext2fs_bg_flags :: "ext2_filsys \<Rightarrow> u32 \<Rightarrow> u16" where
  "ext2fs_bg_flags fs grp = bg_flags (ext4fs_group_desc fs grp)"

definition ext2fs_bg_flags_zap :: "ext2_filsys \<Rightarrow> u32 \<Rightarrow> ext2_filsys" where
  "ext2fs_bg_flags_zap fs grp = gd_upd (\<lambda>gdp. gdp\<lparr>bg_flags := 0\<rparr>) fs grp"

definition ext2fs_bg_flags_test :: "ext2_filsys \<Rightarrow> u32 \<Rightarrow> u16 \<Rightarrow> u16" where
  "ext2fs_bg_flags_test fs grp bg_flag = bg_flags (ext4fs_group_desc fs grp) AND bg_flag"

definition ext2fs_bg_flags_set :: "ext2_filsys \<Rightarrow> u32 \<Rightarrow> u16 \<Rightarrow> ext2_filsys" where
  "ext2fs_bg_flags_set fs grp flags = gd_upd (\<lambda>gdp. gdp\<lparr>bg_flags := bg_flags gdp OR flags\<rparr>) fs grp"

definition ext2fs_bg_flags_clear :: "ext2_filsys \<Rightarrow> u32 \<Rightarrow> u16 \<Rightarrow> ext2_filsys" where
  "ext2fs_bg_flags_clear fs grp flags = gd_upd (\<lambda>gdp. gdp\<lparr>bg_flags := bg_flags gdp AND NOT flags\<rparr>) fs grp"

definition ext2fs_bg_checksum :: "ext2_filsys \<Rightarrow> u32 \<Rightarrow> u16" where
  "ext2fs_bg_checksum fs grp = bg_checksum (ext4fs_group_desc fs grp)"

definition ext2fs_bg_checksum_set :: "ext2_filsys \<Rightarrow> u32 \<Rightarrow> u16 \<Rightarrow> ext2_filsys" where
  "ext2fs_bg_checksum_set fs grp checksum = gd_upd (\<lambda>gdp. gdp\<lparr>bg_checksum := checksum\<rparr>) fs grp"

section \<open>The number of directories\<close>

definition ext2fs_get_num_dirs :: "ext2_filsys \<Rightarrow> errcode + u32" where
  "ext2fs_get_num_dirs fs =
     (if fs_magic fs \<noteq> EXT2_ET_MAGIC_EXT2FS_FILSYS then Inl EXT2_ET_MAGIC_EXT2FS_FILSYS
      else
        let max_dirs = s_inodes_per_group (fs_super fs);
            num_dirs = fold (\<lambda>i num_dirs.
                if ext2fs_bg_used_dirs_count fs (word_of_nat i) > max_dirs then num_dirs + max_dirs div 8
                else num_dirs + ext2fs_bg_used_dirs_count fs (word_of_nat i))
              [0..<unat (fs_group_desc_count fs)] 0
        in Inr (if num_dirs > s_inodes_count (fs_super fs) then s_inodes_count (fs_super fs) else num_dirs))"

end
