(* ===== verification/Blkmap64_RB.thy ===== *)
theory Blkmap64_RB
  imports Bmap64 Bitops
begin

text \<open>
  \<open>lib/ext2fs/blkmap64_rb.c\<close>: the bitmap back end that keeps the marked bits as
  a red-black tree of disjoint extents, with a write cursor and a read cursor
  that remember the extents used last. Bit numbers inside the tree are relative
  to the start of the bitmap.

  Every routine works on the tree that \<open>Rbtree\<close> models: a descent
  \<open>while (*n)\<close> is \<open>rb_descend\<close>, which stops at a node or at the null link under
  the last visited node, and \<open>ext2fs_rb_erase\<close>, \<open>ext2fs_rb_insert_color\<close>,
  \<open>ext2fs_rb_next\<close> and \<open>ext2fs_rb_prev\<close> are called where the code calls them.
  A loop \<open>for (node = ...; node; node = ext2fs_rb_next(node))\<close> visits the extents
  from a node on, in order; its body changes or erases only the visited node, so
  it is a recursion over that list. Compile-time options
  \<open>ENABLE_BMAP_STATS_OPS\<close> and \<open>DEBUG_RB\<close> are off. \<open>rb_get_new_extent\<close> aborts
  the process when memory runs out, so an insertion that returns has its node.
\<close>

section \<open>Access to extents through their address\<close>

definition rb_find :: "bmap_rb_extent rb_tree \<Rightarrow> nat \<Rightarrow> bmap_rb_extent option" where
  "rb_find root p = find (\<lambda>e. ext_node e = p) (inorder root)"

text \<open>The extents after the one at address \<open>p\<close>, and from it on.\<close>

definition rb_from :: "bmap_rb_extent rb_tree \<Rightarrow> nat \<Rightarrow> bmap_rb_extent list" where
  "rb_from root p = dropWhile (\<lambda>e. ext_node e \<noteq> p) (inorder root)"

definition rb_after :: "bmap_rb_extent rb_tree \<Rightarrow> nat \<Rightarrow> bmap_rb_extent list" where
  "rb_after root p = tl (rb_from root p)"

definition rb_next_node :: "bmap_rb_extent rb_tree \<Rightarrow> nat \<Rightarrow> bmap_rb_extent option" where
  "rb_next_node root p =
     (case rb_locate (\<lambda>e. ext_node e = p) root [] of
        Some (n, ps) \<Rightarrow> ext2fs_rb_next n ps
      | None \<Rightarrow> None)"

definition rb_prev_node :: "bmap_rb_extent rb_tree \<Rightarrow> nat \<Rightarrow> bmap_rb_extent option" where
  "rb_prev_node root p =
     (case rb_locate (\<lambda>e. ext_node e = p) root [] of
        Some (n, ps) \<Rightarrow> ext2fs_rb_prev n ps
      | None \<Rightarrow> None)"

definition rb_erase_node :: "bmap_rb_extent rb_tree \<Rightarrow> nat \<Rightarrow> bmap_rb_extent rb_tree" where
  "rb_erase_node root p =
     (case rb_locate (\<lambda>e. ext_node e = p) root [] of
        Some (n, ps) \<Rightarrow> ext2fs_rb_erase n ps
      | None \<Rightarrow> root)"

text \<open>The stores \<open>ext->start = start; ext->count = count\<close>.\<close>

definition rb_set_extent :: "nat \<Rightarrow> u64 \<Rightarrow> u64 \<Rightarrow> bmap_rb_extent rb_tree \<Rightarrow> bmap_rb_extent rb_tree" where
  "rb_set_extent p start count root =
     map_rb_tree (\<lambda>e. if ext_node e = p then e\<lparr>ext_start := start, ext_count := count\<rparr> else e) root"

text \<open>The node the last step of a descent came from.\<close>

fun rb_parent :: "'a rb_frame list \<Rightarrow> 'a option" where
  "rb_parent [] = None"
| "rb_parent (In_Left c x r # ps) = Some x"
| "rb_parent (In_Right c l x # ps) = Some x"

fun rb_descend :: "('a \<Rightarrow> bool) \<Rightarrow> ('a \<Rightarrow> bool) \<Rightarrow> 'a rb_tree \<Rightarrow> 'a rb_frame list \<Rightarrow>
    'a rb_tree \<times> 'a rb_frame list" where
  "rb_descend L R Leaf ps = (Leaf, ps)"
| "rb_descend L R (Node c l x r) ps =
     (if L x then rb_descend L R l (In_Left c x r # ps)
      else if R x then rb_descend L R r (In_Right c l x # ps)
      else (Node c l x r, ps))"

text \<open>The descent of all routines but \<open>rb_insert_extent\<close>: to the extent that
  holds the bit \<open>start\<close>.\<close>

definition rb_search :: "u64 \<Rightarrow> bmap_rb_extent rb_tree \<Rightarrow>
    bmap_rb_extent rb_tree \<times> bmap_rb_extent rb_frame list" where
  "rb_search start root =
     rb_descend (\<lambda>ext. start < ext_start ext) (\<lambda>ext. start \<ge> ext_start ext + ext_count ext) root []"

section \<open>Allocation and release\<close>

definition rb_get_new_extent :: "u64 \<Rightarrow> u64 \<Rightarrow> ext2fs_rb_private \<Rightarrow> bmap_rb_extent \<times> ext2fs_rb_private" where
  "rb_get_new_extent start count bp =
     (\<lparr>ext_node = rb_brk bp, ext_start = start, ext_count = count\<rparr>,
      bp\<lparr>rb_brk := Suc (rb_brk bp)\<rparr>)"

definition rb_free_extent :: "ext2fs_rb_private \<Rightarrow> nat \<Rightarrow> ext2fs_rb_private" where
  "rb_free_extent bp ext =
     (let bp = (if wcursor bp = Some ext then bp\<lparr>wcursor := None\<rparr> else bp);
          bp = (if rcursor bp = Some ext then bp\<lparr>rcursor := None\<rparr> else bp)
      in if rcursor_next bp = Some ext then bp\<lparr>rcursor_next := None\<rparr> else bp)"

text \<open>\<open>mem\<close> tells whether \<open>malloc\<close> succeeds.\<close>

definition rb_alloc_private_data :: "bool \<Rightarrow> bmap64 \<Rightarrow> errcode \<times> bmap64" where
  "rb_alloc_private_data mem bitmap =
     (if \<not> mem then (EXT2_ET_NO_MEMORY, bitmap)
      else (0, bitmap\<lparr>bm_private := RB_private
        \<lparr>rb_root = Leaf, wcursor = None, rcursor = None, rcursor_next = None, rb_brk = 0\<rparr>\<rparr>))"

definition rb_new_bmap :: "bool \<Rightarrow> bmap64 \<Rightarrow> errcode \<times> bmap64" where
  "rb_new_bmap mem bitmap =
     (case rb_alloc_private_data mem bitmap of
        (retval, bitmap) \<Rightarrow> if retval \<noteq> 0 then (retval, bitmap) else (0, bitmap))"

text \<open>\<open>bitmap->private\<close> as the rb-tree structure.\<close>

definition rb_priv :: "bmap64 \<Rightarrow> ext2fs_rb_private" where
  "rb_priv bitmap =
     (case bm_private bitmap of
        RB_private bp \<Rightarrow> bp
      | BA_private _ \<Rightarrow> \<lparr>rb_root = Leaf, wcursor = None, rcursor = None, rcursor_next = None, rb_brk = 0\<rparr>)"

abbreviation rb_upd :: "bmap64 \<Rightarrow> ext2fs_rb_private \<Rightarrow> bmap64" where
  "rb_upd bitmap bp \<equiv> bitmap\<lparr>bm_private := RB_private bp\<rparr>"

text \<open>\<open>rb_free_tree\<close> erases the first node until none is left.\<close>

fun rb_free_nodes :: "bmap_rb_extent list \<Rightarrow> bmap_rb_extent rb_tree \<Rightarrow> bmap_rb_extent rb_tree" where
  "rb_free_nodes [] root = root"
| "rb_free_nodes (ext # next) root = rb_free_nodes next (rb_erase_node root (ext_node ext))"

definition rb_free_tree :: "bmap_rb_extent rb_tree \<Rightarrow> bmap_rb_extent rb_tree" where
  "rb_free_tree root = rb_free_nodes (inorder root) root"

section \<open>Testing a bit\<close>

definition rb_test_bit_search :: "ext2fs_rb_private \<Rightarrow> u64 \<Rightarrow> int \<times> ext2fs_rb_private" where
  "rb_test_bit_search bp bitno =
     (case rb_search bitno (rb_root bp) of
        (Leaf, _) \<Rightarrow> (0, bp)
      | (Node _ _ ext _, _) \<Rightarrow> (1, bp\<lparr>rcursor := Some (ext_node ext), rcursor_next := None\<rparr>))"

definition rb_test_bit :: "ext2fs_rb_private \<Rightarrow> u64 \<Rightarrow> int \<times> ext2fs_rb_private" where
  "rb_test_bit bp bitno =
     (case Option.bind (rcursor bp) (rb_find (rb_root bp)) of
        None \<Rightarrow> rb_test_bit_search bp bitno
      | Some rc \<Rightarrow>
          if bitno \<ge> ext_start rc \<and> bitno < ext_start rc + ext_count rc then (1, bp)
          else
            let next_ext = (case rcursor_next bp of
                              Some p \<Rightarrow> rb_find (rb_root bp) p
                            | None \<Rightarrow> rb_next_node (rb_root bp) (ext_node rc));
                bp = bp\<lparr>rcursor_next := map_option ext_node next_ext\<rparr>
            in if (case next_ext of
                     Some nx \<Rightarrow> bitno \<ge> ext_start rc + ext_count rc \<and> bitno < ext_start nx
                   | None \<Rightarrow> False)
               then (0, bp)
               else
                 let bp = bp\<lparr>rcursor := None, rcursor_next := None\<rparr>
                 in case Option.bind (wcursor bp) (rb_find (rb_root bp)) of
                      None \<Rightarrow> rb_test_bit_search bp bitno
                    | Some wc \<Rightarrow>
                        if bitno \<ge> ext_start wc \<and> bitno < ext_start wc + ext_count wc then (1, bp)
                        else rb_test_bit_search bp bitno)"

section \<open>Inserting an extent\<close>

definition rb_erase_free :: "ext2fs_rb_private \<Rightarrow> nat \<Rightarrow> ext2fs_rb_private" where
  "rb_erase_free bp p =
     rb_free_extent (bp\<lparr>rb_root := rb_erase_node (rb_root bp) p\<rparr>) p"

text \<open>The loop that merges the new extent with those to its right.\<close>

fun rb_merge_right :: "bmap_rb_extent list \<Rightarrow> u64 \<Rightarrow> u64 \<Rightarrow> ext2fs_rb_private \<Rightarrow>
    u64 \<times> ext2fs_rb_private" where
  "rb_merge_right [] start count bp = (count, bp)"
| "rb_merge_right (ext # next) start count bp =
     (if ext_start ext + ext_count ext \<le> start then rb_merge_right next start count bp
      else if start + count < ext_start ext then (count, bp)
      else if start + count \<ge> ext_start ext + ext_count ext
      then rb_merge_right next start count (rb_erase_free bp (ext_node ext))
      else (count + ((ext_start ext + ext_count ext) - (start + count)),
            rb_erase_free bp (ext_node ext)))"

text \<open>From the label \<open>skip_insert\<close> on.\<close>

definition rb_skip_insert :: "nat \<Rightarrow> u64 \<Rightarrow> u64 \<Rightarrow> ext2fs_rb_private \<Rightarrow> ext2fs_rb_private" where
  "rb_skip_insert new_ext start count bp =
     (case rb_merge_right (rb_after (rb_root bp) new_ext) start count bp of
        (count, bp) \<Rightarrow> bp\<lparr>rb_root := rb_set_extent new_ext start count (rb_root bp)\<rparr>)"

text \<open>From the label \<open>got_extent\<close> on.\<close>

definition rb_got_extent :: "bmap_rb_extent \<Rightarrow> u64 \<Rightarrow> u64 \<Rightarrow> ext2fs_rb_private \<Rightarrow>
    int \<times> ext2fs_rb_private" where
  "rb_got_extent ext start count bp =
     (if start + count \<le> ext_start ext + ext_count ext then (1, bp)
      else
        (if ext_start ext + ext_count ext = start then 0 else 1,
         rb_skip_insert (ext_node ext) (ext_start ext) (count + (start - ext_start ext)) bp))"

definition rb_insert_extent :: "u64 \<Rightarrow> u64 \<Rightarrow> ext2fs_rb_private \<Rightarrow> int \<times> ext2fs_rb_private" where
  "rb_insert_extent start count bp =
     (if count = 0 then (0, bp)
      else
        let bp = bp\<lparr>rcursor_next := None\<rparr>
        in case (case Option.bind (wcursor bp) (rb_find (rb_root bp)) of
                   Some ext \<Rightarrow>
                     if start \<ge> ext_start ext \<and> start \<le> ext_start ext + ext_count ext
                     then Some ext else None
                 | None \<Rightarrow> None) of
             Some ext \<Rightarrow> rb_got_extent ext start count bp
           | None \<Rightarrow>
               (case rb_descend (\<lambda>ext. start < ext_start ext)
                       (\<lambda>ext. start > ext_start ext + ext_count ext) (rb_root bp) [] of
                  (Node _ _ ext _, _) \<Rightarrow> rb_got_extent ext start count bp
                | (Leaf, ps) \<Rightarrow>
                    (case rb_get_new_extent start count bp of (new_ext, bp) \<Rightarrow>
                       let bp = bp\<lparr>rb_root := ext2fs_rb_insert_color (ext2fs_rb_link_node new_ext) ps,
                                   wcursor := Some (ext_node new_ext)\<rparr>
                       in case rb_prev_node (rb_root bp) (ext_node new_ext) of
                            Some ext \<Rightarrow>
                              if ext_start ext + ext_count ext = start
                              then (0, rb_skip_insert (ext_node new_ext) (ext_start ext)
                                         (count + ext_count ext) (rb_erase_free bp (ext_node ext)))
                              else (0, rb_skip_insert (ext_node new_ext) start count bp)
                          | None \<Rightarrow> (0, rb_skip_insert (ext_node new_ext) start count bp))))"

section \<open>Removing an extent\<close>

text \<open>
  The descent of \<open>rb_remove_extent\<close> and what it does at the extent that holds
  \<open>start\<close>: split it in two, shorten it at its left end (both return), erase it,
  or cut its tail off. In the last case the loop looks at the same node again;
  its end is now \<open>start\<close>, so it goes right.
\<close>

datatype rb_removal =
    RR_Split "bmap_rb_extent rb_tree" u64 u64
  | RR_Shift "bmap_rb_extent rb_tree"
  | RR_Drop "bmap_rb_extent rb_tree" bmap_rb_extent "bmap_rb_extent option" int
  | RR_Scan "bmap_rb_extent rb_tree" "bmap_rb_extent option" int

fun rb_remove_search :: "u64 \<Rightarrow> u64 \<Rightarrow> bmap_rb_extent rb_tree \<Rightarrow> bmap_rb_extent rb_frame list \<Rightarrow>
    int \<Rightarrow> rb_removal" where
  "rb_remove_search start count Leaf ps retval = RR_Scan (plug Leaf ps) (rb_parent ps) retval"
| "rb_remove_search start count (Node c l ext r) ps retval =
     (if start < ext_start ext then rb_remove_search start count l (In_Left c ext r # ps) retval
      else if start \<ge> ext_start ext + ext_count ext
      then rb_remove_search start count r (In_Right c l ext # ps) retval
      else if start > ext_start ext \<and> start + count < ext_start ext + ext_count ext
      then RR_Split (plug (Node c l (ext\<lparr>ext_count := start - ext_start ext\<rparr>) r) ps)
             (start + count) ((ext_start ext + ext_count ext) - (start + count))
      else
        (case (if start + count \<ge> ext_start ext + ext_count ext
               then (start - ext_start ext, 1) else (ext_count ext, retval)) of
           (ecount, retval) \<Rightarrow>
             if ecount = 0
             then RR_Drop (ext2fs_rb_erase (Node c l ext r) ps) ext
                    (ext2fs_rb_next (Node c l ext r) ps) retval
             else if start = ext_start ext
             then RR_Shift (plug (Node c l (ext\<lparr>ext_start := ext_start ext + count,
                                               ext_count := ecount - count\<rparr>) r) ps)
             else rb_remove_search start count r
                    (In_Right c l (ext\<lparr>ext_count := ecount\<rparr>) # ps) retval))"

text \<open>The loop over the extents to the right.\<close>

fun rb_remove_scan :: "bmap_rb_extent list \<Rightarrow> u64 \<Rightarrow> u64 \<Rightarrow> int \<Rightarrow> ext2fs_rb_private \<Rightarrow>
    int \<times> ext2fs_rb_private" where
  "rb_remove_scan [] start count retval bp = (retval, bp)"
| "rb_remove_scan (ext # node) start count retval bp =
     (if ext_start ext + ext_count ext \<le> start then rb_remove_scan node start count retval bp
      else if start + count < ext_start ext then (retval, bp)
      else if start + count \<ge> ext_start ext + ext_count ext
      then rb_remove_scan node start count 1 (rb_erase_free bp (ext_node ext))
      else (1, bp\<lparr>rb_root := rb_set_extent (ext_node ext) (start + count)
                      (ext_count ext - ((start + count) - ext_start ext)) (rb_root bp)\<rparr>))"

definition rb_scan_from :: "bmap_rb_extent rb_tree \<Rightarrow> bmap_rb_extent option \<Rightarrow> bmap_rb_extent list" where
  "rb_scan_from root parent =
     (case parent of None \<Rightarrow> [] | Some p \<Rightarrow> rb_from root (ext_node p))"

definition rb_remove_extent :: "u64 \<Rightarrow> u64 \<Rightarrow> ext2fs_rb_private \<Rightarrow> int \<times> ext2fs_rb_private" where
  "rb_remove_extent start count bp =
     (if ext2fs_rb_empty_root (rb_root bp) then (0, bp)
      else case rb_remove_search start count (rb_root bp) [] 0 of
        RR_Split root new_start new_count \<Rightarrow>
          (1, snd (rb_insert_extent new_start new_count (bp\<lparr>rb_root := root\<rparr>)))
      | RR_Shift root \<Rightarrow> (1, bp\<lparr>rb_root := root\<rparr>)
      | RR_Drop root ext parent retval \<Rightarrow>
          let bp = rb_free_extent (bp\<lparr>rb_root := root\<rparr>) (ext_node ext)
          in rb_remove_scan (rb_scan_from root parent) start count retval bp
      | RR_Scan root parent retval \<Rightarrow>
          rb_remove_scan (rb_scan_from root parent) start count retval (bp\<lparr>rb_root := root\<rparr>))"

section \<open>Copying, truncating and resizing\<close>

text \<open>The copy loop appends the source extents in order, each under the last
  node; \<open>mem i\<close> tells whether the \<open>i\<close>-th allocation succeeds.\<close>

fun rb_copy_nodes :: "(nat \<Rightarrow> bool) \<Rightarrow> nat \<Rightarrow> bmap_rb_extent list \<Rightarrow> ext2fs_rb_private \<Rightarrow>
    errcode \<times> ext2fs_rb_private" where
  "rb_copy_nodes mem i [] bp = (0, bp)"
| "rb_copy_nodes mem i (src_ext # src) bp =
     (if \<not> mem i then (EXT2_ET_NO_MEMORY, bp)
      else case rb_get_new_extent (ext_start src_ext) (ext_count src_ext) bp of (dest_ext, bp) \<Rightarrow>
        (case rb_descend (\<lambda>_. False) (\<lambda>_. True) (rb_root bp) [] of (_, ps) \<Rightarrow>
           rb_copy_nodes mem (Suc i) src
             (bp\<lparr>rb_root := ext2fs_rb_insert_color (ext2fs_rb_link_node dest_ext) ps\<rparr>)))"

definition rb_copy_bmap :: "bool \<Rightarrow> (nat \<Rightarrow> bool) \<Rightarrow> bmap64 \<Rightarrow> bmap64 \<Rightarrow> errcode \<times> bmap64 \<times> bmap64" where
  "rb_copy_bmap mem ext_mem src dest =
     (case rb_alloc_private_data mem dest of (retval, dest) \<Rightarrow>
        if retval \<noteq> 0 then (retval, src, dest)
        else
          let src = rb_upd src (rb_priv src\<lparr>rcursor := None\<rparr>)
          in case rb_copy_nodes ext_mem 0 (inorder (rb_root (rb_priv src))) (rb_priv dest) of
               (retval, bp) \<Rightarrow> (retval, src, rb_upd dest bp))"

fun rb_truncate_nodes :: "u64 \<Rightarrow> bmap_rb_extent list \<Rightarrow> bmap_rb_extent rb_tree \<Rightarrow>
    bmap_rb_extent rb_tree" where
  "rb_truncate_nodes new_max [] root = root"
| "rb_truncate_nodes new_max (ext # prev) root =
     (if ext_start ext + ext_count ext - 1 \<le> new_max then root
      else if ext_start ext > new_max
      then rb_truncate_nodes new_max prev (rb_erase_node root (ext_node ext))
      else rb_set_extent (ext_node ext) (ext_start ext) (new_max - ext_start ext + 1) root)"

text \<open>\<open>rb_truncate\<close> looks at the last node until it ends at or before
  \<open>new_max\<close>; after a node was shortened to end there, the next look stops.\<close>

definition rb_truncate :: "u64 \<Rightarrow> bmap_rb_extent rb_tree \<Rightarrow> bmap_rb_extent rb_tree" where
  "rb_truncate new_max root = rb_truncate_nodes new_max (rev (inorder root)) root"

definition rb_resize_bmap :: "bmap64 \<Rightarrow> u64 \<Rightarrow> u64 \<Rightarrow> errcode \<times> bmap64" where
  "rb_resize_bmap bmap new_end new_real_end =
     (let bp = rb_priv bmap\<lparr>rcursor := None, wcursor := None\<rparr>;
          bp = bp\<lparr>rb_root := rb_truncate
                 ((if new_end < bm_end bmap then new_end else bm_end bmap) - bm_start bmap) (rb_root bp)\<rparr>;
          bmap = bmap\<lparr>bm_end := new_end, bm_real_end := new_real_end\<rparr>;
          bp = (if bm_end bmap < bm_real_end bmap
                then snd (rb_insert_extent (bm_end bmap + 1 - bm_start bmap)
                            (bm_real_end bmap - bm_end bmap) bp)
                else bp)
      in (0, rb_upd bmap bp))"

section \<open>The operations of the back end\<close>

definition rb_mark_bmap :: "bmap64 \<Rightarrow> u64 \<Rightarrow> int \<times> bmap64" where
  "rb_mark_bmap bitmap arg =
     (case rb_insert_extent (arg - bm_start bitmap) 1 (rb_priv bitmap) of
        (retval, bp) \<Rightarrow> (retval, rb_upd bitmap bp))"

definition rb_unmark_bmap :: "bmap64 \<Rightarrow> u64 \<Rightarrow> int \<times> bmap64" where
  "rb_unmark_bmap bitmap arg =
     (case rb_remove_extent (arg - bm_start bitmap) 1 (rb_priv bitmap) of
        (retval, bp) \<Rightarrow> (retval, rb_upd bitmap bp))"

definition rb_test_bmap :: "bmap64 \<Rightarrow> u64 \<Rightarrow> int \<times> bmap64" where
  "rb_test_bmap bitmap arg =
     (case rb_test_bit (rb_priv bitmap) (arg - bm_start bitmap) of
        (retval, bp) \<Rightarrow> (retval, rb_upd bitmap bp))"

definition rb_mark_bmap_extent :: "bmap64 \<Rightarrow> u64 \<Rightarrow> u32 \<Rightarrow> bmap64" where
  "rb_mark_bmap_extent bitmap arg num =
     rb_upd bitmap (snd (rb_insert_extent (arg - bm_start bitmap) (ucast num) (rb_priv bitmap)))"

definition rb_unmark_bmap_extent :: "bmap64 \<Rightarrow> u64 \<Rightarrow> u32 \<Rightarrow> bmap64" where
  "rb_unmark_bmap_extent bitmap arg num =
     rb_upd bitmap (snd (rb_remove_extent (arg - bm_start bitmap) (ucast num) (rb_priv bitmap)))"

fun rb_test_clear_scan :: "bmap_rb_extent list \<Rightarrow> u64 \<Rightarrow> u64 \<Rightarrow> int" where
  "rb_test_clear_scan [] start len = 1"
| "rb_test_clear_scan (ext # next) start len =
     (if ext_start ext + ext_count ext \<le> start then rb_test_clear_scan next start len
      else if start + len \<le> ext_start ext then 1
      else 0)"

definition rb_test_clear_bmap_extent :: "bmap64 \<Rightarrow> u64 \<Rightarrow> u32 \<Rightarrow> int" where
  "rb_test_clear_bmap_extent bitmap start len =
     (let bp = rb_priv bitmap; start = start - bm_start bitmap
      in if len = 0 \<or> ext2fs_rb_empty_root (rb_root bp) then 1
         else case rb_search start (rb_root bp) of
                (Node _ _ _ _, _) \<Rightarrow> 0
              | (Leaf, ps) \<Rightarrow>
                  rb_test_clear_scan (rb_scan_from (rb_root bp) (rb_parent ps)) start (ucast len))"

text \<open>\<open>first_set\<close> is a C \<open>int\<close> that a \<open>size_t\<close> is assigned to; \<open>-1\<close> is "none".\<close>

definition to_c_int :: "nat \<Rightarrow> int" where
  "to_c_int i = sint (word_of_nat i :: u32)"

function rb_set_range_loop :: "u64 \<Rightarrow> nat \<Rightarrow> u8 list \<Rightarrow> nat \<Rightarrow> int \<Rightarrow> ext2fs_rb_private \<Rightarrow>
    int \<times> ext2fs_rb_private" where
  "rb_set_range_loop base num cp i first_set bp =
     (if i < num then
        if i mod 8 = 0 \<and> cp ! (i div 8) = 0xFF
        then rb_set_range_loop base num cp (i + 8)
               (if first_set = -1 then to_c_int i else first_set) bp
        else if i mod 8 = 0 \<and> cp ! (i div 8) = 0 \<and> first_set = -1
        then rb_set_range_loop base num cp (i + 8) first_set bp
        else if ext2fs_test_bit (word_of_nat i) cp \<noteq> 0
        then rb_set_range_loop base num cp (Suc i)
               (if first_set = -1 then to_c_int i else first_set) bp
        else if first_set = -1 then rb_set_range_loop base num cp (Suc i) first_set bp
        else rb_set_range_loop base num cp (Suc i) (-1)
               (snd (rb_insert_extent (base + word_of_int first_set)
                       (word_of_nat i - word_of_int first_set) bp))
      else (first_set, bp))"
  by pat_completeness auto
termination
  by (relation "measure (\<lambda>(base, num, cp, i, first_set, bp). num - i)") auto

declare rb_set_range_loop.simps [simp del]

definition rb_set_bmap_range :: "bmap64 \<Rightarrow> u64 \<Rightarrow> u64 \<Rightarrow> u8 list \<Rightarrow> errcode \<times> bmap64" where
  "rb_set_bmap_range bitmap start num cp =
     (case rb_set_range_loop (start - bm_start bitmap) (unat num) cp 0 (-1) (rb_priv bitmap) of
        (first_set, bp) \<Rightarrow>
          if first_set \<noteq> -1
          then (0, rb_upd bitmap (snd (rb_insert_extent
                     ((start - bm_start bitmap) + word_of_int first_set)
                     (num - word_of_int first_set) bp)))
          else (0, rb_upd bitmap bp))"

function rb_get_fill :: "u64 \<Rightarrow> u64 \<Rightarrow> u64 \<Rightarrow> u8 list \<Rightarrow> u8 list" where
  "rb_get_fill start pos count out =
     (if count > 0 then
        if count \<ge> 8 \<and> (pos - start) mod 8 = 0
        then let nbytes = drop_bit 3 count; offset = drop_bit 3 (pos - start)
             in rb_get_fill start (pos + push_bit 3 nbytes) (count - push_bit 3 nbytes)
                  (memset out (unat offset) 0xFF (unat nbytes))
        else rb_get_fill start (pos + 1) (count - 1) (ext2fs_fast_set_bit64 (pos - start) out)
      else out)"
  by pat_completeness auto
termination
proof (relation "measure (\<lambda>(start, pos, count, out). unat count)", goal_cases)
  case (2 start pos count out nbytes offset)
  have "unat (push_bit 3 nbytes) = 8 * (unat count div 8)"
    by (simp only: 2 unat_push_drop_3)
  moreover from 2 have "8 \<le> unat count" by (simp add: word_le_nat_alt)
  moreover have "unat (count - push_bit 3 nbytes) = unat count - unat (push_bit 3 nbytes)"
    using calculation by (intro unat_minus_le) simp
  ultimately show ?case by simp
next
  case (3 start pos count out)
  then show ?case by (simp add: word_less_nat_alt unat_minus_le)
qed simp

declare rb_get_fill.simps [simp del]

fun rb_get_scan :: "bmap_rb_extent list \<Rightarrow> u64 \<Rightarrow> u64 \<Rightarrow> u8 list \<Rightarrow> u8 list" where
  "rb_get_scan [] start num out = out"
| "rb_get_scan (ext # next) start num out =
     (let pos = ext_start ext; count = ext_count ext
      in if pos \<ge> start + num then out
         else if pos < start \<and> pos + count < start then rb_get_scan next start num out
         else
           let (count, pos) = (if pos < start then (count - (start - pos), start) else (count, pos));
               count = (if pos + count > start + num then start + num - pos else count)
           in rb_get_scan next start num (rb_get_fill start pos count out))"

definition rb_get_bmap_range :: "bmap64 \<Rightarrow> u64 \<Rightarrow> u64 \<Rightarrow> u8 list \<Rightarrow> errcode \<times> u8 list" where
  "rb_get_bmap_range bitmap start num out =
     (let bp = rb_priv bitmap; start = start - bm_start bitmap
      in if ext2fs_rb_empty_root (rb_root bp) then (0, out)
         else
           let parent = (case rb_search start (rb_root bp) of
                           (Node _ _ ext _, _) \<Rightarrow> Some ext
                         | (Leaf, ps) \<Rightarrow> rb_parent ps)
           in (0, rb_get_scan (rb_scan_from (rb_root bp) parent) start num
                    (memset out 0 0 (unat (drop_bit 3 (num + 7))))))"

definition rb_clear_bmap :: "bmap64 \<Rightarrow> bmap64" where
  "rb_clear_bmap bitmap =
     rb_upd bitmap (rb_priv bitmap\<lparr>rb_root := rb_free_tree (rb_root (rb_priv bitmap)),
       rcursor := None, rcursor_next := None, wcursor := None\<rparr>)"

definition rb_find_first_zero :: "bmap64 \<Rightarrow> u64 \<Rightarrow> u64 \<Rightarrow> errcode + u64" where
  "rb_find_first_zero bitmap start end' =
     (let bp = rb_priv bitmap; start = start - bm_start bitmap; end' = end' - bm_start bitmap
      in if start > end' then Inl EINVAL
         else if ext2fs_rb_empty_root (rb_root bp) then Inl ENOENT
         else case rb_search start (rb_root bp) of
                (Node _ _ ext _, _) \<Rightarrow>
                  if ext_start ext + ext_count ext \<le> end'
                  then Inr (ext_start ext + ext_count ext + bm_start bitmap)
                  else Inl ENOENT
              | (Leaf, _) \<Rightarrow> Inr (start + bm_start bitmap))"

definition rb_find_first_set :: "bmap64 \<Rightarrow> u64 \<Rightarrow> u64 \<Rightarrow> errcode + u64" where
  "rb_find_first_set bitmap start end' =
     (let bp = rb_priv bitmap; start = start - bm_start bitmap; end' = end' - bm_start bitmap
      in if start > end' then Inl EINVAL
         else if ext2fs_rb_empty_root (rb_root bp) then Inl ENOENT
         else case rb_search start (rb_root bp) of
                (Node _ _ ext _, _) \<Rightarrow> Inr (start + bm_start bitmap)
              | (Leaf, ps) \<Rightarrow>
                  (case (case rb_parent ps of
                           None \<Rightarrow> None
                         | Some ext \<Rightarrow>
                             if ext_start ext < start then rb_next_node (rb_root bp) (ext_node ext)
                             else Some ext) of
                     None \<Rightarrow> Inl ENOENT
                   | Some ext \<Rightarrow>
                       if ext_start ext \<le> end' then Inr (ext_start ext + bm_start bitmap)
                       else Inl ENOENT))"

end
