(* ===== verification/Blkmap64_RB_Inv.thy ===== *)
theory Blkmap64_RB_Inv
  imports Blkmap64_RB
begin

text \<open>
  Invariant of the extent-tree back end and its basic facts. The invariant \<open>rb_inv\<close> holds what
  \<open>check_tree\<close> of \<open>blkmap64_rb.c\<close> tests (no empty extent, no wrap-around, the
  extents in order and never adjacent), the red-black shape, and that the
  cursors point at extents of the tree. \<open>ext_bits\<close> is the set of marked bits,
  relative to the start of the map.
\<close>

section \<open>Extents as sets of bits\<close>

abbreviation es :: "bmap_rb_extent \<Rightarrow> nat" where "es e \<equiv> unat (ext_start e)"
abbreviation ee :: "bmap_rb_extent \<Rightarrow> nat" where "ee e \<equiv> unat (ext_start e) + unat (ext_count e)"

definition ext_ok :: "bmap_rb_extent \<Rightarrow> bool" where
  "ext_ok e \<longleftrightarrow> ext_count e \<noteq> 0 \<and> ee e < 2 ^ 64"

definition exts_ok :: "bmap_rb_extent list \<Rightarrow> bool" where
  "exts_ok xs \<longleftrightarrow> (\<forall>e\<in>set xs. ext_ok e) \<and> sorted_wrt (\<lambda>a b. ee a < es b) xs"

definition ext_bits :: "bmap_rb_extent list \<Rightarrow> nat set" where
  "ext_bits xs = (\<Union>e\<in>set xs. {es e..<ee e})"

lemma ext_bits_simps [simp]:
  "ext_bits [] = {}"
  "ext_bits (e # xs) = {es e..<ee e} \<union> ext_bits xs"
  "ext_bits (xs @ ys) = ext_bits xs \<union> ext_bits ys"
  by (auto simp: ext_bits_def)

lemma exts_ok_simps [simp]:
  "exts_ok []"
  "exts_ok (e # xs) \<longleftrightarrow> ext_ok e \<and> (\<forall>x\<in>set xs. ee e < es x) \<and> exts_ok xs"
  "exts_ok (xs @ ys) \<longleftrightarrow> exts_ok xs \<and> exts_ok ys \<and> (\<forall>x\<in>set xs. \<forall>y\<in>set ys. ee x < es y)"
  by (auto simp: exts_ok_def sorted_wrt_append)

lemma ext_ok_word:
  assumes "ext_ok e"
  shows "unat (ext_start e + ext_count e) = ee e" "es e < ee e" "ee e < 2 ^ 64"
    "0 < unat (ext_count e)"
  using assms by (auto simp: ext_ok_def unat_plus_less unat_gt_0)

lemma exts_ok_ext_ok: "exts_ok xs \<Longrightarrow> e \<in> set xs \<Longrightarrow> ext_ok e"
  by (simp add: exts_ok_def)

text \<open>Reading the comparisons of the code on natural numbers.\<close>

lemmas word_cmp = word_less_nat_alt word_le_nat_alt

lemma ext_bits_bound: "exts_ok xs \<Longrightarrow> n \<in> ext_bits xs \<Longrightarrow> n < 2 ^ 64"
  by (force simp: ext_bits_def dest: exts_ok_ext_ok ext_ok_word)

section \<open>Descents\<close>

lemma rb_descend_spec:
  assumes "rb_descend L R t ps = (n, qs)"
    and "sorted_wrt (\<lambda>a b. (L a \<longrightarrow> L b) \<and> (R b \<longrightarrow> R a)) (inorder t)"
  shows "\<exists>as bs. inorder t = as @ inorder n @ bs \<and> before qs = before ps @ as \<and>
    after qs = bs @ after ps \<and> (\<forall>a\<in>set as. R a) \<and> (\<forall>b\<in>set bs. L b) \<and>
    plug n qs = plug t ps \<and>
    (\<forall>c l x r. n = Node c l x r \<longrightarrow> \<not> L x \<and> \<not> R x)"
  using assms
proof (induction L R t ps rule: rb_descend.induct)
  case (1 L R ps)
  then show ?case by simp
next
  case (2 L R c l x r ps)
  show ?case
  proof (cases "L x")
    case True
    with "2.IH"(1) "2.prems" obtain as bs where
      "inorder l = as @ inorder n @ bs" "before qs = before ps @ as"
      "after qs = bs @ x # inorder r @ after ps" "\<forall>a\<in>set as. R a" "\<forall>b\<in>set bs. L b"
      "plug n qs = plug (Node c l x r) ps" "\<forall>c l x r. n = Node c l x r \<longrightarrow> \<not> L x \<and> \<not> R x"
      by (auto simp: sorted_wrt_append)
    moreover from True "2.prems" have "\<forall>b\<in>set (inorder r). L b"
      by (auto simp: sorted_wrt_append)
    ultimately show ?thesis using True
      by (intro exI [of _ as] exI [of _ "bs @ x # inorder r"]) auto
  next
    case False
    show ?thesis
    proof (cases "R x")
      case True
      with False "2.IH"(2) "2.prems" obtain as bs where
        "inorder r = as @ inorder n @ bs" "before qs = before ps @ inorder l @ x # as"
        "after qs = bs @ after ps" "\<forall>a\<in>set as. R a" "\<forall>b\<in>set bs. L b"
        "plug n qs = plug (Node c l x r) ps" "\<forall>c l x r. n = Node c l x r \<longrightarrow> \<not> L x \<and> \<not> R x"
        by (auto simp: sorted_wrt_append)
      moreover from True "2.prems" have "\<forall>a\<in>set (inorder l). R a"
        by (auto simp: sorted_wrt_append)
      ultimately show ?thesis using True False
        by (intro exI [of _ "inorder l @ x # as"] exI [of _ bs]) auto
    next
      case False': False
      with False "2.prems" show ?thesis
        by (intro exI [of _ "[]"]) auto
    qed
  qed
qed

text \<open>At a null link, the node above it is the neighbour on one of the two sides.\<close>

lemma rb_parent_neighbour:
  "rb_parent qs = Some p \<Longrightarrow>
   (before qs \<noteq> [] \<and> last (before qs) = p) \<or> (after qs \<noteq> [] \<and> hd (after qs) = p)"
  by (cases qs rule: rb_parent.cases) auto

lemma rb_parent_None [simp]: "rb_parent qs = None \<longleftrightarrow> qs = []"
  by (cases qs rule: rb_parent.cases) auto

section \<open>Nodes and their addresses\<close>

abbreviation ext_nodes :: "bmap_rb_extent list \<Rightarrow> nat list" where
  "ext_nodes xs \<equiv> map ext_node xs"

lemma distinct_split_unique:
  assumes "as @ e # bs = as' @ e' # bs'" "f e = f e'" "distinct (map f (as @ e # bs))"
  shows "as = as' \<and> e = e' \<and> bs = bs'"
  using assms
proof (induction as arbitrary: as')
  case Nil
  then show ?case by (cases as') (auto simp: in_set_conv_decomp dest: arg_cong [of _ _ f])
next
  case (Cons a as)
  then show ?case by (cases as') auto
qed

lemma rb_locate_node:
  assumes "inorder root = as @ e # bs" "distinct (ext_nodes (inorder root))"
  obtains c l r qs where
    "rb_locate (\<lambda>x. ext_node x = ext_node e) root [] = Some (Node c l e r, qs)"
    "plug (Node c l e r) qs = root" "before qs @ inorder l = as" "inorder r @ after qs = bs"
proof -
  obtain n qs where loc: "rb_locate (\<lambda>x. ext_node x = ext_node e) root [] = Some (n, qs)"
    using assms(1) rb_locate_None [of "\<lambda>x. ext_node x = ext_node e" root "[]"] by fastforce
  from rb_locate_Some [OF loc] obtain c l x r where
    n: "n = Node c l x r" "ext_node x = ext_node e" "plug n qs = root" by auto
  then have "inorder root = (before qs @ inorder l) @ x # (inorder r @ after qs)"
    by (metis append.assoc append_Cons inorder.simps(2) inorder_plug)
  with assms n(2) have "before qs @ inorder l = as \<and> x = e \<and> inorder r @ after qs = bs"
    using distinct_split_unique [of "before qs @ inorder l" x "inorder r @ after qs" as e bs ext_node]
    by simp
  with that loc n show ?thesis by blast
qed

lemma rb_node_access:
  assumes "inorder root = as @ e # bs" "distinct (ext_nodes (inorder root))"
  shows "rb_find root (ext_node e) = Some e"
    and "rb_from root (ext_node e) = e # bs"
    and "rb_after root (ext_node e) = bs"
    and "rb_next_node root (ext_node e) = (case bs of [] \<Rightarrow> None | x # _ \<Rightarrow> Some x)"
    and "rb_prev_node root (ext_node e) = (if as = [] then None else Some (last as))"
    and "inorder (rb_erase_node root (ext_node e)) = as @ bs"
    and "rb_tree_inv root \<Longrightarrow> rb_tree_inv (rb_erase_node root (ext_node e))"
proof -
  from assms have "ext_node e \<notin> ext_node ` set as" by auto
  then have dw: "dropWhile (\<lambda>x. ext_node x \<noteq> ext_node e) (as @ e # bs) = e # bs"
    by (induction as) auto
  then show "rb_from root (ext_node e) = e # bs" "rb_after root (ext_node e) = bs"
    using assms by (simp_all add: rb_from_def rb_after_def)
  from \<open>ext_node e \<notin> ext_node ` set as\<close>
  have "find (\<lambda>x. ext_node x = ext_node e) (as @ e # bs) = Some e"
    by (induction as) auto
  then show "rb_find root (ext_node e) = Some e"
    using assms by (simp add: rb_find_def)
  obtain c l r qs where loc:
    "rb_locate (\<lambda>x. ext_node x = ext_node e) root [] = Some (Node c l e r, qs)"
    "plug (Node c l e r) qs = root" "before qs @ inorder l = as" "inorder r @ after qs = bs"
    using rb_locate_node [OF assms] .
  then show "rb_next_node root (ext_node e) = (case bs of [] \<Rightarrow> None | x # _ \<Rightarrow> Some x)"
    by (simp add: rb_next_node_def rb_next_inorder)
  from loc show "rb_prev_node root (ext_node e) = (if as = [] then None else Some (last as))"
    by (simp add: rb_prev_node_def rb_prev_inorder)
  from loc show "inorder (rb_erase_node root (ext_node e)) = as @ bs"
    by (simp add: rb_erase_node_def inorder_erase)
  from loc show "rb_tree_inv root \<Longrightarrow> rb_tree_inv (rb_erase_node root (ext_node e))"
    by (auto simp: rb_erase_node_def intro: erase_inv)
qed

lemma inorder_map_rb_tree [simp]: "inorder (map_rb_tree f t) = map f (inorder t)"
  by (induction t) auto

lemma rb_colour_map [simp]: "rb_colour (map_rb_tree f t) = rb_colour t"
  by (cases t) auto

lemma bheight_map [simp]: "bheight (map_rb_tree f t) = bheight t"
  by (induction t) auto

lemma rb_tree_inv_map [simp]: "rb_tree_inv (map_rb_tree f t) \<longleftrightarrow> rb_tree_inv t"
proof -
  have "invc (map_rb_tree f t) = invc t" "invh (map_rb_tree f t) = invh t"
    by (induction t) auto
  then show ?thesis by (simp add: rb_tree_inv_def)
qed

lemma rb_set_extent_inorder:
  assumes "inorder root = as @ e # bs" "distinct (ext_nodes (inorder root))"
  shows "inorder (rb_set_extent (ext_node e) s c root) =
    as @ e\<lparr>ext_start := s, ext_count := c\<rparr> # bs"
proof -
  let ?f = "\<lambda>x. if ext_node x = ext_node e then x\<lparr>ext_start := s, ext_count := c\<rparr> else x"
  from assms have "ext_node e \<notin> ext_node ` (set as \<union> set bs)" by auto
  then have "\<forall>x\<in>set as \<union> set bs. ext_node x \<noteq> ext_node e" by (metis image_eqI)
  then have "map ?f as = as" "map ?f bs = bs" by (simp_all add: map_idI)
  with assms show ?thesis by (simp add: rb_set_extent_def)
qed

lemma rb_set_extent_inv [simp]: "rb_tree_inv (rb_set_extent p s c root) \<longleftrightarrow> rb_tree_inv root"
  by (simp add: rb_set_extent_def)

section \<open>The invariant\<close>

text \<open>\<open>rb_base\<close> is the part that holds at every point inside the operations;
  it depends on the extents only through their addresses.\<close>

definition rb_base :: "ext2fs_rb_private \<Rightarrow> bool" where
  "rb_base bp \<longleftrightarrow>
     (let ns = ext_nodes (inorder (rb_root bp))
      in distinct ns \<and> (\<forall>p\<in>set ns. p < rb_brk bp) \<and> rb_tree_inv (rb_root bp) \<and>
         (\<forall>p. wcursor bp = Some p \<longrightarrow> p \<in> set ns) \<and> (\<forall>p. rcursor bp = Some p \<longrightarrow> p \<in> set ns) \<and>
         (\<forall>p q. rcursor bp = Some p \<longrightarrow> rcursor_next bp = Some q \<longrightarrow>
            (\<exists>as bs. ns = as @ p # q # bs)))"

definition rb_inv :: "ext2fs_rb_private \<Rightarrow> bool" where
  "rb_inv bp \<longleftrightarrow> rb_base bp \<and> exts_ok (inorder (rb_root bp))"

definition rb_bits :: "ext2fs_rb_private \<Rightarrow> nat set" where
  "rb_bits bp = ext_bits (inorder (rb_root bp))"

lemma rb_base_distinct: "rb_base bp \<Longrightarrow> distinct (ext_nodes (inorder (rb_root bp)))"
  by (simp add: rb_base_def Let_def)

lemma rb_base_tree_inv: "rb_base bp \<Longrightarrow> rb_tree_inv (rb_root bp)"
  by (simp add: rb_base_def Let_def)

lemma rb_baseI:
  assumes "ext_nodes (inorder (rb_root bp)) = ns" "distinct ns" "\<And>p. p \<in> set ns \<Longrightarrow> p < rb_brk bp"
    and "rb_tree_inv (rb_root bp)" "\<And>p. wcursor bp = Some p \<Longrightarrow> p \<in> set ns"
    and "\<And>p. rcursor bp = Some p \<Longrightarrow> p \<in> set ns"
    and "\<And>p q. rcursor bp = Some p \<Longrightarrow> rcursor_next bp = Some q \<Longrightarrow> \<exists>as bs. ns = as @ p # q # bs"
  shows "rb_base bp"
  using assms unfolding rb_base_def Let_def by blast

lemma rb_baseD:
  assumes "rb_base bp"
  shows "distinct (ext_nodes (inorder (rb_root bp)))"
    and "p \<in> set (ext_nodes (inorder (rb_root bp))) \<Longrightarrow> p < rb_brk bp"
    and "rb_tree_inv (rb_root bp)"
    and "wcursor bp = Some p \<Longrightarrow> p \<in> set (ext_nodes (inorder (rb_root bp)))"
    and "rcursor bp = Some p \<Longrightarrow> p \<in> set (ext_nodes (inorder (rb_root bp)))"
    and "rcursor bp = Some p \<Longrightarrow> rcursor_next bp = Some q \<Longrightarrow>
      \<exists>as bs. ext_nodes (inorder (rb_root bp)) = as @ p # q # bs"
  using assms unfolding rb_base_def Let_def by blast+

lemma rb_base_set_extent [simp]:
  "rb_base (bp\<lparr>rb_root := rb_set_extent p s c (rb_root bp)\<rparr>) \<longleftrightarrow> rb_base bp"
proof -
  have "ext_nodes (inorder (rb_set_extent p s c (rb_root bp))) = ext_nodes (inorder (rb_root bp))"
    by (simp add: rb_set_extent_def)
  then show ?thesis by (simp add: rb_base_def)
qed

lemma adjacent_remove:
  assumes "as @ e # bs = xs @ p # q # ys" "e \<noteq> p" "e \<noteq> q"
  shows "\<exists>xs ys. as @ bs = xs @ p # q # ys"
proof -
  from assms consider us where "as = xs @ p # q # us" | us where "bs = us @ p # q # ys"
    by (auto simp: append_eq_append_conv2 append_eq_Cons_conv Cons_eq_append_conv)
  then show ?thesis
  proof cases
    case (1 us)
    then have "as @ bs = xs @ p # q # (us @ bs)" by simp
    then show ?thesis by blast
  next
    case (2 us)
    then have "as @ bs = (as @ us) @ p # q # ys" by simp
    then show ?thesis by blast
  qed
qed

text \<open>Erasing a node and releasing its extent: \<open>root\<close> is the tree after the erasure.\<close>

lemma rb_free_extent_spec:
  assumes base: "rb_base bp" and ino: "inorder (rb_root bp) = as @ e # bs"
    and root: "inorder root = as @ bs" "rb_tree_inv root"
  shows "rb_base (rb_free_extent (bp\<lparr>rb_root := root\<rparr>) (ext_node e))" (is "rb_base ?bp")
    and "rb_root (rb_free_extent (bp\<lparr>rb_root := root\<rparr>) (ext_node e)) = root"
    and "rb_brk (rb_free_extent (bp\<lparr>rb_root := root\<rparr>) (ext_node e)) = rb_brk bp"
proof -
  show rt: "rb_root ?bp = root" and brk: "rb_brk ?bp = rb_brk bp"
    by (simp_all add: rb_free_extent_def Let_def)
  let ?ns = "ext_nodes as @ ext_nodes bs"
  have old: "ext_nodes (inorder (rb_root bp)) = ext_nodes as @ ext_node e # ext_nodes bs"
    by (simp add: ino)
  note b = rb_baseD [OF base, unfolded old]
  have cur: "wcursor ?bp = (if wcursor bp = Some (ext_node e) then None else wcursor bp)"
    "rcursor ?bp = (if rcursor bp = Some (ext_node e) then None else rcursor bp)"
    "rcursor_next ?bp = (if rcursor_next bp = Some (ext_node e) then None else rcursor_next bp)"
    by (simp_all add: rb_free_extent_def Let_def)
  show "rb_base ?bp"
  proof (rule rb_baseI)
    show "ext_nodes (inorder (rb_root ?bp)) = ?ns" by (simp add: rt root)
    show "distinct ?ns" using b(1) by simp
    show "rb_tree_inv (rb_root ?bp)" by (simp add: rt root)
    show "p < rb_brk ?bp" if "p \<in> set ?ns" for p using b(2) [of p] that brk by simp
    show "p \<in> set ?ns" if "wcursor ?bp = Some p" for p
      using b(4) [of p] that by (auto simp: cur split: if_splits)
    show "p \<in> set ?ns" if "rcursor ?bp = Some p" for p
      using b(5) [of p] that by (auto simp: cur split: if_splits)
    show "\<exists>as bs. ?ns = as @ p # q # bs" if "rcursor ?bp = Some p" "rcursor_next ?bp = Some q" for p q
    proof -
      from that b(6) [of p q] obtain xs ys where
        "ext_nodes as @ ext_node e # ext_nodes bs = xs @ p # q # ys" "ext_node e \<noteq> p" "ext_node e \<noteq> q"
        by (auto simp: cur split: if_splits)
      from adjacent_remove [OF this] show ?thesis .
    qed
  qed
qed

lemma rb_erase_free_spec:
  assumes "rb_base bp" "inorder (rb_root bp) = as @ e # bs"
  shows "rb_base (rb_erase_free bp (ext_node e))"
    and "inorder (rb_root (rb_erase_free bp (ext_node e))) = as @ bs"
    and "rb_brk (rb_erase_free bp (ext_node e)) = rb_brk bp"
  using rb_free_extent_spec [OF assms, of "rb_erase_node (rb_root bp) (ext_node e)"]
    rb_node_access(6,7) [OF assms(2) rb_base_distinct [OF assms(1)]] rb_base_tree_inv [OF assms(1)]
  by (simp_all add: rb_erase_free_def)

section \<open>Merging to the right\<close>

lemma rb_merge_right_spec:
  assumes "rb_merge_right bs s c bp = (c', bp')"
    and "inorder (rb_root bp) = ys @ bs" "rb_base bp" "exts_ok bs"
    and "\<forall>b\<in>set bs. unat s < es b" "unat s + unat c < 2 ^ 64"
  shows "\<exists>bs1 bs2. bs = bs1 @ bs2 \<and> inorder (rb_root bp') = ys @ bs2 \<and> rb_base bp' \<and>
    rb_brk bp' = rb_brk bp \<and> unat s + unat c' < 2 ^ 64 \<and> unat c \<le> unat c' \<and>
    {unat s..<unat s + unat c'} = {unat s..<unat s + unat c} \<union> ext_bits bs1 \<and>
    (\<forall>b\<in>set bs2. unat s + unat c' < es b)"
  using assms
proof (induction bs arbitrary: c bp)
  case Nil
  then show ?case by simp
next
  case (Cons b bs)
  then have ok: "ext_ok b" by simp
  note w = ext_ok_word [OF ok] unat_plus_less [of s c]
  from Cons.prems have nle: "\<not> ext_start b + ext_count b \<le> s"
    by (auto simp: word_cmp w)
  consider "s + c < ext_start b" | "\<not> s + c < ext_start b" "s + c \<ge> ext_start b + ext_count b"
    | "\<not> s + c < ext_start b" "\<not> s + c \<ge> ext_start b + ext_count b" by blast
  then show ?case
  proof cases
    case 1
    with nle Cons.prems show ?thesis
      by (intro exI [of _ "[]"] exI [of _ "b # bs"]) (auto simp: word_cmp w)
  next
    case 2
    let ?bp = "rb_erase_free bp (ext_node b)"
    note er = rb_erase_free_spec [OF \<open>rb_base bp\<close> Cons.prems(2)]
    from 2 nle Cons.prems er have
      "rb_merge_right bs s c ?bp = (c', bp')" "inorder (rb_root ?bp) = ys @ bs" "rb_base ?bp"
      "exts_ok bs" "\<forall>b\<in>set bs. unat s < es b" "unat s + unat c < 2 ^ 64" by auto
    from Cons.IH [OF this] obtain bs1 bs2 where
      "bs = bs1 @ bs2 \<and> inorder (rb_root bp') = ys @ bs2 \<and> rb_base bp' \<and>
       rb_brk bp' = rb_brk ?bp \<and> unat s + unat c' < 2 ^ 64 \<and> unat c \<le> unat c' \<and>
       {unat s..<unat s + unat c'} = {unat s..<unat s + unat c} \<union> ext_bits bs1 \<and>
       (\<forall>b\<in>set bs2. unat s + unat c' < es b)" by blast
    moreover from 2 Cons.prems have "{es b..<ee b} \<subseteq> {unat s..<unat s + unat c}"
      by (auto simp: word_cmp w)
    ultimately show ?thesis using er(3)
      by (intro exI [of _ "b # bs1"] exI [of _ bs2]) auto
  next
    case 3
    let ?bp = "rb_erase_free bp (ext_node b)"
    note er = rb_erase_free_spec [OF \<open>rb_base bp\<close> Cons.prems(2)]
    from 3 nle Cons.prems have res: "c' = c + ((ext_start b + ext_count b) - (s + c))" "bp' = ?bp"
      by auto
    from 3 Cons.prems have b: "es b \<le> unat s + unat c" "unat s + unat c < ee b" "unat s < es b"
      by (auto simp: word_cmp w)
    have "c' = (ext_start b + ext_count b) - s" by (simp add: res algebra_simps)
    then have "unat c' = ee b - unat s" using b w by (simp add: unat_minus_le)
    with b have c': "unat s + unat c' = ee b" "unat c \<le> unat c'" by auto
    with Cons.prems er res b w show ?thesis
      by (intro exI [of _ "[b]"] exI [of _ bs]) auto
  qed
qed

end
