(* ===== verification/Blkmap64_RB_Correct.thy ===== *)
theory Blkmap64_RB_Correct
  imports Blkmap64_RB_Inv
begin

text \<open>
  Insertion, removal and lookup in the extent tree, stated on the set of marked
  bits: each routine keeps \<open>rb_inv\<close> and has the effect of the set operation.
\<close>

section \<open>Insertion\<close>

lemma rb_skip_insert_spec:
  assumes base: "rb_base bp" and ino: "inorder (rb_root bp) = as @ e # bs"
    and ok: "exts_ok as" "exts_ok bs" "\<forall>a\<in>set as. \<forall>b\<in>set bs. ee a < es b"
    and pos: "\<forall>a\<in>set as. ee a < unat s" "\<forall>b\<in>set bs. unat s < es b"
    and cnt: "unat s + unat c < 2 ^ 64" "c \<noteq> 0"
  shows "rb_inv (rb_skip_insert (ext_node e) s c bp)"
    and "rb_bits (rb_skip_insert (ext_node e) s c bp) =
      ext_bits as \<union> {unat s..<unat s + unat c} \<union> ext_bits bs"
proof -
  note acc = rb_node_access [OF ino rb_base_distinct [OF base]]
  obtain c' bp' where mr: "rb_merge_right bs s c bp = (c', bp')"
    by (cases "rb_merge_right bs s c bp")
  from ino have "inorder (rb_root bp) = (as @ [e]) @ bs" by simp
  from rb_merge_right_spec [OF mr this base ok(2) pos(2) cnt(1)] obtain bs1 bs2 where
    m: "bs = bs1 @ bs2" "inorder (rb_root bp') = as @ e # bs2" "rb_base bp'"
    "unat s + unat c' < 2 ^ 64" "unat c \<le> unat c'"
    "{unat s..<unat s + unat c'} = {unat s..<unat s + unat c} \<union> ext_bits bs1"
    "\<forall>b\<in>set bs2. unat s + unat c' < es b"
    by (elim exE conjE) simp
  let ?bp = "bp'\<lparr>rb_root := rb_set_extent (ext_node e) s c' (rb_root bp')\<rparr>"
  have sk: "rb_skip_insert (ext_node e) s c bp = ?bp"
    by (simp add: rb_skip_insert_def acc mr)
  have ino': "inorder (rb_root ?bp) = as @ e\<lparr>ext_start := s, ext_count := c'\<rparr> # bs2"
    using rb_set_extent_inorder [OF m(2) rb_base_distinct [OF m(3)]] by simp
  have "c' \<noteq> 0" using cnt(2) m(5) by (metis le_zero_eq unsigned_eq_0_iff)
  then have "exts_ok (inorder (rb_root ?bp))"
    using ok pos m unfolding ino' by (auto simp: ext_ok_def)
  then show "rb_inv (rb_skip_insert (ext_node e) s c bp)"
    using m(3) by (simp add: sk rb_inv_def)
  show "rb_bits (rb_skip_insert (ext_node e) s c bp) =
      ext_bits as \<union> {unat s..<unat s + unat c} \<union> ext_bits bs"
    using ino' m(6) by (auto simp: sk rb_bits_def m(1))
qed

lemma ext_bits_outside:
  "\<forall>e\<in>set xs. n < es e \<or> ee e \<le> n \<Longrightarrow> n \<notin> ext_bits xs"
  by (force simp: ext_bits_def)

lemma rb_got_extent_spec:
  assumes inv: "rb_inv bp" and ino: "inorder (rb_root bp) = as @ e # bs"
    and at: "es e \<le> unat s" "unat s \<le> ee e" and cnt: "unat s + unat c < 2 ^ 64" "c \<noteq> 0"
    and res: "rb_got_extent e s c bp = (retval, bp')"
  shows "rb_inv bp'" "rb_bits bp' = rb_bits bp \<union> {unat s..<unat s + unat c}"
    "retval = (if unat s \<in> rb_bits bp then 1 else 0)"
proof -
  from inv ino have ok: "exts_ok (as @ e # bs)" and base: "rb_base bp" by (auto simp: rb_inv_def)
  then have e: "ext_ok e" by simp
  have sc: "unat (s + c) = unat s + unat c" using cnt by (simp add: unat_plus_less)
  have "0 < unat c" using cnt by (simp add: unat_gt_0)
  note w = ext_ok_word [OF e] sc this
  have pos: "\<forall>a\<in>set as. ee a < es e" "\<forall>b\<in>set bs. ee e < es b" using ok by auto
  then have "unat s \<notin> ext_bits as" "unat s \<notin> ext_bits bs"
    using at by (auto intro!: ext_bits_outside)
  then have mem: "unat s \<in> rb_bits bp \<longleftrightarrow> unat s < ee e"
    using at by (simp add: rb_bits_def ino)
  have "rb_inv bp' \<and> rb_bits bp' = rb_bits bp \<union> {unat s..<unat s + unat c} \<and>
    retval = (if unat s \<in> rb_bits bp then 1 else 0)"
  proof (cases "s + c \<le> ext_start e + ext_count e")
    case True
    with w have "unat s + unat c \<le> ee e" by (simp add: word_cmp)
    moreover from this at have "{unat s..<unat s + unat c} \<subseteq> rb_bits bp"
      by (auto simp: rb_bits_def ino)
    ultimately show ?thesis using True res inv mem w by (auto simp: rb_got_extent_def)
  next
    case False
    with w have gt: "ee e < unat s + unat c" by (simp add: word_cmp)
    have "unat (s - ext_start e) = unat s - es e" using at by (simp add: unat_minus_le)
    moreover from this have "unat (c + (s - ext_start e)) = unat c + unat (s - ext_start e)"
      using cnt at by (intro unat_plus_less) simp
    ultimately have c': "es e + unat (c + (s - ext_start e)) = unat s + unat c"
      using at by simp
    then have "c + (s - ext_start e) \<noteq> 0" using gt w by auto
    note sk = rb_skip_insert_spec [OF base ino, of "ext_start e" "c + (s - ext_start e)"]
    from res False have bp': "bp' = rb_skip_insert (ext_node e) (ext_start e) (c + (s - ext_start e)) bp"
      by (simp add: rb_got_extent_def)
    have "\<forall>b\<in>set bs. es e < es b" using pos by fastforce
    with sk \<open>c + (s - ext_start e) \<noteq> 0\<close> ok pos cnt c' bp' have
      "rb_inv bp'" "rb_bits bp' = ext_bits as \<union> {es e..<unat s + unat c} \<union> ext_bits bs" by auto
    moreover have "{es e..<unat s + unat c} = {es e..<ee e} \<union> {unat s..<unat s + unat c}"
      using at gt by auto
    moreover have "retval = (if ee e = unat s then 0 else 1)"
      using False res by (auto simp: rb_got_extent_def word_unat_eq_iff w(1))
    moreover have "rb_bits bp = ext_bits as \<union> {es e..<ee e} \<union> ext_bits bs"
      by (simp add: rb_bits_def ino Un_assoc)
    ultimately show ?thesis using mem at(2) by (simp add: Un_ac)
  qed
  then show "rb_inv bp'" "rb_bits bp' = rb_bits bp \<union> {unat s..<unat s + unat c}"
    "retval = (if unat s \<in> rb_bits bp then 1 else 0)" by auto
qed

text \<open>The two kinds of descent of the code, on natural numbers.\<close>

lemma exts_ok_sorted_search:
  assumes "exts_ok xs"
  shows "sorted_wrt (\<lambda>a b. (s < ext_start a \<longrightarrow> s < ext_start b) \<and>
      (s \<ge> ext_start b + ext_count b \<longrightarrow> s \<ge> ext_start a + ext_count a)) xs" (is "sorted_wrt ?P xs")
    and "sorted_wrt (\<lambda>a b. (s < ext_start a \<longrightarrow> s < ext_start b) \<and>
      (s > ext_start b + ext_count b \<longrightarrow> s > ext_start a + ext_count a)) xs" (is "sorted_wrt ?Q xs")
proof -
  have "?P a b \<and> ?Q a b" if "a \<in> set xs" "b \<in> set xs" "ee a < es b" for a b
  proof -
    from that assms have "ext_ok a" "ext_ok b" by (auto intro: exts_ok_ext_ok)
    note w = ext_ok_word [OF this(1)] ext_ok_word [OF this(2)]
    from that(3) show ?thesis unfolding word_cmp w(1,5) by linarith
  qed
  moreover from assms have "sorted_wrt (\<lambda>a b. ee a < es b) xs" by (simp add: exts_ok_def)
  ultimately show "sorted_wrt ?P xs" "sorted_wrt ?Q xs"
    by (blast intro: sorted_wrt_mono_rel [rotated])+
qed

lemma rb_search_Node:
  assumes "rb_search s root = (Node c l e r, ps)" "exts_ok (inorder root)"
  shows "inorder root = (before ps @ inorder l) @ e # (inorder r @ after ps)"
    "es e \<le> unat s" "unat s < ee e" "plug (Node c l e r) ps = root"
proof -
  from rb_descend_spec [OF assms(1) [unfolded rb_search_def] exts_ok_sorted_search(1) [OF assms(2)]]
  have *: "inorder root = (before ps @ inorder l) @ e # (inorder r @ after ps)"
    "plug (Node c l e r) ps = root" "\<not> s < ext_start e" "\<not> s \<ge> ext_start e + ext_count e" by auto
  then have "ext_ok e" using assms(2) by simp
  with * show "inorder root = (before ps @ inorder l) @ e # (inorder r @ after ps)"
    "es e \<le> unat s" "unat s < ee e" "plug (Node c l e r) ps = root"
    by (simp_all add: word_cmp ext_ok_word not_le not_less)
qed

lemma rb_search_Leaf:
  assumes "rb_search s root = (Leaf, ps)" "exts_ok (inorder root)"
  shows "inorder root = before ps @ after ps" "\<forall>a\<in>set (before ps). ee a \<le> unat s"
    "\<forall>b\<in>set (after ps). unat s < es b" "plug Leaf ps = root"
proof -
  from rb_descend_spec [OF assms(1) [unfolded rb_search_def] exts_ok_sorted_search(1) [OF assms(2)]]
  have *: "inorder root = before ps @ after ps" "plug Leaf ps = root"
    "\<forall>a\<in>set (before ps). ext_start a + ext_count a \<le> s" "\<forall>b\<in>set (after ps). s < ext_start b"
    by auto
  with assms(2) have "\<forall>a\<in>set (before ps). ext_ok a" by (auto intro: exts_ok_ext_ok)
  with * show "inorder root = before ps @ after ps" "\<forall>a\<in>set (before ps). ee a \<le> unat s"
    "\<forall>b\<in>set (after ps). unat s < es b" "plug Leaf ps = root"
    by (auto simp: word_cmp ext_ok_word)
qed

abbreviation rb_insert_search :: "u64 \<Rightarrow> bmap_rb_extent rb_tree \<Rightarrow>
    bmap_rb_extent rb_tree \<times> bmap_rb_extent rb_frame list" where
  "rb_insert_search s root \<equiv>
     rb_descend (\<lambda>ext. s < ext_start ext) (\<lambda>ext. s > ext_start ext + ext_count ext) root []"

lemma rb_insert_search_Node:
  assumes "rb_insert_search s root = (Node c l e r, ps)" "exts_ok (inorder root)"
  obtains as bs where "inorder root = as @ e # bs" "es e \<le> unat s" "unat s \<le> ee e"
proof -
  from rb_descend_spec [OF assms(1) exts_ok_sorted_search(2) [OF assms(2)]]
  obtain as bs where *: "inorder root = (as @ inorder l) @ e # (inorder r @ bs)"
    "\<not> s < ext_start e" "\<not> s > ext_start e + ext_count e" by auto
  then have "ext_ok e" using assms(2) by simp
  with * show thesis by (intro that [OF *(1)]) (simp_all add: word_cmp ext_ok_word not_le not_less)
qed

lemma rb_insert_search_Leaf:
  assumes "rb_insert_search s root = (Leaf, ps)" "exts_ok (inorder root)"
  shows "inorder root = before ps @ after ps" "\<forall>a\<in>set (before ps). ee a < unat s"
    "\<forall>b\<in>set (after ps). unat s < es b" "plug Leaf ps = root"
proof -
  from rb_descend_spec [OF assms(1) exts_ok_sorted_search(2) [OF assms(2)]]
  have *: "inorder root = before ps @ after ps" "plug Leaf ps = root"
    "\<forall>a\<in>set (before ps). ext_start a + ext_count a < s" "\<forall>b\<in>set (after ps). s < ext_start b"
    by auto
  with assms(2) have "\<forall>a\<in>set (before ps). ext_ok a" by (auto intro: exts_ok_ext_ok)
  with * show "inorder root = before ps @ after ps" "\<forall>a\<in>set (before ps). ee a < unat s"
    "\<forall>b\<in>set (after ps). unat s < es b" "plug Leaf ps = root"
    by (auto simp: word_cmp ext_ok_word)
qed

lemma rb_link_base:
  assumes "rb_base bp" "plug Leaf ps = rb_root bp" "rcursor_next bp = None" "ext_node e = rb_brk bp"
    and "w = Some (ext_node e) \<or> w = wcursor bp"
  shows "rb_base (bp\<lparr>rb_brk := Suc (rb_brk bp),
    rb_root := ext2fs_rb_insert_color (ext2fs_rb_link_node e) ps, wcursor := w\<rparr>)" (is "rb_base ?bp")
    and "inorder (ext2fs_rb_insert_color (ext2fs_rb_link_node e) ps) = before ps @ e # after ps"
proof -
  show ino: "inorder (ext2fs_rb_insert_color (ext2fs_rb_link_node e) ps) = before ps @ e # after ps"
    by (simp add: inorder_insert_color ext2fs_rb_link_node_def)
  let ?ns = "ext_nodes (before ps) @ ext_node e # ext_nodes (after ps)"
  have old: "ext_nodes (inorder (rb_root bp)) = ext_nodes (before ps) @ ext_nodes (after ps)"
    by (simp flip: assms(2))
  note b = rb_baseD [OF assms(1), unfolded old]
  show "rb_base ?bp"
  proof (rule rb_baseI)
    show "ext_nodes (inorder (rb_root ?bp)) = ?ns" by (simp add: ino)
    show "distinct ?ns" using b(1) b(2) [of "ext_node e"] assms(4) by auto
    show "rb_tree_inv (rb_root ?bp)" using b(3) assms(2) insert_color_inv [of ps e] by simp
    show "p < rb_brk ?bp" if "p \<in> set ?ns" for p
      using b(2) [of p] that assms(4) by (auto simp: less_Suc_eq)
    show "p \<in> set ?ns" if "wcursor ?bp = Some p" for p using b(4) [of p] that assms(5) by auto
    show "p \<in> set ?ns" if "rcursor ?bp = Some p" for p using b(5) [of p] that by auto
  qed (simp add: assms(3))
qed

lemma rb_base_no_next: "rb_base bp \<Longrightarrow> rb_base (bp\<lparr>rcursor_next := None\<rparr>)"
  by (rule rb_baseI [OF refl]) (simp_all add: rb_baseD del: set_map)

lemma rb_inv_no_next: "rb_inv bp \<Longrightarrow> rb_inv (bp\<lparr>rcursor_next := None\<rparr>)"
  by (simp add: rb_inv_def rb_base_no_next)

lemma rb_inv_exts_ok: "rb_inv bp \<Longrightarrow> exts_ok (inorder (rb_root bp))"
  by (simp add: rb_inv_def)

text \<open>A cursor or another address that \<open>rb_find\<close> resolves is an extent of the tree.\<close>

lemma rb_find_Some:
  assumes "rb_find root p = Some e"
  obtains as bs where "inorder root = as @ e # bs" "ext_node e = p"
proof -
  from assms have "e \<in> set (inorder root)" "ext_node e = p"
    by (auto simp: rb_find_def find_Some_iff)
  with that show thesis by (metis split_list)
qed

text \<open>The branch of \<open>rb_insert_extent\<close> that links a new node. The previous
  extent ends before the new one starts, so it is never merged here.\<close>

lemma rb_insert_new_spec:
  assumes inv: "rb_inv bp" and nn: "rcursor_next bp = None"
    and des: "rb_insert_search s (rb_root bp) = (Leaf, ps)"
    and cnt: "unat s + unat c < 2 ^ 64" "c \<noteq> 0"
    and e: "e = \<lparr>ext_node = rb_brk bp, ext_start = s, ext_count = c\<rparr>"
    and bp1: "bp1 = bp\<lparr>rb_brk := Suc (rb_brk bp),
      rb_root := ext2fs_rb_insert_color (ext2fs_rb_link_node e) ps, wcursor := Some (ext_node e)\<rparr>"
  shows "rb_inv (rb_skip_insert (ext_node e) s c bp1)"
    and "rb_bits (rb_skip_insert (ext_node e) s c bp1) = rb_bits bp \<union> {unat s..<unat s + unat c}"
    and "unat s \<notin> rb_bits bp"
    and "\<forall>x. rb_prev_node (rb_root bp1) (ext_node e) = Some x \<longrightarrow> ext_start x + ext_count x \<noteq> s"
proof -
  note ok = rb_inv_exts_ok [OF inv]
  note lf = rb_insert_search_Leaf [OF des ok]
  note ln = rb_link_base [of bp ps e "Some (ext_node e)"]
  from inv lf(4) nn e have base: "rb_base bp1" and ino: "inorder (rb_root bp1) = before ps @ e # after ps"
    using ln by (simp_all add: bp1 rb_inv_def)
  from ok have ok': "exts_ok (before ps)" "exts_ok (after ps)"
    "\<forall>a\<in>set (before ps). \<forall>b\<in>set (after ps). ee a < es b" by (simp_all add: lf(1))
  note sk = rb_skip_insert_spec [OF base ino ok' lf(2,3) cnt]
  then show "rb_inv (rb_skip_insert (ext_node e) s c bp1)" by simp
  from sk(2) show "rb_bits (rb_skip_insert (ext_node e) s c bp1) = rb_bits bp \<union> {unat s..<unat s + unat c}"
    by (simp add: rb_bits_def [of bp] lf(1) Un_ac)
  show "unat s \<notin> rb_bits bp"
    using lf unfolding rb_bits_def by (intro ext_bits_outside) fastforce
  show "\<forall>x. rb_prev_node (rb_root bp1) (ext_node e) = Some x \<longrightarrow> ext_start x + ext_count x \<noteq> s"
    using rb_node_access(5) [OF ino rb_base_distinct [OF base]] lf(2) exts_ok_ext_ok [OF ok'(1)]
    by (auto simp: ext_ok_word split: if_splits dest!: last_in_set)
qed

lemma rb_insert_extent_spec:
  assumes inv: "rb_inv bp" and cnt: "unat s + unat c < 2 ^ 64"
    and res: "rb_insert_extent s c bp = (retval, bp')"
  shows "rb_inv bp' \<and> rb_bits bp' = rb_bits bp \<union> {unat s..<unat s + unat c} \<and>
    retval = (if c \<noteq> 0 \<and> unat s \<in> rb_bits bp then 1 else 0)"
proof (cases "c = 0")
  case True
  with res inv show ?thesis by (simp add: rb_insert_extent_def)
next
  case c: False
  let ?bp = "bp\<lparr>rcursor_next := None\<rparr>"
  note inv' = rb_inv_no_next [OF inv]
  have bits: "rb_bits ?bp = rb_bits bp" by (simp add: rb_bits_def)
  have got: ?thesis if "rb_got_extent e s c ?bp = (retval, bp')"
    "inorder (rb_root ?bp) = as @ e # bs" "es e \<le> unat s" "unat s \<le> ee e" for e as bs
    using rb_got_extent_spec [OF inv' that(2-4) cnt c that(1)] c bits by simp
  show ?thesis
  proof (cases "case Option.bind (wcursor ?bp) (rb_find (rb_root ?bp)) of
      Some ext \<Rightarrow> if s \<ge> ext_start ext \<and> s \<le> ext_start ext + ext_count ext then Some ext else None
    | None \<Rightarrow> None")
    case (Some e)
    then obtain p where e: "rb_find (rb_root ?bp) p = Some e" "s \<ge> ext_start e" "s \<le> ext_start e + ext_count e"
      by (auto split: option.splits if_splits simp: bind_eq_Some_conv)
    from rb_find_Some [OF e(1)] obtain as bs where ab: "inorder (rb_root ?bp) = as @ e # bs" by blast
    then have "ext_ok e" using rb_inv_exts_ok [OF inv'] by simp
    with Some res c e ab show ?thesis
      by (intro got [of e]) (simp_all add: rb_insert_extent_def word_cmp ext_ok_word)
  next
    case None
    obtain n ps where des: "rb_insert_search s (rb_root ?bp) = (n, ps)"
      by (cases "rb_insert_search s (rb_root ?bp)")
    show ?thesis
    proof (cases n)
      case (Node cl l e r)
      from rb_insert_search_Node [OF des [unfolded Node] rb_inv_exts_ok [OF inv']]
      obtain as bs where "inorder (rb_root ?bp) = as @ e # bs" "es e \<le> unat s" "unat s \<le> ee e" .
      with None res c des Node show ?thesis by (intro got [of e]) (simp_all add: rb_insert_extent_def)
    next
      case Leaf
      note new = rb_insert_new_spec [OF inv' _ des [unfolded Leaf] cnt c refl refl]
      from None res c des Leaf new(4) have
        "retval = 0" "bp' = rb_skip_insert (rb_brk bp) s c (?bp\<lparr>rb_brk := Suc (rb_brk bp),
          rb_root := ext2fs_rb_insert_color (ext2fs_rb_link_node
            \<lparr>ext_node = rb_brk bp, ext_start = s, ext_count = c\<rparr>) ps, wcursor := Some (rb_brk bp)\<rparr>)"
        by (simp_all add: rb_insert_extent_def rb_get_new_extent_def Let_def split: option.splits)
      with new(1-3) bits show ?thesis by simp
    qed
  qed
qed

section \<open>Removal\<close>

lemma rb_base_root:
  assumes "rb_base bp" "ext_nodes (inorder root) = ext_nodes (inorder (rb_root bp))" "rb_tree_inv root"
  shows "rb_base (bp\<lparr>rb_root := root\<rparr>)"
  using assms by (intro rb_baseI [OF refl]) (simp_all add: rb_baseD del: set_map)

text \<open>The loop over the extents to the right of \<open>start\<close>.\<close>

lemma rb_remove_scan_spec:
  assumes "rb_remove_scan bs s c rv bp = (retval, bp')"
    and "inorder (rb_root bp) = ys @ bs" "rb_base bp" "exts_ok bs"
    and "\<forall>b\<in>set bs. unat s < es b" "unat s + unat c < 2 ^ 64"
  shows "\<exists>bs'. inorder (rb_root bp') = ys @ bs' \<and> rb_base bp' \<and> exts_ok bs' \<and>
    ext_bits bs' = ext_bits bs - {unat s..<unat s + unat c} \<and>
    (\<forall>b'\<in>set bs'. \<exists>b\<in>set bs. es b \<le> es b') \<and>
    retval = (if \<exists>b\<in>set bs. es b \<le> unat s + unat c then 1 else rv)"
  using assms
proof (induction bs arbitrary: rv bp)
  case Nil
  then show ?case by simp
next
  case (Cons b bs)
  then have ok: "ext_ok b" by simp
  have sc: "unat (s + c) = unat s + unat c" using Cons.prems(6) by (simp add: unat_plus_less)
  note w = ext_ok_word [OF ok] sc
  from Cons.prems(5) have sb: "unat s < es b" by simp
  with w have nle: "\<not> ext_start b + ext_count b \<le> s" by (simp add: word_cmp)
  from Cons.prems(4) have later: "\<forall>x\<in>set bs. ee b < es x" "exts_ok bs" by simp_all
  consider "s + c < ext_start b" | "\<not> s + c < ext_start b" "s + c \<ge> ext_start b + ext_count b"
    | "\<not> s + c < ext_start b" "\<not> s + c \<ge> ext_start b + ext_count b" by blast
  then show ?case
  proof cases
    case 1
    with w have lt: "unat s + unat c < es b" by (simp add: word_cmp)
    with later w have lt': "\<forall>x\<in>set (b # bs). unat s + unat c < es x" by fastforce
    then have "ext_bits (b # bs) \<inter> {unat s..<unat s + unat c} = {}"
      unfolding ext_bits_def by fastforce
    then have "ext_bits (b # bs) - {unat s..<unat s + unat c} = ext_bits (b # bs)" by blast
    moreover from 1 nle Cons.prems(1) have "retval = rv" "bp' = bp" by simp_all
    moreover from lt' have "\<not> (\<exists>x\<in>set (b # bs). es x \<le> unat s + unat c)" by (simp add: not_le)
    ultimately show ?thesis using Cons.prems(2-4) by (intro exI [of _ "b # bs"]) auto
  next
    case 2
    let ?bp = "rb_erase_free bp (ext_node b)"
    note er = rb_erase_free_spec [OF Cons.prems(3,2)]
    from 2 nle Cons.prems(1) have "rb_remove_scan bs s c 1 ?bp = (retval, bp')" by simp
    from Cons.IH [OF this er(2,1) later(2)] Cons.prems(5,6) obtain bs' where
      bs': "inorder (rb_root bp') = ys @ bs'" "rb_base bp'" "exts_ok bs'"
      "ext_bits bs' = ext_bits bs - {unat s..<unat s + unat c}"
      "\<forall>b'\<in>set bs'. \<exists>b\<in>set bs. es b \<le> es b'" "retval = 1" by auto
    moreover from 2 w sb have "{es b..<ee b} \<subseteq> {unat s..<unat s + unat c}" "es b \<le> unat s + unat c"
      by (auto simp: word_cmp)
    ultimately show ?thesis by (intro exI [of _ bs']) auto
  next
    case 3
    with w have lt: "es b \<le> unat s + unat c" "unat s + unat c < ee b"
      by (simp_all add: word_cmp not_less not_le)
    define b' where "b' = b\<lparr>ext_start := s + c, ext_count := ext_count b - ((s + c) - ext_start b)\<rparr>"
    have "unat ((s + c) - ext_start b) = unat s + unat c - es b"
      using lt by (simp add: unat_minus_le sc)
    then have "unat (ext_count b') = unat (ext_count b) - (unat s + unat c - es b)"
      using lt by (simp add: b'_def unat_minus_le)
    moreover have eb: "es b' = unat s + unat c" by (simp add: b'_def sc)
    ultimately have eb': "ee b' = ee b" using lt by simp
    then have okb: "ext_ok b'" using lt w eb by (auto simp: ext_ok_def)
    have "\<forall>x\<in>set bs. unat s + unat c \<le> es x" using later(1) lt by fastforce
    then have "ext_bits bs - {unat s..<unat s + unat c} = ext_bits bs"
      unfolding ext_bits_def by fastforce
    moreover have "{es b..<ee b} - {unat s..<unat s + unat c} = {es b'..<ee b'}"
      unfolding eb' unfolding eb using lt sb by auto
    ultimately have bits: "ext_bits (b' # bs) = ext_bits (b # bs) - {unat s..<unat s + unat c}"
      by (simp only: ext_bits_simps Un_Diff)
    from 3 nle Cons.prems(1) have bp': "retval = 1"
      "bp' = bp\<lparr>rb_root := rb_set_extent (ext_node b) (s + c)
         (ext_count b - ((s + c) - ext_start b)) (rb_root bp)\<rparr>" by simp_all
    then have "inorder (rb_root bp') = ys @ b' # bs"
      using rb_set_extent_inorder [OF Cons.prems(2) rb_base_distinct [OF Cons.prems(3)]]
      by (simp add: b'_def)
    moreover have "exts_ok (b' # bs)" using okb later by (simp only: exts_ok_simps eb')
    moreover have "\<forall>y\<in>set (b' # bs). \<exists>x\<in>set (b # bs). es x \<le> es y" using lt eb by auto
    moreover have "rb_base bp'" using Cons.prems(3) by (simp only: bp' rb_base_set_extent)
    ultimately show ?thesis using bits lt(1) bp'(1) by (intro exI [of _ "b' # bs"]) simp
  qed
qed

lemma rb_remove_search_descend:
  "rb_remove_search s c t ps rv =
     (case rb_descend (\<lambda>ext. s < ext_start ext) (\<lambda>ext. s \<ge> ext_start ext + ext_count ext) t ps of
        (Leaf, qs) \<Rightarrow> RR_Scan (plug Leaf qs) (rb_parent qs) rv
      | (Node cl l e r, qs) \<Rightarrow> rb_remove_search s c (Node cl l e r) qs rv)"
  by (induction t arbitrary: ps) (simp_all split: if_splits)

text \<open>Where the scan starts: at the neighbour on either side of \<open>start\<close>.\<close>

lemma rb_scan_from_cases:
  assumes "inorder root = as @ bs" "distinct (ext_nodes (inorder root))"
    and "parent = None \<longrightarrow> as = [] \<and> bs = []"
    and "\<And>p. parent = Some p \<Longrightarrow> (as \<noteq> [] \<and> last as = p) \<or> (bs \<noteq> [] \<and> hd bs = p)"
  shows "rb_scan_from root parent = bs \<or> (as \<noteq> [] \<and> rb_scan_from root parent = last as # bs)"
proof (cases parent)
  case None
  with assms(3) show ?thesis by (simp add: rb_scan_from_def)
next
  case (Some p)
  then consider "as \<noteq> []" "last as = p" | "bs \<noteq> []" "hd bs = p" using assms(4) by blast
  then show ?thesis
  proof cases
    case 1
    then have "inorder root = butlast as @ p # bs"
      using assms(1) by (metis append_assoc append_butlast_last_id append_Cons append_Nil)
    from rb_node_access(2) [OF this assms(2)] 1 Some show ?thesis by (simp add: rb_scan_from_def)
  next
    case 2
    then have "inorder root = as @ p # tl bs" using assms(1) by (metis list.collapse)
    from rb_node_access(2) [OF this assms(2)] 2 Some show ?thesis by (auto simp: rb_scan_from_def)
  qed
qed

lemma rb_scan_from_skip:
  assumes "inorder root = as @ bs" "distinct (ext_nodes (inorder root))"
    and "parent = None \<longrightarrow> as = [] \<and> bs = []"
    and "\<And>p. parent = Some p \<Longrightarrow> (as \<noteq> [] \<and> last as = p) \<or> (bs \<noteq> [] \<and> hd bs = p)"
    and "\<forall>a\<in>set as. ext_ok a \<and> ee a \<le> unat s"
  shows "rb_remove_scan (rb_scan_from root parent) s c rv bp = rb_remove_scan bs s c rv bp"
    and "rb_test_clear_scan (rb_scan_from root parent) s len = rb_test_clear_scan bs s len"
proof -
  note rb_scan_from_cases [OF assms(1-4)]
  moreover have "ext_start (last as) + ext_count (last as) \<le> s" if "as \<noteq> []"
    using assms(5) that last_in_set [OF that] by (simp add: word_cmp ext_ok_word)
  ultimately show "rb_remove_scan (rb_scan_from root parent) s c rv bp = rb_remove_scan bs s c rv bp"
    "rb_test_clear_scan (rb_scan_from root parent) s len = rb_test_clear_scan bs s len" by auto
qed

text \<open>The scan from a place where \<open>start\<close> is in no extent.\<close>

lemma rb_remove_gap:
  assumes base: "rb_base bp" and ino: "inorder (rb_root bp) = as @ bs" and ok: "exts_ok (as @ bs)"
    and pos: "\<forall>a\<in>set as. ee a \<le> unat s" "\<forall>b\<in>set bs. unat s < es b" and cnt: "unat s + unat c < 2 ^ 64"
    and par: "parent = None \<longrightarrow> as = [] \<and> bs = []"
      "\<And>p. parent = Some p \<Longrightarrow> (as \<noteq> [] \<and> last as = p) \<or> (bs \<noteq> [] \<and> hd bs = p)"
    and res: "rb_remove_scan (rb_scan_from (rb_root bp) parent) s c rv bp = (retval, bp')"
  shows "rb_inv bp' \<and> rb_bits bp' = ext_bits as \<union> (ext_bits bs - {unat s..<unat s + unat c}) \<and>
    retval = (if \<exists>b\<in>set bs. es b \<le> unat s + unat c then 1 else rv)"
proof -
  have "\<forall>a\<in>set as. ext_ok a \<and> ee a \<le> unat s" using ok pos(1) by (auto intro: exts_ok_ext_ok)
  from rb_scan_from_skip(1) [OF ino rb_base_distinct [OF base] par this] res
  have "rb_remove_scan bs s c rv bp = (retval, bp')" by simp
  from rb_remove_scan_spec [OF this ino base _ pos(2) cnt] ok obtain bs' where
    bs': "inorder (rb_root bp') = as @ bs'" "rb_base bp'" "exts_ok bs'"
    "ext_bits bs' = ext_bits bs - {unat s..<unat s + unat c}"
    "\<forall>b'\<in>set bs'. \<exists>b\<in>set bs. es b \<le> es b'"
    "retval = (if \<exists>b\<in>set bs. es b \<le> unat s + unat c then 1 else rv)" by auto
  moreover have "\<forall>a\<in>set as. \<forall>b\<in>set bs'. ee a < es b" using ok bs'(5) by fastforce
  ultimately show ?thesis using ok by (simp add: rb_inv_def rb_bits_def)
qed

lemma ext_bits_Diff_outside:
  assumes "\<forall>e\<in>set xs. ee e \<le> m \<or> n \<le> es e"
  shows "ext_bits xs - {m..<n} = ext_bits xs"
  using assms unfolding ext_bits_def by fastforce

text \<open>Replacing one extent: the parts of the invariant.\<close>

lemma rb_replace_one:
  assumes inv: "rb_inv bp" and ino: "inorder (rb_root bp) = as @ e # bs"
    and "inorder root = as @ e' # bs" "ext_node e' = ext_node e" "rb_tree_inv root"
    and "ext_ok e'" "es e \<le> es e'" "ee e' \<le> ee e"
  shows "rb_inv (bp\<lparr>rb_root := root\<rparr>)"
    and "rb_bits (bp\<lparr>rb_root := root\<rparr>) = ext_bits as \<union> {es e'..<ee e'} \<union> ext_bits bs"
proof -
  have "rb_base (bp\<lparr>rb_root := root\<rparr>)"
    using assms by (intro rb_base_root) (simp_all add: rb_inv_def)
  moreover have "exts_ok (as @ e' # bs)"
    using rb_inv_exts_ok [OF inv] assms(6-8) unfolding ino by (fastforce simp: exts_ok_simps)
  ultimately show "rb_inv (bp\<lparr>rb_root := root\<rparr>)" by (simp add: rb_inv_def assms(3))
  show "rb_bits (bp\<lparr>rb_root := root\<rparr>) = ext_bits as \<union> {es e'..<ee e'} \<union> ext_bits bs"
    by (simp add: rb_bits_def assms(3) Un_assoc)
qed

lemma rb_remove_inside:
  assumes inv: "rb_inv bp" and ino: "inorder (rb_root bp) = as @ e # bs"
    and at: "es e \<le> unat s" "unat s + unat c < ee e"
  shows "rb_bits bp - {unat s..<unat s + unat c} =
    ext_bits as \<union> {es e..<unat s} \<union> {unat s + unat c..<ee e} \<union> ext_bits bs"
proof -
  have "exts_ok (as @ e # bs)" using rb_inv_exts_ok [OF inv] by (simp add: ino)
  then have "\<forall>a\<in>set as. ee a \<le> unat s \<or> unat s + unat c \<le> es a"
    "\<forall>b\<in>set bs. ee b \<le> unat s \<or> unat s + unat c \<le> es b" using at by fastforce+
  note this [THEN ext_bits_Diff_outside]
  moreover have "{es e..<ee e} - {unat s..<unat s + unat c} = {es e..<unat s} \<union> {unat s + unat c..<ee e}"
    using at by auto
  ultimately show ?thesis by (simp only: rb_bits_def ino ext_bits_simps Un_Diff Un_assoc)
qed

lemma rb_remove_split:
  assumes inv: "rb_inv bp" and ino: "inorder (rb_root bp) = as @ e # bs"
    and at: "es e < unat s" "unat s + unat c < ee e"
    and root: "inorder root = as @ e\<lparr>ext_count := s - ext_start e\<rparr> # bs" "rb_tree_inv root"
    and res: "rb_insert_extent (s + c) ((ext_start e + ext_count e) - (s + c)) (bp\<lparr>rb_root := root\<rparr>) = (rv, bp')"
  shows "rb_inv bp'" "rb_bits bp' = rb_bits bp - {unat s..<unat s + unat c}"
proof -
  have e: "ext_ok e" using rb_inv_exts_ok [OF inv] by (simp add: ino)
  note w = ext_ok_word [OF e]
  define e' where "e' = e\<lparr>ext_count := s - ext_start e\<rparr>"
  have e': "es e' = es e" "ee e' = unat s" using at(1) by (simp_all add: e'_def unat_minus_le)
  have "unat (s - ext_start e) \<noteq> 0" using at(1) by (simp add: unat_minus_le)
  then have "ext_count e' \<noteq> 0" by (auto simp: e'_def)
  with e' at w have "ext_ok e'" by (simp only: ext_ok_def) simp
  with e' at root rb_replace_one [OF inv ino, of root e']
  have one: "rb_inv (bp\<lparr>rb_root := root\<rparr>)"
    "rb_bits (bp\<lparr>rb_root := root\<rparr>) = ext_bits as \<union> {es e..<unat s} \<union> ext_bits bs"
    by (simp_all add: e'_def [symmetric]) (simp_all add: e'_def)
  have sc: "unat (s + c) = unat s + unat c" using at(2) w(3) by (simp add: unat_plus_less)
  have n: "unat ((ext_start e + ext_count e) - (s + c)) = ee e - (unat s + unat c)"
    using at(2) by (simp add: unat_minus_le w(1) sc)
  with sc at w have "unat (s + c) + unat ((ext_start e + ext_count e) - (s + c)) = ee e" by simp
  with rb_insert_extent_spec [OF one(1) _ res] w(3) one(2) sc
  have "rb_inv bp' \<and> rb_bits bp' = ext_bits as \<union> {es e..<unat s} \<union> ext_bits bs \<union> {unat s + unat c..<ee e}"
    by simp
  then show "rb_inv bp'" "rb_bits bp' = rb_bits bp - {unat s..<unat s + unat c}"
    unfolding rb_remove_inside [OF inv ino less_imp_le [OF at(1)] at(2)] by blast+
qed

lemma rb_remove_shift:
  assumes inv: "rb_inv bp" and ino: "inorder (rb_root bp) = as @ e # bs"
    and at: "ext_start e = s" "unat s + unat c < ee e"
    and root: "inorder root = as @ e\<lparr>ext_start := ext_start e + c, ext_count := ext_count e - c\<rparr> # bs"
      "rb_tree_inv root"
  shows "rb_inv (bp\<lparr>rb_root := root\<rparr>)"
    "rb_bits (bp\<lparr>rb_root := root\<rparr>) = rb_bits bp - {unat s..<unat s + unat c}"
proof -
  have e: "ext_ok e" using rb_inv_exts_ok [OF inv] by (simp add: ino)
  note w = ext_ok_word [OF e]
  define e' where "e' = e\<lparr>ext_start := ext_start e + c, ext_count := ext_count e - c\<rparr>"
  have cc: "unat c < unat (ext_count e)" using at by simp
  then have "unat (ext_count e') = unat (ext_count e) - unat c" by (simp add: e'_def unat_minus_le)
  moreover have e1: "es e' = unat s + unat c"
    using at w(3) by (simp add: e'_def unat_plus_less)
  ultimately have e2: "ee e' = ee e" using cc at(1) by simp
  have "ext_count e' \<noteq> 0" using cc by (auto simp: e'_def)
  with e2 w have "ext_ok e'" by (simp only: ext_ok_def) simp
  moreover have "es e \<le> es e'" "ee e' \<le> ee e" using e1 e2 at(1) by simp_all
  moreover have "inorder root = as @ e' # bs" "ext_node e' = ext_node e" by (simp_all add: root e'_def)
  ultimately have one: "rb_inv (bp\<lparr>rb_root := root\<rparr>)"
    "rb_bits (bp\<lparr>rb_root := root\<rparr>) = ext_bits as \<union> {es e'..<ee e'} \<union> ext_bits bs"
    using rb_replace_one [OF inv ino _ _ root(2), of e'] by blast+
  then show "rb_inv (bp\<lparr>rb_root := root\<rparr>)" by simp
  have "es e \<le> unat s" by (simp add: at(1))
  from rb_remove_inside [OF inv ino this at(2)] one(2)
  show "rb_bits (bp\<lparr>rb_root := root\<rparr>) = rb_bits bp - {unat s..<unat s + unat c}"
    unfolding e2 unfolding e1 by (simp add: at(1))
qed

text \<open>Dropping an extent that starts at \<open>start\<close>, or cutting its tail off, and then scanning.\<close>

lemma rb_remove_tail_bits:
  assumes "exts_ok (as @ e # bs)" "es e \<le> unat s" "unat s < ee e" "ee e \<le> unat s + unat c"
  shows "ext_bits (as @ e # bs) - {unat s..<unat s + unat c} =
    ext_bits as \<union> {es e..<unat s} \<union> (ext_bits bs - {unat s..<unat s + unat c})"
proof -
  have "\<forall>a\<in>set as. ee a \<le> unat s \<or> unat s + unat c \<le> es a" using assms by fastforce
  note this [THEN ext_bits_Diff_outside]
  moreover have "{es e..<ee e} - {unat s..<unat s + unat c} = {es e..<unat s}"
    using assms(2-4) by auto
  ultimately show ?thesis by (simp only: ext_bits_simps Un_Diff Un_assoc)
qed

lemma rb_remove_drop:
  assumes inv: "rb_inv bp" and ino: "inorder (rb_root bp) = as @ e # bs"
    and at: "ext_start e = s" "ee e \<le> unat s + unat c" and cnt: "unat s + unat c < 2 ^ 64"
    and root: "inorder root = as @ bs" "rb_tree_inv root"
    and par: "parent = (case bs of [] \<Rightarrow> None | x # _ \<Rightarrow> Some x)"
    and res: "rb_remove_scan (rb_scan_from root parent) s c 1
      (rb_free_extent (bp\<lparr>rb_root := root\<rparr>) (ext_node e)) = (retval, bp')"
  shows "rb_inv bp'" "rb_bits bp' = rb_bits bp - {unat s..<unat s + unat c}" "retval = 1"
proof -
  let ?bp = "rb_free_extent (bp\<lparr>rb_root := root\<rparr>) (ext_node e)"
  have ok: "exts_ok (as @ e # bs)" using rb_inv_exts_ok [OF inv] by (simp add: ino)
  have base: "rb_base bp" using inv by (simp add: rb_inv_def)
  note fr = rb_free_extent_spec [OF base ino root]
  have ok': "exts_ok (as @ bs)" using ok by simp
  have pos: "\<forall>a\<in>set as. ee a \<le> unat s" "\<forall>b\<in>set bs. unat s < es b"
    using ok at(1) by fastforce+
  have scan: "rb_remove_scan bs s c 1 ?bp = (retval, bp')"
  proof (cases bs)
    case Nil
    then show ?thesis using res par by (simp add: rb_scan_from_def)
  next
    case (Cons b bs')
    then have "rb_scan_from root parent = bs"
      using par rb_node_access(2) [of root as b bs'] root(1) fr(1,2) rb_base_distinct [OF fr(1)]
      by (simp add: rb_scan_from_def)
    with res show ?thesis by simp
  qed
  have "inorder (rb_root ?bp) = as @ bs" by (simp add: fr(2) root(1))
  from rb_remove_scan_spec [OF scan this fr(1) _ pos(2) cnt] ok' obtain bs' where
    bs': "inorder (rb_root bp') = as @ bs'" "rb_base bp'" "exts_ok bs'"
    "ext_bits bs' = ext_bits bs - {unat s..<unat s + unat c}"
    "\<forall>b'\<in>set bs'. \<exists>b\<in>set bs. es b \<le> es b'" "retval = 1" by auto
  moreover have "\<forall>a\<in>set as. \<forall>b\<in>set bs'. ee a < es b" using ok' bs'(5) by fastforce
  ultimately show "rb_inv bp'" "retval = 1" using ok' by (simp_all add: rb_inv_def)
  have "unat s < ee e" using ext_ok_word(2) [of e] ok at(1) by simp
  from rb_remove_tail_bits [OF ok _ this at(2)] at(1) bs'(1,4)
  show "rb_bits bp' = rb_bits bp - {unat s..<unat s + unat c}"
    by (simp add: rb_bits_def ino)
qed

lemma rb_remove_cut:
  assumes inv: "rb_inv bp" and ino: "inorder (rb_root bp) = as @ e # bs"
    and at: "es e < unat s" "unat s < ee e" "ee e \<le> unat s + unat c" and cnt: "unat s + unat c < 2 ^ 64"
    and root: "inorder root = (as @ [e\<lparr>ext_count := s - ext_start e\<rparr>]) @ bs" "rb_tree_inv root"
    and par: "parent \<noteq> None"
      "\<And>p. parent = Some p \<Longrightarrow> last (as @ [e\<lparr>ext_count := s - ext_start e\<rparr>]) = p \<or> (bs \<noteq> [] \<and> hd bs = p)"
    and res: "rb_remove_scan (rb_scan_from root parent) s c 1 (bp\<lparr>rb_root := root\<rparr>) = (retval, bp')"
  shows "rb_inv bp'" "rb_bits bp' = rb_bits bp - {unat s..<unat s + unat c}" "retval = 1"
proof -
  have ok: "exts_ok (as @ e # bs)" using rb_inv_exts_ok [OF inv] by (simp add: ino)
  then have e: "ext_ok e" by simp
  define e' where "e' = e\<lparr>ext_count := s - ext_start e\<rparr>"
  have e': "es e' = es e" "ee e' = unat s" using at(1) by (simp_all add: e'_def unat_minus_le)
  have "unat (s - ext_start e) \<noteq> 0" using at(1) by (simp add: unat_minus_le)
  then have "ext_count e' \<noteq> 0" by (auto simp: e'_def)
  with e' at ext_ok_word(3) [OF e] have eok: "ext_ok e'" by (simp only: ext_ok_def) simp
  have ino': "inorder root = (as @ [e']) @ bs" by (simp add: root e'_def)
  then have "inorder root = as @ e' # bs" by simp
  with eok e' at rb_replace_one [OF inv ino this _ root(2)]
  have one: "rb_inv (bp\<lparr>rb_root := root\<rparr>)" by (simp add: e'_def)
  then have base: "rb_base (bp\<lparr>rb_root := root\<rparr>)" and ok': "exts_ok ((as @ [e']) @ bs)"
    using ino' by (simp_all add: rb_inv_def)
  have pos: "\<forall>a\<in>set (as @ [e']). ee a \<le> unat s" "\<forall>b\<in>set bs. unat s < es b"
    using ok at e' by fastforce+
  have root': "inorder (rb_root (bp\<lparr>rb_root := root\<rparr>)) = (as @ [e']) @ bs" by (simp add: ino')
  have "rb_inv bp' \<and> rb_bits bp' = ext_bits (as @ [e']) \<union> (ext_bits bs - {unat s..<unat s + unat c}) \<and>
    retval = (if \<exists>b\<in>set bs. es b \<le> unat s + unat c then 1 else 1)"
  proof (rule rb_remove_gap [OF base root' ok' pos cnt])
    show "parent = None \<longrightarrow> as @ [e'] = [] \<and> bs = []" using par(1) by simp
    show "as @ [e'] \<noteq> [] \<and> last (as @ [e']) = p \<or> bs \<noteq> [] \<and> hd bs = p" if "parent = Some p" for p
      using par(2) [OF that] by (simp add: e'_def)
    show "rb_remove_scan (rb_scan_from (rb_root (bp\<lparr>rb_root := root\<rparr>)) parent) s c 1
      (bp\<lparr>rb_root := root\<rparr>) = (retval, bp')" using res by simp
  qed
  moreover have "ext_bits (as @ [e']) = ext_bits as \<union> {es e..<unat s}"
    unfolding ext_bits_simps e'(2) unfolding e'(1) by simp
  ultimately show "rb_inv bp'" "retval = 1" "rb_bits bp' = rb_bits bp - {unat s..<unat s + unat c}"
    using rb_remove_tail_bits [OF ok less_imp_le [OF at(1)] at(2,3)] by (simp_all add: rb_bits_def [of bp] ino)
qed

lemma rb_descend_all_left:
  assumes "\<forall>x\<in>set (inorder t). unat s < es x"
  shows "\<exists>qs. rb_descend (\<lambda>ext. s < ext_start ext) R t ps = (Leaf, qs) \<and>
    before qs = before ps \<and> after qs = inorder t @ after ps \<and> plug Leaf qs = plug t ps"
  using assms by (induction t arbitrary: ps) (fastforce simp: word_cmp)+

text \<open>What the descent does in the extent that holds \<open>start\<close>.\<close>

lemma rb_remove_at:
  assumes inv: "rb_inv bp" and cnt: "unat s + unat c < 2 ^ 64"
    and sr: "rb_search s (rb_root bp) = (Node cl l e r, ps)"
    and res: "rb_remove_extent s c bp = (retval, bp')"
  shows "rb_inv bp' \<and> rb_bits bp' = rb_bits bp - {unat s..<unat s + unat c} \<and> retval = 1"
proof -
  note ok = rb_inv_exts_ok [OF inv]
  note nd = rb_search_Node [OF sr ok]
  have e: "ext_ok e" using ok nd(1) by simp
  have sc: "unat (s + c) = unat s + unat c" using cnt by (simp add: unat_plus_less)
  have tinv: "rb_tree_inv (plug (Node cl l e r) ps)"
    using inv nd(4) by (simp add: rb_inv_def rb_base_tree_inv)
  then have tinv': "rb_tree_inv (plug (Node cl l x r) ps)" for x by (simp add: rb_tree_inv_plug)
  have ino': "inorder (plug (Node cl l x r) ps) = (before ps @ inorder l) @ x # (inorder r @ after ps)" for x
    by simp
  have rt: "rb_root bp \<noteq> Leaf" using nd(1) by auto
  have srch: "rb_remove_search s c (rb_root bp) [] 0 = rb_remove_search s c (Node cl l e r) ps 0"
    using sr by (subst rb_remove_search_descend) (simp add: rb_search_def)
  have ne: "\<not> s < ext_start e" "\<not> ext_start e + ext_count e \<le> s"
    using nd(2,3) e by (simp_all add: word_cmp ext_ok_word)
  note un = rb_remove_extent_def ext2fs_rb_empty_root_def srch ne rt
  consider (Split) "es e < unat s" "unat s + unat c < ee e" | (Shift) "ext_start e = s" "unat s + unat c < ee e"
    | (Drop) "ext_start e = s" "ee e \<le> unat s + unat c" | (Cut) "es e < unat s" "ee e \<le> unat s + unat c"
    using nd(2) by (metis le_neq_implies_less not_le word_unat_eq_iff)
  then show ?thesis
  proof cases
    case Split
    with sc e have "s > ext_start e" "s + c < ext_start e + ext_count e"
      by (simp_all add: word_cmp ext_ok_word)
    with res have "retval = 1" "bp' = snd (rb_insert_extent (s + c) ((ext_start e + ext_count e) - (s + c))
        (bp\<lparr>rb_root := plug (Node cl l (e\<lparr>ext_count := s - ext_start e\<rparr>) r) ps\<rparr>))"
      by (simp_all add: un)
    with rb_remove_split [OF inv nd(1) Split ino' tinv' prod.collapse [symmetric]] show ?thesis by simp
  next
    case Shift
    with sc e have "\<not> s + c \<ge> s + ext_count e" "ext_count e \<noteq> 0"
      by (auto simp: word_cmp ext_ok_word ext_ok_def)
    with res have "retval = 1" "bp' = bp\<lparr>rb_root := plug (Node cl l (e\<lparr>ext_start := ext_start e + c,
        ext_count := ext_count e - c\<rparr>) r) ps\<rparr>"
      by (simp_all add: un ne [unfolded Shift(1)] Shift(1))
    with rb_remove_shift [OF inv nd(1) Shift ino' tinv'] show ?thesis by simp
  next
    case Drop
    with sc e have "s + c \<ge> s + ext_count e" by (auto simp: word_cmp ext_ok_word)
    with res have "rb_remove_scan (rb_scan_from (ext2fs_rb_erase (Node cl l e r) ps)
        (ext2fs_rb_next (Node cl l e r) ps)) s c 1
        (rb_free_extent (bp\<lparr>rb_root := ext2fs_rb_erase (Node cl l e r) ps\<rparr>) (ext_node e)) = (retval, bp')"
      by (simp add: un Let_def ne [unfolded Drop(1)] Drop(1))
    from rb_remove_drop [OF inv nd(1) Drop cnt _ erase_inv [OF tinv] rb_next_inorder this]
    show ?thesis by (simp add: inorder_erase)
  next
    case Cut
    let ?f = "In_Right cl l (e\<lparr>ext_count := s - ext_start e\<rparr>) # ps"
    from Cut(1) have "unat (s - ext_start e) \<noteq> 0" by (simp add: unat_minus_le)
    then have nz: "s - ext_start e \<noteq> 0" by auto
    from Cut sc e have w: "s > ext_start e" "\<not> s + c < ext_start e + ext_count e" "s \<noteq> ext_start e"
      by (auto simp: word_cmp ext_ok_word)
    have "\<forall>x\<in>set (inorder r). unat s < es x" using ok nd(3) unfolding nd(1)
      by (intro ballI less_trans [OF nd(3)]) auto
    from rb_descend_all_left [OF this, of _ ?f] obtain qs where
      qs: "rb_descend (\<lambda>ext. s < ext_start ext) (\<lambda>ext. s \<ge> ext_start ext + ext_count ext) r ?f = (Leaf, qs)"
      "before qs = before ?f" "after qs = inorder r @ after ps" "plug Leaf qs = plug r ?f" by auto
    have "rb_remove_search s c r ?f 1 = RR_Scan (plug r ?f) (rb_parent qs) 1"
      by (subst rb_remove_search_descend) (simp add: qs)
    with res w nz have scan: "rb_remove_scan (rb_scan_from (plug r ?f) (rb_parent qs)) s c 1
        (bp\<lparr>rb_root := plug r ?f\<rparr>) = (retval, bp')"
      by (simp add: un not_less)
    have "qs \<noteq> []" using qs(2) by auto
    then show ?thesis
      using rb_remove_cut [OF inv nd(1) Cut(1) nd(3) Cut(2) cnt _ _ _ _ scan] tinv' rb_parent_neighbour [of qs] qs
      by simp
  qed
qed

lemma rb_remove_extent_spec:
  assumes inv: "rb_inv bp" and cnt: "unat s + unat c < 2 ^ 64"
    and res: "rb_remove_extent s c bp = (retval, bp')"
  shows "rb_inv bp' \<and> rb_bits bp' = rb_bits bp - {unat s..<unat s + unat c} \<and>
    retval = (if rb_bits bp \<inter> {unat s..unat s + unat c} \<noteq> {} then 1 else 0)"
proof (cases "rb_search s (rb_root bp)")
  case (Pair n ps)
  note ok = rb_inv_exts_ok [OF inv]
  show ?thesis
  proof (cases n)
    case (Node cl l e r)
    with Pair have sr: "rb_search s (rb_root bp) = (Node cl l e r, ps)" by simp
    note nd = rb_search_Node [OF sr ok]
    have "unat s \<in> rb_bits bp" using nd(2,3) by (simp add: rb_bits_def nd(1))
    then have "rb_bits bp \<inter> {unat s..unat s + unat c} \<noteq> {}" by auto
    with rb_remove_at [OF inv cnt sr res] show ?thesis by simp
  next
    case Leaf
    with Pair have sr: "rb_search s (rb_root bp) = (Leaf, ps)" by simp
    note lf = rb_search_Leaf [OF sr ok]
    have okl: "exts_ok (before ps @ after ps)" using ok by (simp add: lf(1))
    have "rb_remove_search s c (rb_root bp) [] 0 = RR_Scan (rb_root bp) (rb_parent ps) 0"
      using sr by (subst rb_remove_search_descend) (simp add: rb_search_def lf(4))
    with res lf(1) have scan: "rb_remove_scan (rb_scan_from (rb_root bp) (rb_parent ps)) s c 0 bp = (retval, bp')"
      by (auto simp: rb_remove_extent_def ext2fs_rb_empty_root_def rb_scan_from_def rb_from_def
          split: if_splits option.splits)
    have base: "rb_base bp" using inv by (simp add: rb_inv_def)
    have "rb_inv bp' \<and> rb_bits bp' = ext_bits (before ps) \<union> (ext_bits (after ps) - {unat s..<unat s + unat c}) \<and>
      retval = (if \<exists>b\<in>set (after ps). es b \<le> unat s + unat c then 1 else 0)"
      using rb_parent_neighbour [of ps]
      by (intro rb_remove_gap [OF base lf(1) okl lf(2,3) cnt _ _ scan]) auto
    moreover have "ext_bits (before ps) - {unat s..<unat s + unat c} = ext_bits (before ps)"
      using lf(2) by (intro ext_bits_Diff_outside) simp
    moreover have "(\<exists>b\<in>set (after ps). es b \<le> unat s + unat c) \<longleftrightarrow>
      rb_bits bp \<inter> {unat s..unat s + unat c} \<noteq> {}" (is "?L \<longleftrightarrow> _")
    proof
      assume ?L
      then obtain b where b: "b \<in> set (after ps)" "es b \<le> unat s + unat c" by blast
      then have "ext_ok b" using okl by (auto intro: exts_ok_ext_ok)
      with b lf(3) have "es b \<in> rb_bits bp \<inter> {unat s..unat s + unat c}"
        by (auto simp: rb_bits_def lf(1) ext_bits_def ext_ok_word intro!: bexI [of _ b] less_imp_le)
      then show "rb_bits bp \<inter> {unat s..unat s + unat c} \<noteq> {}" by blast
    next
      assume "rb_bits bp \<inter> {unat s..unat s + unat c} \<noteq> {}"
      then obtain n where n: "n \<in> rb_bits bp" "unat s \<le> n" "n \<le> unat s + unat c" by auto
      then have "n \<in> ext_bits (after ps)"
        using lf(2) unfolding rb_bits_def lf(1) by (fastforce simp: ext_bits_def)
      then obtain b where "b \<in> set (after ps)" "es b \<le> n" by (auto simp: ext_bits_def)
      with n(3) show ?L by (meson order_trans)
    qed
    ultimately show ?thesis by (simp add: rb_bits_def [of bp] lf(1) Un_Diff)
  qed
qed

section \<open>Testing a bit\<close>

lemma rb_base_cursor:
  assumes "rb_base bp" "p \<in> set (ext_nodes (inorder (rb_root bp)))"
  shows "rb_base (bp\<lparr>rcursor := Some p, rcursor_next := None\<rparr>)"
  using assms by (intro rb_baseI [OF refl]) (simp_all add: rb_baseD del: set_map)

lemma rb_base_no_rcursor:
  "rb_base bp \<Longrightarrow> rb_base (bp\<lparr>rcursor := None, rcursor_next := q\<rparr>)"
  by (rule rb_baseI [OF refl]) (simp_all add: rb_baseD del: set_map)

lemma rb_test_bit_search_spec:
  assumes inv: "rb_inv bp" and res: "rb_test_bit_search bp b = (retval, bp')"
  shows "rb_inv bp' \<and> rb_root bp' = rb_root bp \<and> retval = (if unat b \<in> rb_bits bp then 1 else 0)"
proof (cases "rb_search b (rb_root bp)")
  case (Pair n ps)
  note ok = rb_inv_exts_ok [OF inv]
  show ?thesis
  proof (cases n)
    case Leaf
    note lf = rb_search_Leaf [OF Pair [unfolded Leaf] ok]
    then have "unat b \<notin> rb_bits bp" unfolding rb_bits_def by (intro ext_bits_outside) auto
    with Pair Leaf res inv show ?thesis by (simp add: rb_test_bit_search_def)
  next
    case (Node cl l e r)
    note nd = rb_search_Node [OF Pair [unfolded Node] ok]
    have "unat b \<in> rb_bits bp" using nd(2,3) by (simp add: rb_bits_def nd(1))
    moreover have "rb_base (bp\<lparr>rcursor := Some (ext_node e), rcursor_next := None\<rparr>)"
      using inv by (intro rb_base_cursor) (simp_all add: rb_inv_def nd(1))
    ultimately show ?thesis using Pair Node res ok
      by (auto simp: rb_test_bit_search_def rb_inv_def)
  qed
qed

text \<open>The successor that the read cursor remembers or computes.\<close>

lemma rb_cursor_next:
  assumes base: "rb_base bp" and cur: "rcursor bp = Some (ext_node rc)"
    and ino: "inorder (rb_root bp) = as @ rc # bs"
  shows "(case rcursor_next bp of Some p \<Rightarrow> rb_find (rb_root bp) p
      | None \<Rightarrow> rb_next_node (rb_root bp) (ext_node rc)) = (case bs of [] \<Rightarrow> None | x # _ \<Rightarrow> Some x)"
proof (cases "rcursor_next bp")
  case None
  then show ?thesis using rb_node_access(4) [OF ino rb_base_distinct [OF base]] by simp
next
  case (Some q)
  from rb_baseD(6) [OF base cur Some] obtain xs ys where
    "ext_nodes as @ ext_node rc # ext_nodes bs = xs @ ext_node rc # q # ys" by (auto simp: ino)
  with rb_base_distinct [OF base] have "ext_nodes bs = q # ys"
    using distinct_split_unique [of "ext_nodes as" "ext_node rc" "ext_nodes bs" xs "ext_node rc" "q # ys" id]
    by (simp add: ino)
  then obtain x bs' where x: "bs = x # bs'" "ext_node x = q" by auto
  then have "inorder (rb_root bp) = (as @ [rc]) @ x # bs'" by (simp add: ino)
  from rb_node_access(1) [OF this rb_base_distinct [OF base]] Some x show ?thesis by simp
qed

lemma rb_base_set_next:
  assumes base: "rb_base bp" and cur: "rcursor bp = Some (ext_node rc)"
    and ino: "inorder (rb_root bp) = as @ rc # bs"
  shows "rb_base (bp\<lparr>rcursor_next := map_option ext_node (case bs of [] \<Rightarrow> None | x # _ \<Rightarrow> Some x)\<rparr>)"
    (is "rb_base ?bp")
proof (rule rb_baseI [OF refl])
  fix p q assume "rcursor ?bp = Some p" "rcursor_next ?bp = Some q"
  then obtain x bs' where "bs = x # bs'" "p = ext_node rc" "q = ext_node x"
    using cur by (auto split: list.splits)
  then have "ext_nodes (inorder (rb_root ?bp)) = ext_nodes as @ p # q # ext_nodes bs'" by (simp add: ino)
  then show "\<exists>as bs. ext_nodes (inorder (rb_root ?bp)) = as @ p # q # bs" by blast
qed (use rb_baseD [OF base] in \<open>simp_all del: set_map\<close>)

lemma rb_test_wcursor:
  assumes inv: "rb_inv bp"
    and res: "(case Option.bind (wcursor bp) (rb_find (rb_root bp)) of
        None \<Rightarrow> rb_test_bit_search bp b
      | Some wc \<Rightarrow> if b \<ge> ext_start wc \<and> b < ext_start wc + ext_count wc then (1, bp)
                  else rb_test_bit_search bp b) = (retval, bp')"
  shows "rb_inv bp' \<and> rb_root bp' = rb_root bp \<and> retval = (if unat b \<in> rb_bits bp then 1 else 0)"
proof (cases "\<exists>wc. Option.bind (wcursor bp) (rb_find (rb_root bp)) = Some wc \<and>
    b \<ge> ext_start wc \<and> b < ext_start wc + ext_count wc")
  case True
  then obtain wc where wc: "Option.bind (wcursor bp) (rb_find (rb_root bp)) = Some wc"
    "b \<ge> ext_start wc" "b < ext_start wc + ext_count wc" by blast
  then obtain p where "rb_find (rb_root bp) p = Some wc" by (auto simp: bind_eq_Some_conv)
  from rb_find_Some [OF this] obtain as bs where ino: "inorder (rb_root bp) = as @ wc # bs" by blast
  have "ext_ok wc" using rb_inv_exts_ok [OF inv] by (simp add: ino)
  with wc ino have "unat b \<in> rb_bits bp" by (simp add: rb_bits_def word_cmp ext_ok_word)
  with wc res inv show ?thesis by simp
next
  case False
  with res have "rb_test_bit_search bp b = (retval, bp')" by (auto split: option.splits if_splits)
  from rb_test_bit_search_spec [OF inv this] show ?thesis .
qed

lemma rb_test_bit_spec:
  assumes inv: "rb_inv bp" and res: "rb_test_bit bp b = (retval, bp')"
  shows "rb_inv bp' \<and> rb_root bp' = rb_root bp \<and> retval = (if unat b \<in> rb_bits bp then 1 else 0)"
proof (cases "Option.bind (rcursor bp) (rb_find (rb_root bp))")
  case None
  with res rb_test_bit_search_spec [OF inv] show ?thesis by (simp add: rb_test_bit_def)
next
  case (Some rc)
  then obtain p where p: "rcursor bp = Some p" "rb_find (rb_root bp) p = Some rc"
    by (auto simp: bind_eq_Some_conv)
  from rb_find_Some [OF p(2)] obtain as bs where rc: "inorder (rb_root bp) = as @ rc # bs" "ext_node rc = p" .
  with p have cur: "rcursor bp = Some (ext_node rc)" by simp
  have base: "rb_base bp" using inv by (simp add: rb_inv_def)
  note ok = rb_inv_exts_ok [OF inv]
  then have ok': "exts_ok (as @ rc # bs)" by (simp add: rc(1))
  then have "ext_ok rc" by simp
  note w = ext_ok_word [OF this]
  define nx where "nx = (case bs of [] \<Rightarrow> None | x # _ \<Rightarrow> Some x)"
  note nxt = rb_cursor_next [OF base cur rc(1), folded nx_def]
  let ?b1 = "bp\<lparr>rcursor_next := map_option ext_node nx\<rparr>"
  let ?b2 = "bp\<lparr>rcursor := None, rcursor_next := None\<rparr>"
  have i1: "rb_inv ?b1" using rb_base_set_next [OF base cur rc(1)] ok by (simp add: rb_inv_def nx_def)
  have i2: "rb_inv ?b2" using rb_base_no_rcursor [OF base] ok by (simp add: rb_inv_def)
  have b2: "rb_bits ?b2 = rb_bits bp" "rb_root ?b2 = rb_root bp" by (simp_all add: rb_bits_def)
  have rec: "bp\<lparr>rcursor_next := q, rcursor := None, rcursor_next := None\<rparr> = ?b2" for q
    by (cases bp) simp
  consider (In) "b \<ge> ext_start rc \<and> b < ext_start rc + ext_count rc"
    | (Gap) x where "\<not> (b \<ge> ext_start rc \<and> b < ext_start rc + ext_count rc)"
        "nx = Some x" "b \<ge> ext_start rc + ext_count rc" "b < ext_start x"
    | (Else) "\<not> (b \<ge> ext_start rc \<and> b < ext_start rc + ext_count rc)"
        "\<not> (case nx of Some x \<Rightarrow> b \<ge> ext_start rc + ext_count rc \<and> b < ext_start x | None \<Rightarrow> False)"
    by (cases nx) auto
  then show ?thesis
  proof cases
    case In
    with w have "unat b \<in> rb_bits bp" by (simp add: rb_bits_def rc(1) word_cmp)
    moreover from In res Some have "retval = 1" "bp' = bp" by (simp_all add: rb_test_bit_def)
    ultimately show ?thesis using inv by simp
  next
    case (Gap x)
    then obtain bs' where bs: "bs = x # bs'" by (auto simp: nx_def split: list.splits)
    have g: "ee rc \<le> unat b" "unat b < es x" using Gap(3,4) w by (simp_all add: word_cmp)
    have "unat b \<notin> ext_bits (as @ rc # bs)"
    proof (rule ext_bits_outside, rule ballI)
      fix e assume e: "e \<in> set (as @ rc # bs)"
      have "ee a \<le> unat b" if "a \<in> set as" for a
        using ok' that g(1) w(2) by (auto intro!: less_imp_le dest!: bspec)
      moreover have "unat b < es y" if "y \<in> set bs" for y
      proof -
        from ok' that have "y = x \<or> ee x < es y" by (auto simp: bs)
        with g(2) show ?thesis by auto
      qed
      ultimately show "unat b < es e \<or> ee e \<le> unat b" using e g(1) by auto
    qed
    then have "unat b \<notin> rb_bits bp" by (simp add: rb_bits_def rc(1))
    moreover have "retval = 0" "bp' = ?b1"
      using res unfolding rb_test_bit_def Some option.case if_not_P [OF Gap(1)] nxt Let_def
      by (simp_all add: Gap)
    ultimately show ?thesis using i1 by simp
  next
    case Else
    have "rb_test_bit bp b = (case Option.bind (wcursor ?b2) (rb_find (rb_root ?b2)) of
        None \<Rightarrow> rb_test_bit_search ?b2 b
      | Some wc \<Rightarrow> if b \<ge> ext_start wc \<and> b < ext_start wc + ext_count wc then (1, ?b2)
                  else rb_test_bit_search ?b2 b)"
      unfolding rb_test_bit_def Some option.case if_not_P [OF Else(1)] nxt Let_def rec
      by (simp add: Else(2))
    with res rb_test_wcursor [OF i2] b2 show ?thesis by simp
  qed
qed

end
