(* ===== verification/Blkmap64_RB_Ops.thy ===== *)
theory Blkmap64_RB_Ops
  imports Blkmap64_RB_Correct
begin

text \<open>
  The operations of the extent-tree back end on a whole 64-bit bitmap, its table
  of operations, and the proof that the table implements the interface
  \<open>bmap_backend\<close>. The marked bits are absolute bit numbers here.
\<close>

definition valid_rb :: "bmap64 \<Rightarrow> bool" where
  "valid_rb bm \<longleftrightarrow> header_ok bm \<and>
     (case bm_private bm of
        RB_private bp \<Rightarrow> rb_inv bp \<and> rb_bits bp \<subseteq> {..unat (bm_real_end bm) - unat (bm_start bm)}
      | BA_private _ \<Rightarrow> False)"

definition marked_rb :: "bmap64 \<Rightarrow> u64 set" where
  "marked_rb bm = {b. bm_start bm \<le> b \<and> unat b - unat (bm_start bm) \<in> rb_bits (rb_priv bm)}"

definition ext2fs_blkmap64_rbtree :: ext2_bitmap_ops where
  "ext2fs_blkmap64_rbtree = \<lparr>
     new_bmap = (\<lambda>mem junk. rb_new_bmap (mem 0)),
     copy_bmap = (\<lambda>mem junk. rb_copy_bmap (mem 0) (\<lambda>i. mem (Suc i))),
     resize_bmap = (\<lambda>mem junk. rb_resize_bmap),
     mark_bmap = rb_mark_bmap,
     unmark_bmap = rb_unmark_bmap,
     test_bmap = rb_test_bmap,
     mark_bmap_extent = rb_mark_bmap_extent,
     unmark_bmap_extent = rb_unmark_bmap_extent,
     test_clear_bmap_extent = rb_test_clear_bmap_extent,
     set_bmap_range = rb_set_bmap_range,
     get_bmap_range = rb_get_bmap_range,
     clear_bmap = rb_clear_bmap,
     ops_find_first_zero = Some rb_find_first_zero,
     ops_find_first_set = Some rb_find_first_set\<rparr>"

section \<open>Relative and absolute bits\<close>

lemma rb_priv_upd [simp]: "rb_priv (rb_upd bm bp) = bp"
  by (simp add: rb_priv_def)

lemma valid_rbD:
  assumes "valid_rb bm"
  shows "header_ok bm" "rb_inv (rb_priv bm)"
    "rb_bits (rb_priv bm) \<subseteq> {..unat (bm_real_end bm) - unat (bm_start bm)}"
    "bm_private bm = RB_private (rb_priv bm)"
  using assms by (auto simp: valid_rb_def rb_priv_def split: bmap_private.splits)

lemma marked_rb_range:
  assumes "rb_bits bp' = f (rb_bits (rb_priv bm))"
  shows "marked_rb (rb_upd bm bp') =
    {b. bm_start bm \<le> b \<and> unat b - unat (bm_start bm) \<in> f (rb_bits (rb_priv bm))}"
  by (simp add: marked_rb_def assms)

section \<open>The operations\<close>

lemma rb_new_valid:
  assumes "header_ok bm" "rb_new_bmap mem bm = (0, bm')"
  shows "valid_rb bm' \<and> same_header bm bm' \<and> marked_rb bm' = {}"
  using assms
  by (auto simp: rb_new_bmap_def rb_alloc_private_data_def valid_rb_def marked_rb_def rb_priv_def
      rb_inv_def rb_base_def rb_bits_def rb_tree_inv_def split: if_splits)

lemma valid_rb_upd:
  assumes "valid_rb bm" "rb_inv bp" "rb_bits bp \<subseteq> {..unat (bm_real_end bm) - unat (bm_start bm)}"
  shows "valid_rb (rb_upd bm bp)"
  using assms by (simp add: valid_rb_def)

lemma rb_mark_extent_valid:
  assumes v: "valid_rb bm" and r: "range_ok bm b n"
    and ins: "rb_insert_extent (b - bm_start bm) c (rb_priv bm) = (rv, bp')" and c: "unat c = unat n"
  shows "valid_rb (rb_upd bm bp')" "marked_rb (rb_upd bm bp') = marked_rb bm \<union> bit_range b n"
    "rv = (if c \<noteq> 0 \<and> unat b - unat (bm_start bm) \<in> rb_bits (rb_priv bm) then 1 else 0)"
proof -
  note rr = rel_range_ok [OF r] note h = header_okD [OF valid_rbD(1) [OF v]]
  have "unat (b - bm_start bm) + unat c < 2 ^ 64" using rr h c by simp
  note sp = rb_insert_extent_spec [OF valid_rbD(2) [OF v] this ins]
  then show "rv = (if c \<noteq> 0 \<and> unat b - unat (bm_start bm) \<in> rb_bits (rb_priv bm) then 1 else 0)"
    using rr(1) by simp
  show "valid_rb (rb_upd bm bp')"
    using sp valid_rbD(3) [OF v] rr c by (intro valid_rb_upd [OF v]) auto
  have "rb_bits bp' = rb_bits (rb_priv bm) \<union>
    {unat b - unat (bm_start bm)..<unat b - unat (bm_start bm) + unat n}"
    using sp rr(1) c by simp
  then show "marked_rb (rb_upd bm bp') = marked_rb bm \<union> bit_range b n"
    using bit_range_rel [OF rr(2), of _ n] unfolding marked_rb_def by auto
qed

lemma rb_unmark_extent_valid:
  assumes v: "valid_rb bm" and r: "range_ok bm b n"
    and rem: "rb_remove_extent (b - bm_start bm) c (rb_priv bm) = (rv, bp')" and c: "unat c = unat n"
  shows "valid_rb (rb_upd bm bp')" "marked_rb (rb_upd bm bp') = marked_rb bm - bit_range b n"
    "rv = (if rb_bits (rb_priv bm) \<inter>
        {unat b - unat (bm_start bm)..unat b - unat (bm_start bm) + unat n} \<noteq> {} then 1 else 0)"
proof -
  note rr = rel_range_ok [OF r] note h = header_okD [OF valid_rbD(1) [OF v]]
  have "unat (b - bm_start bm) + unat c < 2 ^ 64" using rr h c by simp
  note sp = rb_remove_extent_spec [OF valid_rbD(2) [OF v] this rem]
  then show "rv = (if rb_bits (rb_priv bm) \<inter>
        {unat b - unat (bm_start bm)..unat b - unat (bm_start bm) + unat n} \<noteq> {} then 1 else 0)"
    using rr(1) c by simp
  show "valid_rb (rb_upd bm bp')"
    using sp valid_rbD(3) [OF v] by (intro valid_rb_upd [OF v]) auto
  have "rb_bits bp' = rb_bits (rb_priv bm) -
    {unat b - unat (bm_start bm)..<unat b - unat (bm_start bm) + unat n}"
    using sp rr(1) c by simp
  then show "marked_rb (rb_upd bm bp') = marked_rb bm - bit_range b n"
    using bit_range_rel [OF rr(2), of _ n] unfolding marked_rb_def by auto
qed

lemma marked_rb_iff:
  "in_range bm b \<Longrightarrow> b \<in> marked_rb bm \<longleftrightarrow> unat b - unat (bm_start bm) \<in> rb_bits (rb_priv bm)"
  by (simp add: marked_rb_def in_range_def)

section \<open>Testing a range and clearing the map\<close>

lemma rb_test_clear_scan_spec:
  assumes "exts_ok bs" "\<forall>b\<in>set bs. unat s < es b" "unat s + unat len < 2 ^ 64"
  shows "rb_test_clear_scan bs s len = (if ext_bits bs \<inter> {unat s..<unat s + unat len} = {} then 1 else 0)"
proof (cases bs)
  case Nil
  then show ?thesis by simp
next
  case (Cons b bs')
  with assms have ok: "ext_ok b" "exts_ok bs'" "\<forall>x\<in>set bs'. ee b < es x" and sb: "unat s < es b" by auto
  note w = ext_ok_word [OF ok(1)]
  have sl: "unat (s + len) = unat s + unat len" using assms(3) by (simp add: unat_plus_less)
  have nle: "\<not> ext_start b + ext_count b \<le> s" using sb w by (simp add: word_cmp)
  show ?thesis
  proof (cases "s + len \<le> ext_start b")
    case True
    then have le: "unat s + unat len \<le> es b" by (simp add: word_cmp sl)
    then have "\<forall>x\<in>set bs. unat s + unat len \<le> es x" using ok(3) by (fastforce simp: Cons)
    then have "ext_bits bs \<inter> {unat s..<unat s + unat len} = {}" unfolding ext_bits_def by fastforce
    with True nle show ?thesis by (simp add: Cons)
  next
    case False
    then have "es b < unat s + unat len" by (simp add: word_cmp sl)
    with sb w(2) have "es b \<in> ext_bits bs \<inter> {unat s..<unat s + unat len}" by (simp add: Cons)
    then have "ext_bits bs \<inter> {unat s..<unat s + unat len} \<noteq> {}" by blast
    with False nle show ?thesis by (simp add: Cons)
  qed
qed

lemma rb_test_clear_rel:
  assumes inv: "rb_inv bp" and s: "unat s + unat len < 2 ^ 64" and len: "len \<noteq> 0"
  shows "(case rb_search s (rb_root bp) of (Node _ _ _ _, _) \<Rightarrow> 0
      | (Leaf, ps) \<Rightarrow> rb_test_clear_scan (rb_scan_from (rb_root bp) (rb_parent ps)) s len) =
    (if rb_bits bp \<inter> {unat s..<unat s + unat len} = {} then 1 else 0)"
proof (cases "rb_search s (rb_root bp)")
  case (Pair n ps)
  note ok = rb_inv_exts_ok [OF inv]
  show ?thesis
  proof (cases n)
    case (Node cl l e r)
    note nd = rb_search_Node [OF Pair [unfolded Node] ok]
    have "unat s \<in> rb_bits bp" using nd(2,3) by (simp add: rb_bits_def nd(1))
    moreover have "0 < unat len" using len by (simp add: unat_gt_0)
    ultimately have "unat s \<in> rb_bits bp \<inter> {unat s..<unat s + unat len}" by simp
    then have "rb_bits bp \<inter> {unat s..<unat s + unat len} \<noteq> {}" by blast
    with Pair Node show ?thesis by simp
  next
    case Leaf
    note lf = rb_search_Leaf [OF Pair [unfolded Leaf] ok]
    have ok': "exts_ok (before ps @ after ps)" using ok by (simp add: lf(1))
    then have "\<forall>a\<in>set (before ps). ext_ok a \<and> ee a \<le> unat s" using lf(2) by (auto intro: exts_ok_ext_ok)
    moreover have "distinct (ext_nodes (inorder (rb_root bp)))"
      using inv by (simp add: rb_inv_def rb_base_distinct)
    ultimately have "rb_test_clear_scan (rb_scan_from (rb_root bp) (rb_parent ps)) s len =
      rb_test_clear_scan (after ps) s len"
      using rb_parent_neighbour [of ps] by (intro rb_scan_from_skip(2) [OF lf(1)]) auto
    also have "\<dots> = (if ext_bits (after ps) \<inter> {unat s..<unat s + unat len} = {} then 1 else 0)"
      using ok' lf(3) s by (intro rb_test_clear_scan_spec) simp_all
    also have "ext_bits (after ps) \<inter> {unat s..<unat s + unat len} = rb_bits bp \<inter> {unat s..<unat s + unat len}"
      using lf(2) unfolding rb_bits_def lf(1) ext_bits_def by fastforce
    finally show ?thesis using Pair Leaf by simp
  qed
qed

lemma marked_rb_disjoint:
  assumes v: "valid_rb bm" and r: "range_ok bm b n"
  shows "rb_bits (rb_priv bm) \<inter> {unat b - unat (bm_start bm)..<unat b - unat (bm_start bm) + unat n} = {} \<longleftrightarrow>
    marked_rb bm \<inter> bit_range b n = {}" (is "?L = {} \<longleftrightarrow> ?R = {}")
proof
  note rr = rel_range_ok [OF r] note h = header_okD [OF valid_rbD(1) [OF v]]
  show "?R = {}" if "?L = {}"
  proof (rule ccontr)
    assume "?R \<noteq> {}"
    then obtain y where y: "y \<in> marked_rb bm" "y \<in> bit_range b n" by blast
    then have "unat y - unat (bm_start bm) \<in> ?L" using rr by (auto simp: marked_rb_def bit_range_def)
    with that show False by blast
  qed
  show "?L = {}" if "?R = {}"
  proof (rule ccontr)
    assume "?L \<noteq> {}"
    then obtain x where x: "x \<in> ?L" by blast
    let ?y = "word_of_nat (unat (bm_start bm) + x) :: u64"
    from x rr h have "unat ?y = unat (bm_start bm) + x" by (intro unat_word_of_nat) auto
    with x rr have "?y \<in> ?R" by (auto simp: marked_rb_def bit_range_def word_le_nat_alt)
    with that show False by blast
  qed
qed

lemma rb_test_clear_marked:
  assumes v: "valid_rb bm" and r: "range_ok bm b n"
  shows "rb_test_clear_bmap_extent bm b n \<noteq> 0 \<longleftrightarrow> marked_rb bm \<inter> bit_range b n = {}"
proof (cases "n = 0 \<or> rb_root (rb_priv bm) = Leaf")
  case True
  then show ?thesis
    by (auto simp: rb_test_clear_bmap_extent_def bit_range_def marked_rb_def rb_bits_def ext2fs_rb_empty_root_def)
next
  case False
  note rr = rel_range_ok [OF r] note h = header_okD [OF valid_rbD(1) [OF v]]
  let ?s = "b - bm_start bm"
  have s: "unat ?s + unat (ucast n :: u64) < 2 ^ 64" using rr h by simp
  have "(ucast n :: u64) \<noteq> 0" using False by (metis unat_ucast_u64 unat_0 word_unat_eq_iff)
  from rb_test_clear_rel [OF valid_rbD(2) [OF v] s this] False
  have "rb_test_clear_bmap_extent bm b n \<noteq> 0 \<longleftrightarrow>
    rb_bits (rb_priv bm) \<inter> {unat ?s..<unat ?s + unat n} = {}"
    by (simp add: rb_test_clear_bmap_extent_def ext2fs_rb_empty_root_def Let_def)
  also have "\<dots> \<longleftrightarrow> marked_rb bm \<inter> bit_range b n = {}"
    using marked_rb_disjoint [OF v r] rr(1) by simp
  finally show ?thesis .
qed

lemma rb_free_nodes_inorder:
  "distinct (ext_nodes (inorder root)) \<Longrightarrow> inorder (rb_free_nodes (inorder root) root) = []"
proof -
  have "inorder (rb_free_nodes xs root) = ys"
    if "inorder root = xs @ ys" "distinct (ext_nodes (xs @ ys))" for xs ys root
    using that
  proof (induction xs arbitrary: root)
    case (Cons x xs)
    from rb_node_access(6) [of root "[]" x "xs @ ys"] Cons.prems
    have "inorder (rb_erase_node root (ext_node x)) = xs @ ys" by simp
    with Cons show ?case by simp
  qed simp
  from this [of root "inorder root" "[]"] show "distinct (ext_nodes (inorder root)) \<Longrightarrow> ?thesis" by simp
qed

lemma inorder_eq_Nil [simp]: "inorder t = [] \<longleftrightarrow> t = Leaf"
  by (cases t) auto

lemma rb_clear_valid:
  assumes v: "valid_rb bm"
  shows "valid_rb (rb_clear_bmap bm) \<and> same_header bm (rb_clear_bmap bm) \<and> marked_rb (rb_clear_bmap bm) = {}"
proof -
  have "distinct (ext_nodes (inorder (rb_root (rb_priv bm))))"
    using valid_rbD(2) [OF v] by (simp add: rb_inv_def rb_base_distinct)
  from rb_free_nodes_inorder [OF this] have "rb_free_tree (rb_root (rb_priv bm)) = Leaf"
    by (simp add: rb_free_tree_def)
  with valid_rbD(1) [OF v] show ?thesis
    by (simp add: rb_clear_bmap_def valid_rb_def marked_rb_def rb_inv_def rb_base_def rb_bits_def rb_tree_inv_def)
qed

section \<open>The back end implements the interface\<close>

lemma rb_mark_valid:
  assumes "valid_rb bm" "in_range bm b" "rb_mark_bmap bm b = (r, bm')"
  shows "valid_rb bm' \<and> same_header bm bm' \<and> marked_rb bm' = insert b (marked_rb bm) \<and>
    (r \<noteq> 0 \<longleftrightarrow> b \<in> marked_rb bm)"
proof -
  obtain bp where ins: "rb_insert_extent (b - bm_start bm) 1 (rb_priv bm) = (r, bp)" and bm': "bm' = rb_upd bm bp"
    using assms(3) by (auto simp: rb_mark_bmap_def split: prod.splits)
  from rb_mark_extent_valid [OF assms(1) range_ok_single(1) [OF assms(2)] ins]
  show ?thesis by (simp add: bm' range_ok_single(2) marked_rb_iff [OF assms(2)])
qed

lemma next_marked_rb:
  assumes v: "valid_rb bm" and r: "in_range bm b"
  shows "next_marked (marked_rb bm) b \<longleftrightarrow> Suc (unat b - unat (bm_start bm)) \<in> rb_bits (rb_priv bm)"
proof -
  have "unat b + unat (1 :: u64) < 2 ^ 64"
    using r header_okD [OF valid_rbD(1) [OF v]] by (simp add: in_range_def word_le_nat_alt)
  then have "unat (b + 1) = Suc (unat b)" by (simp add: unat_plus_less)
  with r show ?thesis by (auto simp: next_marked_def marked_rb_def in_range_def word_le_nat_alt Suc_diff_le)
qed

lemma rb_unmark_valid:
  assumes "valid_rb bm" "in_range bm b" "rb_unmark_bmap bm b = (r, bm')"
  shows "valid_rb bm' \<and> same_header bm bm' \<and> marked_rb bm' = marked_rb bm - {b} \<and>
    r = (if unat b - unat (bm_start bm) \<in> rb_bits (rb_priv bm) \<or>
            Suc (unat b - unat (bm_start bm)) \<in> rb_bits (rb_priv bm) then 1 else 0)"
proof -
  obtain bp where rem: "rb_remove_extent (b - bm_start bm) 1 (rb_priv bm) = (r, bp)" and bm': "bm' = rb_upd bm bp"
    using assms(3) by (auto simp: rb_unmark_bmap_def split: prod.splits)
  have "A \<inter> {n..n + 1} \<noteq> {} \<longleftrightarrow> n \<in> A \<or> Suc n \<in> A" for A and n :: nat
    by (auto simp: le_Suc_eq)
  with rb_unmark_extent_valid [OF assms(1) range_ok_single(1) [OF assms(2)] rem]
  show ?thesis by (simp add: bm' range_ok_single(2))
qed

lemma rb_test_valid:
  assumes "valid_rb bm" "in_range bm b" "rb_test_bmap bm b = (r, bm')"
  shows "valid_rb bm' \<and> same_header bm bm' \<and> marked_rb bm' = marked_rb bm \<and> (r \<noteq> 0 \<longleftrightarrow> b \<in> marked_rb bm)"
proof -
  obtain bp where t: "rb_test_bit (rb_priv bm) (b - bm_start bm) = (r, bp)" and bm': "bm' = rb_upd bm bp"
    using assms(3) by (auto simp: rb_test_bmap_def split: prod.splits)
  note sp = rb_test_bit_spec [OF valid_rbD(2) [OF assms(1)] t]
  then have "rb_bits bp = rb_bits (rb_priv bm)" by (simp add: rb_bits_def)
  with sp valid_rbD(3) [OF assms(1)] have "valid_rb bm'" "marked_rb bm' = marked_rb bm"
    by (auto simp: bm' marked_rb_def intro!: valid_rb_upd [OF assms(1)])
  with sp rel_in_range(1) [OF assms(2)] show ?thesis
    by (simp add: bm' marked_rb_iff [OF assms(2)])
qed

lemma rbtree_ops [simp]:
  "new_bmap ext2fs_blkmap64_rbtree mem junk = rb_new_bmap (mem 0)"
  "copy_bmap ext2fs_blkmap64_rbtree mem junk = rb_copy_bmap (mem 0) (\<lambda>i. mem (Suc i))"
  "resize_bmap ext2fs_blkmap64_rbtree mem junk = rb_resize_bmap"
  "mark_bmap ext2fs_blkmap64_rbtree = rb_mark_bmap"
  "unmark_bmap ext2fs_blkmap64_rbtree = rb_unmark_bmap"
  "test_bmap ext2fs_blkmap64_rbtree = rb_test_bmap"
  "mark_bmap_extent ext2fs_blkmap64_rbtree = rb_mark_bmap_extent"
  "unmark_bmap_extent ext2fs_blkmap64_rbtree = rb_unmark_bmap_extent"
  "test_clear_bmap_extent ext2fs_blkmap64_rbtree = rb_test_clear_bmap_extent"
  "set_bmap_range ext2fs_blkmap64_rbtree = rb_set_bmap_range"
  "get_bmap_range ext2fs_blkmap64_rbtree = rb_get_bmap_range"
  "clear_bmap ext2fs_blkmap64_rbtree = rb_clear_bmap"
  "ops_find_first_zero ext2fs_blkmap64_rbtree = Some rb_find_first_zero"
  "ops_find_first_set ext2fs_blkmap64_rbtree = Some rb_find_first_set"
  by (simp_all add: ext2fs_blkmap64_rbtree_def)

interpretation rbtree: bmap_backend ext2fs_blkmap64_rbtree valid_rb marked_rb "\<lambda>_. True"
proof (unfold_locales, unfold rbtree_ops, goal_cases)
  case (1 bm mem junk bm')
  then show ?case by (rule rb_new_valid)
next
  case (2 bm b)
  have "unat b - unat (bm_start bm) \<le> unat (bm_real_end bm) - unat (bm_start bm)"
    using 2(2) valid_rbD(3) [OF 2(1)] by (auto simp: marked_rb_def)
  then have "unat b \<le> unat (bm_real_end bm)"
    using header_okD [OF valid_rbD(1) [OF 2(1)]] by linarith
  with 2(2) show ?case by (simp add: marked_rb_def in_range_def word_le_nat_alt)
next
  case (3 bm b r bm')
  then show ?case by (rule rb_mark_valid)
next
  case (4 bm b r bm')
  from rb_unmark_valid [OF 4] marked_rb_iff [OF 4(2)] next_marked_rb [OF 4(1,2)] show ?case by simp
next
  case (5 bm b r bm')
  then show ?case by (rule rb_test_valid)
next
  case (6 bm b n bm')
  from rb_mark_extent_valid(1,2) [OF 6(1,2) prod.collapse [symmetric] unat_ucast_u64] 6(3)
  show ?case by (auto simp: rb_mark_bmap_extent_def)
next
  case (7 bm b n bm')
  from rb_unmark_extent_valid(1,2) [OF 7(1,2) prod.collapse [symmetric] unat_ucast_u64] 7(3)
  show ?case by (auto simp: rb_unmark_bmap_extent_def)
next
  case (8 bm b n)
  then show ?case by (rule rb_test_clear_marked)
next
  case (9 bm bm')
  from rb_clear_valid [OF 9(1)] 9(2) show ?case by simp
qed simp

end
