(* ===== verification/Gen_Bitmap64.thy ===== *)
theory Gen_Bitmap64
  imports Blknum Blkmap64_RB_Ops
begin

text \<open>
  \<open>lib/ext2fs/gen_bitmap64.c\<close>: the generic bitmap layer. Every function takes a
  pointer to either layout, hands a 32-bit map on to \<open>gen_bitmap.c\<close>, translates
  blocks to clusters, checks the bounds and calls the back end of the map. The
  back end is the one that made the private part of the map. The address of the
  bit array, which only matters to its searches modulo 8, is a multiple of 8 as
  every address that \<open>malloc\<close> and \<open>realloc\<close> return. The functions of
  \<open>gen_bitmap.c\<close> that hand a 64-bit map on to this file are at the end.

  A structure of one layout never carries a magic number of the other one; where
  the code would read it as the other layout, the model takes the branch of a bad
  magic number. Statistics (\<open>ENABLE_BMAP_STATS\<close>) are not compiled in.
\<close>

definition bitmap_ops :: "bmap64 \<Rightarrow> ext2_bitmap_ops" where
  "bitmap_ops bitmap =
     (case bm_private bitmap of
        BA_private _ \<Rightarrow> ext2fs_blkmap64_bitarray 0
      | RB_private _ \<Rightarrow> ext2fs_blkmap64_rbtree)"

definition above_32 :: "u64 \<Rightarrow> bool" where
  "above_32 arg \<longleftrightarrow> arg AND NOT 0xffffffff \<noteq> 0"

section \<open>Creating, copying and freeing\<close>

text \<open>\<open>new_ops\<close> is the choice of the back end by the requested type.\<close>

definition new_ops :: "ext2_filsys \<Rightarrow> int \<Rightarrow> ext2_bitmap_ops option" where
  "new_ops fs type' =
     (let type' = (if type' = 0 then 1 else type')
      in if type' = 1 then Some (ext2fs_blkmap64_bitarray 0)
         else if type' = 2 then Some ext2fs_blkmap64_rbtree
         else if type' = 3
         then (case ext2fs_get_num_dirs fs of
                 Inl _ \<Rightarrow> Some (ext2fs_blkmap64_bitarray 0)
               | Inr num_dirs \<Rightarrow>
                   if num_dirs > s_inodes_count (fs_super fs) div 320 then Some (ext2fs_blkmap64_bitarray 0)
                   else Some ext2fs_blkmap64_rbtree)
         else None)"

definition ext2fs_alloc_generic_bmap :: "(nat \<Rightarrow> bool) \<Rightarrow> (nat \<Rightarrow> u8) \<Rightarrow> ext2_filsys \<Rightarrow> errcode \<Rightarrow> int \<Rightarrow>
    u64 \<Rightarrow> u64 \<Rightarrow> u64 \<Rightarrow> string option \<Rightarrow> errcode + generic_bitmap" where
  "ext2fs_alloc_generic_bmap mem junk fs magic type' start end' real_end descr =
     (case new_ops fs type' of
        None \<Rightarrow> Inl EINVAL
      | Some ops \<Rightarrow>
          if \<not> mem 0 then Inl EXT2_ET_NO_MEMORY
          else if descr \<noteq> None \<and> \<not> mem 1 then Inl EXT2_ET_NO_MEMORY
          else
            let bitmap = \<lparr>bm_magic = magic, bm_start = start, bm_end = end', bm_real_end = real_end,
                  bm_cluster_bits = (if magic = EXT2_ET_MAGIC_BLOCK_BITMAP64 then fs_cluster_ratio_bits fs else 0),
                  bm_description = descr,
                  bm_private = BA_private [],
                  bm_base_error_code =
                    (if magic = EXT2_ET_MAGIC_INODE_BITMAP64 then EXT2_ET_BAD_INODE_MARK
                     else if magic = EXT2_ET_MAGIC_BLOCK_BITMAP64 then EXT2_ET_BAD_BLOCK_MARK
                     else EXT2_ET_BAD_GENERIC_MARK)\<rparr>
            in case new_bmap ops (\<lambda>i. mem (i + (if descr = None then 1 else 2))) junk bitmap of
                 (retval, bitmap) \<Rightarrow> if retval \<noteq> 0 then Inl retval else Inr (Bitmap64 bitmap))"

fun ext2fs_free_generic_bmap :: "generic_bitmap option \<Rightarrow> generic_bitmap option" where
  "ext2fs_free_generic_bmap None = None"
| "ext2fs_free_generic_bmap (Some (Bitmap32 b)) =
     (if EXT2FS_IS_32_BITMAP (b32_magic b) then ext2fs_free_generic_bitmap (Some (Bitmap32 b))
      else Some (Bitmap32 b))"
| "ext2fs_free_generic_bmap (Some (Bitmap64 b)) =
     (if \<not> EXT2FS_IS_64_BITMAP (bm_magic b) then Some (Bitmap64 b) else None)"

text \<open>The result of the copy and the source, whose cursors the back end may reset.\<close>

fun ext2fs_copy_generic_bmap :: "(nat \<Rightarrow> bool) \<Rightarrow> (nat \<Rightarrow> u8) \<Rightarrow> generic_bitmap option \<Rightarrow>
    (errcode + generic_bitmap) \<times> generic_bitmap option" where
  "ext2fs_copy_generic_bmap mem junk None = (Inl EINVAL, None)"
| "ext2fs_copy_generic_bmap mem junk (Some (Bitmap32 src)) =
     (if EXT2FS_IS_32_BITMAP (b32_magic src)
      then (ext2fs_copy_generic_bitmap mem junk src, Some (Bitmap32 src))
      else (Inl EINVAL, Some (Bitmap32 src)))"
| "ext2fs_copy_generic_bmap mem junk (Some (Bitmap64 src)) =
     (if \<not> EXT2FS_IS_64_BITMAP (bm_magic src) then (Inl EINVAL, Some (Bitmap64 src))
      else if \<not> mem 0 then (Inl EXT2_ET_NO_MEMORY, Some (Bitmap64 src))
      else if bm_description src \<noteq> None \<and> \<not> mem 1 then (Inl EXT2_ET_NO_MEMORY, Some (Bitmap64 src))
      else
        let new_bmap = src\<lparr>bm_private := BA_private [],
              bm_description := map_option (\<lambda>descr. ''copy of '' @ descr) (bm_description src)\<rparr>
        in case copy_bmap (bitmap_ops src) (\<lambda>i. mem (i + (if bm_description src = None then 1 else 2))) junk src new_bmap of
             (retval, src, new_bmap) \<Rightarrow>
               (if retval \<noteq> 0 then Inl retval else Inr (Bitmap64 new_bmap), Some (Bitmap64 src)))"

section \<open>Bounds\<close>

fun ext2fs_resize_generic_bmap :: "(nat \<Rightarrow> bool) \<Rightarrow> (nat \<Rightarrow> u8) \<Rightarrow> generic_bitmap option \<Rightarrow> u64 \<Rightarrow> u64 \<Rightarrow>
    errcode \<times> generic_bitmap option" where
  "ext2fs_resize_generic_bmap mem junk None new_end new_real_end = (EINVAL, None)"
| "ext2fs_resize_generic_bmap mem junk (Some (Bitmap32 b)) new_end new_real_end =
     (if EXT2FS_IS_32_BITMAP (b32_magic b)
      then ext2fs_resize_generic_bitmap mem junk (b32_magic b) (ucast new_end) (ucast new_real_end) (Some (Bitmap32 b))
      else (EINVAL, Some (Bitmap32 b)))"
| "ext2fs_resize_generic_bmap mem junk (Some (Bitmap64 b)) new_end new_real_end =
     (if \<not> EXT2FS_IS_64_BITMAP (bm_magic b) then (EINVAL, Some (Bitmap64 b))
      else case resize_bmap (bitmap_ops b) mem junk b new_end new_real_end of
             (retval, b) \<Rightarrow> (retval, Some (Bitmap64 b)))"

text \<open>For a 32-bit map the old end comes from a local variable that a failing call
  leaves unset; \<open>tmp\<close> is its content.\<close>

fun ext2fs_fudge_generic_bmap_end :: "u32 \<Rightarrow> generic_bitmap option \<Rightarrow> errcode \<Rightarrow> u64 \<Rightarrow>
    errcode \<times> u64 option \<times> generic_bitmap option" where
  "ext2fs_fudge_generic_bmap_end tmp None neq end' = (EINVAL, None, None)"
| "ext2fs_fudge_generic_bmap_end tmp (Some (Bitmap32 b)) neq end' =
     (if EXT2FS_IS_32_BITMAP (b32_magic b)
      then case ext2fs_fudge_generic_bitmap_end (Bitmap32 b) (b32_magic b) neq (ucast end') of
             (retval, oend, b) \<Rightarrow> (retval, Some (ucast (case oend of Some e \<Rightarrow> e | None \<Rightarrow> tmp)), Some b)
      else (EINVAL, None, Some (Bitmap32 b)))"
| "ext2fs_fudge_generic_bmap_end tmp (Some (Bitmap64 b)) neq end' =
     (if \<not> EXT2FS_IS_64_BITMAP (bm_magic b) then (EINVAL, None, Some (Bitmap64 b))
      else if end' > bm_real_end b then (neq, None, Some (Bitmap64 b))
      else (0, Some (bm_end b), Some (Bitmap64 (b\<lparr>bm_end := end'\<rparr>))))"

text \<open>An error is returned as if it were a bit number.\<close>

fun ext2fs_get_generic_bmap_start :: "generic_bitmap option \<Rightarrow> u64" where
  "ext2fs_get_generic_bmap_start None = 22"
| "ext2fs_get_generic_bmap_start (Some (Bitmap32 b)) =
     (if EXT2FS_IS_32_BITMAP (b32_magic b) then ucast (b32_start b) else 22)"
| "ext2fs_get_generic_bmap_start (Some (Bitmap64 b)) =
     (if \<not> EXT2FS_IS_64_BITMAP (bm_magic b) then 22 else bm_start b)"

fun ext2fs_get_generic_bmap_end :: "generic_bitmap option \<Rightarrow> u64" where
  "ext2fs_get_generic_bmap_end None = 22"
| "ext2fs_get_generic_bmap_end (Some (Bitmap32 b)) =
     (if EXT2FS_IS_32_BITMAP (b32_magic b) then ucast (b32_end b) else 22)"
| "ext2fs_get_generic_bmap_end (Some (Bitmap64 b)) =
     (if \<not> EXT2FS_IS_64_BITMAP (bm_magic b) then 22 else bm_end b)"

section \<open>Single bits\<close>

fun ext2fs_clear_generic_bmap :: "generic_bitmap \<Rightarrow> generic_bitmap" where
  "ext2fs_clear_generic_bmap (Bitmap32 b) =
     (if EXT2FS_IS_32_BITMAP (b32_magic b) then Bitmap32 (ext2fs_clear_generic_bitmap_32 b) else Bitmap32 b)"
| "ext2fs_clear_generic_bmap (Bitmap64 b) = Bitmap64 (clear_bmap (bitmap_ops b) b)"

fun ext2fs_mark_generic_bmap :: "generic_bitmap option \<Rightarrow> u64 \<Rightarrow> int \<times> generic_bitmap option" where
  "ext2fs_mark_generic_bmap None arg = (0, None)"
| "ext2fs_mark_generic_bmap (Some (Bitmap32 b)) arg =
     (if EXT2FS_IS_32_BITMAP (b32_magic b)
      then if above_32 arg then (0, Some (Bitmap32 b))
           else case ext2fs_mark_generic_bitmap_32 b (ucast arg) of (r, b) \<Rightarrow> (r, Some (Bitmap32 b))
      else (0, Some (Bitmap32 b)))"
| "ext2fs_mark_generic_bmap (Some (Bitmap64 b)) arg =
     (if \<not> EXT2FS_IS_64_BITMAP (bm_magic b) then (0, Some (Bitmap64 b))
      else
        let arg = drop_bit (bm_cluster_bits b) arg
        in if arg < bm_start b \<or> arg > bm_end b then (0, Some (Bitmap64 b))
           else case mark_bmap (bitmap_ops b) b arg of (r, b) \<Rightarrow> (r, Some (Bitmap64 b)))"

fun ext2fs_unmark_generic_bmap :: "generic_bitmap option \<Rightarrow> u64 \<Rightarrow> int \<times> generic_bitmap option" where
  "ext2fs_unmark_generic_bmap None arg = (0, None)"
| "ext2fs_unmark_generic_bmap (Some (Bitmap32 b)) arg =
     (if EXT2FS_IS_32_BITMAP (b32_magic b)
      then if above_32 arg then (0, Some (Bitmap32 b))
           else case ext2fs_unmark_generic_bitmap_32 b (ucast arg) of (r, b) \<Rightarrow> (r, Some (Bitmap32 b))
      else (0, Some (Bitmap32 b)))"
| "ext2fs_unmark_generic_bmap (Some (Bitmap64 b)) arg =
     (if \<not> EXT2FS_IS_64_BITMAP (bm_magic b) then (0, Some (Bitmap64 b))
      else
        let arg = drop_bit (bm_cluster_bits b) arg
        in if arg < bm_start b \<or> arg > bm_end b then (0, Some (Bitmap64 b))
           else case unmark_bmap (bitmap_ops b) b arg of (r, b) \<Rightarrow> (r, Some (Bitmap64 b)))"

fun ext2fs_test_generic_bmap :: "generic_bitmap option \<Rightarrow> u64 \<Rightarrow> int \<times> generic_bitmap option" where
  "ext2fs_test_generic_bmap None arg = (0, None)"
| "ext2fs_test_generic_bmap (Some (Bitmap32 b)) arg =
     (if EXT2FS_IS_32_BITMAP (b32_magic b)
      then if above_32 arg then (0, Some (Bitmap32 b))
           else (ext2fs_test_generic_bitmap_32 b (ucast arg), Some (Bitmap32 b))
      else (0, Some (Bitmap32 b)))"
| "ext2fs_test_generic_bmap (Some (Bitmap64 b)) arg =
     (if \<not> EXT2FS_IS_64_BITMAP (bm_magic b) then (0, Some (Bitmap64 b))
      else
        let arg = drop_bit (bm_cluster_bits b) arg
        in if arg < bm_start b \<or> arg > bm_end b then (0, Some (Bitmap64 b))
           else case test_bmap (bitmap_ops b) b arg of (r, b) \<Rightarrow> (r, Some (Bitmap64 b)))"

section \<open>Copying bits in and out\<close>

fun ext2fs_set_generic_bmap_range :: "generic_bitmap option \<Rightarrow> u64 \<Rightarrow> u32 \<Rightarrow> u8 list \<Rightarrow> errcode \<times> generic_bitmap option" where
  "ext2fs_set_generic_bmap_range None start num in' = (EINVAL, None)"
| "ext2fs_set_generic_bmap_range (Some (Bitmap32 b)) start num in' =
     (if EXT2FS_IS_32_BITMAP (b32_magic b)
      then if above_32 (start + ucast num - 1) then (EINVAL, Some (Bitmap32 b))
           else ext2fs_set_generic_bitmap_range (Some (Bitmap32 b)) (b32_magic b) (ucast start) num in'
      else (EINVAL, Some (Bitmap32 b)))"
| "ext2fs_set_generic_bmap_range (Some (Bitmap64 b)) start num in' =
     (if \<not> EXT2FS_IS_64_BITMAP (bm_magic b) then (EINVAL, Some (Bitmap64 b))
      else case set_bmap_range (bitmap_ops b) b start (ucast num) in' of (r, b) \<Rightarrow> (r, Some (Bitmap64 b)))"

fun ext2fs_get_generic_bmap_range :: "generic_bitmap option \<Rightarrow> u64 \<Rightarrow> u32 \<Rightarrow> u8 list \<Rightarrow> errcode \<times> u8 list" where
  "ext2fs_get_generic_bmap_range None start num out = (EINVAL, out)"
| "ext2fs_get_generic_bmap_range (Some (Bitmap32 b)) start num out =
     (if EXT2FS_IS_32_BITMAP (b32_magic b)
      then if above_32 (start + ucast num - 1) then (EINVAL, out)
           else ext2fs_get_generic_bitmap_range (Some (Bitmap32 b)) (b32_magic b) (ucast start) num out
      else (EINVAL, out))"
| "ext2fs_get_generic_bmap_range (Some (Bitmap64 b)) start num out =
     (if \<not> EXT2FS_IS_64_BITMAP (bm_magic b) then (EINVAL, out)
      else get_bmap_range (bitmap_ops b) b start (ucast num) out)"

section \<open>Comparing and padding\<close>

text \<open>The loop of the comparison. A test may move the cursor of a map, so both maps
  are carried along; \<open>True\<close> is the return in the middle of the loop.\<close>

partial_function (option) compare_tail_64 :: "u64 \<Rightarrow> generic_bitmap option \<Rightarrow> generic_bitmap option \<Rightarrow> u64 \<Rightarrow>
    (bool \<times> generic_bitmap option \<times> generic_bitmap option) option" where
  "compare_tail_64 end' bm1 bm2 i =
     (if i \<le> end'
      then case ext2fs_test_generic_bmap bm1 i of (r1, bm1) \<Rightarrow>
           case ext2fs_test_generic_bmap bm2 i of (r2, bm2) \<Rightarrow>
             if r1 \<noteq> r2 then Some (True, bm1, bm2) else compare_tail_64 end' bm1 bm2 (i + 1)
      else Some (False, bm1, bm2))"

declare compare_tail_64.simps [code]

fun ext2fs_compare_generic_bmap :: "errcode \<Rightarrow> generic_bitmap option \<Rightarrow> generic_bitmap option \<Rightarrow>
    (errcode \<times> generic_bitmap option \<times> generic_bitmap option) option" where
  "ext2fs_compare_generic_bmap neq (Some (Bitmap32 bm1)) (Some (Bitmap32 bm2)) =
     (if b32_magic bm1 \<noteq> b32_magic bm2 then Some (EINVAL, Some (Bitmap32 bm1), Some (Bitmap32 bm2))
      else if EXT2FS_IS_32_BITMAP (b32_magic bm1)
      then map_option (\<lambda>r. (r, Some (Bitmap32 bm1), Some (Bitmap32 bm2)))
             (ext2fs_compare_generic_bitmap (b32_magic bm1) neq (Some (Bitmap32 bm1)) (Some (Bitmap32 bm2)))
      else Some (EINVAL, Some (Bitmap32 bm1), Some (Bitmap32 bm2)))"
| "ext2fs_compare_generic_bmap neq (Some (Bitmap64 bm1)) (Some (Bitmap64 bm2)) =
     (if bm_magic bm1 \<noteq> bm_magic bm2 then Some (EINVAL, Some (Bitmap64 bm1), Some (Bitmap64 bm2))
      else if \<not> EXT2FS_IS_64_BITMAP (bm_magic bm1) then Some (EINVAL, Some (Bitmap64 bm1), Some (Bitmap64 bm2))
      else if bm_start bm1 \<noteq> bm_start bm2 \<or> bm_end bm1 \<noteq> bm_end bm2
      then Some (neq, Some (Bitmap64 bm1), Some (Bitmap64 bm2))
      else map_option (\<lambda>(differ, bm1, bm2). (if differ then neq else 0, bm1, bm2))
             (compare_tail_64 (bm_end bm1) (Some (Bitmap64 bm1)) (Some (Bitmap64 bm2))
                (bm_end bm1 - (bm_end bm1 - bm_start bm1) mod 8)))"
| "ext2fs_compare_generic_bmap neq gen_bm1 gen_bm2 = Some (EINVAL, gen_bm1, gen_bm2)"

fun ext2fs_set_generic_bmap_padding :: "generic_bitmap \<Rightarrow> generic_bitmap" where
  "ext2fs_set_generic_bmap_padding (Bitmap32 b) =
     (if EXT2FS_IS_32_BITMAP (b32_magic b) then Bitmap32 (ext2fs_set_generic_bitmap_padding b) else Bitmap32 b)"
| "ext2fs_set_generic_bmap_padding (Bitmap64 b) =
     Bitmap64 (mark_bmap_extent (bitmap_ops b) b (bm_end b + 1) (ucast (bm_real_end b - bm_end b)))"

section \<open>Ranges of blocks\<close>

text \<open>The translation of a range of blocks to clusters that the three functions
  share: the first cluster and the number of clusters.\<close>

definition cluster_range :: "nat \<Rightarrow> u64 \<Rightarrow> u32 \<Rightarrow> u64 \<times> u32" where
  "cluster_range cluster_bits block num =
     (let end' = block + ucast num;
          block = drop_bit cluster_bits block;
          end' = drop_bit cluster_bits (end' + (push_bit cluster_bits 1 - 1))
      in (block, ucast (end' - block)))"

definition range_outside :: "bmap64 \<Rightarrow> u64 \<Rightarrow> u32 \<Rightarrow> bool" where
  "range_outside b block num \<longleftrightarrow>
     block < bm_start b \<or> block > bm_end b \<or> block + ucast num - 1 > bm_end b"

fun ext2fs_test_block_bitmap_range2 :: "generic_bitmap option \<Rightarrow> u64 \<Rightarrow> u32 \<Rightarrow> int \<times> generic_bitmap option" where
  "ext2fs_test_block_bitmap_range2 None block num = (EINVAL, None)"
| "ext2fs_test_block_bitmap_range2 (Some (Bitmap32 b)) block num =
     (if num = 1
      then case ext2fs_test_generic_bmap (Some (Bitmap32 b)) block of (r, g) \<Rightarrow> (if r = 0 then 1 else 0, g)
      else if EXT2FS_IS_32_BITMAP (b32_magic b)
      then if above_32 block \<or> above_32 (block + ucast num - 1) then (EINVAL, Some (Bitmap32 b))
           else (ext2fs_test_block_bitmap_range (Bitmap32 b) (ucast block) (sint num), Some (Bitmap32 b))
      else (EINVAL, Some (Bitmap32 b)))"
| "ext2fs_test_block_bitmap_range2 (Some (Bitmap64 b)) block num =
     (if num = 1
      then case ext2fs_test_generic_bmap (Some (Bitmap64 b)) block of (r, g) \<Rightarrow> (if r = 0 then 1 else 0, g)
      else if \<not> EXT2FS_IS_64_BITMAP (bm_magic b) then (EINVAL, Some (Bitmap64 b))
      else
        case cluster_range (bm_cluster_bits b) block num of (block, num) \<Rightarrow>
          if range_outside b block num then (EINVAL, Some (Bitmap64 b))
          else (test_clear_bmap_extent (bitmap_ops b) b block num, Some (Bitmap64 b)))"

fun ext2fs_mark_block_bitmap_range2 :: "generic_bitmap option \<Rightarrow> u64 \<Rightarrow> u32 \<Rightarrow> generic_bitmap option" where
  "ext2fs_mark_block_bitmap_range2 None block num = None"
| "ext2fs_mark_block_bitmap_range2 (Some (Bitmap32 b)) block num =
     (if EXT2FS_IS_32_BITMAP (b32_magic b)
      then if above_32 block \<or> above_32 (block + ucast num - 1) then Some (Bitmap32 b)
           else Some (Bitmap32 (ext2fs_mark_block_bitmap_range b (ucast block) (sint num)))
      else Some (Bitmap32 b))"
| "ext2fs_mark_block_bitmap_range2 (Some (Bitmap64 b)) block num =
     (if \<not> EXT2FS_IS_64_BITMAP (bm_magic b) then Some (Bitmap64 b)
      else
        case cluster_range (bm_cluster_bits b) block num of (block, num) \<Rightarrow>
          if range_outside b block num then Some (Bitmap64 b)
          else Some (Bitmap64 (mark_bmap_extent (bitmap_ops b) b block num)))"

fun ext2fs_unmark_block_bitmap_range2 :: "generic_bitmap option \<Rightarrow> u64 \<Rightarrow> u32 \<Rightarrow> generic_bitmap option" where
  "ext2fs_unmark_block_bitmap_range2 None block num = None"
| "ext2fs_unmark_block_bitmap_range2 (Some (Bitmap32 b)) block num =
     (if EXT2FS_IS_32_BITMAP (b32_magic b)
      then if above_32 block \<or> above_32 (block + ucast num - 1) then Some (Bitmap32 b)
           else Some (Bitmap32 (ext2fs_unmark_block_bitmap_range b (ucast block) (sint num)))
      else Some (Bitmap32 b))"
| "ext2fs_unmark_block_bitmap_range2 (Some (Bitmap64 b)) block num =
     (if \<not> EXT2FS_IS_64_BITMAP (bm_magic b) then Some (Bitmap64 b)
      else
        case cluster_range (bm_cluster_bits b) block num of (block, num) \<Rightarrow>
          if range_outside b block num then Some (Bitmap64 b)
          else Some (Bitmap64 (unmark_bmap_extent (bitmap_ops b) b block num)))"

section \<open>Searching\<close>

text \<open>The loop for a table without a search, which neither back end has; the cursor
  that the tests may move is left out of it.\<close>

partial_function (option) find_loop_64 :: "(int \<Rightarrow> bool) \<Rightarrow> bmap64 \<Rightarrow> u64 \<Rightarrow> u64 \<Rightarrow> (errcode + u64) option" where
  "find_loop_64 hit b cout cend =
     (if cout \<le> cend
      then if hit (fst (test_bmap (bitmap_ops b) b cout)) then Some (Inr cout)
           else find_loop_64 hit b (cout + 1) cend
      else Some (Inl ENOENT))"

declare find_loop_64.simps [code]

text \<open>The body that the two searches share; \<open>search\<close> is the entry of the table and
  \<open>search32\<close> the function of \<open>gen_bitmap.c\<close>.\<close>

fun find_first_generic :: "(ext2_bitmap_ops \<Rightarrow> (bmap64 \<Rightarrow> u64 \<Rightarrow> u64 \<Rightarrow> errcode + u64) option) \<Rightarrow> (int \<Rightarrow> bool) \<Rightarrow>
    (bitmap32 \<Rightarrow> u32 \<Rightarrow> u32 \<Rightarrow> (errcode + u32) option) \<Rightarrow>
    generic_bitmap option \<Rightarrow> u64 \<Rightarrow> u64 \<Rightarrow> (errcode + u64) option" where
  "find_first_generic search hit search32 None start end' = Some (Inl EINVAL)"
| "find_first_generic search hit search32 (Some (Bitmap32 b)) start end' =
     (if EXT2FS_IS_32_BITMAP (b32_magic b)
      then if above_32 start \<or> above_32 end' then Some (Inl EINVAL)
           else map_option (map_sum id ucast) (search32 b (ucast start) (ucast end'))
      else Some (Inl EINVAL))"
| "find_first_generic search hit search32 (Some (Bitmap64 b)) start end' =
     (if \<not> EXT2FS_IS_64_BITMAP (bm_magic b) then Some (Inl EINVAL)
      else
        let cstart = drop_bit (bm_cluster_bits b) start; cend = drop_bit (bm_cluster_bits b) end'
        in if cstart < bm_start b \<or> cend > bm_end b \<or> start > end' then Some (Inl EINVAL)
           else map_option (map_sum id (\<lambda>cout. let cout = push_bit (bm_cluster_bits b) cout
                                               in if cout \<ge> start then cout else start))
                  (case search (bitmap_ops b) of
                     Some f \<Rightarrow> Some (f b cstart cend)
                   | None \<Rightarrow> find_loop_64 hit b cstart cend))"

definition ext2fs_find_first_zero_generic_bmap :: "generic_bitmap option \<Rightarrow> u64 \<Rightarrow> u64 \<Rightarrow> (errcode + u64) option" where
  "ext2fs_find_first_zero_generic_bmap =
     find_first_generic ops_find_first_zero (\<lambda>r. r = 0) ext2fs_find_first_zero_generic_bitmap"

definition ext2fs_find_first_set_generic_bmap :: "generic_bitmap option \<Rightarrow> u64 \<Rightarrow> u64 \<Rightarrow> (errcode + u64) option" where
  "ext2fs_find_first_set_generic_bmap =
     find_first_generic ops_find_first_set (\<lambda>r. r \<noteq> 0) ext2fs_find_first_set_generic_bitmap"

section \<open>The 32-bit interface on either layout\<close>

fun ext2fs_test_generic_bitmap :: "generic_bitmap \<Rightarrow> u32 \<Rightarrow> int \<times> generic_bitmap" where
  "ext2fs_test_generic_bitmap (Bitmap32 b) bitno =
     (if \<not> EXT2FS_IS_32_BITMAP (b32_magic b) then (0, Bitmap32 b)
      else (ext2fs_test_generic_bitmap_32 b bitno, Bitmap32 b))"
| "ext2fs_test_generic_bitmap (Bitmap64 b) bitno =
     (if EXT2FS_IS_64_BITMAP (bm_magic b)
      then map_prod id the (ext2fs_test_generic_bmap (Some (Bitmap64 b)) (ucast bitno))
      else (0, Bitmap64 b))"

fun ext2fs_mark_generic_bitmap :: "generic_bitmap \<Rightarrow> u32 \<Rightarrow> int \<times> generic_bitmap" where
  "ext2fs_mark_generic_bitmap (Bitmap32 b) bitno =
     (if \<not> EXT2FS_IS_32_BITMAP (b32_magic b) then (0, Bitmap32 b)
      else map_prod id Bitmap32 (ext2fs_mark_generic_bitmap_32 b bitno))"
| "ext2fs_mark_generic_bitmap (Bitmap64 b) bitno =
     (if EXT2FS_IS_64_BITMAP (bm_magic b)
      then map_prod id the (ext2fs_mark_generic_bmap (Some (Bitmap64 b)) (ucast bitno))
      else (0, Bitmap64 b))"

fun ext2fs_unmark_generic_bitmap :: "generic_bitmap \<Rightarrow> u32 \<Rightarrow> int \<times> generic_bitmap" where
  "ext2fs_unmark_generic_bitmap (Bitmap32 b) bitno =
     (if \<not> EXT2FS_IS_32_BITMAP (b32_magic b) then (0, Bitmap32 b)
      else map_prod id Bitmap32 (ext2fs_unmark_generic_bitmap_32 b bitno))"
| "ext2fs_unmark_generic_bitmap (Bitmap64 b) bitno =
     (if EXT2FS_IS_64_BITMAP (bm_magic b)
      then map_prod id the (ext2fs_unmark_generic_bmap (Some (Bitmap64 b)) (ucast bitno))
      else (0, Bitmap64 b))"

fun ext2fs_get_generic_bitmap_start :: "generic_bitmap \<Rightarrow> u32" where
  "ext2fs_get_generic_bitmap_start (Bitmap32 b) =
     (if \<not> EXT2FS_IS_32_BITMAP (b32_magic b) then 0 else b32_start b)"
| "ext2fs_get_generic_bitmap_start (Bitmap64 b) =
     (if EXT2FS_IS_64_BITMAP (bm_magic b) then ucast (ext2fs_get_generic_bmap_start (Some (Bitmap64 b))) else 0)"

fun ext2fs_get_generic_bitmap_end :: "generic_bitmap \<Rightarrow> u32" where
  "ext2fs_get_generic_bitmap_end (Bitmap32 b) =
     (if \<not> EXT2FS_IS_32_BITMAP (b32_magic b) then 0 else b32_end b)"
| "ext2fs_get_generic_bitmap_end (Bitmap64 b) =
     (if EXT2FS_IS_64_BITMAP (bm_magic b) then ucast (ext2fs_get_generic_bmap_end (Some (Bitmap64 b))) else 0)"

fun ext2fs_clear_generic_bitmap :: "generic_bitmap \<Rightarrow> generic_bitmap" where
  "ext2fs_clear_generic_bitmap (Bitmap32 b) =
     (if \<not> EXT2FS_IS_32_BITMAP (b32_magic b) then Bitmap32 b else Bitmap32 (ext2fs_clear_generic_bitmap_32 b))"
| "ext2fs_clear_generic_bitmap (Bitmap64 b) =
     (if EXT2FS_IS_64_BITMAP (bm_magic b) then ext2fs_clear_generic_bmap (Bitmap64 b) else Bitmap64 b)"

end
