(* ===== verification/Bitmaps.thy ===== *)
theory Bitmaps
  imports Gen_Bitmap64
begin

text \<open>
  \<open>lib/ext2fs/bitmaps.c\<close>, the inline functions of \<open>lib/ext2fs/bitops.h\<close> on block and
  inode bitmaps, and the two functions at the end of \<open>gen_bitmap64.c\<close> that are
  built from them. The callback \<open>fs->write_bitmaps\<close>, which the allocating functions
  set, is not part of the handle here.
\<close>

section \<open>The inline functions\<close>

definition ext2fs_mark_block_bitmap :: "generic_bitmap \<Rightarrow> u32 \<Rightarrow> int \<times> generic_bitmap" where
  "ext2fs_mark_block_bitmap bitmap block = ext2fs_mark_generic_bitmap bitmap block"

definition ext2fs_unmark_block_bitmap :: "generic_bitmap \<Rightarrow> u32 \<Rightarrow> int \<times> generic_bitmap" where
  "ext2fs_unmark_block_bitmap bitmap block = ext2fs_unmark_generic_bitmap bitmap block"

definition ext2fs_test_block_bitmap :: "generic_bitmap \<Rightarrow> u32 \<Rightarrow> int \<times> generic_bitmap" where
  "ext2fs_test_block_bitmap bitmap block = ext2fs_test_generic_bitmap bitmap block"

definition ext2fs_mark_inode_bitmap :: "generic_bitmap \<Rightarrow> u32 \<Rightarrow> int \<times> generic_bitmap" where
  "ext2fs_mark_inode_bitmap bitmap inode = ext2fs_mark_generic_bitmap bitmap inode"

definition ext2fs_unmark_inode_bitmap :: "generic_bitmap \<Rightarrow> u32 \<Rightarrow> int \<times> generic_bitmap" where
  "ext2fs_unmark_inode_bitmap bitmap inode = ext2fs_unmark_generic_bitmap bitmap inode"

definition ext2fs_test_inode_bitmap :: "generic_bitmap \<Rightarrow> u32 \<Rightarrow> int \<times> generic_bitmap" where
  "ext2fs_test_inode_bitmap bitmap inode = ext2fs_test_generic_bitmap bitmap inode"

definition ext2fs_mark_block_bitmap2 :: "generic_bitmap option \<Rightarrow> u64 \<Rightarrow> int \<times> generic_bitmap option" where
  "ext2fs_mark_block_bitmap2 bitmap block = ext2fs_mark_generic_bmap bitmap block"

definition ext2fs_unmark_block_bitmap2 :: "generic_bitmap option \<Rightarrow> u64 \<Rightarrow> int \<times> generic_bitmap option" where
  "ext2fs_unmark_block_bitmap2 bitmap block = ext2fs_unmark_generic_bmap bitmap block"

definition ext2fs_test_block_bitmap2 :: "generic_bitmap option \<Rightarrow> u64 \<Rightarrow> int \<times> generic_bitmap option" where
  "ext2fs_test_block_bitmap2 bitmap block = ext2fs_test_generic_bmap bitmap block"

definition ext2fs_mark_inode_bitmap2 :: "generic_bitmap option \<Rightarrow> u32 \<Rightarrow> int \<times> generic_bitmap option" where
  "ext2fs_mark_inode_bitmap2 bitmap inode = ext2fs_mark_generic_bmap bitmap (ucast inode)"

definition ext2fs_unmark_inode_bitmap2 :: "generic_bitmap option \<Rightarrow> u32 \<Rightarrow> int \<times> generic_bitmap option" where
  "ext2fs_unmark_inode_bitmap2 bitmap inode = ext2fs_unmark_generic_bmap bitmap (ucast inode)"

definition ext2fs_test_inode_bitmap2 :: "generic_bitmap option \<Rightarrow> u32 \<Rightarrow> int \<times> generic_bitmap option" where
  "ext2fs_test_inode_bitmap2 bitmap inode = ext2fs_test_generic_bmap bitmap (ucast inode)"

definition ext2fs_fast_test_block_bitmap2 :: "generic_bitmap option \<Rightarrow> u64 \<Rightarrow> int \<times> generic_bitmap option" where
  "ext2fs_fast_test_block_bitmap2 bitmap block = ext2fs_test_generic_bmap bitmap block"

definition ext2fs_fast_test_inode_bitmap2 :: "generic_bitmap option \<Rightarrow> u32 \<Rightarrow> int \<times> generic_bitmap option" where
  "ext2fs_fast_test_inode_bitmap2 bitmap inode = ext2fs_test_generic_bmap bitmap (ucast inode)"

definition ext2fs_fast_test_block_bitmap_range2 :: "generic_bitmap option \<Rightarrow> u64 \<Rightarrow> u32 \<Rightarrow> int \<times> generic_bitmap option" where
  "ext2fs_fast_test_block_bitmap_range2 bitmap block num = ext2fs_test_block_bitmap_range2 bitmap block num"

definition ext2fs_find_first_zero_block_bitmap2 :: "generic_bitmap option \<Rightarrow> u64 \<Rightarrow> u64 \<Rightarrow> (errcode + u64) option" where
  "ext2fs_find_first_zero_block_bitmap2 bitmap start end' = ext2fs_find_first_zero_generic_bmap bitmap start end'"

definition ext2fs_find_first_zero_inode_bitmap2 :: "generic_bitmap option \<Rightarrow> u32 \<Rightarrow> u32 \<Rightarrow> (errcode + u32) option" where
  "ext2fs_find_first_zero_inode_bitmap2 bitmap start end' =
     map_option (map_sum id ucast) (ext2fs_find_first_zero_generic_bmap bitmap (ucast start) (ucast end'))"

definition ext2fs_find_first_set_block_bitmap2 :: "generic_bitmap option \<Rightarrow> u64 \<Rightarrow> u64 \<Rightarrow> (errcode + u64) option" where
  "ext2fs_find_first_set_block_bitmap2 bitmap start end' = ext2fs_find_first_set_generic_bmap bitmap start end'"

definition ext2fs_find_first_set_inode_bitmap2 :: "generic_bitmap option \<Rightarrow> u32 \<Rightarrow> u32 \<Rightarrow> (errcode + u32) option" where
  "ext2fs_find_first_set_inode_bitmap2 bitmap start end' =
     map_option (map_sum id ucast) (ext2fs_find_first_set_generic_bmap bitmap (ucast start) (ucast end'))"

definition ext2fs_get_block_bitmap_start2 :: "generic_bitmap option \<Rightarrow> u64" where
  "ext2fs_get_block_bitmap_start2 bitmap = ext2fs_get_generic_bmap_start bitmap"

definition ext2fs_get_inode_bitmap_start2 :: "generic_bitmap option \<Rightarrow> u32" where
  "ext2fs_get_inode_bitmap_start2 bitmap = ucast (ext2fs_get_generic_bmap_start bitmap)"

definition ext2fs_get_block_bitmap_end2 :: "generic_bitmap option \<Rightarrow> u64" where
  "ext2fs_get_block_bitmap_end2 bitmap = ext2fs_get_generic_bmap_end bitmap"

definition ext2fs_get_inode_bitmap_end2 :: "generic_bitmap option \<Rightarrow> u32" where
  "ext2fs_get_inode_bitmap_end2 bitmap = ucast (ext2fs_get_generic_bmap_end bitmap)"

lemmas bitmap_inlines =
  ext2fs_mark_block_bitmap2_def ext2fs_unmark_block_bitmap2_def ext2fs_test_block_bitmap2_def
  ext2fs_mark_inode_bitmap2_def ext2fs_unmark_inode_bitmap2_def ext2fs_test_inode_bitmap2_def
  ext2fs_fast_test_block_bitmap2_def ext2fs_fast_test_inode_bitmap2_def
  ext2fs_find_first_zero_block_bitmap2_def ext2fs_find_first_zero_inode_bitmap2_def
  ext2fs_find_first_set_block_bitmap2_def ext2fs_find_first_set_inode_bitmap2_def

section \<open>Allocating\<close>

definition ext2fs_allocate_inode_bitmap :: "(nat \<Rightarrow> bool) \<Rightarrow> (nat \<Rightarrow> u8) \<Rightarrow> ext2_filsys \<Rightarrow> string option \<Rightarrow>
    errcode + generic_bitmap" where
  "ext2fs_allocate_inode_bitmap mem junk fs descr =
     (if fs_magic fs \<noteq> EXT2_ET_MAGIC_EXT2FS_FILSYS then Inl EXT2_ET_MAGIC_EXT2FS_FILSYS
      else
        let start = 1;
            end' = ucast (s_inodes_count (fs_super fs)) :: u64;
            real_end = ucast (s_inodes_per_group (fs_super fs)) * ucast (fs_group_desc_count fs)
        in if fs_flags fs AND EXT2_FLAG_64BITS \<noteq> 0
           then ext2fs_alloc_generic_bmap mem junk fs EXT2_ET_MAGIC_INODE_BITMAP64
                  (int (unat (fs_default_bitmap_type fs))) start end' real_end descr
           else if end' > 0xFFFFFFFF \<or> real_end > 0xFFFFFFFF then Inl EXT2_ET_CANT_USE_LEGACY_BITMAPS
           else ext2fs_make_generic_bitmap mem junk EXT2_ET_MAGIC_INODE_BITMAP
                  (ucast start) (ucast end') (ucast real_end) descr None)"

definition ext2fs_allocate_block_bitmap :: "(nat \<Rightarrow> bool) \<Rightarrow> (nat \<Rightarrow> u8) \<Rightarrow> ext2_filsys \<Rightarrow> string option \<Rightarrow>
    errcode + generic_bitmap" where
  "ext2fs_allocate_block_bitmap mem junk fs descr =
     (if fs_magic fs \<noteq> EXT2_ET_MAGIC_EXT2FS_FILSYS then Inl EXT2_ET_MAGIC_EXT2FS_FILSYS
      else
        let start = EXT2FS_B2C fs (ucast (s_first_data_block (fs_super fs)));
            end' = EXT2FS_B2C fs (ext2fs_blocks_count (fs_super fs) - 1);
            real_end = ucast (s_clusters_per_group (fs_super fs)) * ucast (fs_group_desc_count fs) - 1 + start
        in if fs_flags fs AND EXT2_FLAG_64BITS \<noteq> 0
           then ext2fs_alloc_generic_bmap mem junk fs EXT2_ET_MAGIC_BLOCK_BITMAP64
                  (int (unat (fs_default_bitmap_type fs))) start end' real_end descr
           else if end' > 0xFFFFFFFF \<or> real_end > 0xFFFFFFFF then Inl EXT2_ET_CANT_USE_LEGACY_BITMAPS
           else ext2fs_make_generic_bitmap mem junk EXT2_ET_MAGIC_BLOCK_BITMAP
                  (ucast start) (ucast end') (ucast real_end) descr None)"

definition ext2fs_allocate_subcluster_bitmap :: "(nat \<Rightarrow> bool) \<Rightarrow> (nat \<Rightarrow> u8) \<Rightarrow> ext2_filsys \<Rightarrow> string option \<Rightarrow>
    errcode + generic_bitmap" where
  "ext2fs_allocate_subcluster_bitmap mem junk fs descr =
     (if fs_magic fs \<noteq> EXT2_ET_MAGIC_EXT2FS_FILSYS then Inl EXT2_ET_MAGIC_EXT2FS_FILSYS
      else if fs_cluster_ratio_bits fs = 0 then ext2fs_allocate_block_bitmap mem junk fs descr
      else if fs_flags fs AND EXT2_FLAG_64BITS = 0 then Inl EXT2_ET_CANT_USE_LEGACY_BITMAPS
      else
        let start = ucast (s_first_data_block (fs_super fs));
            end' = ext2fs_blocks_count (fs_super fs) - 1;
            real_end = ucast (s_blocks_per_group (fs_super fs)) * ucast (fs_group_desc_count fs) - 1 + start
        in case ext2fs_alloc_generic_bmap mem junk fs EXT2_ET_MAGIC_BLOCK_BITMAP64
                  (int (unat (fs_default_bitmap_type fs))) start end' real_end descr of
             Inr (Bitmap64 bmap64) \<Rightarrow> Inr (Bitmap64 (bmap64\<lparr>bm_cluster_bits := 0\<rparr>))
           | r \<Rightarrow> r)"

section \<open>The other functions of \<open>bitmaps.c\<close>\<close>

definition ext2fs_free_inode_bitmap :: "generic_bitmap option \<Rightarrow> generic_bitmap option" where
  "ext2fs_free_inode_bitmap bitmap = ext2fs_free_generic_bmap bitmap"

definition ext2fs_free_block_bitmap :: "generic_bitmap option \<Rightarrow> generic_bitmap option" where
  "ext2fs_free_block_bitmap bitmap = ext2fs_free_generic_bmap bitmap"

definition ext2fs_copy_bitmap :: "(nat \<Rightarrow> bool) \<Rightarrow> (nat \<Rightarrow> u8) \<Rightarrow> generic_bitmap option \<Rightarrow>
    (errcode + generic_bitmap) \<times> generic_bitmap option" where
  "ext2fs_copy_bitmap mem junk src = ext2fs_copy_generic_bmap mem junk src"

definition ext2fs_set_bitmap_padding :: "generic_bitmap \<Rightarrow> generic_bitmap" where
  "ext2fs_set_bitmap_padding map' = ext2fs_set_generic_bmap_padding map'"

fun ext2fs_get_bitmap_granularity :: "generic_bitmap \<Rightarrow> nat" where
  "ext2fs_get_bitmap_granularity (Bitmap32 bitmap) = 0"
| "ext2fs_get_bitmap_granularity (Bitmap64 bitmap) =
     (if \<not> EXT2FS_IS_64_BITMAP (bm_magic bitmap) then 0 else bm_cluster_bits bitmap)"

text \<open>\<open>tmp\<close> is the content of the local variable for the old end when the call
  does not set it.\<close>

definition ext2fs_fudge_inode_bitmap_end :: "u32 \<Rightarrow> u64 \<Rightarrow> generic_bitmap option \<Rightarrow> u32 \<Rightarrow>
    errcode \<times> u32 \<times> generic_bitmap option" where
  "ext2fs_fudge_inode_bitmap_end tmp32 tmp bitmap end' =
     (case ext2fs_fudge_generic_bmap_end tmp32 bitmap EXT2_ET_FUDGE_INODE_BITMAP_END (ucast end') of
        (retval, oend, bitmap) \<Rightarrow> (retval, ucast (case oend of Some e \<Rightarrow> e | None \<Rightarrow> tmp), bitmap))"

definition ext2fs_fudge_block_bitmap_end :: "generic_bitmap \<Rightarrow> u32 \<Rightarrow> errcode \<times> u32 option \<times> generic_bitmap" where
  "ext2fs_fudge_block_bitmap_end bitmap end' =
     ext2fs_fudge_generic_bitmap_end bitmap EXT2_ET_MAGIC_BLOCK_BITMAP EXT2_ET_FUDGE_BLOCK_BITMAP_END end'"

definition ext2fs_fudge_block_bitmap_end2 :: "u32 \<Rightarrow> generic_bitmap option \<Rightarrow> u64 \<Rightarrow> errcode \<times> u64 option \<times> generic_bitmap option" where
  "ext2fs_fudge_block_bitmap_end2 tmp32 bitmap end' =
     ext2fs_fudge_generic_bmap_end tmp32 bitmap EXT2_ET_FUDGE_BLOCK_BITMAP_END end'"

definition ext2fs_clear_inode_bitmap :: "generic_bitmap \<Rightarrow> generic_bitmap" where
  "ext2fs_clear_inode_bitmap bitmap = ext2fs_clear_generic_bmap bitmap"

definition ext2fs_clear_block_bitmap :: "generic_bitmap \<Rightarrow> generic_bitmap" where
  "ext2fs_clear_block_bitmap bitmap = ext2fs_clear_generic_bmap bitmap"

definition ext2fs_resize_inode_bitmap :: "(nat \<Rightarrow> bool) \<Rightarrow> (nat \<Rightarrow> u8) \<Rightarrow> u32 \<Rightarrow> u32 \<Rightarrow> generic_bitmap option \<Rightarrow>
    errcode \<times> generic_bitmap option" where
  "ext2fs_resize_inode_bitmap mem junk new_end new_real_end bmap =
     ext2fs_resize_generic_bitmap mem junk EXT2_ET_MAGIC_INODE_BITMAP new_end new_real_end bmap"

definition ext2fs_resize_inode_bitmap2 :: "(nat \<Rightarrow> bool) \<Rightarrow> (nat \<Rightarrow> u8) \<Rightarrow> u64 \<Rightarrow> u64 \<Rightarrow> generic_bitmap option \<Rightarrow>
    errcode \<times> generic_bitmap option" where
  "ext2fs_resize_inode_bitmap2 mem junk new_end new_real_end bmap =
     ext2fs_resize_generic_bmap mem junk bmap new_end new_real_end"

definition ext2fs_resize_block_bitmap :: "(nat \<Rightarrow> bool) \<Rightarrow> (nat \<Rightarrow> u8) \<Rightarrow> u32 \<Rightarrow> u32 \<Rightarrow> generic_bitmap option \<Rightarrow>
    errcode \<times> generic_bitmap option" where
  "ext2fs_resize_block_bitmap mem junk new_end new_real_end bmap =
     ext2fs_resize_generic_bitmap mem junk EXT2_ET_MAGIC_BLOCK_BITMAP new_end new_real_end bmap"

definition ext2fs_resize_block_bitmap2 :: "(nat \<Rightarrow> bool) \<Rightarrow> (nat \<Rightarrow> u8) \<Rightarrow> u64 \<Rightarrow> u64 \<Rightarrow> generic_bitmap option \<Rightarrow>
    errcode \<times> generic_bitmap option" where
  "ext2fs_resize_block_bitmap2 mem junk new_end new_real_end bmap =
     ext2fs_resize_generic_bmap mem junk bmap new_end new_real_end"

definition ext2fs_compare_block_bitmap :: "generic_bitmap option \<Rightarrow> generic_bitmap option \<Rightarrow>
    (errcode \<times> generic_bitmap option \<times> generic_bitmap option) option" where
  "ext2fs_compare_block_bitmap bm1 bm2 = ext2fs_compare_generic_bmap EXT2_ET_NEQ_BLOCK_BITMAP bm1 bm2"

definition ext2fs_compare_inode_bitmap :: "generic_bitmap option \<Rightarrow> generic_bitmap option \<Rightarrow>
    (errcode \<times> generic_bitmap option \<times> generic_bitmap option) option" where
  "ext2fs_compare_inode_bitmap bm1 bm2 = ext2fs_compare_generic_bmap EXT2_ET_NEQ_INODE_BITMAP bm1 bm2"

text \<open>The number of bits is a \<open>size_t\<close> here and an \<open>unsigned int\<close> in the function
  called.\<close>

definition ext2fs_set_inode_bitmap_range :: "generic_bitmap option \<Rightarrow> u32 \<Rightarrow> u32 \<Rightarrow> u8 list \<Rightarrow> errcode \<times> generic_bitmap option" where
  "ext2fs_set_inode_bitmap_range bmap start num in' =
     ext2fs_set_generic_bitmap_range bmap EXT2_ET_MAGIC_INODE_BITMAP start num in'"

definition ext2fs_set_inode_bitmap_range2 :: "generic_bitmap option \<Rightarrow> u64 \<Rightarrow> u64 \<Rightarrow> u8 list \<Rightarrow> errcode \<times> generic_bitmap option" where
  "ext2fs_set_inode_bitmap_range2 bmap start num in' = ext2fs_set_generic_bmap_range bmap start (ucast num) in'"

definition ext2fs_get_inode_bitmap_range :: "generic_bitmap option \<Rightarrow> u32 \<Rightarrow> u32 \<Rightarrow> u8 list \<Rightarrow> errcode \<times> u8 list" where
  "ext2fs_get_inode_bitmap_range bmap start num out =
     ext2fs_get_generic_bitmap_range bmap EXT2_ET_MAGIC_INODE_BITMAP start num out"

definition ext2fs_get_inode_bitmap_range2 :: "generic_bitmap option \<Rightarrow> u64 \<Rightarrow> u64 \<Rightarrow> u8 list \<Rightarrow> errcode \<times> u8 list" where
  "ext2fs_get_inode_bitmap_range2 bmap start num out = ext2fs_get_generic_bmap_range bmap start (ucast num) out"

definition ext2fs_set_block_bitmap_range :: "generic_bitmap option \<Rightarrow> u32 \<Rightarrow> u32 \<Rightarrow> u8 list \<Rightarrow> errcode \<times> generic_bitmap option" where
  "ext2fs_set_block_bitmap_range bmap start num in' =
     ext2fs_set_generic_bitmap_range bmap EXT2_ET_MAGIC_BLOCK_BITMAP start num in'"

definition ext2fs_set_block_bitmap_range2 :: "generic_bitmap option \<Rightarrow> u64 \<Rightarrow> u64 \<Rightarrow> u8 list \<Rightarrow> errcode \<times> generic_bitmap option" where
  "ext2fs_set_block_bitmap_range2 bmap start num in' = ext2fs_set_generic_bmap_range bmap start (ucast num) in'"

definition ext2fs_get_block_bitmap_range :: "generic_bitmap option \<Rightarrow> u32 \<Rightarrow> u32 \<Rightarrow> u8 list \<Rightarrow> errcode \<times> u8 list" where
  "ext2fs_get_block_bitmap_range bmap start num out =
     ext2fs_get_generic_bitmap_range bmap EXT2_ET_MAGIC_BLOCK_BITMAP start num out"

definition ext2fs_get_block_bitmap_range2 :: "generic_bitmap option \<Rightarrow> u64 \<Rightarrow> u64 \<Rightarrow> u8 list \<Rightarrow> errcode \<times> u8 list" where
  "ext2fs_get_block_bitmap_range2 bmap start num out = ext2fs_get_generic_bmap_range bmap start (ucast num) out"

section \<open>Counting and converting\<close>

text \<open>The loop of \<open>ext2fs_count_used_clusters\<close>; \<open>retval\<close> is the local variable, which
  is unset before the first round.\<close>

partial_function (option) count_used_loop :: "generic_bitmap option \<Rightarrow> u64 \<Rightarrow> u64 \<Rightarrow> u64 \<Rightarrow> errcode \<Rightarrow>
    (errcode \<times> u64) option" where
  "count_used_loop block_map end' start tot_set retval =
     (if start < end'
      then Option.bind (ext2fs_find_first_set_block_bitmap2 block_map start end') (\<lambda>r.
        case r of
          Inl e \<Rightarrow> Some (if e = ENOENT then 0 else e, tot_set)
        | Inr next \<Rightarrow>
            Option.bind (ext2fs_find_first_zero_block_bitmap2 block_map next end') (\<lambda>r.
              case r of
                Inr next' \<Rightarrow> count_used_loop block_map end' (next' + 1) (tot_set + (next' - next)) 0
              | Inl e \<Rightarrow> if e = ENOENT then Some (0, tot_set + (end' - next + 1)) else Some (e, tot_set)))
      else Some (retval, tot_set))"

declare count_used_loop.simps [code]

definition ext2fs_count_used_clusters :: "errcode \<Rightarrow> ext2_filsys \<Rightarrow> u64 \<Rightarrow> u64 \<Rightarrow> (errcode + u64) option" where
  "ext2fs_count_used_clusters unset fs start end' =
     map_option (\<lambda>(retval, tot_set). if retval = 0 then Inr (EXT2FS_NUM_B2C fs tot_set) else Inl retval)
       (count_used_loop (fs_block_map fs) end' start 0 unset)"

text \<open>The loop of \<open>ext2fs_convert_subcluster_bitmap\<close>, with the ends of both maps at
  their real ends.\<close>

partial_function (option) convert_loop :: "ext2_filsys \<Rightarrow> bmap64 \<Rightarrow> generic_bitmap \<Rightarrow> u64 \<Rightarrow> generic_bitmap option" where
  "convert_loop fs bmap cmap i =
     (if i < bm_real_end bmap
      then Option.bind (ext2fs_find_first_set_block_bitmap2 (Some (Bitmap64 bmap)) i (bm_real_end bmap)) (\<lambda>r.
        case r of
          Inl e \<Rightarrow> Some cmap
        | Inr next \<Rightarrow>
            convert_loop fs bmap (the (snd (ext2fs_mark_block_bitmap2 (Some cmap) next)))
              (EXT2FS_C2B fs (EXT2FS_B2C fs next + 1)))
      else Some cmap)"

declare convert_loop.simps [code]

text \<open>The error and the bitmap afterwards. Both maps are read as 64-bit maps; where
  one of them is not, the code would take one structure for the other and the
  model has no result.\<close>

definition ext2fs_convert_subcluster_bitmap :: "(nat \<Rightarrow> bool) \<Rightarrow> (nat \<Rightarrow> u8) \<Rightarrow> ext2_filsys \<Rightarrow> generic_bitmap \<Rightarrow>
    (errcode \<times> generic_bitmap) option" where
  "ext2fs_convert_subcluster_bitmap mem junk fs gen_bmap =
     (if fs_cluster_ratio_bits fs = ext2fs_get_bitmap_granularity gen_bmap then Some (0, gen_bmap)
      else
        case ext2fs_allocate_block_bitmap mem junk fs (Some ''converted cluster bitmap'') of
          Inl retval \<Rightarrow> Some (retval, gen_bmap)
        | Inr gen_cmap \<Rightarrow>
            (case (gen_bmap, gen_cmap) of
               (Bitmap64 bmap, Bitmap64 cmap) \<Rightarrow>
                 Option.bind (convert_loop fs (bmap\<lparr>bm_end := bm_real_end bmap\<rparr>)
                     (Bitmap64 (cmap\<lparr>bm_end := bm_real_end cmap\<rparr>)) (bm_start bmap)) (\<lambda>g.
                   case g of
                     Bitmap64 c \<Rightarrow> Some (0, Bitmap64 (c\<lparr>bm_end := bm_end cmap\<rparr>))
                   | Bitmap32 _ \<Rightarrow> None)
             | _ \<Rightarrow> None))"

end
