(* ===== verification/Blkmap64_BA_Correct.thy ===== *)
theory Blkmap64_BA_Correct
  imports Blkmap64_BA
begin

text \<open>
  Correctness of the bit-array back end: the effect of each operation on the set
  of marked bits, the equivalence of the byte-wise range test and of the searches
  with their bit-wise specifications, and the proof that the table of operations
  implements \<open>bmap_backend\<close>.
\<close>

definition valid_ba :: "bmap64 \<Rightarrow> bool" where
  "valid_ba bm \<longleftrightarrow> header_ok bm \<and>
     (case bm_private bm of BA_private bs \<Rightarrow> length bs = ba_size bm | RB_private _ \<Rightarrow> False)"

definition marked_ba :: "bmap64 \<Rightarrow> u64 set" where
  "marked_ba bm = {b. in_range bm b \<and> bit_at (ba_priv bm) (unat b - unat (bm_start bm))}"

lemma ba_priv_upd [simp]: "ba_priv (ba_upd bm bs) = bs"
  by (simp add: ba_priv_def)

lemma valid_baD:
  assumes "valid_ba bm"
  shows "header_ok bm" "length (ba_priv bm) = ba_size bm" "bm_private bm = BA_private (ba_priv bm)"
  using assms by (auto simp: valid_ba_def ba_priv_def split: bmap_private.splits)

lemma ba_size_upd [simp]: "ba_size (bm\<lparr>bm_private := p\<rparr>) = ba_size bm"
  by (simp add: ba_size_def)

lemma valid_ba_upd: "valid_ba bm \<Longrightarrow> length bs = ba_size bm \<Longrightarrow> valid_ba (ba_upd bm bs)"
  by (simp add: valid_ba_def)

lemma in_range_upd [simp]: "in_range (bm\<lparr>bm_private := p\<rparr>) b = in_range bm b"
  by (simp add: in_range_def)

lemma unat_div_8: "unat ((w :: u64) div 8) = unat w div 8"
  by (simp add: unat_div_distrib)

lemma ba_size_nat:
  "header_ok bm \<Longrightarrow> ba_size bm = Suc ((unat (bm_real_end bm) - unat (bm_start bm)) div 8)"
  using header_okD [of bm] by (simp add: ba_size_def unat_div_8 unat_minus_le)

lemma ba_room:
  assumes "valid_ba bm" "in_range bm b"
  shows "unat (b - bm_start bm) div 8 < length (ba_priv bm)"
proof -
  have "(unat b - unat (bm_start bm)) div 8 \<le> (unat (bm_real_end bm) - unat (bm_start bm)) div 8"
    using rel_in_range(3) [OF assms(2)] by (intro div_le_mono diff_le_mono)
  then show ?thesis
    by (simp add: rel_in_range(1) [OF assms(2)] valid_baD [OF assms(1)] ba_size_nat)
qed

section \<open>Single bits\<close>

lemma rel_eq_iff:
  assumes "in_range bm b" "in_range bm c"
  shows "unat c - unat (bm_start bm) = unat b - unat (bm_start bm) \<longleftrightarrow> c = b"
  using rel_in_range(2) [OF assms(1)] rel_in_range(2) [OF assms(2)]
  by (auto simp: word_unat_eq_iff)

lemma ba_mark_valid:
  assumes v: "valid_ba bm" and r: "in_range bm b" and m: "ba_mark_bmap bm b = (rv, bm')"
  shows "valid_ba bm' \<and> same_header bm bm' \<and> marked_ba bm' = insert b (marked_ba bm) \<and>
    (rv \<noteq> 0 \<longleftrightarrow> b \<in> marked_ba bm)"
proof -
  let ?p = "ext2fs_set_bit64 (b - bm_start bm) (ba_priv bm)"
  from m have bm': "bm' = ba_upd bm (snd ?p)" "rv = fst ?p"
    by (auto simp: ba_mark_bmap_def split: prod.splits)
  note room = ba_room [OF v r]
  have "marked_ba bm' = insert b (marked_ba bm)"
    using r rel_eq_iff [OF r]
    by (auto simp: marked_ba_def bm' bit_at_set_bit64 [OF room] rel_in_range(1) [OF r])
  with r show ?thesis
    using valid_ba_upd [OF v, of "snd ?p"] test_bit64_iff(2) [OF room] valid_baD(2) [OF v]
    by (simp add: bm' marked_ba_def [of bm] rel_in_range(1) [OF r])
qed

lemma ba_unmark_valid:
  assumes v: "valid_ba bm" and r: "in_range bm b" and m: "ba_unmark_bmap bm b = (rv, bm')"
  shows "valid_ba bm' \<and> same_header bm bm' \<and> marked_ba bm' = marked_ba bm - {b} \<and>
    (rv \<noteq> 0 \<longleftrightarrow> b \<in> marked_ba bm)"
proof -
  let ?p = "ext2fs_clear_bit64 (b - bm_start bm) (ba_priv bm)"
  from m have bm': "bm' = ba_upd bm (snd ?p)" "rv = fst ?p"
    by (auto simp: ba_unmark_bmap_def split: prod.splits)
  note room = ba_room [OF v r]
  have "marked_ba bm' = marked_ba bm - {b}"
    using r rel_eq_iff [OF r]
    by (auto simp: marked_ba_def bm' bit_at_clear_bit64 [OF room] rel_in_range(1) [OF r])
  with r show ?thesis
    using valid_ba_upd [OF v, of "snd ?p"] test_bit64_iff(3) [OF room] valid_baD(2) [OF v]
    by (simp add: bm' marked_ba_def [of bm] rel_in_range(1) [OF r])
qed

lemma ba_test_valid:
  assumes v: "valid_ba bm" and r: "in_range bm b" and m: "ba_test_bmap bm b = (rv, bm')"
  shows "valid_ba bm' \<and> same_header bm bm' \<and> marked_ba bm' = marked_ba bm \<and>
    (rv \<noteq> 0 \<longleftrightarrow> b \<in> marked_ba bm)"
proof -
  from m have "rv = ext2fs_test_bit64 (b - bm_start bm) (ba_priv bm)" "bm' = bm"
    by (auto simp: ba_test_bmap_def)
  with v r test_bit64_iff(1) [OF ba_room [OF v r]] show ?thesis
    by (simp add: marked_ba_def rel_in_range(1) [OF r])
qed

section \<open>Ranges of bits\<close>

lemma ba_range_room:
  assumes "valid_ba bm" "range_ok bm b n"
  shows "unat b - unat (bm_start bm) + unat n \<le> 8 * length (ba_priv bm)"
    and "i < unat n \<Longrightarrow> unat (b + word_of_nat i - bm_start bm) = unat b - unat (bm_start bm) + i"
proof -
  note r = rel_range_ok [OF assms(2)] note h = header_okD [OF valid_baD(1) [OF assms(1)]]
  note less_8_Suc_div [of "unat (bm_real_end bm) - unat (bm_start bm)"]
  then show "unat b - unat (bm_start bm) + unat n \<le> 8 * length (ba_priv bm)"
    using r h unfolding valid_baD(2) [OF assms(1)] ba_size_nat [OF valid_baD(1) [OF assms(1)]] by linarith
  show "unat (b + word_of_nat i - bm_start bm) = unat b - unat (bm_start bm) + i" if "i < unat n"
  proof -
    have lt: "unat b + i < 2 ^ 64" using that r h by linarith
    then have "unat (word_of_nat i :: u64) = i" by (intro unat_word_of_nat) simp
    with lt have "unat (b + word_of_nat i) = unat b + i" by (simp add: unat_plus_less)
    with r(2) show ?thesis by (simp add: unat_minus_le)
  qed
qed

lemma bit_range_in_range:
  assumes "range_ok bm b n" "x \<in> bit_range b n"
  shows "in_range bm x"
  using assms by (auto simp: range_ok_def bit_range_def in_range_def word_le_nat_alt)

lemma ba_mark_extent_valid:
  assumes v: "valid_ba bm" and r: "range_ok bm b n"
  shows "valid_ba (ba_mark_bmap_extent bm b n) \<and> same_header bm (ba_mark_bmap_extent bm b n) \<and>
    marked_ba (ba_mark_bmap_extent bm b n) = marked_ba bm \<union> bit_range b n"
proof -
  note fs = fold_set_bits [where f = "\<lambda>i. b + word_of_nat i - bm_start bm",
      OF ba_range_room(2) [OF v r] ba_range_room(1) [OF v r]]
  have "x \<in> marked_ba (ba_mark_bmap_extent bm b n) \<longleftrightarrow> x \<in> marked_ba bm \<union> bit_range b n" for x
  proof (cases "in_range bm x")
    case True
    then have "bm_start bm \<le> x" by (simp add: in_range_def)
    from bit_range_rel(1) [OF rel_range_ok(2) [OF r] this] True fs show ?thesis
      by (auto simp: marked_ba_def ba_mark_bmap_extent_def)
  next
    case False
    with bit_range_in_range [OF r] show ?thesis by (auto simp: marked_ba_def ba_mark_bmap_extent_def)
  qed
  then show ?thesis
    using valid_ba_upd [OF v] fs valid_baD(2) [OF v] by (auto simp: ba_mark_bmap_extent_def)
qed

lemma ba_unmark_extent_valid:
  assumes v: "valid_ba bm" and r: "range_ok bm b n"
  shows "valid_ba (ba_unmark_bmap_extent bm b n) \<and> same_header bm (ba_unmark_bmap_extent bm b n) \<and>
    marked_ba (ba_unmark_bmap_extent bm b n) = marked_ba bm - bit_range b n"
proof -
  note fs = fold_clear_bits [where f = "\<lambda>i. b + word_of_nat i - bm_start bm",
      OF ba_range_room(2) [OF v r] ba_range_room(1) [OF v r]]
  have "x \<in> marked_ba (ba_unmark_bmap_extent bm b n) \<longleftrightarrow> x \<in> marked_ba bm - bit_range b n" for x
  proof (cases "in_range bm x")
    case True
    then have "bm_start bm \<le> x" by (simp add: in_range_def)
    from bit_range_rel(1) [OF rel_range_ok(2) [OF r] this] True fs show ?thesis
      by (auto simp: marked_ba_def ba_unmark_bmap_extent_def)
  qed (simp add: marked_ba_def ba_unmark_bmap_extent_def)
  then show ?thesis
    using valid_ba_upd [OF v] fs valid_baD(2) [OF v] by (auto simp: ba_unmark_bmap_extent_def)
qed

section \<open>The range test\<close>

lemma bit_mark_mask:
  assumes "k \<le> Suc t" "t < 8" "j < 8"
  shows "bit (mark_mask k t m) j \<longleftrightarrow> bit m j \<or> (Suc t \<le> j + k \<and> j \<le> t)"
  using assms
proof (induction k arbitrary: t m)
  case (Suc k)
  have e: "bit (push_bit t 1 :: u8) j \<longleftrightarrow> j = t" using Suc.prems by auto
  show ?case
  proof (cases "t = 0")
    case True
    with Suc.prems have "k = 0" by simp
    with True Suc.prems show ?thesis by (auto simp: bit_or_iff bit_1_iff)
  next
    case False
    then have "bit (mark_mask k (t - 1) (m OR push_bit t 1)) j \<longleftrightarrow>
        (bit m j \<or> j = t) \<or> (Suc (t - 1) \<le> j + k \<and> j \<le> t - 1)"
      unfolding e [symmetric] bit_or_iff [symmetric] using Suc.prems by (intro Suc.IH) auto
    with False show ?thesis by auto
  qed
qed auto

lemma and_eq_0_iff_bits: "(a :: u8) AND b = 0 \<longleftrightarrow> (\<forall>j<8. bit a j \<longrightarrow> \<not> bit b j)"
  by (auto simp: u8_eq_iff bit_and_iff)

text \<open>A mask of the bits \<open>lo\<close> to \<open>hi - 1\<close> of a byte tests these bits.\<close>

lemma mark_mask_test:
  assumes "i < length bs" "lo < hi" "hi \<le> 8"
  shows "mark_mask (hi - lo) (hi - 1) 0 AND bs ! i = 0 \<longleftrightarrow> (\<forall>m\<in>{8 * i + lo..<8 * i + hi}. \<not> bit_at bs m)"
proof -
  have "bit (mark_mask (hi - lo) (hi - 1) 0) j \<longleftrightarrow> lo \<le> j \<and> j < hi" if "j < 8" for j
    using that assms(2,3) by (subst bit_mark_mask) auto
  then have "mark_mask (hi - lo) (hi - 1) 0 AND bs ! i = 0 \<longleftrightarrow> (\<forall>j. lo \<le> j \<and> j < hi \<longrightarrow> \<not> bit (bs ! i) j)"
    using assms(3) by (auto simp: and_eq_0_iff_bits)
  also have "\<dots> \<longleftrightarrow> (\<forall>m\<in>{8 * i + lo..<8 * i + hi}. \<not> bit_at bs m)"
  proof
    assume *: "\<forall>j. lo \<le> j \<and> j < hi \<longrightarrow> \<not> bit (bs ! i) j"
    show "\<forall>m\<in>{8 * i + lo..<8 * i + hi}. \<not> bit_at bs m"
    proof
      fix m assume m: "m \<in> {8 * i + lo..<8 * i + hi}"
      then obtain j where j: "m = 8 * i + j" "lo \<le> j" "j < hi"
        by (auto simp: le_iff_add)
      with assms(3) have "m div 8 = i" "m mod 8 = j" by simp_all
      with * j show "\<not> bit_at bs m" by (simp add: bit_at_def)
    qed
  next
    assume *: "\<forall>m\<in>{8 * i + lo..<8 * i + hi}. \<not> bit_at bs m"
    show "\<forall>j. lo \<le> j \<and> j < hi \<longrightarrow> \<not> bit (bs ! i) j"
    proof (intro allI impI)
      fix j assume j: "lo \<le> j \<and> j < hi"
      with * have "\<not> bit_at bs (8 * i + j)" by simp
      moreover have "(8 * i + j) div 8 = i" "(8 * i + j) mod 8 = j" using j assms(3) by simp_all
      ultimately show "\<not> bit (bs ! i) j" using assms(1) by (simp add: bit_at_def)
    qed
  qed
  finally show ?thesis .
qed

lemma take_eq_replicate: "n \<le> length xs \<Longrightarrow> take n xs = replicate n v \<longleftrightarrow> (\<forall>i<n. xs ! i = v)"
  by (auto simp: list_eq_iff_nth_eq)

lemma mem_is_zero_iff:
  "len \<le> length mem \<Longrightarrow> ext2fs_mem_is_zero mem len \<noteq> 0 \<longleftrightarrow> (\<forall>i<len. mem ! i = 0)"
proof (induction mem len rule: ext2fs_mem_is_zero.induct)
  case (1 mem len)
  show ?case
  proof (cases "256 \<le> len")
    case True
    have "(\<forall>i<len. mem ! i = 0) \<longleftrightarrow> (\<forall>i<256. mem ! i = 0) \<and> (\<forall>i<len - 256. mem ! (256 + i) = 0)"
    proof (intro iffI conjI allI impI)
      fix i assume "(\<forall>i<256. mem ! i = 0) \<and> (\<forall>i<len - 256. mem ! (256 + i) = 0)" "i < len"
      then show "mem ! i = 0" by (cases "i < 256") (auto dest: spec [of _ "i - 256"])
    qed (use True in auto)
    with True 1 show ?thesis
      by (subst ext2fs_mem_is_zero.simps) (auto simp: take_eq_replicate)
  next
    case False
    with 1(2) show ?thesis by (subst ext2fs_mem_is_zero.simps) (auto simp: take_eq_replicate)
  qed
qed

lemma mem_is_zero_bits:
  assumes "sb + lb \<le> length bs"
  shows "ext2fs_mem_is_zero (drop sb bs) lb \<noteq> 0 \<longleftrightarrow> (\<forall>m\<in>{8 * sb..<8 * (sb + lb)}. \<not> bit_at bs m)"
proof -
  have "ext2fs_mem_is_zero (drop sb bs) lb \<noteq> 0 \<longleftrightarrow> (\<forall>i<lb. bs ! (sb + i) = 0)"
    using assms mem_is_zero_iff [of lb "drop sb bs"] by simp
  also have "\<dots> \<longleftrightarrow> (\<forall>m\<in>{8 * sb..<8 * (sb + lb)}. \<not> bit_at bs m)"
  proof
    assume *: "\<forall>i<lb. bs ! (sb + i) = 0"
    show "\<forall>m\<in>{8 * sb..<8 * (sb + lb)}. \<not> bit_at bs m"
    proof
      fix m assume "m \<in> {8 * sb..<8 * (sb + lb)}"
      then have "sb \<le> m div 8" "m div 8 - sb < lb" by auto
      with * have "bs ! (m div 8) = 0" by fastforce
      then show "\<not> bit_at bs m" by (simp add: bit_at_def)
    qed
  next
    assume *: "\<forall>m\<in>{8 * sb..<8 * (sb + lb)}. \<not> bit_at bs m"
    show "\<forall>i<lb. bs ! (sb + i) = 0"
    proof (intro allI impI)
      fix i assume i: "i < lb"
      have "\<not> bit (bs ! (sb + i)) k" if "k < 8" for k
      proof -
        have "(8 * n + k) div 8 = n" "(8 * n + k) mod 8 = k" for n using that by simp_all
        from this [of "sb + i"] have "(8 * (sb + i) + k) div 8 = sb + i" "(8 * (sb + i) + k) mod 8 = k" .
        moreover have "\<not> bit_at bs (8 * (sb + i) + k)" using * i that by simp
        ultimately show ?thesis using i assms by (simp add: bit_at_def)
      qed
      then show "bs ! (sb + i) = 0" by (simp add: byte_zero_iff)
    qed
  qed
  finally show ?thesis .
qed

lemma test_clear_tail:
  assumes "8 * sb + len \<le> 8 * length bs"
  shows "test_clear_rest bs sb (len div 8) (len mod 8) \<noteq> 0 \<longleftrightarrow>
    (\<forall>m\<in>{8 * sb..<8 * sb + len}. \<not> bit_at bs m)"
proof -
  have l: "len = 8 * (len div 8) + len mod 8" by simp
  then have "8 * sb + 8 * (len div 8) \<le> 8 * length bs" using assms by linarith
  then have z: "ext2fs_mem_is_zero (drop sb bs) (len div 8) \<noteq> 0 \<longleftrightarrow>
      (\<forall>m\<in>{8 * sb..<8 * (sb + len div 8)}. \<not> bit_at bs m)"
    by (intro mem_is_zero_bits) simp
  have split: "{8 * sb..<8 * sb + len} =
      {8 * sb..<8 * (sb + len div 8)} \<union> {8 * (sb + len div 8) + 0..<8 * (sb + len div 8) + len mod 8}"
    using l by (auto simp: algebra_simps)
  show ?thesis
  proof (cases "len mod 8 = 0")
    case True
    with z split show ?thesis by (simp add: test_clear_rest_def)
  next
    case False
    then have "sb + len div 8 < length bs" using assms l by linarith
    from mark_mask_test [OF this, of 0 "len mod 8"] False have
      "mark_mask (len mod 8) (len mod 8 - 1) 0 AND bs ! (sb + len div 8) = 0 \<longleftrightarrow>
       (\<forall>m\<in>{8 * (sb + len div 8) + 0..<8 * (sb + len div 8) + len mod 8}. \<not> bit_at bs m)"
      by simp
    with False z show ?thesis unfolding split ball_Un test_clear_rest_def by (cases "len div 8 = 0") auto
  qed
qed

lemma test_clear_range_iff:
  assumes "start + len \<le> 8 * length bs"
  shows "test_clear_range bs start len \<noteq> 0 \<longleftrightarrow> (\<forall>m\<in>{start..<start + len}. \<not> bit_at bs m)"
proof (cases "start mod 8 = 0")
  case True
  then have "start = 8 * (start div 8)" by presburger
  with test_clear_tail [of "start div 8" len bs] assms True show ?thesis
    by (simp add: test_clear_range_def Let_def)
next
  case False
  let ?b = "start mod 8" and ?i = "start div 8"
  have st: "start = 8 * ?i + ?b" by simp
  have b: "?b < 8" by simp
  show ?thesis
  proof (cases "len < 8 - ?b")
    case True
    show ?thesis
    proof (cases "len = 0")
      case True
      with False show ?thesis by (simp add: test_clear_range_def Let_def)
    next
      case len: False
      then have "?i < length bs" using assms st by linarith
      from mark_mask_test [OF this, of ?b "?b + len"] len True
      have "mark_mask len (len + ?b - 1) 0 AND bs ! ?i = 0 \<longleftrightarrow> (\<forall>m\<in>{start..<start + len}. \<not> bit_at bs m)"
        using st by (simp add: add.commute add.left_commute)
      with False True show ?thesis by (simp add: test_clear_range_def Let_def)
    qed
  next
    case ge: False
    define rest where "rest = len - (8 - ?b)"
    have i: "?i < length bs" using assms ge st b by linarith
    from mark_mask_test [OF i, of ?b 8] b
    have first: "mark_mask (8 - ?b) 7 0 AND bs ! ?i = 0 \<longleftrightarrow> (\<forall>m\<in>{start..<8 * Suc ?i}. \<not> bit_at bs m)"
      using st by (simp add: add.commute)
    have e: "start + len = 8 * Suc ?i + rest" "start \<le> 8 * Suc ?i"
      using ge st b unfolding rest_def mult_Suc_right by linarith+
    then have split: "{start..<start + len} = {start..<8 * Suc ?i} \<union> {8 * Suc ?i..<8 * Suc ?i + rest}"
      unfolding e(1) using e(2) by auto
    have "8 * Suc ?i + rest \<le> 8 * length bs" using assms unfolding e(1) .
    note tl = test_clear_tail [OF this]
    have le: "len \<le> 8 - ?b \<longleftrightarrow> rest = 0" unfolding rest_def by linarith
    show ?thesis
    proof (cases "mark_mask (8 - ?b) 7 0 AND bs ! ?i = 0")
      case True
      with first have "(\<forall>m\<in>{start..<start + len}. \<not> bit_at bs m) \<longleftrightarrow>
          (\<forall>m\<in>{8 * Suc ?i..<8 * Suc ?i + rest}. \<not> bit_at bs m)"
        unfolding split ball_Un by blast
      also have "test_clear_range bs start len \<noteq> 0 \<longleftrightarrow> \<dots>"
      proof (cases "rest = 0")
        case True
        with \<open>mark_mask (8 - ?b) 7 0 AND bs ! ?i = 0\<close> ge False le show ?thesis
          by (simp add: test_clear_range_def Let_def)
      next
        case rest: False
        with \<open>mark_mask (8 - ?b) 7 0 AND bs ! ?i = 0\<close> ge False le tl show ?thesis
          unfolding test_clear_range_def Let_def rest_def by simp
      qed
      finally show ?thesis by simp
    next
      case m: False
      then have "\<not> (\<forall>m\<in>{start..<start + len}. \<not> bit_at bs m)"
        using first unfolding split ball_Un by blast
      moreover have "test_clear_range bs start len = 0"
        using m ge False by (simp add: test_clear_range_def Let_def)
      ultimately show ?thesis by blast
    qed
  qed
qed

section \<open>The searches\<close>

lemma scan_bits_cases:
  fixes H :: "nat \<Rightarrow> bool"
  assumes "\<And>m. p \<le> m \<Longrightarrow> m < p + c \<Longrightarrow> hit (ext2fs_test_bit64 (word_of_nat m) bs) = H m"
  shows "(\<exists>q. ba_scan_bits hit stop bs p c = Inl q \<and> p \<le> q \<and> q < p + c \<and> H q \<and> (\<forall>m\<in>{p..<q}. \<not> H m)) \<or>
    (\<exists>q c'. ba_scan_bits hit stop bs p c = Inr (q, c') \<and> p \<le> q \<and> q + c' = p + c \<and>
       (\<forall>m\<in>{p..<q}. \<not> H m) \<and> (c' = 0 \<or> stop q))"
  using assms
proof (induction hit stop bs p c rule: ba_scan_bits.induct)
  case (1 hit stop bs p)
  then show ?case by simp
next
  case (2 hit stop bs p c)
  have hp: "hit (ext2fs_test_bit64 (word_of_nat p) bs) = H p" using "2.prems" [of p] by simp
  show ?case
  proof (cases "stop p \<or> H p")
    case True
    with hp show ?thesis by (cases "stop p") auto
  next
    case False
    with hp "2.IH" "2.prems" have
      "(\<exists>q. ba_scan_bits hit stop bs (Suc p) c = Inl q \<and> Suc p \<le> q \<and> q < Suc p + c \<and> H q \<and>
          (\<forall>m\<in>{Suc p..<q}. \<not> H m)) \<or>
       (\<exists>q c'. ba_scan_bits hit stop bs (Suc p) c = Inr (q, c') \<and> Suc p \<le> q \<and> q + c' = Suc p + c \<and>
          (\<forall>m\<in>{Suc p..<q}. \<not> H m) \<and> (c' = 0 \<or> stop q))" by simp
    moreover have "{p..<q} = insert p {Suc p..<q}" if "Suc p \<le> q" for q using that by auto
    ultimately show ?thesis using False hp by (elim disjE exE conjE) auto
  qed
qed

lemma scan_align_spec:
  assumes "ba_scan_align skip bs addr p c = (f, q, c')" "p mod 8 = 0" "p + c \<le> 8 * length bs"
    and "\<forall>i<length bs. bs ! i = skip \<longrightarrow> (\<forall>m\<in>{8 * i..<8 * i + 8}. \<not> H m)"
  shows "p \<le> q \<and> q + c' = p + c \<and> q mod 8 = 0 \<and> (\<forall>m\<in>{p..<q}. \<not> H m)"
  using assms
proof (induction skip bs addr p c rule: ba_scan_align.induct)
  case (1 skip bs addr p c)
  show ?case
  proof (cases "c \<ge> 8 \<and> addr mod 8 \<noteq> 0 \<and> bs ! (p div 8) = skip")
    case True
    then have "ba_scan_align skip bs (Suc addr) (p + 8) (c - 8) = (f, q, c')"
      using "1.prems"(1) by (simp add: ba_scan_align.simps [of skip bs addr p c])
    then have ih: "p + 8 \<le> q" "q + c' = p + c" "q mod 8 = 0" "\<forall>m\<in>{p + 8..<q}. \<not> H m"
      using "1.IH" True "1.prems"(2,3) "1.prems"(4) by auto
    from "1.prems"(2) obtain i where p8: "p = 8 * i" by (auto simp: mod_eq_0_iff_dvd elim: dvdE)
    then have "i < length bs" using True "1.prems"(3) by linarith
    with "1.prems"(4) True p8 have "\<forall>m\<in>{p..<p + 8}. \<not> H m" by simp
    moreover have "{p..<q} = {p..<p + 8} \<union> {p + 8..<q}" using ih(1) by auto
    ultimately show ?thesis using ih by auto
  next
    case False
    then show ?thesis using "1.prems" by (auto simp: ba_scan_align.simps [of skip bs addr p c] split: if_splits)
  qed
qed

lemma scan_blocks_spec:
  assumes "i * n \<le> length pos"
  shows "ba_scan_blocks n skip pos i \<le> i \<and> (\<forall>j < n * ba_scan_blocks n skip pos i. pos ! j = skip)"
  using assms
proof (induction n skip pos i rule: ba_scan_blocks.induct)
  case (2 n skip pos i)
  show ?case
  proof (cases "take n pos = replicate n skip")
    case True
    with 2 have ih: "ba_scan_blocks n skip (drop n pos) i \<le> i"
      "\<forall>j < n * ba_scan_blocks n skip (drop n pos) i. pos ! (n + j) = skip" by auto
    have "pos ! j = skip" if "j < n * Suc (ba_scan_blocks n skip (drop n pos) i)" for j
    proof (cases "j < n")
      case True
      with \<open>take n pos = replicate n skip\<close> show ?thesis by (metis nth_replicate nth_take)
    next
      case False
      then obtain k where "j = n + k" using le_Suc_ex not_less by blast
      with ih that show ?thesis by simp
    qed
    with True ih(1) show ?thesis by simp
  qed simp
qed simp

text \<open>Where a block scan has passed, no byte has a hit.\<close>

lemma scan_blocks_no_hit:
  assumes "k = ba_scan_blocks n skip (drop (p div 8) bs) i" "p mod 8 = 0" "p + 8 * (n * i) \<le> 8 * length bs"
    and skip: "\<forall>i<length bs. bs ! i = skip \<longrightarrow> (\<forall>m\<in>{8 * i..<8 * i + 8}. \<not> H m)"
  shows "k \<le> i" "\<forall>m\<in>{p..<p + 8 * (n * k)}. \<not> H m"
proof -
  obtain d where p: "p = 8 * d" using assms(2) by (auto simp: mod_eq_0_iff_dvd elim: dvdE)
  then have len: "d + n * i \<le> length bs" using assms(3) by simp
  then have "i * n \<le> length (drop d bs)" by (simp add: mult.commute)
  from scan_blocks_spec [OF this, of skip] assms(1) p
  have k: "k \<le> i" "\<forall>j<n * k. drop d bs ! j = skip" by simp_all
  then show "k \<le> i" by simp
  show "\<forall>m\<in>{p..<p + 8 * (n * k)}. \<not> H m"
  proof
    fix m assume m: "m \<in> {p..<p + 8 * (n * k)}"
    then have md: "d \<le> m div 8" "m div 8 - d < n * k" using p by auto
    have "n * k \<le> n * i" using k(1) by simp
    then have lt: "m div 8 < length bs" using md len by linarith
    with k(2) md have "bs ! (m div 8) = skip" by (metis le_add_diff_inverse less_imp_le nth_drop order_trans len add_leD1)
    moreover have "m \<in> {8 * (m div 8)..<8 * (m div 8) + 8}" by auto
    ultimately show "\<not> H m" using skip lt by blast
  qed
qed

text \<open>What follows the scan to a byte boundary: the remaining \<open>c\<close> bits from
  \<open>p\<close> on. The block scans only pass bytes without a hit, and the last scan
  looks at every bit that is left.\<close>

lemma ba_find_first_rel:
  fixes H :: "nat \<Rightarrow> bool"
  assumes hit: "\<forall>m<8 * length (ba_priv bm). hit (ext2fs_test_bit64 (word_of_nat m) (ba_priv bm)) = H m"
    and skip: "\<forall>i<length (ba_priv bm). ba_priv bm ! i = skip \<longrightarrow> (\<forall>m\<in>{8 * i..<8 * i + 8}. \<not> H m)"
    and p: "p = unat (start - bm_start bm)" and c: "c = unat (end' - start + 1)"
    and room: "p + c \<le> 8 * length (ba_priv bm)"
  shows "(\<exists>q. ba_find_first hit skip addr bm start end' = Inr (word_of_nat q + bm_start bm) \<and>
      p \<le> q \<and> q < p + c \<and> H q \<and> (\<forall>m\<in>{p..<q}. \<not> H m)) \<or>
    (ba_find_first hit skip addr bm start end' = Inl ENOENT \<and> (\<forall>m\<in>{p..<p + c}. \<not> H m))"
proof -
  let ?bs = "ba_priv bm"
  have hit': "hit (ext2fs_test_bit64 (word_of_nat m) ?bs) = H m" if "m < p + c" for m
    using hit that room by simp
  note un = ba_find_first_def Let_def p [symmetric] c [symmetric]
  consider (Hit) q where "ba_scan_bits hit (\<lambda>b. b mod 8 = 0) ?bs p c = Inl q" "p \<le> q" "q < p + c" "H q"
      "\<forall>m\<in>{p..<q}. \<not> H m"
    | (Go) q d where "ba_scan_bits hit (\<lambda>b. b mod 8 = 0) ?bs p c = Inr (q, d)" "p \<le> q" "q + d = p + c"
      "\<forall>m\<in>{p..<q}. \<not> H m" "d = 0 \<or> q mod 8 = 0"
    using scan_bits_cases [where p = p and c = c and hit = hit and bs = ?bs and H = H and stop = "\<lambda>b. b mod 8 = 0", OF hit'] by auto
  then show ?thesis
  proof cases
    case Hit
    then show ?thesis by (intro disjI1 exI [of _ q]) (simp add: un)
  next
    case (Go q d)
    show ?thesis
    proof (cases "d = 0")
      case True
      with Go show ?thesis by (intro disjI2) (simp add: un)
    next
      case False
      obtain f q1 d1 where al: "ba_scan_align skip ?bs (addr + q div 8) q d = (f, q1, d1)"
        by (cases "ba_scan_align skip ?bs (addr + q div 8) q d") auto
      have q1: "q \<le> q1" "q1 + d1 = q + d" "q1 mod 8 = 0" "\<forall>m\<in>{q..<q1}. \<not> H m"
        using scan_align_spec [OF al _ _ skip] Go False room by auto
      define k where "k = ba_scan_blocks 8 skip (drop (q1 div 8) ?bs) (d1 div 64)"
      define j where "j = ba_scan_blocks 1 skip (drop ((q1 + 64 * k) div 8) ?bs) ((d1 - 64 * k) div 8)"
      have b1: "64 * (d1 div 64) \<le> d1" and b2: "8 * ((d1 - 64 * k) div 8) \<le> d1 - 64 * k" by auto
      have k: "k \<le> d1 div 64" "\<forall>m\<in>{q1..<q1 + 64 * k}. \<not> H m"
        using scan_blocks_no_hit [OF k_def q1(3) _ skip] b1 q1(2) Go(3) room by auto
      have k64: "64 * k \<le> d1" using k(1) b1 by linarith
      have j: "j \<le> (d1 - 64 * k) div 8" "\<forall>m\<in>{q1 + 64 * k..<q1 + 64 * k + 8 * j}. \<not> H m"
        using scan_blocks_no_hit [OF j_def _ _ skip] b2 q1(2,3) Go(3) room k64 by auto
      have j8: "64 * k + 8 * j \<le> d1" using j(1) b2 k64 by linarith
      define q2 where "q2 = (if f then q1 else q1 + 64 * k + 8 * j)"
      define d2 where "d2 = (if f then d1 else d1 - 64 * k - 8 * j)"
      have "{q1..<q2} \<subseteq> {q1..<q1 + 64 * k} \<union> {q1 + 64 * k..<q1 + 64 * k + 8 * j}"
        by (auto simp: q2_def)
      with k(2) j(2) have "\<forall>m\<in>{q1..<q2}. \<not> H m" by blast
      moreover have "{p..<q2} \<subseteq> {p..<q} \<union> {q..<q1} \<union> {q1..<q2}" by auto
      ultimately have no: "\<forall>m\<in>{p..<q2}. \<not> H m" using Go(4) q1(4) by blast
      have q2: "p \<le> q2" "q2 + d2 = p + c"
        using Go(2,3) q1(1,2) j8 by (auto simp: q2_def d2_def)
      have run: "ba_find_first hit skip addr bm start end' =
        (case ba_scan_bits hit (\<lambda>_. False) ?bs q2 d2 of Inl b \<Rightarrow> Inr (word_of_nat b + bm_start bm) | Inr _ \<Rightarrow> Inl ENOENT)"
        using Go(1) False al by (simp add: un q2_def d2_def k_def j_def)
      consider (Hit2) b where "ba_scan_bits hit (\<lambda>_. False) ?bs q2 d2 = Inl b" "q2 \<le> b" "b < q2 + d2" "H b"
          "\<forall>m\<in>{q2..<b}. \<not> H m"
        | (None2) b where "ba_scan_bits hit (\<lambda>_. False) ?bs q2 d2 = Inr (b, 0)" "b = q2 + d2" "\<forall>m\<in>{q2..<b}. \<not> H m"
        using scan_bits_cases [where p = q2 and c = d2 and hit = hit and bs = ?bs and H = H and stop = "\<lambda>_. False", OF hit'] q2(2) by auto
      then show ?thesis
      proof cases
        case Hit2
        have "{p..<b} \<subseteq> {p..<q2} \<union> {q2..<b}" by auto
        with no Hit2(5) have "\<forall>m\<in>{p..<b}. \<not> H m" by blast
        with Hit2 run q2 show ?thesis by (intro disjI1 exI [of _ b]) simp
      next
        case None2
        have "{p..<p + c} \<subseteq> {p..<q2} \<union> {q2..<b}" using None2(2) q2(2) by auto
        with no None2(3) have "\<forall>m\<in>{p..<p + c}. \<not> H m" by blast
        with None2(1) run show ?thesis by (intro disjI2) simp
      qed
    qed
  qed
qed

lemma ba_find_first_abs:
  assumes v: "valid_ba bm" and r: "in_range bm start" "in_range bm end'" "start \<le> end'"
    and hit: "\<forall>m<8 * length (ba_priv bm). hit (ext2fs_test_bit64 (word_of_nat m) (ba_priv bm)) = (bit_at (ba_priv bm) m = w)"
    and skip: "\<forall>i<length (ba_priv bm). ba_priv bm ! i = skip \<longrightarrow> (\<forall>m\<in>{8 * i..<8 * i + 8}. \<not> (bit_at (ba_priv bm) m = w))"
  shows "search_result (\<lambda>b. (b \<in> marked_ba bm) = w) start end' (ba_find_first hit skip addr bm start end')"
proof -
  let ?s = "unat (bm_start bm)"
  define p where "p = unat (start - bm_start bm)"
  define c where "c = unat (end' - start + 1)"
  note h = header_okD [OF valid_baD(1) [OF v]] note rs = rel_in_range [OF r(1)] note re = rel_in_range [OF r(2)]
  have le: "unat start \<le> unat end'" using r(3) by (simp add: word_le_nat_alt)
  have "unat (end' - start) + 1 < 2 ^ 64" using re h le by (simp add: unat_minus_le)
  then have c: "c = unat end' - unat start + 1" using le by (simp add: c_def unat_minus_le unat_plus_less)
  have p: "p + ?s = unat start" using rs by (simp add: p_def)
  have "unat (end' - bm_start bm) div 8 < length (ba_priv bm)" by (rule ba_room [OF v r(2)])
  then have "unat end' - ?s < 8 * length (ba_priv bm)" using re(1) by auto
  then have room: "p + c \<le> 8 * length (ba_priv bm)" using c p le rs(2) by linarith
  have mk: "(x \<in> marked_ba bm) = bit_at (ba_priv bm) (unat x - ?s)" if "start \<le> x" "x \<le> end'" for x
    using that r by (auto simp: marked_ba_def in_range_def)
  have rel: "unat x - ?s \<in> {p..<p + c}" if "start \<le> x" "x \<le> end'" for x
    using that p c rs(2) by (auto simp: word_le_nat_alt)
  from ba_find_first_rel [OF hit skip p_def c_def room, of addr]
  show ?thesis
  proof (elim disjE exE conjE)
    fix q assume q: "ba_find_first hit skip addr bm start end' = Inr (word_of_nat q + bm_start bm)"
      "p \<le> q" "q < p + c" "bit_at (ba_priv bm) q = w" "\<forall>m\<in>{p..<q}. \<not> (bit_at (ba_priv bm) m = w)"
    let ?b = "word_of_nat q + bm_start bm"
    have lt: "q + ?s \<le> unat end'" using q(3) p c le by linarith
    then have "q + ?s < 2 ^ 64" using re h by linarith
    then have "unat (word_of_nat q :: u64) = q" by (intro unat_word_of_nat) simp
    with \<open>q + ?s < 2 ^ 64\<close> have b: "unat ?b = q + ?s" by (simp add: unat_plus_less)
    then have sb: "start \<le> ?b" "?b \<le> end'" using q(2) p lt by (simp_all add: word_le_nat_alt)
    moreover have "(?b \<in> marked_ba bm) = w" using mk [OF sb] b q(4) by simp
    moreover have "\<not> ((x \<in> marked_ba bm) = w)" if "start \<le> x" "x < ?b" for x
    proof -
      have "x \<le> end'" using that(2) sb(2) by simp
      moreover have "unat x - ?s \<in> {p..<q}" using that p b rs(2) by (auto simp: word_le_nat_alt word_less_nat_alt)
      ultimately show ?thesis using mk [OF that(1)] q(5) by simp
    qed
    ultimately show ?thesis using q(1) by (simp add: search_result_def)
  next
    assume "ba_find_first hit skip addr bm start end' = Inl ENOENT" "\<forall>m\<in>{p..<p + c}. \<not> (bit_at (ba_priv bm) m = w)"
    with mk rel show ?thesis by (auto simp: search_result_def)
  qed
qed

lemma test_bit64_word_of_nat:
  assumes "length bs \<le> 2 ^ 61" "m < 8 * length bs"
  shows "ext2fs_test_bit64 (word_of_nat m) bs \<noteq> 0 \<longleftrightarrow> bit_at bs m"
proof -
  have "m < 2 ^ 64" using assms by simp
  then have "unat (word_of_nat m :: u64) = m" by (intro unat_word_of_nat) simp
  moreover from assms(2) have "m div 8 < length bs" by auto
  ultimately show ?thesis using test_bit64_iff(1) [of "word_of_nat m" bs] by simp
qed

lemma ba_size_bound: "header_ok bm \<Longrightarrow> length (ba_priv bm) = ba_size bm \<Longrightarrow> length (ba_priv bm) \<le> 2 ^ 61"
  using header_okD [of bm] by (simp add: ba_size_nat)

lemma byte_in_array:
  assumes "i < length bs" "m \<in> {8 * i..<8 * i + 8}"
  shows "bit_at bs m \<longleftrightarrow> bit (bs ! i) (m mod 8)"
proof -
  from assms(2) have "m div 8 = i" by auto
  with assms(1) show ?thesis by (simp add: bit_at_def)
qed

lemma ba_find_first_zero_abs:
  assumes "valid_ba bm" "in_range bm start" "in_range bm end'" "start \<le> end'"
  shows "search_result (\<lambda>b. b \<notin> marked_ba bm) start end' (ba_find_first_zero addr bm start end')"
proof -
  note len = ba_size_bound [OF valid_baD(1,2) [OF assms(1)]]
  have "\<forall>i<length (ba_priv bm). ba_priv bm ! i = 0xFF \<longrightarrow>
      (\<forall>m\<in>{8 * i..<8 * i + 8}. \<not> (bit_at (ba_priv bm) m = False))"
    using byte_in_array [of _ "ba_priv bm"] byte_ones_iff [of "0xFF"] by simp
  moreover have "\<forall>m<8 * length (ba_priv bm). (ext2fs_test_bit64 (word_of_nat m) (ba_priv bm) = 0) =
      (bit_at (ba_priv bm) m = False)"
    using test_bit64_word_of_nat [OF len] by auto
  ultimately show ?thesis
    using ba_find_first_abs [OF assms, of "\<lambda>b. b = 0" False "0xFF" addr] by (simp add: ba_find_first_zero_def)
qed

lemma ba_find_first_set_abs:
  assumes "valid_ba bm" "in_range bm start" "in_range bm end'" "start \<le> end'"
  shows "search_result (\<lambda>b. b \<in> marked_ba bm) start end' (ba_find_first_set addr bm start end')"
proof -
  note len = ba_size_bound [OF valid_baD(1,2) [OF assms(1)]]
  have "\<forall>i<length (ba_priv bm). ba_priv bm ! i = 0 \<longrightarrow>
      (\<forall>m\<in>{8 * i..<8 * i + 8}. \<not> (bit_at (ba_priv bm) m = True))"
    using byte_in_array [of _ "ba_priv bm"] by simp
  moreover have "\<forall>m<8 * length (ba_priv bm). (ext2fs_test_bit64 (word_of_nat m) (ba_priv bm) \<noteq> 0) =
      (bit_at (ba_priv bm) m = True)"
    using test_bit64_word_of_nat [OF len] by auto
  ultimately show ?thesis
    using ba_find_first_abs [OF assms, of "\<lambda>b. b \<noteq> 0" True 0 addr] by (simp add: ba_find_first_set_def)
qed

section \<open>The back end implements the interface\<close>

lemma memset_all: "length bs = n \<Longrightarrow> memset bs 0 v n = replicate n v"
  by (simp add: memset_def)

lemma ba_new_valid:
  assumes "header_ok bm" "ba_new_bmap mem junk bm = (0, bm')"
  shows "valid_ba bm' \<and> same_header bm bm' \<and> marked_ba bm' = {}"
  using assms
  by (auto simp: ba_new_bmap_def ba_alloc_private_data_def valid_ba_def marked_ba_def memset_all split: if_splits)

lemma ba_clear_valid:
  assumes "valid_ba bm"
  shows "valid_ba (ba_clear_bmap bm) \<and> same_header bm (ba_clear_bmap bm) \<and> marked_ba (ba_clear_bmap bm) = {}"
  using valid_baD [OF assms] by (simp add: ba_clear_bmap_def memset_all valid_ba_def marked_ba_def)

lemma ba_test_clear_marked:
  assumes v: "valid_ba bm" and r: "range_ok bm b n"
  shows "ba_test_clear_bmap_extent bm b n \<noteq> 0 \<longleftrightarrow> marked_ba bm \<inter> bit_range b n = {}"
proof -
  let ?p = "unat b - unat (bm_start bm)"
  note rr = rel_range_ok [OF r] note h = header_okD [OF valid_baD(1) [OF v]]
  have "ba_test_clear_bmap_extent bm b n \<noteq> 0 \<longleftrightarrow> (\<forall>m\<in>{?p..<?p + unat n}. \<not> bit_at (ba_priv bm) m)"
    using test_clear_range_iff [OF ba_range_room(1) [OF v r]] rr(1) by (simp add: ba_test_clear_bmap_extent_def)
  also have "\<dots> \<longleftrightarrow> marked_ba bm \<inter> bit_range b n = {}"
  proof
    assume *: "\<forall>m\<in>{?p..<?p + unat n}. \<not> bit_at (ba_priv bm) m"
    have "x \<notin> marked_ba bm" if "x \<in> bit_range b n" for x
    proof -
      from bit_range_rel [OF rr(2)] that have "unat x - unat (bm_start bm) \<in> {?p..<?p + unat n}" by blast
      with * show ?thesis by (simp add: marked_ba_def)
    qed
    then show "marked_ba bm \<inter> bit_range b n = {}" by blast
  next
    assume *: "marked_ba bm \<inter> bit_range b n = {}"
    show "\<forall>m\<in>{?p..<?p + unat n}. \<not> bit_at (ba_priv bm) m"
    proof
      fix m assume m: "m \<in> {?p..<?p + unat n}"
      let ?x = "word_of_nat (unat (bm_start bm) + m) :: u64"
      from m rr h have "unat ?x = unat (bm_start bm) + m" by (intro unat_word_of_nat) auto
      with m rr have "?x \<in> bit_range b n" "unat ?x - unat (bm_start bm) = m" by (auto simp: bit_range_def)
      with * bit_range_in_range [OF r, of ?x] show "\<not> bit_at (ba_priv bm) m" by (auto simp: marked_ba_def)
    qed
  qed
  finally show ?thesis .
qed

lemma bitarray_ops [simp]:
  "new_bmap (ext2fs_blkmap64_bitarray addr) = ba_new_bmap"
  "copy_bmap (ext2fs_blkmap64_bitarray addr) = ba_copy_bmap"
  "resize_bmap (ext2fs_blkmap64_bitarray addr) = ba_resize_bmap"
  "mark_bmap (ext2fs_blkmap64_bitarray addr) = ba_mark_bmap"
  "unmark_bmap (ext2fs_blkmap64_bitarray addr) = ba_unmark_bmap"
  "test_bmap (ext2fs_blkmap64_bitarray addr) = ba_test_bmap"
  "mark_bmap_extent (ext2fs_blkmap64_bitarray addr) = ba_mark_bmap_extent"
  "unmark_bmap_extent (ext2fs_blkmap64_bitarray addr) = ba_unmark_bmap_extent"
  "test_clear_bmap_extent (ext2fs_blkmap64_bitarray addr) = ba_test_clear_bmap_extent"
  "set_bmap_range (ext2fs_blkmap64_bitarray addr) = ba_set_bmap_range"
  "get_bmap_range (ext2fs_blkmap64_bitarray addr) = ba_get_bmap_range"
  "clear_bmap (ext2fs_blkmap64_bitarray addr) = ba_clear_bmap"
  "ops_find_first_zero (ext2fs_blkmap64_bitarray addr) = Some (ba_find_first_zero addr)"
  "ops_find_first_set (ext2fs_blkmap64_bitarray addr) = Some (ba_find_first_set addr)"
  by (simp_all add: ext2fs_blkmap64_bitarray_def)

interpretation bitarray: bmap_backend "ext2fs_blkmap64_bitarray addr" valid_ba marked_ba "\<lambda>_. False" for addr
proof (unfold_locales, unfold bitarray_ops, goal_cases)
  case (1 bm mem junk bm')
  then show ?case by (rule ba_new_valid)
next
  case (2 bm b)
  then show ?case by (simp add: marked_ba_def)
next
  case (3 bm b r bm')
  then show ?case by (rule ba_mark_valid)
next
  case (4 bm b r bm')
  from ba_unmark_valid [OF 4] show ?case by simp
next
  case (5 bm b r bm')
  then show ?case by (rule ba_test_valid)
next
  case (6 bm b n bm')
  from ba_mark_extent_valid [OF 6(1,2)] 6(3) show ?case by simp
next
  case (7 bm b n bm')
  from ba_unmark_extent_valid [OF 7(1,2)] 7(3) show ?case by simp
next
  case (8 bm b n)
  then show ?case by (rule ba_test_clear_marked)
next
  case (9 bm bm')
  from ba_clear_valid [OF 9(1)] 9(2) show ?case by simp
qed simp

section \<open>Resizing and copying\<close>

lemma resize_clear_spec:
  assumes "start \<le> end'" "bitno \<le> end' \<or> unat (bitno - start) div 8 < length bs"
  shows "length (ba_resize_clear start end' bitno bs) = length bs \<and>
    (\<forall>m. bit_at (ba_resize_clear start end' bitno bs) m \<longleftrightarrow>
       bit_at bs m \<and> \<not> (unat end' - unat start < m \<and> m \<le> unat bitno - unat start))"
  using assms
proof (induction start end' bitno bs rule: ba_resize_clear.induct)
  case (1 start end' bitno bs)
  show ?case
  proof (cases "bitno > end'")
    case False
    then have "unat bitno - unat start \<le> unat end' - unat start" by (simp add: word_less_nat_alt)
    with False show ?thesis by (subst (1 2) ba_resize_clear.simps) auto
  next
    case True
    have nat: "unat start \<le> unat end'" "unat end' < unat bitno"
      using True "1.prems"(1) by (simp_all add: word_le_nat_alt word_less_nat_alt)
    have rel: "unat (bitno - start) = unat bitno - unat start" using nat by (simp add: unat_minus_le)
    have dec: "unat (bitno - 1) = unat bitno - 1" using nat by (simp add: unat_minus_le)
    have room: "unat (bitno - start) div 8 < length bs" using True "1.prems"(2) by auto
    let ?bs = "snd (ext2fs_clear_bit64 (bitno - start) bs)"
    have "bitno - 1 \<le> end' \<or> unat (bitno - 1 - start) div 8 < length ?bs"
    proof -
      have "unat (bitno - 1 - start) = unat bitno - 1 - unat start"
        using nat dec by (simp add: unat_minus_le)
      then have "unat (bitno - 1 - start) div 8 \<le> unat (bitno - start) div 8"
        using rel by (simp add: div_le_mono)
      with room show ?thesis by simp
    qed
    from "1.IH" [OF True "1.prems"(1) this] have
      len: "length (ba_resize_clear start end' (bitno - 1) ?bs) = length bs" and
      bits: "\<And>m. bit_at (ba_resize_clear start end' (bitno - 1) ?bs) m \<longleftrightarrow>
        bit_at ?bs m \<and> \<not> (unat end' - unat start < m \<and> m \<le> unat bitno - 1 - unat start)"
      using dec by auto
    have "(m = unat bitno - unat start \<or> unat end' - unat start < m \<and> m \<le> unat bitno - 1 - unat start) \<longleftrightarrow>
        unat end' - unat start < m \<and> m \<le> unat bitno - unat start" for m using nat by auto
    with bits bit_at_clear_bit64(1) [OF room] rel True len show ?thesis
      by (subst (1 2) ba_resize_clear.simps) auto
  qed
qed

text \<open>The array after the reallocation and the clearing of its new part.\<close>

lemma bit_at_resized:
  assumes "m div 8 < new_size" "length bs = sz"
    and "bs' = (if sz \<noteq> new_size then resize_mem junk new_size bs else bs)"
    and "bs'' = (if new_size > sz then memset bs' sz 0 (new_size - sz) else bs')"
  shows "length bs'' = new_size" "bit_at bs'' m = bit_at bs m"
proof -
  consider "sz = new_size" | "sz < new_size" | "new_size < sz" by linarith
  then have "length bs'' = new_size \<and> bit_at bs'' m = bit_at bs m"
  proof cases
    case 1
    with assms show ?thesis by simp
  next
    case 2
    then have l: "length bs' = new_size" "take sz bs' = bs" using assms by (auto simp: resize_mem_def)
    then have "bs'' = bs @ replicate (new_size - sz) 0" using 2 assms(4) by (simp add: memset_def)
    with 2 assms(2) bit_at_beyond [of bs m] show ?thesis by (auto simp: bit_at_append)
  next
    case 3
    then have "bs'' = take new_size bs" using assms by (simp add: resize_mem_def)
    with 3 assms(1,2) show ?thesis by (auto simp: bit_at_def)
  qed
  then show "length bs'' = new_size" "bit_at bs'' m = bit_at bs m" by auto
qed

text \<open>No bit is set in the room beyond \<open>real_end\<close> in the last byte.\<close>

definition ba_tight :: "bmap64 \<Rightarrow> bool" where
  "ba_tight bm \<longleftrightarrow> (\<forall>m < 8 * length (ba_priv bm). bit_at (ba_priv bm) m \<longrightarrow>
     m \<le> unat (bm_real_end bm) - unat (bm_start bm))"

lemma ba_resize_cleared:
  assumes v: "valid_ba bm"
    and bs1: "bs1 = (if new_end > bm_end bm
      then ba_resize_clear (bm_start bm) (bm_end bm)
        (if bm_real_end bm > new_end then new_end else bm_real_end bm) (ba_priv bm)
      else ba_priv bm)"
  shows "length bs1 = length (ba_priv bm)"
    and "ba_tight bm \<Longrightarrow> m \<le> unat new_end - unat (bm_start bm) \<Longrightarrow>
      bit_at bs1 m \<longleftrightarrow> bit_at (ba_priv bm) m \<and> m \<le> unat (bm_end bm) - unat (bm_start bm)"
proof -
  note h = header_okD [OF valid_baD(1) [OF v]]
  let ?s = "unat (bm_start bm)" and ?e = "unat (bm_end bm)"
  define top where "top = (if bm_real_end bm > new_end then new_end else bm_real_end bm)"
  have top: "unat top = min (unat new_end) (unat (bm_real_end bm))"
    by (simp add: top_def word_less_nat_alt min_def)
  have up: "length bs1 = length (ba_priv bm)"
    "bit_at bs1 m \<longleftrightarrow> bit_at (ba_priv bm) m \<and> \<not> (?e - ?s < m \<and> m \<le> unat top - ?s)"
    if "new_end > bm_end bm" for m
  proof -
    have "?e < unat new_end" using that by (simp add: word_less_nat_alt)
    then have "in_range bm top" using h by (simp add: in_range_def word_le_nat_alt top)
    from ba_room [OF v this] have "top \<le> bm_end bm \<or> unat (top - bm_start bm) div 8 < length (ba_priv bm)" ..
    from resize_clear_spec [OF _ this] h(1) that
    show "length bs1 = length (ba_priv bm)"
      "bit_at bs1 m \<longleftrightarrow> bit_at (ba_priv bm) m \<and> \<not> (?e - ?s < m \<and> m \<le> unat top - ?s)"
      unfolding bs1 top_def [symmetric] by (simp_all add: word_le_nat_alt)
  qed
  then show "length bs1 = length (ba_priv bm)" using bs1 by (cases "new_end > bm_end bm") auto
  show "bit_at bs1 m \<longleftrightarrow> bit_at (ba_priv bm) m \<and> m \<le> ?e - ?s"
    if t: "ba_tight bm" and m: "m \<le> unat new_end - ?s"
  proof (cases "new_end > bm_end bm")
    case True
    have "m \<le> unat top - ?s" if "bit_at (ba_priv bm) m"
    proof -
      have "m < 8 * length (ba_priv bm)" using that by (meson bit_at_beyond not_le)
      then have "m \<le> unat (bm_real_end bm) - ?s" using t that unfolding ba_tight_def by blast
      with m show ?thesis unfolding top by linarith
    qed
    with up(2) [OF True, of m] show ?thesis by (meson not_le)
  next
    case False
    then have "unat new_end \<le> ?e" by (simp add: word_less_nat_alt)
    with m have "m \<le> ?e - ?s" by linarith
    with False bs1 show ?thesis by simp
  qed
qed

lemma ba_resize_marked:
  assumes v: "valid_ba bm" and t: "ba_tight bm"
    and n: "bm_start bm \<le> new_end" "new_end \<le> new_real_end" "Suc (unat new_real_end) < 2 ^ 64"
    and res: "ba_resize_bmap mem junk bm new_end new_real_end = (0, bm')"
    and b: "bm_start bm \<le> b" "b \<le> new_end"
  shows "valid_ba bm' \<and> bm_end bm' = new_end \<and> bm_real_end bm' = new_real_end \<and>
    (b \<in> marked_ba bm' \<longleftrightarrow> b \<in> marked_ba bm \<and> b \<le> bm_end bm)"
proof -
  let ?m = "unat b - unat (bm_start bm)"
  define bs1 where "bs1 = (if new_end > bm_end bm
      then ba_resize_clear (bm_start bm) (bm_end bm)
        (if bm_real_end bm > new_end then new_end else bm_real_end bm) (ba_priv bm)
      else ba_priv bm)"
  note cl = ba_resize_cleared [OF v bs1_def]
  have nn: "unat (bm_start bm) \<le> unat b" "unat b \<le> unat new_end" "unat new_end \<le> unat new_real_end"
    using n b by (simp_all add: word_le_nat_alt)
  define new_size where "new_size = Suc (unat ((new_real_end - bm_start bm) div 8))"
  have ns: "new_size = Suc ((unat new_real_end - unat (bm_start bm)) div 8)"
    using nn by (simp add: new_size_def unat_div_8 unat_minus_le)
  obtain bs'' where bs'': "bm' = ba_upd bm bs''\<lparr>bm_end := new_end, bm_real_end := new_real_end\<rparr>"
    "length bs'' = new_size" "bit_at bs'' ?m = bit_at bs1 ?m"
  proof (cases "new_real_end = bm_real_end bm")
    case True
    with res have "bm' = ba_upd bm bs1\<lparr>bm_end := new_end\<rparr>"
      unfolding ba_resize_bmap_def Let_def bs1_def [symmetric] by simp
    then have "bm' = ba_upd bm bs1\<lparr>bm_end := new_end, bm_real_end := new_real_end\<rparr>"
      by (cases bm) (simp add: True)
    moreover have "length bs1 = new_size"
      using cl(1) valid_baD(2) [OF v] True by (simp add: new_size_def ba_size_def)
    ultimately show thesis using that by blast
  next
    case False
    have u: "ba_size (ba_upd bm bs1) = ba_size bm" "bm_start (ba_upd bm bs1) = bm_start bm"
      "bm_real_end (ba_upd bm bs1) = bm_real_end bm" "ba_upd (ba_upd bm bs1) x = ba_upd bm x" for x
      by simp_all
    define bs2 where "bs2 = (if ba_size bm \<noteq> new_size then resize_mem junk new_size bs1 else bs1)"
    define bs3 where "bs3 = (if new_size > ba_size bm then memset bs2 (ba_size bm) 0 (new_size - ba_size bm) else bs2)"
    have "?m div 8 < new_size" using nn by (simp add: ns div_le_mono less_Suc_eq_le)
    moreover have "length bs1 = ba_size bm" using cl(1) valid_baD(2) [OF v] by simp
    ultimately have "length bs3 = new_size" "bit_at bs3 ?m = bit_at bs1 ?m"
      using bit_at_resized [OF _ _ bs2_def bs3_def] by blast+
    moreover have "(0, bm') = (if ba_size bm \<noteq> new_size \<and> \<not> mem 0 then (EXT2_ET_NO_MEMORY, ba_upd bm bs1)
        else (0, ba_upd bm bs3\<lparr>bm_end := new_end, bm_real_end := new_real_end\<rparr>))"
      using res False unfolding ba_resize_bmap_def Let_def bs1_def [symmetric] u
        new_size_def [symmetric] bs2_def [symmetric] bs3_def [symmetric] by simp
    then have "bm' = ba_upd bm bs3\<lparr>bm_end := new_end, bm_real_end := new_real_end\<rparr>"
      by (simp split: if_split_asm)
    ultimately show thesis using that by blast
  qed
  have "header_ok bm'" using n b by (auto simp: bs''(1) header_ok_def word_le_nat_alt)
  then have "valid_ba bm'" using bs''(1,2) by (simp add: valid_ba_def ba_size_def new_size_def)
  moreover have "in_range bm' b" using n b nn by (simp add: bs''(1) in_range_def word_le_nat_alt)
  moreover have "bit_at bs1 ?m \<longleftrightarrow> bit_at (ba_priv bm) ?m \<and> ?m \<le> unat (bm_end bm) - unat (bm_start bm)"
    using nn by (intro cl(2) [OF t]) simp
  moreover have "?m \<le> unat (bm_end bm) - unat (bm_start bm) \<longleftrightarrow> b \<le> bm_end bm"
    using nn header_okD(1) [OF valid_baD(1) [OF v]] by (auto simp: word_le_nat_alt)
  moreover have "b \<le> bm_end bm \<Longrightarrow> in_range bm b"
    using b header_okD(2) [OF valid_baD(1) [OF v]] by (auto simp: in_range_def word_le_nat_alt)
  ultimately show ?thesis using bs'' by (auto simp: marked_ba_def ba_priv_def)
qed

lemma ba_copy_valid:
  assumes v: "valid_ba src" and h: "bm_start dest = bm_start src" "bm_end dest = bm_end src" "bm_real_end dest = bm_real_end src"
    and res: "ba_copy_bmap mem junk src dest = (0, src', dest')"
  shows "src' = src \<and> valid_ba dest' \<and> same_header dest dest' \<and> marked_ba dest' = marked_ba src"
proof -
  have "ba_size dest = ba_size src" by (simp add: ba_size_def h)
  with res valid_baD [OF v] have "src' = src" "dest' = ba_upd dest (ba_priv src)"
    by (auto simp: ba_copy_bmap_def ba_alloc_private_data_def memcpy_def split: if_splits)
  with valid_baD [OF v] h show ?thesis
    by (simp add: valid_ba_def marked_ba_def in_range_def header_ok_def ba_size_def)
qed

end
