(* ===== verification/Gen_Bitmap_Correct.thy ===== *)
theory Gen_Bitmap_Correct
  imports Gen_Bitmap Blkmap64_BA_Correct
begin

text \<open>
  Correctness of the 32-bit bitmaps: the effect of every operation on the set of
  marked bits, on each of its branches, and which of its loops return.
\<close>

section \<open>The invariant\<close>

definition in_32 :: "bitmap32 \<Rightarrow> u32 \<Rightarrow> bool" where
  "in_32 b x \<longleftrightarrow> b32_start b \<le> x \<and> x \<le> b32_real_end b"

definition valid_32 :: "bitmap32 \<Rightarrow> bool" where
  "valid_32 b \<longleftrightarrow> b32_start b \<le> b32_end b \<and> b32_end b \<le> b32_real_end b \<and>
     b32_size (b32_start b) (b32_real_end b) \<le> length (b32_bitmap b)"

definition marked_32 :: "bitmap32 \<Rightarrow> u32 set" where
  "marked_32 b = {x. in_32 b x \<and> bit_at (b32_bitmap b) (unat x - unat (b32_start b))}"

definition same_32 :: "bitmap32 \<Rightarrow> bitmap32 \<Rightarrow> bool" where
  "same_32 b b' \<longleftrightarrow> (\<exists>bs. b' = b\<lparr>b32_bitmap := bs\<rparr>)"

lemma same_32I [simp]: "same_32 b (b\<lparr>b32_bitmap := bs\<rparr>)" "same_32 b b"
  unfolding same_32_def by (blast, metis bitmap32.surjective bitmap32.update_convs(6))

lemma same_32D:
  assumes "same_32 b b'"
  shows "b32_magic b' = b32_magic b" "b32_start b' = b32_start b" "b32_end b' = b32_end b"
    "b32_real_end b' = b32_real_end b" "b32_description b' = b32_description b"
  using assms by (auto simp: same_32_def)

lemma same_32_trans: "same_32 a b \<Longrightarrow> same_32 b c \<Longrightarrow> same_32 a c"
  by (auto simp: same_32_def)

lemma in_32_upd [simp]: "in_32 (b\<lparr>b32_bitmap := bs\<rparr>) x = in_32 b x"
  by (simp add: in_32_def)

lemma valid_32D:
  assumes "valid_32 b"
  shows "unat (b32_start b) \<le> unat (b32_end b)" "unat (b32_end b) \<le> unat (b32_real_end b)"
    "unat (b32_start b) \<le> unat (b32_real_end b)"
    "b32_size (b32_start b) (b32_real_end b) \<le> length (b32_bitmap b)"
  using assms by (auto simp: valid_32_def word_le_nat_alt)

lemma valid_32_upd: "valid_32 b \<Longrightarrow> length bs = length (b32_bitmap b) \<Longrightarrow> valid_32 (b\<lparr>b32_bitmap := bs\<rparr>)"
  by (simp add: valid_32_def)

lemma in_32_end:
  "valid_32 b \<Longrightarrow> b32_start b \<le> x \<Longrightarrow> x \<le> b32_end b \<Longrightarrow> in_32 b x"
  by (auto simp: valid_32_def in_32_def)

lemma in_32D:
  assumes "in_32 b x"
  shows "unat (x - b32_start b) = unat x - unat (b32_start b)"
    "unat (b32_start b) \<le> unat x" "unat x \<le> unat (b32_real_end b)"
  using assms by (simp_all add: in_32_def word_le_nat_alt unat_minus_le)

lemma b32_size_nat:
  "unat s \<le> unat e \<Longrightarrow> b32_size s e = Suc ((unat e - unat s) div 8)"
  by (simp add: b32_size_def unat_div_distrib unat_minus_le)

lemma size_room: "b32_size s e \<le> n \<Longrightarrow> unat s \<le> unat e \<Longrightarrow> unat e - unat s < 8 * n"
  using less_8_Suc_div [of "unat e - unat s"] by (simp add: b32_size_nat)

lemma room_32:
  assumes "valid_32 b" "in_32 b x"
  shows "unat (x - b32_start b) div 8 < length (b32_bitmap b)"
  using size_room [OF valid_32D(4,3) [OF assms(1)]] in_32D [OF assms(2)] by auto

lemma marked_32_upd:
  "marked_32 (b\<lparr>b32_bitmap := bs\<rparr>) = {x. in_32 b x \<and> bit_at bs (unat x - unat (b32_start b))}"
  by (simp add: marked_32_def)

lemma rel_eq_32: "in_32 b x \<Longrightarrow> in_32 b y \<Longrightarrow> unat x - unat (b32_start b) = unat y - unat (b32_start b) \<longleftrightarrow> x = y"
  using in_32D(2) [of b x] in_32D(2) [of b y] by (auto simp: word_unat_eq_iff)

section \<open>Creating and copying\<close>

lemma round_size: "sz + 4 \<le> 4 * ((sz + 7) div 4)" "4 * ((sz + 7) div 4) \<le> sz + (7::nat)"
  by presburger+

lemma make_bitmap_new:
  assumes "start \<le> end'" "end' \<le> real_end"
    and "ext2fs_make_generic_bitmap mem junk magic start end' real_end descr None = Inr g"
  shows "\<exists>b. g = Bitmap32 b \<and> valid_32 b \<and> marked_32 b = {} \<and> b32_magic b = magic \<and>
    b32_start b = start \<and> b32_end b = end' \<and> b32_real_end b = real_end \<and> b32_description b = descr"
  using assms round_size(1) [of "b32_size start real_end"]
  by (auto simp: ext2fs_make_generic_bitmap_def Let_def valid_32_def marked_32_def split: if_splits)

lemma make_bitmap_fails:
  assumes "ext2fs_make_generic_bitmap mem junk magic start end' real_end descr init_map = Inl e"
  shows "e = EXT2_ET_NO_MEMORY \<and> (\<exists>i<3. \<not> mem i)"
proof -
  have "(\<exists>i<3. \<not> mem i) \<longleftrightarrow> \<not> mem 0 \<or> \<not> mem 1 \<or> \<not> mem 2"
    by (auto simp: numeral_3_eq_3 less_Suc_eq numeral_2_eq_2)
  with assms show ?thesis
    by (auto simp: ext2fs_make_generic_bitmap_def Let_def split: if_splits)
qed

lemma bit_at_read_bytes:
  assumes "n \<le> length bs" "m < 8 * n"
  shows "bit_at (read_bytes junk bs n) m = bit_at bs m"
proof -
  have "m div 8 < n" using assms(2) by auto
  with assms(1) show ?thesis by (simp add: bit_at_def read_bytes_def)
qed

text \<open>The copy has the bits of the source when the array of the source has the
  rounded size that the copy reads.\<close>

definition whole_32 :: "bitmap32 \<Rightarrow> bool" where
  "whole_32 b \<longleftrightarrow> 4 * ((b32_size (b32_start b) (b32_real_end b) + 7) div 4) \<le> length (b32_bitmap b)"

lemma copy_bitmap_marked:
  assumes "valid_32 b" "whole_32 b" "ext2fs_copy_generic_bitmap mem junk b = Inr g"
  shows "\<exists>b'. g = Bitmap32 b' \<and> valid_32 b' \<and> whole_32 b' \<and> marked_32 b' = marked_32 b \<and>
    b32_magic b' = b32_magic b \<and> b32_start b' = b32_start b \<and> b32_end b' = b32_end b \<and>
    b32_real_end b' = b32_real_end b"
proof -
  let ?n = "4 * ((b32_size (b32_start b) (b32_real_end b) + 7) div 4)"
  obtain b' where b': "g = Bitmap32 b'" "b32_bitmap b' = read_bytes junk (b32_bitmap b) ?n"
      "b32_magic b' = b32_magic b" "b32_start b' = b32_start b" "b32_end b' = b32_end b"
      "b32_real_end b' = b32_real_end b"
    using assms(3) by (auto simp: ext2fs_copy_generic_bitmap_def ext2fs_make_generic_bitmap_def Let_def split: if_splits)
  have len: "length (b32_bitmap b') = ?n" by (simp add: b'(2) read_bytes_def)
  have "bit_at (b32_bitmap b') (unat x - unat (b32_start b)) = bit_at (b32_bitmap b) (unat x - unat (b32_start b))"
    if "in_32 b x" for x
  proof -
    have "unat x - unat (b32_start b) < 8 * ?n"
      using size_room [of "b32_start b" "b32_real_end b" ?n] round_size(1) [of "b32_size (b32_start b) (b32_real_end b)"]
        in_32D [OF that] by linarith
    with assms(2) show ?thesis by (simp add: b'(2) bit_at_read_bytes whole_32_def)
  qed
  then have "marked_32 b' = marked_32 b" by (auto simp: marked_32_def in_32_def b')
  moreover have "valid_32 b'" "whole_32 b'"
    using assms(1) len round_size(1) [of "b32_size (b32_start b) (b32_real_end b)"]
    by (auto simp: valid_32_def whole_32_def b')
  ultimately show ?thesis using b' by simp
qed

section \<open>Single bits\<close>

lemma test_32:
  assumes "valid_32 b"
  shows "ext2fs_test_generic_bitmap_32 b x \<noteq> 0 \<longleftrightarrow> x \<le> b32_end b \<and> x \<in> marked_32 b"
proof (cases "x < b32_start b \<or> x > b32_end b")
  case True
  then show ?thesis by (auto simp: ext2fs_test_generic_bitmap_32_def marked_32_def in_32_def)
next
  case False
  then have i: "in_32 b x" using assms by (auto intro: in_32_end)
  from False test_bit_iff(1) [OF room_32 [OF assms i]] i show ?thesis
    by (auto simp: ext2fs_test_generic_bitmap_32_def marked_32_def in_32D)
qed

lemma mark_32:
  assumes "valid_32 b" "ext2fs_mark_generic_bitmap_32 b x = (r, b')"
  shows "valid_32 b' \<and> same_32 b b' \<and>
    marked_32 b' = (if b32_start b \<le> x \<and> x \<le> b32_end b then insert x (marked_32 b) else marked_32 b) \<and>
    (r \<noteq> 0 \<longleftrightarrow> x \<le> b32_end b \<and> x \<in> marked_32 b)"
proof (cases "x < b32_start b \<or> x > b32_end b")
  case True
  with assms show ?thesis by (auto simp: ext2fs_mark_generic_bitmap_32_def marked_32_def in_32_def)
next
  case False
  then have i: "in_32 b x" using assms by (auto intro: in_32_end)
  note room = room_32 [OF assms(1) i]
  have b': "b' = b\<lparr>b32_bitmap := snd (ext2fs_set_bit (x - b32_start b) (b32_bitmap b))\<rparr>"
    and r: "r = fst (ext2fs_set_bit (x - b32_start b) (b32_bitmap b))"
    using assms(2) False by (auto simp: ext2fs_mark_generic_bitmap_32_def split: prod.splits)
  have "marked_32 b' = insert x (marked_32 b)"
    using i by (auto simp: b' marked_32_upd bit_at_set_bit [OF room] in_32D [OF i] rel_eq_32 marked_32_def)
  moreover have "r \<noteq> 0 \<longleftrightarrow> x \<in> marked_32 b"
    using test_bit_iff(2) [OF room] i by (simp add: r marked_32_def in_32D [OF i])
  moreover have "valid_32 b'" "same_32 b b'" by (simp_all add: b' valid_32_upd [OF assms(1)])
  moreover have "b32_start b \<le> x" "x \<le> b32_end b" using False by auto
  ultimately show ?thesis by simp
qed

lemma unmark_32:
  assumes "valid_32 b" "ext2fs_unmark_generic_bitmap_32 b x = (r, b')"
  shows "valid_32 b' \<and> same_32 b b' \<and>
    marked_32 b' = (if b32_start b \<le> x \<and> x \<le> b32_end b then marked_32 b - {x} else marked_32 b) \<and>
    (r \<noteq> 0 \<longleftrightarrow> x \<le> b32_end b \<and> x \<in> marked_32 b)"
proof (cases "x < b32_start b \<or> x > b32_end b")
  case True
  with assms show ?thesis by (auto simp: ext2fs_unmark_generic_bitmap_32_def marked_32_def in_32_def)
next
  case False
  then have i: "in_32 b x" using assms by (auto intro: in_32_end)
  note room = room_32 [OF assms(1) i]
  have b': "b' = b\<lparr>b32_bitmap := snd (ext2fs_clear_bit (x - b32_start b) (b32_bitmap b))\<rparr>"
    and r: "r = fst (ext2fs_clear_bit (x - b32_start b) (b32_bitmap b))"
    using assms(2) False by (auto simp: ext2fs_unmark_generic_bitmap_32_def split: prod.splits)
  have "y \<in> marked_32 b' \<longleftrightarrow> y \<in> marked_32 b \<and> y \<noteq> x" for y
    using rel_eq_32 [OF _ i, of y]
    by (cases "in_32 b y") (simp_all add: b' marked_32_upd bit_at_clear_bit [OF room] in_32D(1) [OF i] marked_32_def conj_commute)
  then have "marked_32 b' = marked_32 b - {x}" by blast
  moreover have "r \<noteq> 0 \<longleftrightarrow> x \<in> marked_32 b"
    using test_bit_iff(3) [OF room] i by (simp add: r marked_32_def in_32D [OF i])
  moreover have "valid_32 b'" "same_32 b b'" by (simp_all add: b' valid_32_upd [OF assms(1)])
  moreover have "b32_start b \<le> x" "x \<le> b32_end b" using False by auto
  ultimately show ?thesis by simp
qed

lemma clear_32:
  assumes "valid_32 b"
  shows "valid_32 (ext2fs_clear_generic_bitmap_32 b) \<and> same_32 b (ext2fs_clear_generic_bitmap_32 b) \<and>
    marked_32 (ext2fs_clear_generic_bitmap_32 b) = {}"
proof -
  let ?n = "b32_size (b32_start b) (b32_real_end b)"
  have n: "0 + ?n \<le> length (b32_bitmap b)" using valid_32D(4) [OF assms] by simp
  have "\<not> bit_at (memset (b32_bitmap b) 0 0 ?n) (unat x - unat (b32_start b))" if "in_32 b x" for x
  proof -
    have "unat x - unat (b32_start b) < 8 * ?n"
      using size_room [OF order_refl valid_32D(3) [OF assms]] in_32D [OF that] by linarith
    then have "(unat x - unat (b32_start b)) div 8 < ?n" by auto
    then show ?thesis by (simp add: bit_at_memset [OF n])
  qed
  then show ?thesis using n
    by (auto simp: ext2fs_clear_generic_bitmap_32_def marked_32_upd intro!: valid_32_upd [OF assms])
qed

section \<open>Ranges of bits\<close>

definition range_32 :: "u32 \<Rightarrow> nat \<Rightarrow> u32 set" where
  "range_32 block n = {x. unat block \<le> unat x \<and> unat x < unat block + n}"

lemma unat_word_of_int: "0 \<le> num \<Longrightarrow> num < 2 ^ 31 \<Longrightarrow> unat (word_of_int num :: u32) = nat num"
  by (simp only: unat_eq_nat_uint uint_word_of_int_eq) (simp add: take_bit_int_eq_self)

text \<open>What the bounds check of the range functions lets pass, for a positive number
  of bits. The sum can wrap, so a range that leaves the map behind its end is let
  pass when it leaves the 32-bit numbers too; \<open>num\<close> is an \<open>int\<close>, so that takes a
  map with bits above \<open>2 ^ 31\<close>.\<close>

lemma range_check_32:
  fixes block top :: u32
  assumes "0 < num" "num < 2 ^ 31" "block \<le> top" "unat block + nat num \<le> 2 ^ 32"
  shows "block + word_of_int num - 1 > top \<longleftrightarrow> unat block + nat num > Suc (unat top)"
proof -
  have n: "unat (word_of_int num :: u32) = nat num" using assms(1,2) by (simp add: unat_word_of_int)
  have "unat (word_of_int num - 1 :: u32) = nat num - 1"
    using n assms(1) by (subst unat_minus_le) (auto simp: word_le_nat_alt)
  moreover have "block + word_of_int num - 1 = block + (word_of_int num - 1)" by simp
  ultimately have "unat (block + word_of_int num - 1) = unat block + (nat num - 1)"
    using assms(1,4) by (simp only:) (subst unat_plus_less, auto)
  then show ?thesis using assms(1) by (simp add: word_less_nat_alt) linarith
qed

lemma range_rel_32:
  assumes "valid_32 b" "in_32 b block" "unat block + n \<le> Suc (unat (b32_real_end b))" "i < n"
  shows "unat (block + word_of_nat i - b32_start b) = unat block - unat (b32_start b) + i"
    and "unat block - unat (b32_start b) + n \<le> 8 * length (b32_bitmap b)"
proof -
  have "unat (block + word_of_nat i) = unat block + i"
    using assms(3,4) unat_u32_less [of "b32_real_end b"]
    by (subst unat_plus_less) (auto simp: unat_word_of_nat)
  then show "unat (block + word_of_nat i - b32_start b) = unat block - unat (b32_start b) + i"
    using in_32D [OF assms(2)] by (subst unat_minus_le) auto
  show "unat block - unat (b32_start b) + n \<le> 8 * length (b32_bitmap b)"
    using size_room [OF valid_32D(4,3) [OF assms(1)]] in_32D [OF assms(2)] assms(3) by linarith
qed

lemma in_range_32_rel:
  assumes "in_32 b x" "unat (b32_start b) \<le> unat block"
  shows "unat x - unat (b32_start b) \<in> {unat block - unat (b32_start b)..<unat block - unat (b32_start b) + n}
    \<longleftrightarrow> x \<in> range_32 block n"
  using in_32D [OF assms(1)] assms(2) by (auto simp: range_32_def)

lemma mark_range_32:
  assumes v: "valid_32 b" and n: "0 < num" "num < 2 ^ 31"
    and r: "b32_start b \<le> block" "unat block + nat num \<le> Suc (unat (b32_end b))"
  shows "valid_32 (ext2fs_mark_block_bitmap_range b block num) \<and> same_32 b (ext2fs_mark_block_bitmap_range b block num) \<and>
    marked_32 (ext2fs_mark_block_bitmap_range b block num) = marked_32 b \<union> range_32 block (nat num)"
proof -
  have le: "block \<le> b32_end b" using r(2) n by (simp add: word_le_nat_alt)
  have i: "in_32 b block" by (rule in_32_end [OF v r(1) le])
  have top: "unat block + nat num \<le> Suc (unat (b32_real_end b))" using r(2) valid_32D(2) [OF v] by linarith
  have "\<not> block + word_of_int num - 1 > b32_end b"
    using range_check_32 [OF n le] r(2) unat_u32_less [of "b32_end b"] by linarith
  then have b': "ext2fs_mark_block_bitmap_range b block num =
      b\<lparr>b32_bitmap := fold (\<lambda>i. ext2fs_fast_set_bit (block + word_of_nat i - b32_start b)) [0..<nat num] (b32_bitmap b)\<rparr>"
    (is "_ = b\<lparr>b32_bitmap := ?bs\<rparr>") using le r(1) by (simp add: ext2fs_mark_block_bitmap_range_def not_less)
  have bs: "length ?bs = length (b32_bitmap b)"
    "\<And>m. bit_at ?bs m \<longleftrightarrow> m \<in> {unat block - unat (b32_start b)..<unat block - unat (b32_start b) + nat num} \<or> bit_at (b32_bitmap b) m"
    using fold_set_bits_32 [OF range_rel_32(1) [OF v i top] range_rel_32(2) [OF v i top, of 0]] n by auto
  have "x \<in> marked_32 (b\<lparr>b32_bitmap := ?bs\<rparr>) \<longleftrightarrow> x \<in> marked_32 b \<union> range_32 block (nat num)" for x
  proof (cases "in_32 b x")
    case True
    then show ?thesis
      unfolding marked_32_upd mem_Collect_eq bs(2) in_range_32_rel [OF True in_32D(2) [OF i]]
      by (auto simp: marked_32_def)
  next
    case False
    moreover have "in_32 b x" if "x \<in> range_32 block (nat num)"
      using that top in_32D(2) [OF i] by (auto simp: range_32_def in_32_def word_le_nat_alt)
    ultimately show ?thesis by (auto simp: marked_32_def)
  qed
  then show ?thesis unfolding b' using valid_32_upd [OF v bs(1)] by auto
qed

lemma unmark_range_32:
  assumes v: "valid_32 b" and n: "0 < num" "num < 2 ^ 31"
    and r: "b32_start b \<le> block" "unat block + nat num \<le> Suc (unat (b32_end b))"
  shows "valid_32 (ext2fs_unmark_block_bitmap_range b block num) \<and> same_32 b (ext2fs_unmark_block_bitmap_range b block num) \<and>
    marked_32 (ext2fs_unmark_block_bitmap_range b block num) = marked_32 b - range_32 block (nat num)"
proof -
  have le: "block \<le> b32_end b" using r(2) n by (simp add: word_le_nat_alt)
  have i: "in_32 b block" by (rule in_32_end [OF v r(1) le])
  have top: "unat block + nat num \<le> Suc (unat (b32_real_end b))" using r(2) valid_32D(2) [OF v] by linarith
  have "\<not> block + word_of_int num - 1 > b32_end b"
    using range_check_32 [OF n le] r(2) unat_u32_less [of "b32_end b"] by linarith
  then have b': "ext2fs_unmark_block_bitmap_range b block num =
      b\<lparr>b32_bitmap := fold (\<lambda>i. ext2fs_fast_clear_bit (block + word_of_nat i - b32_start b)) [0..<nat num] (b32_bitmap b)\<rparr>"
    (is "_ = b\<lparr>b32_bitmap := ?bs\<rparr>") using le r(1) by (simp add: ext2fs_unmark_block_bitmap_range_def not_less)
  have bs: "length ?bs = length (b32_bitmap b)"
    "\<And>m. bit_at ?bs m \<longleftrightarrow> m \<notin> {unat block - unat (b32_start b)..<unat block - unat (b32_start b) + nat num} \<and> bit_at (b32_bitmap b) m"
    using fold_clear_bits_32 [OF range_rel_32(1) [OF v i top] range_rel_32(2) [OF v i top, of 0]] n by auto
  have "x \<in> marked_32 (b\<lparr>b32_bitmap := ?bs\<rparr>) \<longleftrightarrow> x \<in> marked_32 b - range_32 block (nat num)" for x
  proof (cases "in_32 b x")
    case True
    then show ?thesis
      unfolding marked_32_upd mem_Collect_eq bs(2) in_range_32_rel [OF True in_32D(2) [OF i]]
      by (auto simp: marked_32_def)
  qed (auto simp: marked_32_def)
  then show ?thesis unfolding b' using valid_32_upd [OF v bs(1)] by auto
qed

lemma test_clear_32:
  assumes v: "valid_32 b" and i: "in_32 b block" and top: "unat block + unat len \<le> Suc (unat (b32_real_end b))"
  shows "ext2fs_test_clear_generic_bitmap_range b block len \<noteq> 0 \<longleftrightarrow> marked_32 b \<inter> range_32 block (unat len) = {}"
proof -
  let ?s = "unat (b32_start b)"
  have "unat block - ?s + unat len \<le> 8 * length (b32_bitmap b)"
    using size_room [OF valid_32D(4,3) [OF v]] in_32D [OF i] top by linarith
  from test_clear_range_iff [OF this] have "ext2fs_test_clear_generic_bitmap_range b block len \<noteq> 0 \<longleftrightarrow>
      (\<forall>m\<in>{unat block - ?s..<unat block - ?s + unat len}. \<not> bit_at (b32_bitmap b) m)"
    by (simp add: ext2fs_test_clear_generic_bitmap_range_def in_32D(1) [OF i])
  also have "\<dots> \<longleftrightarrow> (\<forall>x. x \<in> range_32 block (unat len) \<longrightarrow> \<not> bit_at (b32_bitmap b) (unat x - ?s))"
  proof (intro iffI allI impI ballI)
    fix x assume a: "\<forall>m\<in>{unat block - ?s..<unat block - ?s + unat len}. \<not> bit_at (b32_bitmap b) m"
      and x: "x \<in> range_32 block (unat len)"
    have "unat x - ?s \<in> {unat block - ?s..<unat block - ?s + unat len}"
      using x in_32D [OF i] by (auto simp: range_32_def)
    with a show "\<not> bit_at (b32_bitmap b) (unat x - ?s)" by blast
  next
    fix m assume a: "\<forall>x. x \<in> range_32 block (unat len) \<longrightarrow> \<not> bit_at (b32_bitmap b) (unat x - ?s)"
      and m: "m \<in> {unat block - ?s..<unat block - ?s + unat len}"
    have "m + ?s < 2 ^ 32" using m top in_32D [OF i] unat_u32_less [of "b32_real_end b"] by auto
    then have "unat (word_of_nat (m + ?s) :: u32) = m + ?s" by (intro unat_word_of_nat) simp
    moreover from this have "(word_of_nat (m + ?s) :: u32) \<in> range_32 block (unat len)"
      using m in_32D [OF i] by (auto simp: range_32_def)
    ultimately show "\<not> bit_at (b32_bitmap b) m" using a by (metis diff_add_inverse2)
  qed
  also have "\<dots> \<longleftrightarrow> marked_32 b \<inter> range_32 block (unat len) = {}"
  proof -
    have "in_32 b x" if "x \<in> range_32 block (unat len)" for x
      using that top in_32D(2) [OF i] by (auto simp: range_32_def in_32_def word_le_nat_alt)
    then show ?thesis by (auto simp: marked_32_def)
  qed
  finally show ?thesis .
qed

section \<open>Searching\<close>

lemma unat_Suc_32:
  assumes "(i :: u32) \<noteq> 0xFFFFFFFF"
  shows "unat (i + 1) = Suc (unat i)"
proof -
  have "i + 1 \<noteq> 0"
  proof
    assume "i + 1 = 0"
    then have "i = - 1" by (simp add: eq_neg_iff_add_eq_0)
    with assms show False by simp
  qed
  then show ?thesis by (metis add.commute unatSuc)
qed

lemma max_Suc_32:
  assumes "(i :: u32) = 0xFFFFFFFF"
  shows "i + 1 = 0"
proof -
  have "i = - 1" using assms by simp
  then show ?thesis by simp
qed

lemma less_max_32: "(i :: u32) < j \<Longrightarrow> i \<noteq> 0xFFFFFFFF"
  using unat_u32_less [of j] by (auto simp: word_less_nat_alt)

text \<open>The loops return when their last bit is not the largest 32-bit number.\<close>

lemma find_first_32_returns:
  assumes "end' \<noteq> 0xFFFFFFFF" "start \<le> end'"
  shows "\<exists>r. find_first_32 hit b start end' = Some r \<and>
    search_result (\<lambda>x. hit (ext2fs_test_bit (x - b32_start b) (b32_bitmap b))) start end' r"
  using assms
proof (induction "unat end' - unat start" arbitrary: start)
  case 0
  then have "start = end'" by (simp add: word_le_nat_alt word_unat_eq_iff)
  moreover have "\<not> end' + 1 \<le> end'" using unat_Suc_32 [OF assms(1)] by (simp add: word_le_nat_alt)
  ultimately show ?case
    by (auto simp: find_first_32.simps [of hit b end'] find_first_32.simps [of hit b "end' + 1"] search_result_def)
next
  case (Suc n)
  let ?P = "\<lambda>x. hit (ext2fs_test_bit (x - b32_start b) (b32_bitmap b))"
  have lt: "start < end'" using Suc.hyps(2) by (simp add: word_less_nat_alt)
  then have S: "unat (start + 1) = Suc (unat start)" by (intro unat_Suc_32 less_max_32)
  then have less: "x < start + 1 \<longleftrightarrow> x \<le> start" for x by (simp add: word_less_nat_alt word_le_nat_alt less_Suc_eq_le)
  show ?case
  proof (cases "?P start")
    case True
    then show ?thesis using Suc.prems
      by (auto simp: find_first_32.simps [of hit b start] search_result_def)
  next
    case False
    have "start + 1 \<le> end'" using S lt by (simp add: word_less_nat_alt word_le_nat_alt)
    moreover have "n = unat end' - unat (start + 1)" using Suc.hyps(2) S by simp
    ultimately obtain r where
      r: "find_first_32 hit b (start + 1) end' = Some r" "search_result ?P (start + 1) end' r"
      using Suc.hyps(1) [of "start + 1"] assms(1) by blast
    have ge: "start + 1 \<le> x \<longleftrightarrow> start < x" for x using less [of x] by (meson not_le)
    have "search_result ?P start end' r"
      using r(2) False unfolding search_result_def ge
      by (auto split: sum.splits simp: order.strict_implies_order) (metis le_less)+
    with r(1) False lt show ?thesis by (auto simp: find_first_32.simps [of hit b start])
  qed
qed

lemma find_first_32_abs:
  assumes "valid_32 b" "b32_start b \<le> start" "end' \<le> b32_end b" "start \<le> end'" "end' \<noteq> 0xFFFFFFFF"
  shows "\<exists>r. ext2fs_find_first_set_generic_bitmap b start end' = Some r \<and>
      search_result (\<lambda>x. x \<in> marked_32 b) start end' r"
    and "\<exists>r. ext2fs_find_first_zero_generic_bitmap b start end' = Some r \<and>
      search_result (\<lambda>x. x \<notin> marked_32 b) start end' r"
proof -
  have hit: "ext2fs_test_bit (x - b32_start b) (b32_bitmap b) \<noteq> 0 \<longleftrightarrow> x \<in> marked_32 b"
    if "start \<le> x" "x \<le> end'" for x
  proof -
    have i: "in_32 b x" using in_32_end [OF assms(1), of x] that assms(2,3) by auto
    from test_bit_iff(1) [OF room_32 [OF assms(1) i]] i show ?thesis by (simp add: marked_32_def in_32D)
  qed
  have hit0: "\<forall>x. start \<le> x \<and> x \<le> end' \<longrightarrow>
      (ext2fs_test_bit (x - b32_start b) (b32_bitmap b) = 0) = (x \<notin> marked_32 b)"
    using hit by blast
  have cong: "search_result P start end' r" if "search_result Q start end' r" "\<forall>x. start \<le> x \<and> x \<le> end' \<longrightarrow> Q x = P x"
    for P Q r using that by (auto simp: search_result_def split: sum.splits)
  show "\<exists>r. ext2fs_find_first_set_generic_bitmap b start end' = Some r \<and>
      search_result (\<lambda>x. x \<in> marked_32 b) start end' r"
    using find_first_32_returns [OF assms(5,4), of "\<lambda>r. r \<noteq> 0" b] assms(2-4) hit cong
    by (auto simp: ext2fs_find_first_set_generic_bitmap_def not_less)
  show "\<exists>r. ext2fs_find_first_zero_generic_bitmap b start end' = Some r \<and>
      search_result (\<lambda>x. x \<notin> marked_32 b) start end' r"
    using find_first_32_returns [OF assms(5,4), of "\<lambda>r. r = 0" b] assms(2-4) hit0 cong
    by (auto simp: ext2fs_find_first_zero_generic_bitmap_def not_less)
qed

text \<open>With the largest number as the last bit, a search that finds nothing does
  not end: the counter wraps to zero.\<close>

lemma find_first_32_diverges:
  assumes "\<forall>x. \<not> hit (ext2fs_test_bit (x - b32_start b) (b32_bitmap b))"
  shows "find_first_32 hit b start 0xFFFFFFFF = None"
proof -
  have "False" if "find_first_32 hit b start 0xFFFFFFFF = Some r" for r
  proof -
    have "r = r \<longrightarrow> end' = 0xFFFFFFFF \<longrightarrow> (\<exists>x. hit (ext2fs_test_bit (x - b32_start b) (b32_bitmap b)))"
      if "find_first_32 hit b start end' = Some r" for hit b start end' r
    proof (rule find_first_32.raw_induct [OF _ that], goal_cases)
      case (1 f hit b start end' y)
      have "start \<le> 0xFFFFFFFF" using unat_u32_less [of start] by (simp add: word_le_nat_alt)
      with 1 show ?case by (auto split: if_splits)
    qed
    from this [OF that] assms show False by simp
  qed
  then show ?thesis by (meson not_Some_eq)
qed

section \<open>Comparing\<close>

lemma nat_u32_ex: "n < 2 ^ 32 \<Longrightarrow> \<exists>x :: u32. unat x = n"
  using unat_word_of_nat [where 'a = 32, of n] by auto

lemma compare_tail_returns:
  assumes "b32_end bm1 \<noteq> 0xFFFFFFFF"
  shows "compare_tail_32 bm1 bm2 i = Some (\<exists>j. i \<le> j \<and> j \<le> b32_end bm1 \<and>
    ext2fs_test_generic_bitmap_32 bm1 j \<noteq> ext2fs_test_generic_bitmap_32 bm2 j)"
proof (induction "Suc (unat (b32_end bm1)) - unat i" arbitrary: i)
  case 0
  then have "\<not> i \<le> b32_end bm1" by (simp add: word_le_nat_alt)
  then show ?case by (auto simp: compare_tail_32.simps [of bm1 bm2 i])
next
  case (Suc n)
  then have le: "i \<le> b32_end bm1" by (simp add: word_le_nat_alt)
  then have "i \<noteq> 0xFFFFFFFF" using assms unat_u32_less [of "b32_end bm1"] by (metis less_max_32 order_le_less)
  then have S: "unat (i + 1) = Suc (unat i)" by (rule unat_Suc_32)
  then have ge: "i + 1 \<le> j \<longleftrightarrow> i < j" for j by (simp add: word_le_nat_alt word_less_nat_alt Suc_le_eq)
  have "n = Suc (unat (b32_end bm1)) - unat (i + 1)" using Suc.hyps(2) S by simp
  from Suc.hyps(1) [OF this] le show ?case
    unfolding ge by (auto simp: compare_tail_32.simps [of bm1 bm2 i] le_less)
qed

lemma test_32_cong:
  assumes "valid_32 a" "valid_32 b" "b32_start a = b32_start b" "b32_end a = b32_end b"
    and "b32_start b \<le> x" "x \<le> b32_end b"
  shows "ext2fs_test_generic_bitmap_32 a x = ext2fs_test_generic_bitmap_32 b x \<longleftrightarrow>
    (x \<in> marked_32 a \<longleftrightarrow> x \<in> marked_32 b)"
proof -
  have i: "in_32 a x" "in_32 b x" using assms by (auto intro: in_32_end)
  show ?thesis
    using assms(3-6) i test_bit_value [OF room_32 [OF assms(1) i(1)]] test_bit_value [OF room_32 [OF assms(2) i(2)]]
    by (auto simp: ext2fs_test_generic_bitmap_32_def marked_32_def in_32D)
qed

lemma take_eq_bits:
  assumes "n \<le> length xs" "n \<le> length ys"
  shows "take n xs = take n ys \<longleftrightarrow> (\<forall>m < 8 * n. bit_at xs m = bit_at ys m)"
proof
  assume a: "take n xs = take n ys"
  show "\<forall>m < 8 * n. bit_at xs m = bit_at ys m"
  proof (intro allI impI)
    fix m assume "m < 8 * n"
    then have "m div 8 < n" by auto
    moreover from this have "xs ! (m div 8) = ys ! (m div 8)" using a by (metis nth_take)
    ultimately show "bit_at xs m = bit_at ys m" using assms by (simp add: bit_at_def)
  qed
next
  assume a: "\<forall>m < 8 * n. bit_at xs m = bit_at ys m"
  have "xs ! i = ys ! i" if "i < n" for i
  proof -
    have "bit (xs ! i) k = bit (ys ! i) k" if "k < 8" for k
      using a [rule_format, of "8 * i + k"] \<open>i < n\<close> that assms by (simp add: bit_at_def)
    then show ?thesis by (simp add: u8_eq_iff)
  qed
  with assms show "take n xs = take n ys" by (intro nth_take_lemma) auto
qed

lemma compare_32:
  assumes v: "valid_32 a" "valid_32 b" and m: "b32_magic a = magic" "b32_magic b = magic" and "neq \<noteq> 0"
    and e: "b32_end a \<noteq> 0xFFFFFFFF"
  shows "ext2fs_compare_generic_bitmap magic neq (Some (Bitmap32 a)) (Some (Bitmap32 b)) =
    Some (if b32_start a = b32_start b \<and> b32_end a = b32_end b \<and>
      (\<forall>x. b32_start a \<le> x \<and> x \<le> b32_end a \<longrightarrow> (x \<in> marked_32 a \<longleftrightarrow> x \<in> marked_32 b)) then 0 else neq)"
proof (cases "b32_start a = b32_start b \<and> b32_end a = b32_end b")
  case False
  then show ?thesis using m by auto
next
  case True
  let ?s = "unat (b32_start a)" and ?e = "unat (b32_end a)"
  define n where "n = unat ((b32_end a - b32_start a) div 8)"
  have n: "n = (?e - ?s) div 8" using valid_32D(1) [OF v(1)] by (simp add: n_def unat_div_distrib unat_minus_le)
  define t where "t = b32_end a - (b32_end a - b32_start a) mod 8"
  have t: "unat t = ?s + 8 * n"
  proof -
    have md: "unat ((b32_end a - b32_start a) mod 8) = (?e - ?s) mod 8"
      using valid_32D(1) [OF v(1)] by (simp add: unat_mod_distrib unat_minus_le)
    moreover have "(?e - ?s) mod 8 \<le> ?e" using mod_less_eq_dividend [of "?e - ?s" 8] by linarith
    ultimately have "unat t = ?e - (?e - ?s) mod 8" by (simp add: t_def unat_minus_le)
    then show ?thesis using n valid_32D(1) [OF v(1)] mult_div_mod_eq [of 8 "?e - ?s"] by linarith
  qed
  have len: "n \<le> length (b32_bitmap a)" "n \<le> length (b32_bitmap b)"
  proof -
    have "b32_size (b32_start c) (b32_real_end c) = Suc ((unat (b32_real_end c) - unat (b32_start c)) div 8)"
      "(unat (b32_end c) - unat (b32_start c)) div 8 \<le> (unat (b32_real_end c) - unat (b32_start c)) div 8"
      if "valid_32 c" for c
      using valid_32D [OF that] by (auto simp: b32_size_nat intro!: div_le_mono)
    from this [OF v(1)] this [OF v(2)] valid_32D(4) [OF v(1)] valid_32D(4) [OF v(2)] True
    show "n \<le> length (b32_bitmap a)" "n \<le> length (b32_bitmap b)" unfolding n by auto
  qed
  have mem: "x \<in> marked_32 c \<longleftrightarrow> bit_at (b32_bitmap c) (unat x - ?s)"
    if "c = a \<or> c = b" "b32_start a \<le> x" "x \<le> b32_end a" for x c
    using that True v in_32_end [of c x] by (auto simp: marked_32_def)
  have low: "take n (b32_bitmap a) = take n (b32_bitmap b) \<longleftrightarrow>
      (\<forall>x. b32_start a \<le> x \<and> x < t \<longrightarrow> (x \<in> marked_32 a \<longleftrightarrow> x \<in> marked_32 b))"
    (is "_ \<longleftrightarrow> ?R")
  proof -
    have te: "unat t \<le> ?e" using n t valid_32D(1) [OF v(1)] by (metis add_le_cancel_left div_times_less_eq_dividend le_add_diff_inverse mult.commute)
    have "(\<forall>m < 8 * n. bit_at (b32_bitmap a) m = bit_at (b32_bitmap b) m) \<longleftrightarrow> ?R"
    proof (rule iffI; intro allI impI)
      fix x assume a: "\<forall>m < 8 * n. bit_at (b32_bitmap a) m = bit_at (b32_bitmap b) m" and x: "b32_start a \<le> x \<and> x < t"
      then have "unat x - ?s < 8 * n" "x \<le> b32_end a" using t te by (auto simp: word_less_nat_alt word_le_nat_alt)
      with a x mem show "x \<in> marked_32 a \<longleftrightarrow> x \<in> marked_32 b" by blast
    next
      fix m assume r: ?R and m: "m < 8 * n"
      obtain x :: u32 where u: "unat x = ?s + m"
        using nat_u32_ex [of "?s + m"] m t te unat_u32_less [of "b32_end a"] by auto
      have x: "b32_start a \<le> x" "x < t" "x \<le> b32_end a"
        using m t te by (simp_all add: word_less_nat_alt word_le_nat_alt u)
      with r mem [of a x] mem [of b x] show "bit_at (b32_bitmap a) m = bit_at (b32_bitmap b) m" by (simp add: u)
    qed
    with take_eq_bits [OF len] show ?thesis by simp
  qed
  have high: "(\<exists>j. t \<le> j \<and> j \<le> b32_end a \<and> ext2fs_test_generic_bitmap_32 a j \<noteq> ext2fs_test_generic_bitmap_32 b j) \<longleftrightarrow>
      \<not> (\<forall>x. t \<le> x \<and> x \<le> b32_end a \<longrightarrow> (x \<in> marked_32 a \<longleftrightarrow> x \<in> marked_32 b))"
  proof -
    have "b32_start b \<le> x" if "t \<le> x" for x using that t True by (simp add: word_le_nat_alt)
    with test_32_cong [OF v] True show ?thesis by auto
  qed
  define L where "L \<longleftrightarrow> (\<forall>x. b32_start a \<le> x \<and> x < t \<longrightarrow> (x \<in> marked_32 a \<longleftrightarrow> x \<in> marked_32 b))"
  define H where "H \<longleftrightarrow> (\<forall>x. t \<le> x \<and> x \<le> b32_end a \<longrightarrow> (x \<in> marked_32 a \<longleftrightarrow> x \<in> marked_32 b))"
  have "ext2fs_compare_generic_bitmap magic neq (Some (Bitmap32 a)) (Some (Bitmap32 b)) =
      (if take n (b32_bitmap a) \<noteq> take n (b32_bitmap b) then Some neq
       else map_option (\<lambda>differ. if differ then neq else 0) (compare_tail_32 a b t))"
    using m True by (simp add: n_def t_def)
  also have "\<dots> = Some (if L \<and> H then 0 else neq)"
    using low high unfolding compare_tail_returns [OF e] L_def [symmetric] H_def [symmetric] by auto
  also have "L \<and> H \<longleftrightarrow> (\<forall>x. b32_start a \<le> x \<and> x \<le> b32_end a \<longrightarrow> (x \<in> marked_32 a \<longleftrightarrow> x \<in> marked_32 b))"
  proof -
    have "b32_start a \<le> t" "t \<le> b32_end a" using t n valid_32D(1) [OF v(1)] by (auto simp: word_le_nat_alt)
    then show ?thesis unfolding L_def H_def by (meson le_less_trans less_imp_le not_le order_trans)
  qed
  finally show ?thesis using True by simp
qed

section \<open>Bounds, padding and resizing\<close>

lemma set_padding_spec:
  assumes "start \<le> end'" "i > end'" "unat i \<le> Suc (unat real_end)" "j = i - start"
    and "unat real_end - unat start < 8 * length bs"
  shows "length (set_padding_32 real_end end' i j bs) = length bs \<and>
    (\<forall>m. bit_at (set_padding_32 real_end end' i j bs) m \<longleftrightarrow>
       bit_at bs m \<or> (unat i - unat start \<le> m \<and> m \<le> unat real_end - unat start))"
  using assms
proof (induction real_end end' i j bs rule: set_padding_32.induct)
  case (1 real_end end' i j bs)
  have si: "unat start \<le> unat end'" "unat end' < unat i" "unat start < unat i"
    using "1.prems"(1,2) by (auto simp: word_le_nat_alt word_less_nat_alt)
  have j: "unat j = unat i - unat start" using "1.prems"(4) si by (simp add: unat_minus_le)
  show ?case
  proof (cases "i \<le> real_end")
    case False
    then have "unat real_end - unat start < unat i - unat start" using si by (simp add: word_le_nat_alt)
    with False show ?thesis by (subst (1 2) set_padding_32.simps) auto
  next
    case True
    let ?bs = "snd (ext2fs_set_bit j bs)"
    have room: "unat j div 8 < length bs" using j True "1.prems"(5) by (simp add: word_le_nat_alt)
    have bits: "length ?bs = length bs" "bit_at ?bs m \<longleftrightarrow> m = unat i - unat start \<or> bit_at bs m" for m
      using bit_at_set_bit(1) [OF room] by (simp_all add: j)
    have un: "set_padding_32 real_end end' i j bs = set_padding_32 real_end end' (i + 1) (j + 1) ?bs"
      using True "1.prems"(2) by (subst set_padding_32.simps) simp
    have c: "i \<le> real_end \<and> end' < i" using True "1.prems"(2) by simp
    show ?thesis
    proof (cases "i = 0xFFFFFFFF")
      case top: True
      then have eq: "real_end = i" using True unat_u32_less [of real_end] by (simp add: word_le_nat_alt word_unat_eq_iff)
      have un2: "set_padding_32 real_end end' (i + 1) (j + 1) ?bs = ?bs"
        unfolding max_Suc_32 [OF top] by (subst set_padding_32.simps) simp
      have "unat i - unat start \<le> m \<and> m \<le> unat real_end - unat start \<longleftrightarrow> m = unat i - unat start" for m
        unfolding eq by (metis le_antisym order_refl)
      then show ?thesis unfolding un un2 bits(2) using bits(1) by blast
    next
      case False
      then have S: "unat (i + 1) = Suc (unat i)" by (rule unat_Suc_32)
      then have "end' < i + 1" "unat (i + 1) \<le> Suc (unat real_end)"
        using si True by (simp_all add: word_less_nat_alt word_le_nat_alt)
      from "1.IH" [OF c "1.prems"(1) this] "1.prems"(4,5) bits S have
        "length (set_padding_32 real_end end' (i + 1) (j + 1) ?bs) = length bs"
        "\<And>m. bit_at (set_padding_32 real_end end' (i + 1) (j + 1) ?bs) m \<longleftrightarrow>
          (m = unat i - unat start \<or> bit_at bs m) \<or> (Suc (unat i) - unat start \<le> m \<and> m \<le> unat real_end - unat start)"
        by auto
      moreover have "(m = unat i - unat start \<or> Suc (unat i) - unat start \<le> m \<and> m \<le> unat real_end - unat start) \<longleftrightarrow>
          unat i - unat start \<le> m \<and> m \<le> unat real_end - unat start" for m
        using si True by (auto simp: word_le_nat_alt)
      ultimately show ?thesis unfolding un by blast
    qed
  qed
qed

lemma padding_32:
  assumes v: "valid_32 b"
  shows "valid_32 (ext2fs_set_generic_bitmap_padding b) \<and> same_32 b (ext2fs_set_generic_bitmap_padding b) \<and>
    marked_32 (ext2fs_set_generic_bitmap_padding b) = marked_32 b \<union> {x. b32_end b < x \<and> x \<le> b32_real_end b}"
proof -
  note d = valid_32D [OF v]
  define bs where "bs = set_padding_32 (b32_real_end b) (b32_end b) (b32_end b + 1) (b32_end b + 1 - b32_start b) (b32_bitmap b)"
  have b': "ext2fs_set_generic_bitmap_padding b = b\<lparr>b32_bitmap := bs\<rparr>"
    by (simp add: ext2fs_set_generic_bitmap_padding_def bs_def)
  have bs: "length bs = length (b32_bitmap b)"
    "in_32 b x \<Longrightarrow> bit_at bs (unat x - unat (b32_start b)) \<longleftrightarrow>
      bit_at (b32_bitmap b) (unat x - unat (b32_start b)) \<or> b32_end b < x" for x
  proof -
    have "length bs = length (b32_bitmap b) \<and> (in_32 b x \<longrightarrow> (bit_at bs (unat x - unat (b32_start b)) \<longleftrightarrow>
      bit_at (b32_bitmap b) (unat x - unat (b32_start b)) \<or> b32_end b < x))"
    proof (cases "b32_end b = 0xFFFFFFFF")
      case True
      then have "bs = b32_bitmap b" unfolding bs_def max_Suc_32 [OF True] by (subst set_padding_32.simps) simp
      moreover have "\<not> b32_end b < x" using True unat_u32_less [of x] by (simp add: word_less_nat_alt)
      ultimately show ?thesis by simp
    next
      case False
      then have S: "unat (b32_end b + 1) = Suc (unat (b32_end b))" by (rule unat_Suc_32)
      have "b32_start b \<le> b32_end b" using d(1) by (simp add: word_le_nat_alt)
      moreover have "b32_end b < b32_end b + 1" using S by (simp add: word_less_nat_alt)
      moreover have "unat (b32_end b + 1) \<le> Suc (unat (b32_real_end b))" using S d(2) by simp
      ultimately have sp: "length bs = length (b32_bitmap b)"
        "\<And>m. bit_at bs m \<longleftrightarrow> bit_at (b32_bitmap b) m \<or>
           (Suc (unat (b32_end b)) - unat (b32_start b) \<le> m \<and> m \<le> unat (b32_real_end b) - unat (b32_start b))"
        using set_padding_spec [OF _ _ _ refl size_room [OF d(4,3)], of "b32_end b" "b32_end b + 1"] S
        unfolding bs_def by auto
      have "(Suc (unat (b32_end b)) - unat (b32_start b) \<le> unat x - unat (b32_start b) \<and>
          unat x - unat (b32_start b) \<le> unat (b32_real_end b) - unat (b32_start b)) \<longleftrightarrow> b32_end b < x" if "in_32 b x"
        using in_32D [OF that] d(1) by (auto simp: word_less_nat_alt)
      with sp show ?thesis by blast
    qed
    then show "length bs = length (b32_bitmap b)"
      "in_32 b x \<Longrightarrow> bit_at bs (unat x - unat (b32_start b)) \<longleftrightarrow>
        bit_at (b32_bitmap b) (unat x - unat (b32_start b)) \<or> b32_end b < x" by blast+
  qed
  have "in_32 b x" if "b32_end b < x" "x \<le> b32_real_end b" for x
    using that d(1) by (simp add: in_32_def word_le_nat_alt word_less_nat_alt)
  then have "marked_32 (b\<lparr>b32_bitmap := bs\<rparr>) = marked_32 b \<union> {x. b32_end b < x \<and> x \<le> b32_real_end b}"
    using bs(2) by (auto simp: marked_32_upd marked_32_def in_32_def)
  then show ?thesis unfolding b' using valid_32_upd [OF v bs(1)] by simp
qed

lemma resize_clear_32_spec:
  assumes "start \<le> end'" "bitno \<le> end' \<or> unat (bitno - start) div 8 < length bs"
  shows "length (resize_clear_32 start end' bitno bs) = length bs \<and>
    (\<forall>m. bit_at (resize_clear_32 start end' bitno bs) m \<longleftrightarrow>
       bit_at bs m \<and> \<not> (unat end' - unat start < m \<and> m \<le> unat bitno - unat start))"
  using assms
proof (induction start end' bitno bs rule: resize_clear_32.induct)
  case (1 start end' bitno bs)
  show ?case
  proof (cases "bitno > end'")
    case False
    then have "unat bitno - unat start \<le> unat end' - unat start" by (simp add: word_less_nat_alt)
    with False show ?thesis by (subst (1 2) resize_clear_32.simps) auto
  next
    case True
    have nat: "unat start \<le> unat end'" "unat end' < unat bitno"
      using True "1.prems"(1) by (simp_all add: word_le_nat_alt word_less_nat_alt)
    have rel: "unat (bitno - start) = unat bitno - unat start" using nat by (simp add: unat_minus_le)
    have dec: "unat (bitno - 1) = unat bitno - 1" using nat by (simp add: unat_minus_le)
    have room: "unat (bitno - start) div 8 < length bs" using True "1.prems"(2) by auto
    let ?bs = "snd (ext2fs_clear_bit (bitno - start) bs)"
    have "bitno - 1 \<le> end' \<or> unat (bitno - 1 - start) div 8 < length ?bs"
    proof -
      have "unat (bitno - 1 - start) = unat bitno - 1 - unat start"
        using nat dec by (simp add: unat_minus_le)
      then have "unat (bitno - 1 - start) div 8 \<le> unat (bitno - start) div 8"
        using rel by (simp add: div_le_mono)
      with room show ?thesis by simp
    qed
    from "1.IH" [OF True "1.prems"(1) this] have
      len: "length (resize_clear_32 start end' (bitno - 1) ?bs) = length bs" and
      bits: "\<And>m. bit_at (resize_clear_32 start end' (bitno - 1) ?bs) m \<longleftrightarrow>
        bit_at ?bs m \<and> \<not> (unat end' - unat start < m \<and> m \<le> unat bitno - 1 - unat start)"
      using dec by auto
    have "(m = unat bitno - unat start \<or> unat end' - unat start < m \<and> m \<le> unat bitno - 1 - unat start) \<longleftrightarrow>
        unat end' - unat start < m \<and> m \<le> unat bitno - unat start" for m using nat by auto
    with bits bit_at_clear_bit(1) [OF room] rel True len show ?thesis
      by (subst (1 2) resize_clear_32.simps) auto
  qed
qed

lemma bit_at_resized_32:
  assumes "m div 8 < new_size" "sz \<le> length bs"
    and "bs' = (if sz \<noteq> new_size then resize_mem junk new_size bs else bs)"
    and "bs'' = (if new_size > sz then memset bs' sz 0 (new_size - sz) else bs')"
  shows "new_size \<le> length bs''" "bit_at bs'' m \<longleftrightarrow> bit_at bs m \<and> (m div 8 < sz \<or> new_size \<le> sz)"
proof -
  consider "sz = new_size" | "sz < new_size" | "new_size < sz" by linarith
  then have "new_size \<le> length bs'' \<and> (bit_at bs'' m \<longleftrightarrow> bit_at bs m \<and> (m div 8 < sz \<or> new_size \<le> sz))"
  proof cases
    case 1
    with assms show ?thesis by simp
  next
    case 2
    then have l: "length bs' = new_size" "take sz bs' = take sz bs"
      using assms by (auto simp: resize_mem_def min_def)
    then have "bs'' = take sz bs @ replicate (new_size - sz) 0" using 2 assms(4) by (simp add: memset_def)
    then show ?thesis using 2 assms(2) by (auto simp: bit_at_append) (auto simp: bit_at_def)
  next
    case 3
    then have "bs'' = take new_size bs" using assms by (simp add: resize_mem_def)
    with 3 assms(1,2) show ?thesis by (auto simp: bit_at_def)
  qed
  then show "new_size \<le> length bs''" "bit_at bs'' m \<longleftrightarrow> bit_at bs m \<and> (m div 8 < sz \<or> new_size \<le> sz)" by auto
qed

text \<open>No bit is set in the room beyond \<open>real_end\<close> in the last byte.\<close>

definition tight_32 :: "bitmap32 \<Rightarrow> bool" where
  "tight_32 b \<longleftrightarrow> (\<forall>m < 8 * b32_size (b32_start b) (b32_real_end b). bit_at (b32_bitmap b) m \<longrightarrow>
     m \<le> unat (b32_real_end b) - unat (b32_start b))"

lemma resize_cleared_32:
  assumes v: "valid_32 b"
    and bs1: "bs1 = (if new_end > b32_end b
      then resize_clear_32 (b32_start b) (b32_end b)
        (if b32_real_end b > new_end then new_end else b32_real_end b) (b32_bitmap b)
      else b32_bitmap b)"
  shows "length bs1 = length (b32_bitmap b)"
    and "m \<le> unat new_end - unat (b32_start b) \<Longrightarrow> m \<le> unat (b32_real_end b) - unat (b32_start b) \<Longrightarrow>
      bit_at bs1 m \<longleftrightarrow> bit_at (b32_bitmap b) m \<and> m \<le> unat (b32_end b) - unat (b32_start b)"
    and "bit_at bs1 m \<Longrightarrow> bit_at (b32_bitmap b) m"
proof -
  note d = valid_32D [OF v]
  let ?s = "unat (b32_start b)" and ?e = "unat (b32_end b)"
  define top where "top = (if b32_real_end b > new_end then new_end else b32_real_end b)"
  have top: "unat top = min (unat new_end) (unat (b32_real_end b))"
    by (simp add: top_def word_less_nat_alt min_def)
  have up: "length bs1 = length (b32_bitmap b)"
    "bit_at bs1 m \<longleftrightarrow> bit_at (b32_bitmap b) m \<and> \<not> (?e - ?s < m \<and> m \<le> unat top - ?s)"
    if "new_end > b32_end b" for m
  proof -
    have "?e < unat new_end" using that by (simp add: word_less_nat_alt)
    then have "in_32 b top" using d by (simp add: in_32_def word_le_nat_alt top)
    from room_32 [OF v this] have "top \<le> b32_end b \<or> unat (top - b32_start b) div 8 < length (b32_bitmap b)" ..
    from resize_clear_32_spec [OF _ this] d(1) that
    show "length bs1 = length (b32_bitmap b)"
      "bit_at bs1 m \<longleftrightarrow> bit_at (b32_bitmap b) m \<and> \<not> (?e - ?s < m \<and> m \<le> unat top - ?s)"
      unfolding bs1 top_def [symmetric] by (simp_all add: word_le_nat_alt)
  qed
  show "length bs1 = length (b32_bitmap b)" "bit_at bs1 m \<Longrightarrow> bit_at (b32_bitmap b) m"
    using up bs1 by (cases "new_end > b32_end b"; auto)+
  show "bit_at bs1 m \<longleftrightarrow> bit_at (b32_bitmap b) m \<and> m \<le> ?e - ?s"
    if m: "m \<le> unat new_end - ?s" "m \<le> unat (b32_real_end b) - ?s"
  proof (cases "new_end > b32_end b")
    case True
    have "m \<le> unat top - ?s" using m unfolding top by linarith
    with up(2) [OF True, of m] show ?thesis by (meson not_le)
  next
    case False
    then have "unat new_end \<le> ?e" by (simp add: word_less_nat_alt)
    with m have "m \<le> ?e - ?s" by linarith
    with False bs1 show ?thesis by simp
  qed
qed

lemma resize_32:
  assumes v: "valid_32 b" and t: "tight_32 b" and mg: "b32_magic b = magic"
    and n: "b32_start b \<le> new_end" "new_end \<le> new_real_end"
    and res: "ext2fs_resize_generic_bitmap mem junk magic new_end new_real_end (Some (Bitmap32 b)) = (0, g')"
  shows "\<exists>b'. g' = Some (Bitmap32 b') \<and> valid_32 b' \<and> b32_magic b' = magic \<and> b32_start b' = b32_start b \<and>
    b32_end b' = new_end \<and> b32_real_end b' = new_real_end \<and>
    (\<forall>x. b32_start b \<le> x \<and> x \<le> new_end \<longrightarrow> (x \<in> marked_32 b' \<longleftrightarrow> x \<in> marked_32 b \<and> x \<le> b32_end b))"
proof -
  note d = valid_32D [OF v]
  let ?s = "unat (b32_start b)"
  define bs1 where "bs1 = (if new_end > b32_end b
      then resize_clear_32 (b32_start b) (b32_end b)
        (if b32_real_end b > new_end then new_end else b32_real_end b) (b32_bitmap b)
      else b32_bitmap b)"
  note bs1 = resize_cleared_32 [OF v bs1_def]
  define sz where "sz = b32_size (b32_start b) (b32_real_end b)"
  define new_size where "new_size = b32_size (b32_start b) new_real_end"
  define bs2 where "bs2 = (if sz \<noteq> new_size then resize_mem junk new_size bs1 else bs1)"
  define bs3 where "bs3 = (if new_size > sz then memset bs2 sz 0 (new_size - sz) else bs2)"
  define b' where "b' = b\<lparr>b32_bitmap := bs3, b32_end := new_end, b32_real_end := new_real_end\<rparr>"
  have len1: "sz \<le> length bs1" using d(4) bs1(1) by (simp add: sz_def)
  note bs3 = bit_at_resized_32 [OF _ len1 bs2_def bs3_def]
  have g': "g' = Some (Bitmap32 b')"
  proof (cases "new_real_end = b32_real_end b")
    case True
    then have "bs3 = bs1" by (simp add: bs3_def bs2_def sz_def new_size_def)
    with True res mg show ?thesis by (simp add: b'_def bs1_def)
  next
    case False
    then show ?thesis using res mg
      by (simp add: b'_def bs1_def [symmetric] bs2_def [symmetric] bs3_def [symmetric] sz_def [symmetric]
          new_size_def [symmetric] Let_def split: if_splits)
  qed
  have s: "?s \<le> unat new_real_end" using n by (simp add: word_le_nat_alt)
  have ns: "new_size = Suc ((unat new_real_end - ?s) div 8)" "sz = Suc ((unat (b32_real_end b) - ?s) div 8)"
    using s d(3) by (simp_all add: new_size_def sz_def b32_size_nat)
  have "x \<in> marked_32 b' \<longleftrightarrow> x \<in> marked_32 b \<and> x \<le> b32_end b" if x: "b32_start b \<le> x" "x \<le> new_end" for x
  proof -
    let ?m = "unat x - ?s"
    have ux: "?s \<le> unat x" "unat x \<le> unat new_end" "unat new_end \<le> unat new_real_end"
      using x n by (simp_all add: word_le_nat_alt)
    have m: "?m div 8 < new_size" unfolding ns using ux by (simp add: div_le_mono less_Suc_eq_le)
    have "x \<in> marked_32 b' \<longleftrightarrow> bit_at bs3 ?m"
      using x n by (auto simp: b'_def marked_32_def in_32_def)
    also have "\<dots> \<longleftrightarrow> bit_at bs1 ?m \<and> (?m div 8 < sz \<or> new_size \<le> sz)" by (rule bs3(2) [OF m])
    also have "\<dots> \<longleftrightarrow> bit_at bs1 ?m \<and> x \<le> b32_real_end b"
    proof -
      have "?m div 8 < sz" if "x \<le> b32_real_end b"
        unfolding ns using that ux by (simp add: div_le_mono less_Suc_eq_le word_le_nat_alt)
      moreover have "x \<le> b32_real_end b" if "bit_at bs1 ?m" "?m div 8 < sz"
      proof -
        have "?m < 8 * sz" using that(2) by auto
        with t bs1(3) [OF that(1)] have "?m \<le> unat (b32_real_end b) - ?s"
          unfolding tight_32_def sz_def by blast
        then show ?thesis using ux d(3) by (simp add: word_le_nat_alt)
      qed
      moreover have "?m div 8 < sz" if "new_size \<le> sz" using m that by simp
      ultimately show ?thesis by blast
    qed
    also have "\<dots> \<longleftrightarrow> x \<in> marked_32 b \<and> x \<le> b32_end b"
    proof (cases "x \<le> b32_real_end b")
      case True
      then have "bit_at bs1 ?m \<longleftrightarrow> bit_at (b32_bitmap b) ?m \<and> ?m \<le> unat (b32_end b) - ?s"
        using ux by (intro bs1(2)) (auto simp: word_le_nat_alt)
      moreover have "?m \<le> unat (b32_end b) - ?s \<longleftrightarrow> x \<le> b32_end b" using ux d(1) by (auto simp: word_le_nat_alt)
      ultimately show ?thesis using True x by (auto simp: marked_32_def in_32_def)
    next
      case False
      then show ?thesis by (auto simp: marked_32_def in_32_def)
    qed
    finally show ?thesis .
  qed
  moreover have "valid_32 b'"
    using n bs3(1) [of 0] by (simp add: b'_def valid_32_def new_size_def ns(1) [unfolded new_size_def])
  ultimately show ?thesis using g' mg by (simp add: b'_def)
qed

section \<open>Copying bits out and in\<close>

text \<open>\<open>range_bytes\<close> is the number of bytes that the two range functions move. The
  first bit of the range is the first bit of a byte of the array.\<close>

abbreviation range_bytes :: "u32 \<Rightarrow> nat" where
  "range_bytes num \<equiv> unat (drop_bit 3 (num + 7))"

definition byte_range_ok :: "bitmap32 \<Rightarrow> u32 \<Rightarrow> u32 \<Rightarrow> bool" where
  "byte_range_ok b start num \<longleftrightarrow> b32_start b \<le> start \<and> 0 < num \<and>
     unat start + unat num \<le> Suc (unat (b32_real_end b)) \<and> unat num + 7 < 2 ^ 32 \<and>
     (unat start - unat (b32_start b)) mod 8 = 0"

lemma byte_range_okD:
  assumes v: "valid_32 b" and r: "byte_range_ok b start num"
  shows "\<not> (start < b32_start b \<or> start + num - 1 > b32_real_end b)"
    and "unat (drop_bit 3 (start - b32_start b)) = (unat start - unat (b32_start b)) div 8"
    and "range_bytes num = (unat num + 7) div 8"
    and "(unat start - unat (b32_start b)) div 8 + (unat num + 7) div 8 \<le> length (b32_bitmap b)"
proof -
  let ?s = "unat (b32_start b)"
  have u: "?s \<le> unat start" "0 < unat num" "unat start + unat num \<le> Suc (unat (b32_real_end b))"
    "unat num + 7 < 2 ^ 32" "(unat start - ?s) mod 8 = 0"
    using r by (auto simp: byte_range_ok_def word_le_nat_alt word_less_nat_alt)
  have "start + num - 1 = start + (num - 1)" by simp
  moreover have "unat (num - 1) = unat num - 1" using u(2) by (subst unat_minus_le) auto
  ultimately have "unat (start + num - 1) = unat start + (unat num - 1)"
    using u unat_u32_less [of "b32_real_end b"] by (simp only:) (subst unat_plus_less, auto)
  then show "\<not> (start < b32_start b \<or> start + num - 1 > b32_real_end b)"
    using u by (simp add: word_less_nat_alt)
  show "unat (drop_bit 3 (start - b32_start b)) = (unat start - ?s) div 8"
    using u(1) by (simp add: unat_drop_bit_3 unat_minus_le)
  have "unat (num + 7) = unat num + 7" using u(4) by (subst unat_plus_less) auto
  then show "range_bytes num = (unat num + 7) div 8" by (simp add: unat_drop_bit_3)
  have "(unat start - ?s) div 8 + (unat num + 7) div 8 \<le> Suc ((unat (b32_real_end b) - ?s) div 8)"
  proof -
    have "8 * ((unat start - ?s) div 8) = unat start - ?s" using u(5) mult_div_mod_eq [of 8 "unat start - ?s"] by simp
    moreover have "unat start - ?s + (unat num - 1) \<le> unat (b32_real_end b) - ?s" using u by linarith
    ultimately show ?thesis using u(2) by linarith
  qed
  also have "\<dots> \<le> length (b32_bitmap b)"
    using valid_32D(4) [OF v] valid_32D(3) [OF v] by (simp add: b32_size_nat)
  finally show "(unat start - ?s) div 8 + (unat num + 7) div 8 \<le> length (b32_bitmap b)" .
qed

lemma set_range_32:
  assumes v: "valid_32 b" and m: "b32_magic b = magic" and r: "byte_range_ok b start num"
    and i: "(unat num + 7) div 8 \<le> length in'"
  shows "\<exists>b'. ext2fs_set_generic_bitmap_range (Some (Bitmap32 b)) magic start num in' = (0, Some (Bitmap32 b')) \<and>
    valid_32 b' \<and> same_32 b b' \<and>
    (\<forall>x. in_32 b x \<longrightarrow> (x \<in> marked_32 b' \<longleftrightarrow>
      (if unat start \<le> unat x \<and> unat x < unat start + 8 * ((unat num + 7) div 8)
       then bit_at in' (unat x - unat start) else x \<in> marked_32 b)))"
proof -
  note d = byte_range_okD [OF v r]
  let ?s = "unat (b32_start b)" and ?n = "(unat num + 7) div 8"
  define bs where "bs = memcpy (b32_bitmap b) ((unat start - ?s) div 8) in' ?n"
  have res: "ext2fs_set_generic_bitmap_range (Some (Bitmap32 b)) magic start num in' =
      (0, Some (Bitmap32 (b\<lparr>b32_bitmap := bs\<rparr>)))"
    using d(1) m by (simp add: d(2,3) bs_def)
  have st: "?s \<le> unat start" "8 * ((unat start - ?s) div 8) = unat start - ?s"
    using r by (auto simp: byte_range_ok_def word_le_nat_alt)
  have "bit_at bs (unat x - ?s) \<longleftrightarrow> (if unat start \<le> unat x \<and> unat x < unat start + 8 * ?n
      then bit_at in' (unat x - unat start) else bit_at (b32_bitmap b) (unat x - ?s))" if "in_32 b x" for x
  proof -
    have "(unat start - ?s) div 8 \<le> (unat x - ?s) div 8 \<and> (unat x - ?s) div 8 < (unat start - ?s) div 8 + ?n \<longleftrightarrow>
        unat start \<le> unat x \<and> unat x < unat start + 8 * ?n"
      using st in_32D(2) [OF that] by linarith
    moreover have "unat x - ?s - 8 * ((unat start - ?s) div 8) = unat x - unat start" using st by simp
    ultimately show ?thesis unfolding bs_def bit_at_memcpy [OF d(4) i] by simp
  qed
  moreover have "length bs = length (b32_bitmap b)" using d(4) i by (simp add: bs_def)
  ultimately show ?thesis unfolding res using valid_32_upd [OF v] by (auto simp: marked_32_upd marked_32_def)
qed

lemma set_get_range_32:
  assumes v: "valid_32 b" and m: "b32_magic b = magic" and r: "byte_range_ok b start num"
    and i: "(unat num + 7) div 8 \<le> length in'" and o: "(unat num + 7) div 8 \<le> length out"
  shows "ext2fs_get_generic_bitmap_range (snd (ext2fs_set_generic_bitmap_range (Some (Bitmap32 b)) magic start num in'))
      magic start num out = (0, take ((unat num + 7) div 8) in' @ drop ((unat num + 7) div 8) out)"
proof -
  note d = byte_range_okD [OF v r]
  let ?n = "(unat num + 7) div 8" and ?o = "(unat start - unat (b32_start b)) div 8"
  have "memcpy out 0 (drop ?o (memcpy (b32_bitmap b) ?o in' ?n)) ?n = take ?n in' @ drop ?n out"
    using d(4) i by (simp add: memcpy_def min_def)
  then show ?thesis using d(1) m by (simp add: d(2,3))
qed

end
