(* ===== verification/Blkmap64_RB_Range.thy ===== *)
theory Blkmap64_RB_Range
  imports Blkmap64_RB_Ops
begin

text \<open>
  The remaining operations of the extent-tree back end: the two searches, the
  copy of a tree, truncation and resizing, and the transfer of a range of bits
  to and from a byte buffer.
\<close>

section \<open>The searches\<close>

text \<open>The extent at or after the place where a search for \<open>s\<close> ended.\<close>

lemma rb_next_after_gap:
  assumes inv: "rb_inv bp" and sr: "rb_search s (rb_root bp) = (Leaf, ps)"
  shows "(case rb_parent ps of None \<Rightarrow> None
      | Some ext \<Rightarrow> if ext_start ext < s then rb_next_node (rb_root bp) (ext_node ext) else Some ext) =
    (case after ps of [] \<Rightarrow> None | x # _ \<Rightarrow> Some x)"
proof (cases "rb_parent ps")
  case None
  then show ?thesis by simp
next
  case (Some p)
  note ok = rb_inv_exts_ok [OF inv] note lf = rb_search_Leaf [OF sr ok]
  have dist: "distinct (ext_nodes (inorder (rb_root bp)))" using inv by (simp add: rb_inv_def rb_base_distinct)
  from rb_parent_neighbour [OF Some] show ?thesis
  proof (elim disjE conjE)
    assume b: "before ps \<noteq> []" "last (before ps) = p"
    then have pin: "p \<in> set (before ps)" by auto
    have "ext_ok p" using pin ok by (auto simp: lf(1) intro: exts_ok_ext_ok)
    with lf(2) pin have "ext_start p < s" using ext_ok_word(2) [of p] by (fastforce simp: word_cmp)
    moreover have "inorder (rb_root bp) = butlast (before ps) @ p # after ps"
      using b lf(1) by (metis append_Cons append_Nil append_assoc append_butlast_last_id)
    from rb_node_access(4) [OF this dist] have "rb_next_node (rb_root bp) (ext_node p) =
      (case after ps of [] \<Rightarrow> None | x # _ \<Rightarrow> Some x)" .
    ultimately show ?thesis using Some by simp
  next
    assume a: "after ps \<noteq> []" "hd (after ps) = p"
    then obtain xs where "after ps = p # xs" by (cases "after ps") auto
    with lf(3) Some show ?thesis by (auto simp: word_cmp)
  qed
qed

lemma rb_rel_bounds:
  assumes v: "valid_rb bm" and r: "in_range bm start" "in_range bm end'" "start \<le> end'"
  shows "unat (start - bm_start bm) = unat start - unat (bm_start bm)"
    "unat (end' - bm_start bm) = unat end' - unat (bm_start bm)"
    "\<not> start - bm_start bm > end' - bm_start bm"
    "start - bm_start bm + bm_start bm = start"
  using rel_in_range [OF r(1)] rel_in_range [OF r(2)] r(3)
  by (simp_all add: word_cmp not_less)

text \<open>From a result relative to the start of the map to absolute bit numbers.\<close>

lemma rb_search_found:
  assumes v: "valid_rb bm" and r: "in_range bm start" "in_range bm end'" "start \<le> end'"
    and q: "unat q \<le> unat (end' - bm_start bm)" "unat (start - bm_start bm) \<le> unat q"
    and hit: "(unat q \<in> rb_bits (rb_priv bm)) = w"
      "\<And>m. unat (start - bm_start bm) \<le> m \<Longrightarrow> m < unat q \<Longrightarrow> (m \<in> rb_bits (rb_priv bm)) = (\<not> w)"
  shows "search_result (\<lambda>b. (b \<in> marked_rb bm) = w) start end' (Inr (q + bm_start bm))"
proof -
  let ?P = "\<lambda>b. (b \<in> marked_rb bm) = w"
  note b = rb_rel_bounds [OF v r] note rs = rel_in_range [OF r(1)] note re = rel_in_range [OF r(2)]
  have "unat q + unat (bm_start bm) \<le> unat end'" using q(1) b(2) re(2) by linarith
  then have "unat q + unat (bm_start bm) < 2 ^ 64" using unat_u64_less [of end'] by linarith
  then have u: "unat (q + bm_start bm) = unat q + unat (bm_start bm)" by (simp add: unat_plus_less)
  then have "start \<le> q + bm_start bm" "q + bm_start bm \<le> end'"
    using q b rs re by (simp_all add: word_le_nat_alt)
  moreover have "bm_start bm \<le> q + bm_start bm" using u by (simp add: word_le_nat_alt)
  with u hit(1) have "?P (q + bm_start bm)" by (simp add: marked_rb_def)
  moreover have "\<not> ?P x" if "start \<le> x" "x < q + bm_start bm" for x
  proof -
    have n: "unat start \<le> unat x" "unat x < unat q + unat (bm_start bm)"
      using that u by (simp_all add: word_le_nat_alt word_less_nat_alt)
    then have "bm_start bm \<le> x" using rs(2) by (simp add: word_le_nat_alt)
    with hit(2) [of "unat x - unat (bm_start bm)"] n b(1) rs(2) show ?thesis by (simp add: marked_rb_def)
  qed
  ultimately show ?thesis by (simp add: search_result_def)
qed

lemma rb_search_none:
  assumes v: "valid_rb bm" and r: "in_range bm start" "in_range bm end'" "start \<le> end'"
    and no: "\<And>m. unat (start - bm_start bm) \<le> m \<Longrightarrow> m \<le> unat (end' - bm_start bm) \<Longrightarrow>
      (m \<in> rb_bits (rb_priv bm)) = (\<not> w)"
  shows "search_result (\<lambda>b. (b \<in> marked_rb bm) = w) start end' (Inl ENOENT)"
proof -
  let ?P = "\<lambda>b. (b \<in> marked_rb bm) = w"
  note b = rb_rel_bounds [OF v r] note rs = rel_in_range [OF r(1)]
  have "\<not> ?P x" if "start \<le> x" "x \<le> end'" for x
  proof -
    have n: "unat start \<le> unat x" "unat x \<le> unat end'" using that by (simp_all add: word_le_nat_alt)
    then have "bm_start bm \<le> x" using rs(2) by (simp add: word_le_nat_alt)
    with no [of "unat x - unat (bm_start bm)"] n b(1,2) rs(2) show ?thesis by (simp add: marked_rb_def)
  qed
  then show ?thesis by (simp add: search_result_def)
qed

lemma rb_find_first_set_abs:
  assumes v: "valid_rb bm" and r: "in_range bm start" "in_range bm end'" "start \<le> end'"
  shows "search_result (\<lambda>b. b \<in> marked_rb bm) start end' (rb_find_first_set bm start end')"
proof -
  let ?bp = "rb_priv bm" and ?s = "start - bm_start bm" and ?e = "end' - bm_start bm"
  note b = rb_rel_bounds [OF v r] note inv = valid_rbD(2) [OF v] note ok = rb_inv_exts_ok [OF inv]
  note found = rb_search_found [OF v r, of _ True, simplified] and none = rb_search_none [OF v r, of True, simplified]
  obtain n ps where sr: "rb_search ?s (rb_root ?bp) = (n, ps)" by fastforce
  show ?thesis
  proof (cases "rb_root ?bp = Leaf")
    case True
    then have "rb_find_first_set bm start end' = Inl ENOENT"
      using b(3) by (simp add: rb_find_first_set_def ext2fs_rb_empty_root_def Let_def)
    moreover have "rb_bits ?bp = {}" using True by (simp add: rb_bits_def)
    ultimately show ?thesis using none by simp
  next
    case ne: False
    show ?thesis
    proof (cases n)
      case (Node cl l e rt)
      note nd = rb_search_Node [OF sr [unfolded Node] ok]
      have "unat ?s \<in> rb_bits ?bp" using nd(2,3) by (simp add: rb_bits_def nd(1))
      with found [of ?s] b(3) have "search_result (\<lambda>b. b \<in> marked_rb bm) start end' (Inr (?s + bm_start bm))"
        by (simp add: word_cmp)
      then show ?thesis using ne sr Node b(3)
        by (simp add: rb_find_first_set_def ext2fs_rb_empty_root_def Let_def)
    next
      case Leaf
      note lf = rb_search_Leaf [OF sr [unfolded Leaf] ok]
      have run: "rb_find_first_set bm start end' = (case (case after ps of [] \<Rightarrow> None | x # _ \<Rightarrow> Some x) of
          None \<Rightarrow> Inl ENOENT
        | Some ext \<Rightarrow> if ext_start ext \<le> ?e then Inr (ext_start ext + bm_start bm) else Inl ENOENT)"
        using ne sr Leaf b(3) rb_next_after_gap [OF inv sr [unfolded Leaf]]
        by (simp add: rb_find_first_set_def ext2fs_rb_empty_root_def Let_def)
      have no: "m \<notin> rb_bits ?bp" if "unat ?s \<le> m" "\<forall>x\<in>set (after ps). m < es x" for m
        using that lf(1,2) unfolding rb_bits_def by (intro ext_bits_outside) fastforce
      show ?thesis
      proof (cases "after ps")
        case Nil
        with run have "rb_find_first_set bm start end' = Inl ENOENT" by simp
        with none no Nil show ?thesis by simp
      next
        case (Cons x xs)
        have okx: "ext_ok x" "\<forall>y\<in>set xs. ee x < es y" "unat ?s < es x"
          using ok lf(3) by (simp_all add: lf(1) Cons)
        have lt: "\<forall>y\<in>set (after ps). m < es y" if "m < es x" for m
          using okx that by (fastforce simp: Cons)
        show ?thesis
        proof (cases "ext_start x \<le> ?e")
          case True
          have "es x \<in> rb_bits ?bp" using ext_ok_word(2) [OF okx(1)] by (simp add: rb_bits_def lf(1) Cons)
          with found [of "ext_start x"] no lt okx(3) True
          have "search_result (\<lambda>b. b \<in> marked_rb bm) start end' (Inr (ext_start x + bm_start bm))"
            by (simp add: word_cmp)
          with run Cons True show ?thesis by simp
        next
          case False
          then have "m \<notin> rb_bits ?bp" if "unat ?s \<le> m" "m \<le> unat ?e" for m
            using no [OF that(1)] lt that(2) by (simp add: word_cmp)
          with none run Cons False show ?thesis by simp
        qed
      qed
    qed
  qed
qed

lemma rb_find_first_zero_abs:
  assumes v: "valid_rb bm" and ne: "rb_root (rb_priv bm) \<noteq> Leaf"
    and r: "in_range bm start" "in_range bm end'" "start \<le> end'"
  shows "search_result (\<lambda>b. b \<notin> marked_rb bm) start end' (rb_find_first_zero bm start end')"
proof -
  let ?bp = "rb_priv bm" and ?s = "start - bm_start bm" and ?e = "end' - bm_start bm"
  note b = rb_rel_bounds [OF v r] note inv = valid_rbD(2) [OF v] note ok = rb_inv_exts_ok [OF inv]
  note found = rb_search_found [OF v r, of _ False, simplified] and none = rb_search_none [OF v r, of False, simplified]
  obtain n ps where sr: "rb_search ?s (rb_root ?bp) = (n, ps)" by fastforce
  show ?thesis
  proof (cases n)
    case Leaf
    note lf = rb_search_Leaf [OF sr [unfolded Leaf] ok]
    have "unat ?s \<notin> rb_bits ?bp" using lf unfolding rb_bits_def by (intro ext_bits_outside) auto
    with found [of ?s] b(3) have "search_result (\<lambda>b. b \<notin> marked_rb bm) start end' (Inr (?s + bm_start bm))"
      by (simp add: word_cmp)
    then show ?thesis using ne sr Leaf b(3)
      by (simp add: rb_find_first_zero_def ext2fs_rb_empty_root_def Let_def)
  next
    case (Node cl l e rt)
    note nd = rb_search_Node [OF sr [unfolded Node] ok]
    let ?as = "before ps @ inorder l" and ?bs = "inorder rt @ after ps"
    have ok': "exts_ok (?as @ e # ?bs)" using ok unfolding nd(1) .
    then have w: "unat (ext_start e + ext_count e) = ee e" by (simp add: ext_ok_word)
    have run: "rb_find_first_zero bm start end' =
      (if ext_start e + ext_count e \<le> ?e then Inr (ext_start e + ext_count e + bm_start bm) else Inl ENOENT)"
      using ne sr Node b(3) by (simp add: rb_find_first_zero_def ext2fs_rb_empty_root_def Let_def)
    have set: "m \<in> rb_bits ?bp" if "unat ?s \<le> m" "m < ee e" for m
      using that nd(2) by (simp add: rb_bits_def nd(1))
    have clr: "ee e \<notin> rb_bits ?bp"
    proof -
      have "\<forall>x\<in>set (?as @ e # ?bs). ee e < es x \<or> ee x \<le> ee e"
        using ok' by (fastforce simp: exts_ok_simps)
      from ext_bits_outside [OF this] show ?thesis by (simp add: rb_bits_def nd(1))
    qed
    show ?thesis
    proof (cases "ext_start e + ext_count e \<le> ?e")
      case True
      then have "search_result (\<lambda>b. b \<notin> marked_rb bm) start end' (Inr (ext_start e + ext_count e + bm_start bm))"
        using found [of "ext_start e + ext_count e"] set clr nd(3) unfolding word_cmp w by simp
      with run True show ?thesis by simp
    next
      case False
      then have "search_result (\<lambda>b. b \<notin> marked_rb bm) start end' (Inl ENOENT)"
        using none set unfolding word_cmp w by simp
      with run False show ?thesis by simp
    qed
  qed
qed

section \<open>Copying\<close>

abbreviation ext_range :: "bmap_rb_extent \<Rightarrow> u64 \<times> u64" where
  "ext_range e \<equiv> (ext_start e, ext_count e)"

lemma exts_ok_range_cong:
  assumes "map ext_range xs = map ext_range ys"
  shows "exts_ok xs = exts_ok ys" "ext_bits xs = ext_bits ys"
proof -
  have *: "exts_ok zs \<longleftrightarrow> (\<forall>p\<in>set (map ext_range zs). snd p \<noteq> 0 \<and> unat (fst p) + unat (snd p) < 2 ^ 64) \<and>
      sorted_wrt (\<lambda>p q. unat (fst p) + unat (snd p) < unat (fst q)) (map ext_range zs)" for zs
    by (auto simp: exts_ok_def ext_ok_def sorted_wrt_map)
  show "exts_ok xs = exts_ok ys" unfolding * assms ..
  have **: "ext_bits zs = (\<Union>p\<in>set (map ext_range zs). {unat (fst p)..<unat (fst p) + unat (snd p)})" for zs
    by (simp add: ext_bits_def)
  show "ext_bits xs = ext_bits ys" unfolding ** assms ..
qed

lemma rb_descend_right:
  "\<exists>qs. rb_descend (\<lambda>_. False) (\<lambda>_. True) t ps = (Leaf, qs) \<and> before qs = before ps @ inorder t \<and>
    after qs = after ps \<and> plug Leaf qs = plug t ps"
  by (induction t arbitrary: ps) fastforce+

lemma rb_copy_nodes_spec:
  assumes "rb_copy_nodes mem i src bp = (0, bp')" "rb_base bp" "rcursor_next bp = None"
  shows "rb_base bp' \<and>
    map ext_range (inorder (rb_root bp')) = map ext_range (inorder (rb_root bp)) @ map ext_range src"
  using assms
proof (induction mem i src bp rule: rb_copy_nodes.induct)
  case (1 mem i bp)
  then show ?case by simp
next
  case (2 mem i e src bp)
  let ?e = "\<lparr>ext_node = rb_brk bp, ext_start = ext_start e, ext_count = ext_count e\<rparr>"
  obtain qs where qs: "rb_descend (\<lambda>_. False) (\<lambda>_. True) (rb_root bp) [] = (Leaf, qs)"
    "before qs = inorder (rb_root bp)" "after qs = []" "plug Leaf qs = rb_root bp"
    using rb_descend_right [of "rb_root bp" "[]"] by auto
  let ?bp = "bp\<lparr>rb_brk := Suc (rb_brk bp), rb_root := ext2fs_rb_insert_color (ext2fs_rb_link_node ?e) qs\<rparr>"
  from "2.prems"(1) have m: "mem i" by (simp split: if_splits)
  have "?bp = ?bp\<lparr>wcursor := wcursor bp\<rparr>" by (cases bp) simp
  with rb_link_base [of bp qs ?e "wcursor bp"] "2.prems"(2,3) qs(4)
  have base: "rb_base ?bp" and ino: "inorder (rb_root ?bp) = inorder (rb_root bp) @ [?e]"
    using qs(2,3) by simp_all
  from "2.prems"(1) m qs(1) have run: "rb_copy_nodes mem (Suc i) src ?bp = (0, bp')"
    by (simp add: rb_get_new_extent_def)
  have g: "rb_get_new_extent (ext_start e) (ext_count e) bp = (?e, bp\<lparr>rb_brk := Suc (rb_brk bp)\<rparr>)"
    by (simp add: rb_get_new_extent_def)
  have "rb_base bp' \<and> map ext_range (inorder (rb_root bp')) = map ext_range (inorder (rb_root ?bp)) @ map ext_range src"
    using "2.IH" [OF _ g [symmetric], of Leaf qs] m qs(1) run base "2.prems"(3) by simp
  with ino show ?case by simp
qed

lemma rb_copy_valid:
  assumes v: "valid_rb src" and h: "bm_start dest = bm_start src" "bm_end dest = bm_end src" "bm_real_end dest = bm_real_end src"
    and res: "rb_copy_bmap mem ext_mem src dest = (0, src', dest')"
  shows "valid_rb src' \<and> marked_rb src' = marked_rb src \<and>
    valid_rb dest' \<and> same_header dest dest' \<and> marked_rb dest' = marked_rb src"
proof -
  let ?e = "\<lparr>rb_root = Leaf, wcursor = None, rcursor = None, rcursor_next = None, rb_brk = 0\<rparr>"
  let ?sp = "rb_priv src\<lparr>rcursor := None\<rparr>"
  from res obtain bp where r: "rb_copy_nodes ext_mem 0 (inorder (rb_root (rb_priv src))) ?e = (0, bp)"
    "src' = rb_upd src ?sp" "dest' = rb_upd (rb_upd dest ?e) bp"
    by (auto simp: rb_copy_bmap_def rb_alloc_private_data_def Let_def split: prod.splits if_splits)
  have "rb_base ?e" by (simp add: rb_base_def rb_tree_inv_def)
  from rb_copy_nodes_spec [OF r(1) this] have b: "rb_base bp"
    "map ext_range (inorder (rb_root bp)) = map ext_range (inorder (rb_root (rb_priv src)))" by simp_all
  note eq = exts_ok_range_cong [OF b(2)]
  have d: "rb_inv bp" "rb_bits bp = rb_bits (rb_priv src)"
    using b(1) eq valid_rbD(2) [OF v] by (simp_all add: rb_inv_def rb_bits_def)
  have "rb_base ?sp" using valid_rbD(2) [OF v] rb_base_no_rcursor [of "rb_priv src" "rcursor_next (rb_priv src)"]
    by (simp add: rb_inv_def)
  then have s: "rb_inv ?sp" "rb_bits ?sp = rb_bits (rb_priv src)"
    using valid_rbD(2) [OF v] by (simp_all add: rb_inv_def rb_bits_def)
  show ?thesis using d s valid_rbD(1,3) [OF v] h
    by (simp add: r valid_rb_def marked_rb_def header_ok_def)
qed

section \<open>Truncating and resizing\<close>

lemma ext_bits_upto:
  "\<forall>e\<in>set xs. ee e \<le> Suc n \<Longrightarrow> ext_bits xs \<inter> {..n} = ext_bits xs"
  unfolding ext_bits_def by fastforce

text \<open>The loop erases extents from the last one on and shortens the one that
  holds \<open>new_max\<close>; the addresses that are left are a prefix of the old ones.\<close>

lemma rb_truncate_nodes_spec:
  assumes "inorder root = rev prev" "exts_ok (rev prev)" "distinct (ext_nodes (rev prev))" "rb_tree_inv root"
  shows "rb_tree_inv (rb_truncate_nodes m prev root) \<and> exts_ok (inorder (rb_truncate_nodes m prev root)) \<and>
    ext_bits (inorder (rb_truncate_nodes m prev root)) = ext_bits (rev prev) \<inter> {..unat m} \<and>
    (\<exists>ns. ext_nodes (rev prev) = ext_nodes (inorder (rb_truncate_nodes m prev root)) @ ns)"
  using assms
proof (induction m prev root rule: rb_truncate_nodes.induct)
  case (1 m root)
  then show ?case by simp
next
  case (2 m e prev root)
  have ino: "inorder root = rev prev @ e # []" and d: "distinct (ext_nodes (inorder root))"
    using "2.prems"(1,3) by simp_all
  have okp: "exts_ok (rev prev)" "\<forall>x\<in>set prev. ee x < es e" and e: "ext_ok e"
    using "2.prems"(2) by simp_all
  note w = ext_ok_word [OF e]
  have last: "unat (ext_start e + ext_count e - 1) = ee e - 1"
    using w by (simp add: unat_minus_le)
  consider "ext_start e + ext_count e - 1 \<le> m"
    | "\<not> ext_start e + ext_count e - 1 \<le> m" "ext_start e > m"
    | "\<not> ext_start e + ext_count e - 1 \<le> m" "\<not> ext_start e > m" by blast
  then show ?case
  proof cases
    case 1
    then have "ee e \<le> Suc (unat m)" unfolding word_cmp last by linarith
    with okp(2) w(2) have "\<forall>x\<in>set (rev (e # prev)). ee x \<le> Suc (unat m)" by fastforce
    from ext_bits_upto [OF this] 1 "2.prems" show ?thesis by simp
  next
    case 2
    let ?r = "rb_erase_node root (ext_node e)"
    from rb_node_access(6,7) [OF ino d] "2.prems"(4) have er: "inorder ?r = rev prev" "rb_tree_inv ?r" by simp_all
    from "2.IH" [OF 2 er(1) okp(1) _ er(2)] d ino have ih:
      "rb_tree_inv (rb_truncate_nodes m prev ?r)" "exts_ok (inorder (rb_truncate_nodes m prev ?r))"
      "ext_bits (inorder (rb_truncate_nodes m prev ?r)) = ext_bits (rev prev) \<inter> {..unat m}"
      "\<exists>ns. ext_nodes (rev prev) = ext_nodes (inorder (rb_truncate_nodes m prev ?r)) @ ns" by simp_all
    from 2(2) have "{es e..<ee e} \<inter> {..unat m} = {}" by (auto simp: word_cmp)
    moreover from ih(4) have "\<exists>ns. ext_nodes (rev (e # prev)) = ext_nodes (inorder (rb_truncate_nodes m prev ?r)) @ ns"
      by auto
    ultimately show ?thesis using 2 ih(1-3) by (simp add: Int_Un_distrib2)
  next
    case 3
    then have n: "es e \<le> unat m" "unat m < ee e - 1" unfolding word_cmp last by linarith+
    define e' where "e' = e\<lparr>ext_count := m - ext_start e + 1\<rparr>"
    have "unat (m - ext_start e) = unat m - es e" using n by (simp add: unat_minus_le)
    moreover from this have "unat (m - ext_start e + 1) = Suc (unat (m - ext_start e))"
      using n w(3) by (subst unat_plus_less) simp_all
    ultimately have e': "es e' = es e" "ee e' = Suc (unat m)" "ext_count e' \<noteq> 0"
      using n by (auto simp: e'_def)
    have oke: "ext_ok e'" using e'(2,3) n w(3) by (simp only: ext_ok_def) simp
    have ino': "inorder (rb_set_extent (ext_node e) (ext_start e) (m - ext_start e + 1) root) = rev prev @ [e']"
      using rb_set_extent_inorder [OF ino d] by (simp add: e'_def)
    have "exts_ok (rev prev @ [e'])" using okp oke e'(1) by simp
    moreover have "ext_bits (rev prev) \<inter> {..unat m} = ext_bits (rev prev)"
      using okp(2) n(1) by (intro ext_bits_upto) fastforce
    moreover have "{es e'..<ee e'} = {es e..<ee e} \<inter> {..unat m}" unfolding e'(2) unfolding e'(1) using n by auto
    moreover have "ext_nodes (rev prev @ [e']) = ext_nodes (rev (e # prev))" by (simp add: e'_def)
    ultimately show ?thesis using 3 "2.prems"(4) ino'
      by (simp add: Int_Un_distrib2)
  qed
qed

lemma rb_truncate_spec:
  assumes inv: "rb_inv bp" and cur: "rcursor bp = None" "wcursor bp = None"
  shows "rb_inv (bp\<lparr>rb_root := rb_truncate m (rb_root bp)\<rparr>)"
    "rb_bits (bp\<lparr>rb_root := rb_truncate m (rb_root bp)\<rparr>) = rb_bits bp \<inter> {..unat m}"
proof -
  have base: "rb_base bp" and ok: "exts_ok (inorder (rb_root bp))" using inv by (simp_all add: rb_inv_def)
  note t = rb_truncate_nodes_spec [of "rb_root bp" "rev (inorder (rb_root bp))" m, simplified,
      OF ok rb_baseD(1,3) [OF base], folded rb_truncate_def]
  then obtain ns where ns: "ext_nodes (inorder (rb_root bp)) = ext_nodes (inorder (rb_truncate m (rb_root bp))) @ ns"
    by blast
  have "rb_base (bp\<lparr>rb_root := rb_truncate m (rb_root bp)\<rparr>)"
    using t cur rb_baseD(1,2) [OF base] unfolding ns by (intro rb_baseI [OF refl]) simp_all
  with t show "rb_inv (bp\<lparr>rb_root := rb_truncate m (rb_root bp)\<rparr>)"
    "rb_bits (bp\<lparr>rb_root := rb_truncate m (rb_root bp)\<rparr>) = rb_bits bp \<inter> {..unat m}"
    by (simp_all add: rb_inv_def rb_bits_def)
qed

lemma rb_resize_valid:
  assumes v: "valid_rb bm" and n: "bm_start bm \<le> new_end" "new_end \<le> new_real_end" "Suc (unat new_real_end) < 2 ^ 64"
    and res: "rb_resize_bmap bm new_end new_real_end = (rv, bm')"
  shows "rv = 0 \<and> valid_rb bm' \<and> bm_end bm' = new_end \<and> bm_real_end bm' = new_real_end \<and>
    marked_rb bm' = {b \<in> marked_rb bm. b \<le> bm_end bm \<and> b \<le> new_end} \<union> {b. new_end < b \<and> b \<le> new_real_end}"
proof -
  let ?s = "unat (bm_start bm)"
  note h = header_okD [OF valid_rbD(1) [OF v]]
  have nn: "?s \<le> unat new_end" "unat new_end \<le> unat new_real_end" using n by (simp_all add: word_le_nat_alt)
  define mx where "mx = (if new_end < bm_end bm then new_end else bm_end bm) - bm_start bm"
  have mx: "unat mx = min (unat new_end) (unat (bm_end bm)) - ?s"
    using nn h by (simp add: mx_def unat_minus_le word_less_nat_alt min_def)
  define b0 where "b0 = rb_priv bm\<lparr>rcursor := None, wcursor := None\<rparr>"
  have "rb_base b0" using valid_rbD(2) [OF v] unfolding b0_def
    by (intro rb_baseI [OF refl]) (simp_all add: rb_inv_def rb_baseD del: set_map)
  then have i0: "rb_inv b0" "rcursor b0 = None" "wcursor b0 = None"
    using valid_rbD(2) [OF v] by (simp_all add: b0_def rb_inv_def)
  have bits0: "rb_bits b0 = rb_bits (rb_priv bm)" by (simp add: b0_def rb_bits_def)
  define b1 where "b1 = b0\<lparr>rb_root := rb_truncate mx (rb_root b0)\<rparr>"
  note t = rb_truncate_spec [OF i0, of mx, folded b1_def]
  define b2 where "b2 = (if new_end < new_real_end
      then snd (rb_insert_extent (new_end + 1 - bm_start bm) (new_real_end - new_end) b1) else b1)"
  have bm': "rv = 0" "bm' = rb_upd (bm\<lparr>bm_end := new_end, bm_real_end := new_real_end\<rparr>) b2"
    using res by (auto simp: rb_resize_bmap_def Let_def b2_def b1_def b0_def mx_def cong: if_cong)
  have b2: "rb_inv b2 \<and> rb_bits b2 = rb_bits b1 \<union> {Suc (unat new_end) - ?s..<Suc (unat new_real_end) - ?s}"
  proof (cases "new_end < new_real_end")
    case True
    have "unat (new_end + 1) = Suc (unat new_end)" using nn n(3) by (subst unat_plus_less) simp_all
    then have a: "unat (new_end + 1 - bm_start bm) = Suc (unat new_end) - ?s" using nn by (simp add: unat_minus_le)
    have c: "unat (new_real_end - new_end) = unat new_real_end - unat new_end" using nn by (simp add: unat_minus_le)
    have sum: "unat (new_end + 1 - bm_start bm) + unat (new_real_end - new_end) = Suc (unat new_real_end) - ?s"
      unfolding a c using nn by simp
    then have "unat (new_end + 1 - bm_start bm) + unat (new_real_end - new_end) < 2 ^ 64" using n(3) by simp
    from rb_insert_extent_spec [OF t(1) this prod.collapse [symmetric]] True show ?thesis
      unfolding b2_def sum unfolding a by simp
  next
    case False
    then have "unat new_end = unat new_real_end" using nn by (simp add: word_less_nat_alt)
    with False t(1) show ?thesis by (simp add: b2_def)
  qed
  have bits: "m \<in> rb_bits b2 \<longleftrightarrow> m \<in> rb_bits (rb_priv bm) \<and> m \<le> unat mx \<or>
      (unat new_end - ?s < m \<and> m \<le> unat new_real_end - ?s)" for m
  proof -
    have "Suc (unat new_end) - ?s \<le> m \<longleftrightarrow> unat new_end - ?s < m"
      "m < Suc (unat new_real_end) - ?s \<longleftrightarrow> m \<le> unat new_real_end - ?s" using nn by linarith+
    then show ?thesis using b2 t(2) bits0 by simp
  qed
  have "unat mx \<le> unat new_real_end - ?s" using mx nn by simp
  then have sub: "rb_bits b2 \<subseteq> {..unat new_real_end - ?s}" using bits by auto
  have "marked_rb bm' = {b \<in> marked_rb bm. b \<le> bm_end bm \<and> b \<le> new_end} \<union> {b. new_end < b \<and> b \<le> new_real_end}"
    (is "_ = ?R")
  proof (rule set_eqI)
    fix b
    show "b \<in> marked_rb bm' \<longleftrightarrow> b \<in> ?R"
    proof (cases "?s \<le> unat b")
      case True
      have "unat b - ?s \<le> unat mx \<longleftrightarrow> unat b \<le> unat (bm_end bm) \<and> unat b \<le> unat new_end"
        unfolding mx using True nn h by linarith
      moreover have "unat new_end - ?s < unat b - ?s \<longleftrightarrow> unat new_end < unat b"
        "unat b - ?s \<le> unat new_real_end - ?s \<longleftrightarrow> unat b \<le> unat new_real_end" using True nn by linarith+
      ultimately show ?thesis
        using True by (simp add: bm' marked_rb_def word_le_nat_alt word_less_nat_alt bits)
    next
      case False
      then show ?thesis using nn by (simp add: bm' marked_rb_def word_le_nat_alt word_less_nat_alt)
    qed
  qed
  moreover have "valid_rb bm'" using b2 sub n nn h by (simp add: bm' valid_rb_def header_ok_def)
  ultimately show ?thesis by (simp add: bm')
qed

section \<open>Reading a range into a buffer\<close>

lemma rb_get_fill_spec:
  assumes "unat start \<le> unat pos" "unat pos - unat start + unat count \<le> 8 * length out"
    and "unat pos + unat count < 2 ^ 64"
  shows "length (rb_get_fill start pos count out) = length out \<and>
    (\<forall>m. bit_at (rb_get_fill start pos count out) m \<longleftrightarrow>
       bit_at out m \<or> (unat pos - unat start \<le> m \<and> m < unat pos - unat start + unat count))"
  using assms
proof (induction start pos count out rule: rb_get_fill.induct)
  case (1 start pos count out)
  let ?r = "unat pos - unat start"
  have rel: "unat (pos - start) = ?r" using "1.prems"(1) by (simp add: unat_minus_le)
  consider "count = 0" | "count > 0" "count \<ge> 8" "(pos - start) mod 8 = 0"
    | "count > 0" "\<not> (count \<ge> 8 \<and> (pos - start) mod 8 = 0)" using word_gt_0 [of count] by blast
  then show ?case
  proof cases
    case 1
    then show ?thesis by (subst (1 2) rb_get_fill.simps) auto
  next
    case 2
    define nb where "nb = drop_bit 3 count"
    define off where "off = drop_bit 3 (pos - start)"
    have nb: "unat nb = unat count div 8" "unat (push_bit 3 nb) = 8 * unat nb"
      unfolding nb_def by (simp_all only: unat_drop_bit_3 unat_push_drop_3)
    have r8: "?r mod 8 = 0"
    proof -
      have "unat ((pos - start) mod 8) = unat (pos - start) mod 8" by (simp add: unat_mod_distrib)
      with 2(3) rel show ?thesis by simp
    qed
    then have r: "?r = 8 * unat off" unfolding off_def unat_drop_bit_3 rel by presburger
    have le: "8 * unat nb \<le> unat count" using nb(1) by simp
    let ?out = "memset out (unat off) 0xFF (unat nb)"
    have fit: "unat off + unat nb \<le> length out" using "1.prems"(2) r le by linarith
    have p': "unat (pos + push_bit 3 nb) = unat pos + 8 * unat nb"
      using "1.prems"(3) nb le by (subst unat_plus_less) simp_all
    have c': "unat (count - push_bit 3 nb) = unat count - 8 * unat nb"
      using le nb by (simp add: unat_minus_le)
    have run: "rb_get_fill start pos count out = rb_get_fill start (pos + push_bit 3 nb) (count - push_bit 3 nb) ?out"
      using 2 by (subst rb_get_fill.simps) (simp add: Let_def nb_def off_def)
    have ih: "length (rb_get_fill start (pos + push_bit 3 nb) (count - push_bit 3 nb) ?out) = length ?out \<and>
      (\<forall>m. bit_at (rb_get_fill start (pos + push_bit 3 nb) (count - push_bit 3 nb) ?out) m \<longleftrightarrow>
        bit_at ?out m \<or> (unat pos + 8 * unat nb - unat start \<le> m \<and>
          m < unat pos + 8 * unat nb - unat start + (unat count - 8 * unat nb)))"
      using "1.IH"(1) [OF 2(1) conjI [OF 2(2,3)] nb_def off_def] "1.prems" fit le unfolding p' c' by simp
    have ones: "bit_at ?out m \<longleftrightarrow> bit_at out m \<or> (?r \<le> m \<and> m < ?r + 8 * unat nb)" for m
    proof -
      have "unat off \<le> m div 8 \<and> m div 8 < unat off + unat nb \<longleftrightarrow> ?r \<le> m \<and> m < ?r + 8 * unat nb"
        unfolding r by auto
      then show ?thesis using bit_at_memset [OF fit, of "0xFF" m] byte_ones_iff [of "0xFF"]
        by (cases "?r \<le> m \<and> m < ?r + 8 * unat nb") auto
    qed
    have "(?r \<le> m \<and> m < ?r + 8 * unat nb) \<or> (unat pos + 8 * unat nb - unat start \<le> m \<and>
        m < unat pos + 8 * unat nb - unat start + (unat count - 8 * unat nb)) \<longleftrightarrow>
        ?r \<le> m \<and> m < ?r + unat count" for m using "1.prems"(1) le by linarith
    moreover have "bit_at (rb_get_fill start pos count out) m \<longleftrightarrow> (bit_at out m \<or> (?r \<le> m \<and> m < ?r + 8 * unat nb)) \<or>
        (unat pos + 8 * unat nb - unat start \<le> m \<and>
        m < unat pos + 8 * unat nb - unat start + (unat count - 8 * unat nb))" for m
      unfolding run using ih ones by blast
    moreover have "length (rb_get_fill start pos count out) = length out" unfolding run using ih fit by simp
    ultimately show ?thesis by blast
  next
    case 3
    let ?out = "ext2fs_fast_set_bit64 (pos - start) out"
    have c0: "0 < unat count" using 3(1) by (simp add: word_less_nat_alt)
    have p': "unat (pos + 1) = Suc (unat pos)" using "1.prems"(3) c0 by (subst unat_plus_less) simp_all
    have c': "unat (count - 1) = unat count - 1" using c0 by (simp add: unat_minus_le)
    have run: "rb_get_fill start pos count out = rb_get_fill start (pos + 1) (count - 1) ?out"
      using 3 by (subst rb_get_fill.simps) auto
    have room: "unat (pos - start) div 8 < length out" using "1.prems"(2) c0 rel by simp
    have ih: "length (rb_get_fill start (pos + 1) (count - 1) ?out) = length ?out \<and>
      (\<forall>m. bit_at (rb_get_fill start (pos + 1) (count - 1) ?out) m \<longleftrightarrow>
        bit_at ?out m \<or> (Suc (unat pos) - unat start \<le> m \<and> m < Suc (unat pos) - unat start + (unat count - 1)))"
      using "1.IH"(2) [OF 3(1)] 3(2) "1.prems" c0 unfolding p' c' by simp
    have "m = ?r \<or> (Suc (unat pos) - unat start \<le> m \<and> m < Suc (unat pos) - unat start + (unat count - 1)) \<longleftrightarrow>
        ?r \<le> m \<and> m < ?r + unat count" for m using "1.prems"(1) c0 by linarith
    moreover have "bit_at (rb_get_fill start pos count out) m \<longleftrightarrow> (m = ?r \<or> bit_at out m) \<or>
        (Suc (unat pos) - unat start \<le> m \<and> m < Suc (unat pos) - unat start + (unat count - 1))" for m
      unfolding run using ih bit_at_set_bit64(2) [OF room] rel by simp
    moreover have "length (rb_get_fill start pos count out) = length out" unfolding run using ih by simp
    ultimately show ?thesis by blast
  qed
qed

text \<open>The loop over the extents adds the bits of each extent that lie in the range.\<close>

lemma rb_get_scan_spec:
  assumes "exts_ok xs" "unat s + unat num < 2 ^ 64" "unat num \<le> 8 * length out"
  shows "length (rb_get_scan xs s num out) = length out \<and>
    (\<forall>m. bit_at (rb_get_scan xs s num out) m \<longleftrightarrow> bit_at out m \<or> (m < unat num \<and> unat s + m \<in> ext_bits xs))"
  using assms
proof (induction xs arbitrary: out)
  case Nil
  then show ?case by simp
next
  case (Cons e xs)
  have ok: "ext_ok e" "exts_ok xs" "\<forall>x\<in>set xs. ee e < es x" using Cons.prems(1) by simp_all
  note w = ext_ok_word [OF ok(1)]
  have sn: "unat (s + num) = unat s + unat num" using Cons.prems(2) by (simp add: unat_plus_less)
  consider (Stop) "ext_start e \<ge> s + num"
    | (Skip) "\<not> ext_start e \<ge> s + num" "ext_start e < s \<and> ext_start e + ext_count e < s"
    | (Fill) "\<not> ext_start e \<ge> s + num" "\<not> (ext_start e < s \<and> ext_start e + ext_count e < s)" by blast
  then show ?case
  proof cases
    case Stop
    then have "unat s + unat num \<le> es e" by (simp add: word_cmp sn)
    with ok(3) have "\<forall>x\<in>set (e # xs). unat s + unat num \<le> es x" by fastforce
    then have "unat s + m \<notin> ext_bits (e # xs)" if "m < unat num" for m
      using that by (intro ext_bits_outside) fastforce
    with Stop show ?thesis by auto
  next
    case Skip
    then have "ee e < unat s" by (simp add: word_cmp w)
    then have "unat s + m \<in> ext_bits (e # xs) \<longleftrightarrow> unat s + m \<in> ext_bits xs" for m by auto
    with Cons.IH [OF ok(2) Cons.prems(2,3)] Skip show ?thesis by simp
  next
    case Fill
    have lt: "es e < unat s + unat num" and ge: "unat s \<le> ee e"
      using Fill w by (auto simp: word_cmp sn)
    define pos where "pos = (if ext_start e < s then s else ext_start e)"
    define c1 where "c1 = (if ext_start e < s then ext_count e - (s - ext_start e) else ext_count e)"
    define c2 where "c2 = (if pos + c1 > s + num then s + num - pos else c1)"
    have pos: "unat pos = max (unat s) (es e)" by (simp add: pos_def word_cmp max_def)
    have c1: "unat pos + unat c1 = ee e"
    proof (cases "ext_start e < s")
      case True
      then have "es e < unat s" by (simp add: word_cmp)
      then have "unat (s - ext_start e) = unat s - es e" by (simp add: unat_minus_le)
      moreover from this ge have "unat (ext_count e - (s - ext_start e)) = unat (ext_count e) - (unat s - es e)"
        by (simp add: unat_minus_le)
      ultimately show ?thesis using True ge \<open>es e < unat s\<close> by (simp add: pos_def c1_def)
    qed (simp add: pos_def c1_def)
    then have pc: "unat (pos + c1) = ee e" using w(3) by (simp add: unat_plus_less)
    have c2: "unat pos + unat c2 = min (ee e) (unat s + unat num)"
    proof (cases "pos + c1 > s + num")
      case True
      then have "unat s + unat num < ee e" by (simp add: word_cmp sn pc)
      moreover have "unat (s + num - pos) = unat s + unat num - unat pos"
        using pos lt by (simp add: unat_minus_le sn)
      ultimately show ?thesis using True pos lt by (simp add: c2_def)
    next
      case False
      then show ?thesis using c1 by (simp add: c2_def word_cmp sn pc)
    qed
    have le: "unat s \<le> unat pos" by (simp add: pos)
    have "unat pos + unat c2 \<le> unat s + unat num" using c2 by simp
    then have fit: "unat pos - unat s + unat c2 \<le> 8 * length out" "unat pos + unat c2 < 2 ^ 64"
      using Cons.prems(2,3) le by linarith+
    note fl = rb_get_fill_spec [OF le fit]
    let ?out = "rb_get_fill s pos c2 out"
    have run: "rb_get_scan (e # xs) s num out = rb_get_scan xs s num ?out"
      using Fill by (simp add: Let_def pos_def c1_def c2_def)
    have "unat num \<le> 8 * length ?out" using fl Cons.prems(3) by simp
    note ih = Cons.IH [OF ok(2) Cons.prems(2) this]
    have "unat pos - unat s \<le> m \<and> m < unat pos - unat s + unat c2 \<longleftrightarrow> m < unat num \<and> unat s + m \<in> {es e..<ee e}" for m
    proof -
      have "unat pos - unat s \<le> m \<longleftrightarrow> unat pos \<le> unat s + m"
        "m < unat pos - unat s + unat c2 \<longleftrightarrow> unat s + m < unat pos + unat c2" using le by linarith+
      then show ?thesis unfolding c2 unfolding pos by auto
    qed
    then have "bit_at (rb_get_scan xs s num ?out) m \<longleftrightarrow>
        (bit_at out m \<or> (m < unat num \<and> unat s + m \<in> {es e..<ee e})) \<or>
        (m < unat num \<and> unat s + m \<in> ext_bits xs)" for m
      using ih fl by simp
    then show ?thesis unfolding run using ih fl by (simp only: ext_bits_simps Un_iff) blast
  qed
qed

text \<open>The extents that the loop visits hold every marked bit from \<open>s\<close> on.\<close>

lemma rb_get_suffix:
  assumes inv: "rb_inv bp"
    and par: "parent = (case rb_search s (rb_root bp) of (Node _ _ ext _, _) \<Rightarrow> Some ext | (Leaf, ps) \<Rightarrow> rb_parent ps)"
  shows "exts_ok (rb_scan_from (rb_root bp) parent)"
    and "unat s \<le> n \<Longrightarrow> n \<in> ext_bits (rb_scan_from (rb_root bp) parent) \<longleftrightarrow> n \<in> rb_bits bp"
proof -
  note ok = rb_inv_exts_ok [OF inv]
  have dist: "distinct (ext_nodes (inorder (rb_root bp)))" using inv by (simp add: rb_inv_def rb_base_distinct)
  obtain as bs where ab: "inorder (rb_root bp) = as @ bs" "rb_scan_from (rb_root bp) parent = bs"
    "\<forall>a\<in>set as. ee a \<le> unat s"
  proof (cases "rb_search s (rb_root bp)")
    case (Pair n ps)
    show thesis
    proof (cases n)
      case (Node cl l e r)
      note nd = rb_search_Node [OF Pair [unfolded Node] ok]
      have "rb_scan_from (rb_root bp) parent = e # (inorder r @ after ps)"
        using rb_node_access(2) [OF nd(1) dist] Pair Node par by (simp add: rb_scan_from_def)
      moreover have "\<forall>a\<in>set (before ps @ inorder l). ee a \<le> unat s"
      proof
        fix a assume "a \<in> set (before ps @ inorder l)"
        then have "ee a < es e" using ok unfolding nd(1) by auto
        with nd(2) show "ee a \<le> unat s" by simp
      qed
      ultimately show thesis using that nd(1) by blast
    next
      case Leaf
      note lf = rb_search_Leaf [OF Pair [unfolded Leaf] ok]
      have pp: "parent = rb_parent ps" using par Pair Leaf by simp
      have "rb_scan_from (rb_root bp) parent = after ps \<or>
          (before ps \<noteq> [] \<and> rb_scan_from (rb_root bp) parent = last (before ps) # after ps)"
        using rb_parent_neighbour [of ps] by (intro rb_scan_from_cases [OF lf(1) dist]) (auto simp: pp)
      then show thesis
      proof (elim disjE conjE)
        assume "rb_scan_from (rb_root bp) parent = after ps"
        then show thesis using that lf(1,2) by blast
      next
        assume b: "before ps \<noteq> []" "rb_scan_from (rb_root bp) parent = last (before ps) # after ps"
        then have "inorder (rb_root bp) = butlast (before ps) @ (last (before ps) # after ps)"
          using lf(1) by (metis append_Cons append_Nil append_assoc append_butlast_last_id)
        then show thesis using that b(2) lf(2) by (meson in_set_butlastD)
      qed
    qed
  qed
  show "exts_ok (rb_scan_from (rb_root bp) parent)" using ok by (simp add: ab)
  show "n \<in> ext_bits (rb_scan_from (rb_root bp) parent) \<longleftrightarrow> n \<in> rb_bits bp" if "unat s \<le> n"
  proof -
    have "n \<notin> ext_bits as" using ab(3) that by (intro ext_bits_outside) fastforce
    then show ?thesis by (simp add: ab rb_bits_def)
  qed
qed

lemma rb_get_range_spec:
  assumes v: "valid_rb bm" and ne: "rb_root (rb_priv bm) \<noteq> Leaf"
    and r: "bm_start bm \<le> start" "unat start + unat num < 2 ^ 64" "unat num + 7 < 2 ^ 64"
    and buf: "(unat num + 7) div 8 \<le> length out"
    and res: "rb_get_bmap_range bm start num out = (rv, out')"
  shows "rv = 0 \<and> length out' = length out \<and>
    (\<forall>m < 8 * ((unat num + 7) div 8). bit_at out' m \<longleftrightarrow> m < unat num \<and> start + word_of_nat m \<in> marked_rb bm)"
proof -
  let ?bp = "rb_priv bm" and ?s = "start - bm_start bm" and ?nb = "(unat num + 7) div 8"
  define parent where "parent = (case rb_search ?s (rb_root ?bp) of (Node _ _ ext _, _) \<Rightarrow> Some ext | (Leaf, ps) \<Rightarrow> rb_parent ps)"
  note suf = rb_get_suffix [OF valid_rbD(2) [OF v] parent_def]
  have rs: "unat ?s = unat start - unat (bm_start bm)" "unat (bm_start bm) \<le> unat start"
    using r(1) by (simp_all add: unat_minus_le word_le_nat_alt)
  have "unat (num + 7) = unat num + 7" using r(3) by (subst unat_plus_less) simp_all
  then have nb: "unat (drop_bit 3 (num + 7)) = ?nb" by (simp only: unat_drop_bit_3)
  let ?z = "memset out 0 0 ?nb"
  have "0 + ?nb \<le> length out" using buf by simp
  note z = bit_at_memset [OF this, of 0] length_memset [OF this]
  have "unat num \<le> 8 * length ?z" unfolding z(2) using buf by presburger
  moreover have "unat ?s + unat num < 2 ^ 64" using rs r(2) by linarith
  ultimately have sc: "length (rb_get_scan (rb_scan_from (rb_root ?bp) parent) ?s num ?z) = length ?z \<and>
    (\<forall>m. bit_at (rb_get_scan (rb_scan_from (rb_root ?bp) parent) ?s num ?z) m \<longleftrightarrow>
      bit_at ?z m \<or> (m < unat num \<and> unat ?s + m \<in> ext_bits (rb_scan_from (rb_root ?bp) parent)))"
    by (intro rb_get_scan_spec [OF suf(1)])
  have out': "rv = 0" "out' = rb_get_scan (rb_scan_from (rb_root ?bp) parent) ?s num ?z"
    using res ne by (auto simp: rb_get_bmap_range_def ext2fs_rb_empty_root_def Let_def nb parent_def)
  have "bit_at out' m \<longleftrightarrow> m < unat num \<and> start + word_of_nat m \<in> marked_rb bm" if m: "m < 8 * ?nb" for m
  proof -
    have "\<not> bit_at ?z m" using z(1) [of m] m by auto
    then have "bit_at out' m \<longleftrightarrow> m < unat num \<and> unat ?s + m \<in> rb_bits ?bp"
      using sc suf(2) [of "unat ?s + m"] unfolding out'(2) by simp
    also have "\<dots> \<longleftrightarrow> m < unat num \<and> start + word_of_nat m \<in> marked_rb bm"
    proof (cases "m < unat num")
      case True
      then have lt: "unat start + m < 2 ^ 64" using r(2) by linarith
      then have "unat (word_of_nat m :: u64) = m" by (intro unat_word_of_nat) simp
      with lt have u: "unat (start + word_of_nat m) = unat start + m" by (simp add: unat_plus_less)
      then have "bm_start bm \<le> start + word_of_nat m" using rs(2) by (simp add: word_le_nat_alt)
      moreover have "unat start + m - unat (bm_start bm) = unat ?s + m" using rs by linarith
      ultimately show ?thesis using True u by (simp add: marked_rb_def)
    qed simp
    finally show ?thesis .
  qed
  with out'(1) sc z(2) show ?thesis unfolding out'(2) by simp
qed

section \<open>Writing a range from a buffer\<close>

text \<open>A run of set bits that the loop has seen but not inserted yet: it starts at
  \<open>first_set\<close>, if there is one, and ends before \<open>k\<close>.\<close>

definition pending :: "nat \<Rightarrow> int \<Rightarrow> nat \<Rightarrow> nat set" where
  "pending base fs k = (if fs = -1 then {} else {base + nat fs..<base + k})"

lemma to_c_int_small: "i < 2 ^ 31 \<Longrightarrow> to_c_int i = int i"
  by (simp add: to_c_int_def signed_of_nat signed_take_bit_int_eq_self)

lemma rb_flush:
  assumes inv: "rb_inv bp" and fs: "0 \<le> fs" "fs < int k" and k: "unat base + k < 2 ^ 64" "unat kw = k"
    and ins: "rb_insert_extent (base + word_of_int fs) (kw - word_of_int fs) bp = (rv, bp')"
  shows "rb_inv bp' \<and> rb_bits bp' = rb_bits bp \<union> pending (unat base) fs k"
proof -
  obtain f where f: "fs = int f" using fs(1) nonneg_int_cases by blast
  have fk: "f < k" "nat fs = f" using fs(2) by (simp_all add: f)
  have w: "word_of_int fs = (word_of_nat f :: u64)" by (simp add: f)
  have "f < 2 ^ 64" using fk(1) k(1) by linarith
  then have u: "unat (word_of_nat f :: u64) = f" by (intro unat_word_of_nat) simp
  have "unat base + f < 2 ^ 64" using fk(1) k(1) by linarith
  then have a: "unat (base + word_of_nat f) = unat base + f" by (simp add: unat_plus_less u)
  have c: "unat (kw - word_of_nat f) = k - f" using fk(1) by (simp add: unat_minus_le u k(2))
  have sum: "unat (base + word_of_nat f) + unat (kw - word_of_nat f) = unat base + k"
    unfolding a c using fk(1) by linarith
  have "unat (base + word_of_nat f) + unat (kw - word_of_nat f) < 2 ^ 64" unfolding sum by (rule k(1))
  from rb_insert_extent_spec [OF inv this ins [unfolded w]]
  have "rb_inv bp' \<and> rb_bits bp' = rb_bits bp \<union> {unat base + f..<unat base + k}"
    unfolding sum unfolding a by blast
  moreover have "fs \<noteq> -1" by (simp add: f)
  ultimately show ?thesis unfolding pending_def fk(2) by simp
qed

text \<open>The bits of the buffer from \<open>i\<close> on, relative to the map.\<close>

definition buf_bits :: "nat \<Rightarrow> nat \<Rightarrow> u8 list \<Rightarrow> nat \<Rightarrow> nat set" where
  "buf_bits base num cp i = {base + j | j. i \<le> j \<and> j < num \<and> bit_at cp j}"

lemma buf_bits_Suc:
  assumes "i < num"
  shows "buf_bits base num cp i = (if bit_at cp i then {base + i} else {}) \<union> buf_bits base num cp (Suc i)"
  using assms by (auto simp: buf_bits_def Suc_le_eq le_less)

lemma buf_bits_skip:
  assumes "\<forall>j. i \<le> j \<and> j < i + 8 \<longrightarrow> bit_at cp j = b"
  shows "buf_bits base num cp i =
    (if b then {base + i..<base + min (i + 8) num} else {}) \<union> buf_bits base num cp (i + 8)"
proof (rule set_eqI)
  fix x
  show "x \<in> buf_bits base num cp i \<longleftrightarrow> x \<in> (if b then {base + i..<base + min (i + 8) num} else {}) \<union> buf_bits base num cp (i + 8)"
  proof (cases "base \<le> x")
    case True
    then obtain j where j: "x = base + j" using le_Suc_ex by blast
    show ?thesis unfolding j using assms by (cases "i \<le> j \<and> j < i + 8") (auto simp: buf_bits_def)
  qed (auto simp: buf_bits_def)
qed

lemma pending_extend:
  assumes "fs = -1 \<or> (0 \<le> fs \<and> fs < int i)" "i \<le> k"
  shows "pending base (if fs = -1 then int i else fs) k = pending base fs i \<union> {base + i..<base + k}"
  using assms by (auto simp: pending_def)

lemma rb_set_range_loop_spec:
  assumes "rb_set_range_loop base num cp i fs bp = (fs', bp')"
    and "rb_inv bp" "num < 2 ^ 31" "num \<le> 8 * length cp" "unat base + num < 2 ^ 64"
    and "fs = -1 \<or> (0 \<le> fs \<and> fs < int i \<and> fs < int num)"
  shows "rb_inv bp' \<and> (fs' = -1 \<or> (0 \<le> fs' \<and> fs' < int num)) \<and>
    rb_bits bp' \<union> pending (unat base) fs' num =
    rb_bits bp \<union> pending (unat base) fs (min i num) \<union> buf_bits (unat base) num cp i"
  using assms
proof (induction base num cp i fs bp rule: rb_set_range_loop.induct)
  case (1 base num cp i fs bp)
  note IH = "1.IH" and P = "1.prems"
  show ?case
  proof (cases "i < num")
    case False
    then have "fs' = fs" "bp' = bp" using P(1) by (simp_all add: rb_set_range_loop.simps)
    with P False show ?thesis by (auto simp: buf_bits_def min_def)
  next
    case True
    let ?f = "if fs = -1 then to_c_int i else fs"
    have fi: "to_c_int i = int i" using True P(3) by (intro to_c_int_small) linarith
    have mi: "min i num = i" using True by simp
    have test: "ext2fs_test_bit (word_of_nat i) cp \<noteq> 0 \<longleftrightarrow> bit_at cp i"
    proof -
      have "unat (word_of_nat i :: u32) = i" using True P(3) by (intro unat_word_of_nat) simp
      moreover have "i div 8 < length cp" using True P(4) by linarith
      ultimately show ?thesis using test_bit_iff(1) [of "word_of_nat i" cp] by simp
    qed
    have byte: "i \<le> j \<Longrightarrow> j < i + 8 \<Longrightarrow> bit_at cp j \<longleftrightarrow> bit (cp ! (i div 8)) (j - i)" if "i mod 8 = 0" for j
    proof -
      assume "i \<le> j" "j < i + 8"
      then obtain k where k: "j = i + k" "k < 8" by (metis le_Suc_ex nat_add_left_cancel_less)
      from that obtain d where d: "i = 8 * d" by (auto simp: mod_eq_0_iff_dvd elim: dvdE)
      have "(8 * d + k) div 8 = d" "(8 * d + k) mod 8 = k" using k(2) by simp_all
      moreover have "d < length cp" using True P(4) d by linarith
      ultimately show ?thesis using k d by (simp add: bit_at_def)
    qed
    have f_ok: "?f = -1 \<or> (0 \<le> ?f \<and> ?f < int (i + 8) \<and> ?f < int num)" "?f = -1 \<or> (0 \<le> ?f \<and> ?f < int (Suc i) \<and> ?f < int num)"
      using P(6) True unfolding fi by (cases "fs = -1"; simp)+
    have pe: "pending (unat base) ?f k = pending (unat base) fs i \<union> {unat base + i..<unat base + k}" if "i \<le> k" for k
    proof -
      have "fs = -1 \<or> (0 \<le> fs \<and> fs < int i)" using P(6) by blast
      from pending_extend [OF this that] show ?thesis unfolding fi .
    qed
    consider (Ones) "i mod 8 = 0 \<and> cp ! (i div 8) = 0xFF"
      | (Zeros) "\<not> (i mod 8 = 0 \<and> cp ! (i div 8) = 0xFF)" "i mod 8 = 0 \<and> cp ! (i div 8) = 0 \<and> fs = -1"
      | (Rest) "\<not> (i mod 8 = 0 \<and> cp ! (i div 8) = 0xFF)" "\<not> (i mod 8 = 0 \<and> cp ! (i div 8) = 0 \<and> fs = -1)" by blast
    then show ?thesis
    proof cases
      case Ones
      then have "\<forall>j. i \<le> j \<and> j < i + 8 \<longrightarrow> bit_at cp j = True"
        using byte byte_ones_iff [of "0xFF"] by auto
      note sk = buf_bits_skip [OF this, where base = "unat base" and num = num]
      have "rb_set_range_loop base num cp (i + 8) ?f bp = (fs', bp')"
        using P(1) True Ones by (simp add: rb_set_range_loop.simps [of base num cp i])
      note ih = IH(1) [OF True Ones this P(2-5) f_ok(1)]
      have le: "i \<le> min (i + 8) num" using True by simp
      from ih show ?thesis unfolding sk pe [OF le] mi if_True Un_assoc .
    next
      case Zeros
      then have "\<forall>j. i \<le> j \<and> j < i + 8 \<longrightarrow> bit_at cp j = False" using byte by auto
      note sk = buf_bits_skip [OF this, where base = "unat base" and num = num]
      have "rb_set_range_loop base num cp (i + 8) fs bp = (fs', bp')"
        using P(1) True Zeros by (simp add: rb_set_range_loop.simps [of base num cp i])
      from IH(2) [OF True Zeros this P(2-5)] Zeros(2) sk show ?thesis by (simp add: pending_def)
    next
      case Rest
      note sk = buf_bits_Suc [OF True, of "unat base" cp]
      note un = rb_set_range_loop.simps [of base num cp i] if_P [OF True] if_not_P [OF Rest(1)] if_not_P [OF Rest(2)]
      show ?thesis
      proof (cases "bit_at cp i")
        case bit: True
        have "rb_set_range_loop base num cp (Suc i) ?f bp = (fs', bp')"
          using P(1) unfolding un if_P [OF test [THEN iffD2, OF bit]] .
        note ih = IH(3) [OF True Rest test [THEN iffD2, OF bit] this P(2-5) f_ok(2)]
        have ms: "min (Suc i) num = Suc i" using True by simp
        have one: "{unat base + i} = {unat base + i..<unat base + Suc i}" by auto
        from ih show ?thesis unfolding sk if_P [OF bit] one mi ms pe [OF le_SucI [OF order_refl]] Un_assoc .
      next
        case nobit: False
        then have t: "\<not> ext2fs_test_bit (word_of_nat i) cp \<noteq> 0" using test by blast
        show ?thesis
        proof (cases "fs = -1")
          case fs: True
          have "rb_set_range_loop base num cp (Suc i) fs bp = (fs', bp')"
            using P(1) unfolding un if_not_P [OF t] if_P [OF fs] .
          from IH(4) [OF True Rest t fs this P(2-5)] fs sk nobit show ?thesis by (simp add: pending_def)
        next
          case fs: False
          let ?bp = "snd (rb_insert_extent (base + word_of_int fs) (word_of_nat i - word_of_int fs) bp)"
          have iu: "unat (word_of_nat i :: u64) = i" using True P(3) by (intro unat_word_of_nat) simp
          have "unat base + i < 2 ^ 64" using True P(5) by linarith
          then have fl: "rb_inv ?bp \<and> rb_bits ?bp = rb_bits bp \<union> pending (unat base) fs i"
            using P(6) fs iu by (intro rb_flush [OF P(2) _ _ _ _ prod.collapse [symmetric]]) auto
          have "rb_set_range_loop base num cp (Suc i) (-1) ?bp = (fs', bp')"
            using P(1) unfolding un if_not_P [OF t] if_not_P [OF fs] .
          from IH(5) [OF True Rest t fs this _ P(3-5)] fl sk nobit mi show ?thesis by (simp add: pending_def)
        qed
      qed
    qed
  qed
qed

lemma rb_set_range_valid:
  assumes v: "valid_rb bm" and r: "bm_start bm \<le> start" "unat start + unat num \<le> Suc (unat (bm_real_end bm))"
    and n: "unat num < 2 ^ 31" "unat num \<le> 8 * length cp"
    and res: "rb_set_bmap_range bm start num cp = (rv, bm')"
  shows "rv = 0 \<and> valid_rb bm' \<and> same_header bm bm' \<and>
    marked_rb bm' = marked_rb bm \<union>
      {b. unat start \<le> unat b \<and> unat b < unat start + unat num \<and> bit_at cp (unat b - unat start)}"
proof -
  let ?base = "start - bm_start bm"
  note h = header_okD [OF valid_rbD(1) [OF v]]
  have rs: "unat ?base = unat start - unat (bm_start bm)" "unat (bm_start bm) \<le> unat start"
    using r(1) by (simp_all add: unat_minus_le word_le_nat_alt)
  have room: "unat ?base + unat num < 2 ^ 64" using rs r(2) h by linarith
  obtain fs bp where lp: "rb_set_range_loop ?base (unat num) cp 0 (-1) (rb_priv bm) = (fs, bp)" by fastforce
  from rb_set_range_loop_spec [OF lp valid_rbD(2) [OF v] n room] have
    l: "rb_inv bp" "fs = -1 \<or> (0 \<le> fs \<and> fs < int (unat num))"
    "rb_bits bp \<union> pending (unat ?base) fs (unat num) = rb_bits (rb_priv bm) \<union> buf_bits (unat ?base) (unat num) cp 0"
    by (simp_all add: pending_def)
  define bp' where "bp' = (if fs \<noteq> -1
    then snd (rb_insert_extent (?base + word_of_int fs) (num - word_of_int fs) bp) else bp)"
  have bm': "rv = 0" "bm' = rb_upd bm bp'"
    using res lp by (auto simp: rb_set_bmap_range_def bp'_def split: if_splits)
  have b': "rb_inv bp' \<and> rb_bits bp' = rb_bits (rb_priv bm) \<union> buf_bits (unat ?base) (unat num) cp 0"
  proof (cases "fs = -1")
    case True
    with l show ?thesis by (simp add: bp'_def pending_def)
  next
    case False
    then have "0 \<le> fs" "fs < int (unat num)" using l(2) by auto
    from rb_flush [OF l(1) this room refl prod.collapse [symmetric]] False l(3) show ?thesis
      by (simp add: bp'_def)
  qed
  have buf: "unat b - unat (bm_start bm) \<in> buf_bits (unat ?base) (unat num) cp 0 \<longleftrightarrow>
      unat start \<le> unat b \<and> unat b < unat start + unat num \<and> bit_at cp (unat b - unat start)"
    if "unat (bm_start bm) \<le> unat b" for b :: u64
  proof
    assume "unat b - unat (bm_start bm) \<in> buf_bits (unat ?base) (unat num) cp 0"
    then obtain j where j: "unat b - unat (bm_start bm) = unat ?base + j" "j < unat num" "bit_at cp j"
      by (auto simp: buf_bits_def)
    then have "unat b = unat start + j" using rs that by linarith
    with j show "unat start \<le> unat b \<and> unat b < unat start + unat num \<and> bit_at cp (unat b - unat start)" by simp
  next
    assume a: "unat start \<le> unat b \<and> unat b < unat start + unat num \<and> bit_at cp (unat b - unat start)"
    have "unat b - unat (bm_start bm) = unat ?base + (unat b - unat start)" using rs a by linarith
    moreover have "unat b - unat start < unat num" using a by linarith
    ultimately show "unat b - unat (bm_start bm) \<in> buf_bits (unat ?base) (unat num) cp 0"
      using a unfolding buf_bits_def by blast
  qed
  have "buf_bits (unat ?base) (unat num) cp 0 \<subseteq> {..unat (bm_real_end bm) - unat (bm_start bm)}"
    using rs r(2) by (auto simp: buf_bits_def)
  then have "valid_rb bm'" using b' valid_rbD(3) [OF v] unfolding bm' by (intro valid_rb_upd [OF v]) auto
  moreover have "marked_rb bm' = marked_rb bm \<union>
      {b. unat start \<le> unat b \<and> unat b < unat start + unat num \<and> bit_at cp (unat b - unat start)}"
    using b' buf rs(2) by (auto simp: bm' marked_rb_def word_le_nat_alt)
  ultimately show ?thesis using bm' by simp
qed

end
