(* ===== verification/Gen_Bitmap64_Correct.thy ===== *)
theory Gen_Bitmap64_Correct
  imports Gen_Bitmap64 Gen_Bitmap_Correct Blkmap64_RB_Range
begin

text \<open>
  Correctness of the generic bitmap layer. A generic bitmap of either layout and
  either back end stands for a set of clusters with bounds; each operation is
  shown to do, for every argument, what the specification on that set says.
\<close>

section \<open>The back end of a map\<close>

definition valid_64 :: "bmap64 \<Rightarrow> bool" where
  "valid_64 b \<longleftrightarrow> valid_ba b \<or> valid_rb b"

definition marked_64 :: "bmap64 \<Rightarrow> u64 set" where
  "marked_64 b = (case bm_private b of BA_private _ \<Rightarrow> marked_ba b | RB_private _ \<Rightarrow> marked_rb b)"

lemma ba_kind: "valid_ba b \<Longrightarrow> bitmap_ops b = ext2fs_blkmap64_bitarray 0 \<and> marked_64 b = marked_ba b \<and> valid_64 b"
  using valid_baD(3) [of b] by (auto simp: bitmap_ops_def marked_64_def valid_64_def split: bmap_private.splits)

lemma rb_kind: "valid_rb b \<Longrightarrow> bitmap_ops b = ext2fs_blkmap64_rbtree \<and> marked_64 b = marked_rb b \<and> valid_64 b"
  using valid_rbD(4) [of b] by (auto simp: bitmap_ops_def marked_64_def valid_64_def split: bmap_private.splits)

text \<open>The table that calls the operations of the back end of its argument; a new
  map is made by the given table.\<close>

definition dispatch :: "ext2_bitmap_ops \<Rightarrow> ext2_bitmap_ops" where
  "dispatch new = new\<lparr>
     copy_bmap := (\<lambda>mem junk src. copy_bmap (bitmap_ops src) mem junk src),
     resize_bmap := (\<lambda>mem junk b. resize_bmap (bitmap_ops b) mem junk b),
     mark_bmap := (\<lambda>b. mark_bmap (bitmap_ops b) b),
     unmark_bmap := (\<lambda>b. unmark_bmap (bitmap_ops b) b),
     test_bmap := (\<lambda>b. test_bmap (bitmap_ops b) b),
     mark_bmap_extent := (\<lambda>b. mark_bmap_extent (bitmap_ops b) b),
     unmark_bmap_extent := (\<lambda>b. unmark_bmap_extent (bitmap_ops b) b),
     test_clear_bmap_extent := (\<lambda>b. test_clear_bmap_extent (bitmap_ops b) b),
     set_bmap_range := (\<lambda>b. set_bmap_range (bitmap_ops b) b),
     get_bmap_range := (\<lambda>b. get_bmap_range (bitmap_ops b) b),
     clear_bmap := (\<lambda>b. clear_bmap (bitmap_ops b) b)\<rparr>"

lemma dispatch_sel [simp]:
  "new_bmap (dispatch new) = new_bmap new"
  "mark_bmap (dispatch new) b = mark_bmap (bitmap_ops b) b"
  "unmark_bmap (dispatch new) b = unmark_bmap (bitmap_ops b) b"
  "test_bmap (dispatch new) b = test_bmap (bitmap_ops b) b"
  "mark_bmap_extent (dispatch new) b = mark_bmap_extent (bitmap_ops b) b"
  "unmark_bmap_extent (dispatch new) b = unmark_bmap_extent (bitmap_ops b) b"
  "test_clear_bmap_extent (dispatch new) b = test_clear_bmap_extent (bitmap_ops b) b"
  "clear_bmap (dispatch new) b = clear_bmap (bitmap_ops b) b"
  by (simp_all add: dispatch_def)

text \<open>The extent tree looks one bit too far when it reports a cleared bit.\<close>

definition is_tree :: "bmap64 \<Rightarrow> bool" where
  "is_tree b = (case bm_private b of BA_private _ \<Rightarrow> False | RB_private _ \<Rightarrow> True)"

lemma tree_kind: "valid_ba b \<Longrightarrow> \<not> is_tree b" "valid_rb b \<Longrightarrow> is_tree b"
  using valid_baD(3) [of b] valid_rbD(4) [of b] by (auto simp: is_tree_def split: bmap_private.splits)

lemma dispatch_exec: "bm_exec (dispatch new) c b = bm_exec (bitmap_ops b) c b"
  by (cases c) simp_all

lemma dispatch_kind:
  assumes "valid_64 b" "call_ok b c" "bm_exec (bitmap_ops b) c b = (r, b')"
  shows "is_tree b' = is_tree b"
  using assms bitarray.exec_refines [of b c 0 r b'] rbtree.exec_refines [of b c r b'] tree_kind [of b] tree_kind [of b'] ba_kind [of b] rb_kind [of b]
  by (auto simp: valid_64_def)

lemma dispatch_backend:
  assumes new: "\<And>bm mem junk bm'. header_ok bm \<Longrightarrow> new_bmap new mem junk bm = (0, bm') \<Longrightarrow>
    valid_64 bm' \<and> same_header bm bm' \<and> marked_64 bm' = {}"
  shows "bmap_backend (dispatch new) valid_64 marked_64 is_tree"
proof (unfold_locales, unfold dispatch_sel, goal_cases)
  case (1 bm mem junk bm')
  then show ?case by (rule new)
next
  case (2 bm b)
  then show ?case unfolding valid_64_def
    using ba_kind rb_kind bitarray.marked_in_range rbtree.marked_in_range by metis
next
  case (3 bm b r bm')
  then show ?case unfolding valid_64_def
    using ba_kind rb_kind bitarray.mark_marked rbtree.mark_marked by metis
next
  case (4 bm b r bm')
  then show ?case unfolding valid_64_def
    using ba_kind rb_kind tree_kind bitarray.unmark_marked rbtree.unmark_marked by metis
next
  case (5 bm b r bm')
  then show ?case unfolding valid_64_def
    using ba_kind rb_kind bitarray.test_marked rbtree.test_marked by metis
next
  case (6 bm b n bm')
  then show ?case unfolding valid_64_def
    using ba_kind rb_kind bitarray.mark_extent_marked rbtree.mark_extent_marked by metis
next
  case (7 bm b n bm')
  then show ?case unfolding valid_64_def
    using ba_kind rb_kind bitarray.unmark_extent_marked rbtree.unmark_extent_marked by metis
next
  case (8 bm b n)
  then show ?case unfolding valid_64_def
    using ba_kind rb_kind bitarray.test_clear_marked rbtree.test_clear_marked by metis
next
  case (9 bm bm')
  then show ?case unfolding valid_64_def
    using ba_kind rb_kind bitarray.clear_marked rbtree.clear_marked by metis
next
  case (10 bm c ret bm')
  then show ?case unfolding dispatch_exec by (rule dispatch_kind)
qed

interpretation any_ba: bmap_backend "dispatch (ext2fs_blkmap64_bitarray 0)" valid_64 marked_64 is_tree
  by (rule dispatch_backend) (metis bitarray.new_bmap_marked ba_kind)

interpretation any_rb: bmap_backend "dispatch ext2fs_blkmap64_rbtree" valid_64 marked_64 is_tree
  by (rule dispatch_backend) (metis rbtree.new_bmap_marked rb_kind)

lemmas op_marked =
  any_rb.mark_marked [unfolded dispatch_sel] any_rb.unmark_marked [unfolded dispatch_sel]
  any_rb.test_marked [unfolded dispatch_sel]
lemmas extent_marked =
  any_rb.mark_extent_marked [unfolded dispatch_sel] any_rb.unmark_extent_marked [unfolded dispatch_sel]
  any_rb.test_clear_marked [unfolded dispatch_sel] any_rb.clear_marked [unfolded dispatch_sel]

lemma valid_64_header: "valid_64 b \<Longrightarrow> header_ok b"
  using valid_baD(1) valid_rbD(1) by (auto simp: valid_64_def)

section \<open>A generic bitmap as a set of clusters\<close>

text \<open>The bits of a map that a caller can reach are those up to its end; clusters of
  a 32-bit map are blocks.\<close>

fun gb_ok :: "generic_bitmap \<Rightarrow> bool" where
  "gb_ok (Bitmap32 b) \<longleftrightarrow> valid_32 b \<and> EXT2FS_IS_32_BITMAP (b32_magic b)"
| "gb_ok (Bitmap64 b) \<longleftrightarrow> valid_64 b \<and> EXT2FS_IS_64_BITMAP (bm_magic b) \<and> bm_cluster_bits b < 31"

fun gb_start :: "generic_bitmap \<Rightarrow> u64" where
  "gb_start (Bitmap32 b) = ucast (b32_start b)"
| "gb_start (Bitmap64 b) = bm_start b"

fun gb_end :: "generic_bitmap \<Rightarrow> u64" where
  "gb_end (Bitmap32 b) = ucast (b32_end b)"
| "gb_end (Bitmap64 b) = bm_end b"

fun gb_bits :: "generic_bitmap \<Rightarrow> nat" where
  "gb_bits (Bitmap32 b) = 0"
| "gb_bits (Bitmap64 b) = bm_cluster_bits b"

fun gb_set :: "generic_bitmap \<Rightarrow> u64 set" where
  "gb_set (Bitmap32 b) = ucast ` marked_32 b"
| "gb_set (Bitmap64 b) = marked_64 b"

definition gb_in :: "generic_bitmap \<Rightarrow> u64 \<Rightarrow> bool" where
  "gb_in g c \<longleftrightarrow> gb_start g \<le> c \<and> c \<le> gb_end g"

fun gb_wide :: "generic_bitmap \<Rightarrow> bool" where
  "gb_wide (Bitmap32 b) = False"
| "gb_wide (Bitmap64 b) = is_tree b"

text \<open>The maps that an operation on the bits may turn a map into.\<close>

fun gb_same :: "generic_bitmap \<Rightarrow> generic_bitmap \<Rightarrow> bool" where
  "gb_same (Bitmap32 b) (Bitmap32 b') = same_32 b b'"
| "gb_same (Bitmap64 b) (Bitmap64 b') = same_header b b'"
| "gb_same _ _ = False"

lemma gb_same_refl [simp]: "gb_same g g"
  by (cases g) simp_all

lemma gb_same_trans: "gb_same a b \<Longrightarrow> gb_same b c \<Longrightarrow> gb_same a c"
  by (cases a; cases b; cases c) (auto intro: same_32_trans same_header_trans)

lemma gb_sameD:
  assumes "gb_same g g'"
  shows "gb_start g' = gb_start g" "gb_end g' = gb_end g" "gb_bits g' = gb_bits g" "gb_in g' c = gb_in g c"
    "bitmap_magic g' = bitmap_magic g"
  using assms by (cases g; cases g'; auto simp: gb_in_def same_32D)+

lemma magic_disjoint: "EXT2FS_IS_32_BITMAP m \<Longrightarrow> \<not> EXT2FS_IS_64_BITMAP m"
  by (auto simp: EXT2FS_IS_32_BITMAP_def EXT2FS_IS_64_BITMAP_def)

section \<open>32-bit and 64-bit numbers\<close>

lemma above_32_iff: "above_32 w \<longleftrightarrow> 2 ^ 32 \<le> unat w"
proof -
  have m: "(0xffffffff :: u64) = mask 32" by (simp add: mask_eq_exp_minus_1)
  have "w AND NOT (mask 32) = push_bit 32 (drop_bit 32 w)"
    by (rule bit_eqI) (auto simp: bit_simps)
  then have "above_32 w \<longleftrightarrow> unat (push_bit 32 (drop_bit 32 w)) \<noteq> 0"
    by (simp add: above_32_def m unat_eq_0)
  also have "unat (push_bit 32 (drop_bit 32 w)) = (unat w div 2 ^ 32) * 2 ^ 32"
    using unat_u64_less [of w] by (subst unat_push_bit) (simp_all add: unat_drop_bit)
  finally show ?thesis by (simp add: div_eq_0_iff not_less)
qed

lemma ucast_32_64:
  assumes "\<not> above_32 w"
  shows "unat (ucast (w :: u64) :: u32) = unat w" "(ucast (ucast w :: u32) :: u64) = w"
  using assms by (simp_all add: above_32_iff unat_ucast_32 word_unat_eq_iff)

lemma ucast_up_down [simp]: "(ucast (ucast (x :: u32) :: u64) :: u32) = x"
  using unat_u32_less [of x] by (simp add: word_unat_eq_iff unat_ucast_32)

lemma ucast_inj_32: "(ucast (x :: u32) :: u64) = ucast y \<longleftrightarrow> x = y"
  by (simp add: word_unat_eq_iff)

lemma ucast_le_32: "(ucast (x :: u32) :: u64) \<le> ucast y \<longleftrightarrow> x \<le> y"
  by (simp add: word_le_nat_alt)

lemma gb_in_32:
  assumes "\<not> above_32 arg"
  shows "gb_in (Bitmap32 b) arg \<longleftrightarrow> b32_start b \<le> ucast arg \<and> ucast arg \<le> b32_end b"
    and "arg \<in> gb_set (Bitmap32 b) \<longleftrightarrow> ucast arg \<in> marked_32 b"
proof -
  have "gb_in (Bitmap32 b) (ucast (ucast arg :: u32)) \<longleftrightarrow> b32_start b \<le> ucast arg \<and> ucast arg \<le> b32_end b"
    by (simp add: gb_in_def ucast_le_32)
  then show "gb_in (Bitmap32 b) arg \<longleftrightarrow> b32_start b \<le> ucast arg \<and> ucast arg \<le> b32_end b"
    by (simp add: ucast_32_64 [OF assms])
  have "ucast (ucast arg :: u32) \<in> gb_set (Bitmap32 b) \<longleftrightarrow> ucast arg \<in> marked_32 b"
    by (auto simp: ucast_inj_32)
  then show "arg \<in> gb_set (Bitmap32 b) \<longleftrightarrow> ucast arg \<in> marked_32 b"
    by (simp add: ucast_32_64 [OF assms])
qed

lemma gb_in_above: "above_32 arg \<Longrightarrow> \<not> gb_in (Bitmap32 b) arg"
  using unat_u32_less [of "b32_end b"] by (simp add: gb_in_def above_32_iff word_le_nat_alt)

lemma in_range_64: "valid_64 b \<Longrightarrow> bm_start b \<le> c \<Longrightarrow> c \<le> bm_end b \<Longrightarrow> in_range b c"
  using header_okD(2) [OF valid_64_header, of b] by (auto simp: in_range_def word_le_nat_alt)

lemma gb_in_64: "c < bm_start b \<or> c > bm_end b \<longleftrightarrow> \<not> gb_in (Bitmap64 b) c"
  by (auto simp: gb_in_def not_le)

lemma gb_ok_64: "valid_64 b' \<and> same_header b b' \<and> P \<Longrightarrow> gb_ok (Bitmap64 b) \<Longrightarrow> gb_ok (Bitmap64 b')"
  by auto

section \<open>Single bits\<close>

lemma mark_generic:
  assumes ok: "gb_ok g" and m: "ext2fs_mark_generic_bmap (Some g) arg = (r, g2)" and c: "c = drop_bit (gb_bits g) arg"
  shows "\<exists>g'. g2 = Some g' \<and> gb_ok g' \<and> gb_same g g' \<and>
    gb_set g' = (if gb_in g c then insert c (gb_set g) else gb_set g) \<and>
    (r \<noteq> 0 \<longleftrightarrow> gb_in g c \<and> c \<in> gb_set g)"
proof (cases g)
  case (Bitmap32 b)
  have v: "valid_32 b" "EXT2FS_IS_32_BITMAP (b32_magic b)" using ok Bitmap32 by auto
  have ca: "c = arg" using c Bitmap32 by simp
  show ?thesis
  proof (cases "above_32 arg")
    case True
    with m v Bitmap32 gb_in_above [OF True, of b] show ?thesis by (auto simp: ca)
  next
    case False
    have arg: "(ucast (ucast arg :: u32) :: u64) = arg" by (rule ucast_32_64 [OF False])
    obtain b' where b': "ext2fs_mark_generic_bitmap_32 b (ucast arg) = (r, b')" "g2 = Some (Bitmap32 b')"
      using m v Bitmap32 False by (auto split: prod.splits)
    from mark_32 [OF v(1) b'(1)] v(2) arg show ?thesis
      unfolding b'(2) ca Bitmap32 gb_in_32 [OF False]
      by (auto simp: same_32D marked_32_def in_32_def)
  qed
next
  case (Bitmap64 b)
  have v: "valid_64 b" "EXT2FS_IS_64_BITMAP (bm_magic b)" "bm_cluster_bits b < 31" using ok Bitmap64 by auto
  have ca: "c = drop_bit (bm_cluster_bits b) arg" using c Bitmap64 by simp
  show ?thesis
  proof (cases "gb_in g c")
    case False
    with m v Bitmap64 show ?thesis by (auto simp: ca [symmetric] gb_in_64)
  next
    case True
    then have i: "bm_start b \<le> c" "c \<le> bm_end b" using Bitmap64 by (auto simp: gb_in_def)
    obtain b' where b': "mark_bmap (bitmap_ops b) b c = (r, b')" "g2 = Some (Bitmap64 b')"
      using m v Bitmap64 True by (auto simp: ca [symmetric] gb_in_64 split: prod.splits)
    note f = op_marked(1) [OF v(1) in_range_64 [OF v(1) i] b'(1)]
    from f gb_ok_64 [OF f] ok True show ?thesis
      unfolding b'(2) Bitmap64 by (intro exI [of _ "Bitmap64 b'"]) (simp del: gb_ok.simps)
  qed
qed

lemma unmark_generic:
  assumes ok: "gb_ok g" and m: "ext2fs_unmark_generic_bmap (Some g) arg = (r, g2)" and c: "c = drop_bit (gb_bits g) arg"
  shows "\<exists>g'. g2 = Some g' \<and> gb_ok g' \<and> gb_same g g' \<and>
    gb_set g' = (if gb_in g c then gb_set g - {c} else gb_set g) \<and>
    (r \<noteq> 0 \<longleftrightarrow> gb_in g c \<and> (c \<in> gb_set g \<or> gb_wide g \<and> next_marked (gb_set g) c))"
proof (cases g)
  case (Bitmap32 b)
  have v: "valid_32 b" "EXT2FS_IS_32_BITMAP (b32_magic b)" using ok Bitmap32 by auto
  have ca: "c = arg" using c Bitmap32 by simp
  show ?thesis
  proof (cases "above_32 arg")
    case True
    with m v Bitmap32 gb_in_above [OF True, of b] show ?thesis by (auto simp: ca)
  next
    case False
    have arg: "(ucast (ucast arg :: u32) :: u64) = arg" by (rule ucast_32_64 [OF False])
    obtain b' where b': "ext2fs_unmark_generic_bitmap_32 b (ucast arg) = (r, b')" "g2 = Some (Bitmap32 b')"
      using m v Bitmap32 False by (auto split: prod.splits)
    from unmark_32 [OF v(1) b'(1)] v(2) arg show ?thesis
      unfolding b'(2) ca Bitmap32 gb_in_32 [OF False]
      by (auto simp: same_32D marked_32_def in_32_def)
  qed
next
  case (Bitmap64 b)
  have v: "valid_64 b" "EXT2FS_IS_64_BITMAP (bm_magic b)" "bm_cluster_bits b < 31" using ok Bitmap64 by auto
  have ca: "c = drop_bit (bm_cluster_bits b) arg" using c Bitmap64 by simp
  show ?thesis
  proof (cases "gb_in g c")
    case False
    with m v Bitmap64 show ?thesis by (auto simp: ca [symmetric] gb_in_64)
  next
    case True
    then have i: "bm_start b \<le> c" "c \<le> bm_end b" using Bitmap64 by (auto simp: gb_in_def)
    obtain b' where b': "unmark_bmap (bitmap_ops b) b c = (r, b')" "g2 = Some (Bitmap64 b')"
      using m v Bitmap64 True by (auto simp: ca [symmetric] gb_in_64 split: prod.splits)
    note f = op_marked(2) [OF v(1) in_range_64 [OF v(1) i] b'(1)]
    from f gb_ok_64 [OF f] ok True show ?thesis
      unfolding b'(2) Bitmap64 by (intro exI [of _ "Bitmap64 b'"]) (simp del: gb_ok.simps)
  qed
qed

lemma test_generic:
  assumes ok: "gb_ok g" and m: "ext2fs_test_generic_bmap (Some g) arg = (r, g2)" and c: "c = drop_bit (gb_bits g) arg"
  shows "\<exists>g'. g2 = Some g' \<and> gb_ok g' \<and> gb_same g g' \<and>
    gb_set g' = gb_set g \<and>
    (r \<noteq> 0 \<longleftrightarrow> gb_in g c \<and> c \<in> gb_set g)"
proof (cases g)
  case (Bitmap32 b)
  have v: "valid_32 b" "EXT2FS_IS_32_BITMAP (b32_magic b)" using ok Bitmap32 by auto
  have ca: "c = arg" using c Bitmap32 by simp
  show ?thesis
  proof (cases "above_32 arg")
    case True
    with m v Bitmap32 gb_in_above [OF True, of b] show ?thesis by (auto simp: ca)
  next
    case False
    have arg: "(ucast (ucast arg :: u32) :: u64) = arg" by (rule ucast_32_64 [OF False])
    have "g2 = Some (Bitmap32 b)" "r = ext2fs_test_generic_bitmap_32 b (ucast arg)"
      using m v Bitmap32 False by auto
    with test_32 [OF v(1), of "ucast arg"] v show ?thesis
      unfolding ca Bitmap32 gb_in_32 [OF False] by (auto simp: marked_32_def in_32_def)
  qed
next
  case (Bitmap64 b)
  have v: "valid_64 b" "EXT2FS_IS_64_BITMAP (bm_magic b)" "bm_cluster_bits b < 31" using ok Bitmap64 by auto
  have ca: "c = drop_bit (bm_cluster_bits b) arg" using c Bitmap64 by simp
  show ?thesis
  proof (cases "gb_in g c")
    case False
    with m v Bitmap64 show ?thesis by (auto simp: ca [symmetric] gb_in_64)
  next
    case True
    then have i: "bm_start b \<le> c" "c \<le> bm_end b" using Bitmap64 by (auto simp: gb_in_def)
    obtain b' where b': "test_bmap (bitmap_ops b) b c = (r, b')" "g2 = Some (Bitmap64 b')"
      using m v Bitmap64 True by (auto simp: ca [symmetric] gb_in_64 split: prod.splits)
    note f = op_marked(3) [OF v(1) in_range_64 [OF v(1) i] b'(1)]
    from f gb_ok_64 [OF f] ok True show ?thesis
      unfolding b'(2) Bitmap64 by (intro exI [of _ "Bitmap64 b'"]) (simp del: gb_ok.simps)
  qed
qed

lemma clear_generic:
  assumes "gb_ok g"
  shows "gb_ok (ext2fs_clear_generic_bmap g) \<and> gb_same g (ext2fs_clear_generic_bmap g) \<and>
    gb_set (ext2fs_clear_generic_bmap g) = {}"
proof (cases g)
  case (Bitmap32 b)
  with assms clear_32 [of b] same_32D(1) [of b "ext2fs_clear_generic_bitmap_32 b"] show ?thesis by auto
next
  case (Bitmap64 b)
  note f = extent_marked(4) [of b, OF _ refl]
  from assms Bitmap64 f gb_ok_64 [OF f] show ?thesis by auto
qed

section \<open>Ranges of blocks\<close>

text \<open>The clusters that contain a block of the range.\<close>

definition clusters_of :: "nat \<Rightarrow> u64 \<Rightarrow> u32 \<Rightarrow> u64 set" where
  "clusters_of k block num = {c. \<exists>x. unat block \<le> x \<and> x < unat block + unat num \<and> unat c = x div 2 ^ k}"

lemma clusters_of_iff:
  assumes "0 < num"
  shows "c \<in> clusters_of k block num \<longleftrightarrow>
    unat block div 2 ^ k \<le> unat c \<and> unat c \<le> (unat block + unat num - 1) div 2 ^ k"
proof
  assume "c \<in> clusters_of k block num"
  then show "unat block div 2 ^ k \<le> unat c \<and> unat c \<le> (unat block + unat num - 1) div 2 ^ k"
    by (auto simp: clusters_of_def intro!: div_le_mono)
next
  let ?K = "2 ^ k :: nat"
  assume a: "unat block div ?K \<le> unat c \<and> unat c \<le> (unat block + unat num - 1) div ?K"
  have n: "0 < unat num" using assms by (simp add: word_less_nat_alt)
  show "c \<in> clusters_of k block num"
  proof (cases "unat block \<le> unat c * ?K")
    case True
    have "unat c * ?K \<le> unat block + unat num - 1" using a by (meson div_times_less_eq_dividend le_trans mult_le_mono1)
    with True n have "unat block \<le> unat c * ?K \<and> unat c * ?K < unat block + unat num \<and> unat c = unat c * ?K div ?K"
      by auto
    then show ?thesis unfolding clusters_of_def by blast
  next
    case False
    then have "unat block div ?K \<ge> unat c" by (simp add: less_eq_div_iff_mult_less_eq)
    with a have "unat c = unat block div ?K" by simp
    with n show ?thesis unfolding clusters_of_def by auto
  qed
qed

lemma cluster_range_spec:
  assumes k: "k < 32" and n: "0 < num" and fit: "unat block + unat num + 2 ^ k \<le> 2 ^ 64"
    and res: "cluster_range k block num = (c, m)"
  shows "unat c = unat block div 2 ^ k" "unat c + unat m = Suc ((unat block + unat num - 1) div 2 ^ k)"
    "bit_range c m = clusters_of k block num"
proof -
  let ?B = "unat block" and ?N = "unat num" and ?K = "2 ^ k :: nat"
  have N: "0 < ?N" using n by (simp add: word_less_nat_alt)
  have K: "unat (push_bit k 1 :: u64) = ?K" "?K \<le> 2 ^ 31"
  proof -
    show le: "?K \<le> 2 ^ 31" using k by (intro power_increasing) auto
    then show "unat (push_bit k 1 :: u64) = ?K" using unat_push_bit [of 1 k] by simp
  qed
  have K1: "unat (push_bit k 1 - 1 :: u64) = ?K - 1"
    using K(1) by (subst unat_minus_le) simp_all
  have pos: "0 < ?K" by simp
  have "?B + ?N < 2 ^ 64" using fit pos by linarith
  then have e1: "unat (block + ucast num) = ?B + ?N" using unat_plus_less [of block "ucast num"] by simp
  have "unat (block + ucast num) + unat (push_bit k 1 - 1 :: u64) < 2 ^ 64" using e1 K1 fit pos by linarith
  then have "unat (block + ucast num + (push_bit k 1 - 1)) = ?B + ?N + (?K - 1)"
    using unat_plus_less [of "block + ucast num" "push_bit k 1 - 1"] e1 K1 by simp
  define e' where "e' = drop_bit k (block + ucast num + (push_bit k 1 - 1))"
  have e: "unat e' = Suc ((?B + ?N - 1) div ?K)" (is "_ = ?E")
  proof -
    have "?B + ?N + (?K - 1) = ?B + ?N - 1 + ?K" using N by simp
    then show ?thesis
      using \<open>unat (block + ucast num + (push_bit k 1 - 1)) = ?B + ?N + (?K - 1)\<close>
      by (simp add: e'_def unat_drop_bit div_add_self2)
  qed
  have c: "c = drop_bit k block" "m = ucast (e' - c)" using res by (auto simp: cluster_range_def e'_def Let_def)
  show C: "unat c = ?B div ?K" by (simp add: c(1) unat_drop_bit)
  have "?B \<le> ?B + ?N - 1" using N by linarith
  from div_le_mono [OF this, of ?K] have le: "?B div ?K \<le> ?E" by (rule le_SucI)
  have "?E - ?B div ?K < 2 ^ 32"
  proof (cases "k = 0")
    case True
    then show ?thesis using N unat_u32_less [of num] by simp
  next
    case False
    then have "2 ^ 1 \<le> ?K" by (intro power_increasing) auto
    then have "?N div ?K \<le> ?N div 2" by (intro div_le_mono2) auto
    moreover have "(?B + ?N - 1) div ?K \<le> ?B div ?K + ?N div ?K + 1"
    proof -
      have "(?B + ?N - 1) div ?K \<le> (?B + ?N) div ?K" by (intro div_le_mono) simp
      also have "\<dots> \<le> ?B div ?K + ?N div ?K + 1"
      proof -
        have "?B mod ?K + ?N mod ?K < 2 * ?K"
          using mod_less_divisor [OF pos, of ?B] mod_less_divisor [OF pos, of ?N] by linarith
        then have "(?B mod ?K + ?N mod ?K) div ?K < 2" by (simp add: less_mult_imp_div_less)
        then show ?thesis using div_add1_eq [of ?B ?N ?K] by linarith
      qed
      finally show ?thesis .
    qed
    moreover have "?N div 2 < 2 ^ 31" using unat_u32_less [of num] by simp
    ultimately have "Suc ((?B + ?N - 1) div ?K) - ?B div ?K < 2 ^ 31 + 2" by linarith
    then show ?thesis by simp
  qed
  moreover have "unat (e' - c) = ?E - ?B div ?K" using le by (simp add: unat_minus_le e C)
  ultimately have "unat m = ?E - ?B div ?K" by (simp add: c(2) unat_ucast_32)
  then show s: "unat c + unat m = ?E" using le by (simp add: C)
  show "bit_range c m = clusters_of k block num"
    by (rule set_eqI) (simp add: bit_range_def clusters_of_iff [OF n] s, simp add: C less_Suc_eq_le)
qed

text \<open>All clusters of a range of blocks are clusters of the map.\<close>

definition gb_covers :: "generic_bitmap \<Rightarrow> u64 \<Rightarrow> u32 \<Rightarrow> bool" where
  "gb_covers g block num \<longleftrightarrow> (\<forall>c\<in>clusters_of (gb_bits g) block num. gb_in g c)"

lemma ucast_inj_64: "inj (ucast :: u32 \<Rightarrow> u64)"
  by (rule injI) (simp add: ucast_inj_32)

lemma gb_ok_32: "valid_32 b' \<and> same_32 b b' \<and> P \<Longrightarrow> gb_ok (Bitmap32 b) \<Longrightarrow> gb_ok (Bitmap32 b')"
  by (auto simp: same_32D)

lemma unat_last:
  assumes "0 < unat (n :: u32)" "unat b + unat n \<le> 2 ^ 64"
  shows "unat (b + ucast n - 1 :: u64) = unat b + unat n - 1"
proof -
  have m: "unat (ucast n - 1 :: u64) = unat n - 1" using assms(1) by (subst unat_minus_le) auto
  then have "unat (b + (ucast n - 1)) = unat b + (unat n - 1)"
    using assms unat_plus_less [of b "ucast n - 1"] by simp
  then show ?thesis using assms(1) by (simp add: add_diff_eq)
qed

lemma range_outside_iff:
  assumes ok: "gb_ok (Bitmap64 b)" and n: "0 < num"
    and fit: "unat block + unat num + 2 ^ bm_cluster_bits b \<le> 2 ^ 64"
    and res: "cluster_range (bm_cluster_bits b) block num = (c, m)"
  shows "range_outside b c m \<longleftrightarrow> \<not> gb_covers (Bitmap64 b) block num"
    and "gb_covers (Bitmap64 b) block num \<Longrightarrow> range_ok b c m"
    and "bit_range c m = clusters_of (bm_cluster_bits b) block num"
proof -
  have k: "bm_cluster_bits b < 32" using ok by simp
  let ?l = "(unat block + unat num - 1) div 2 ^ bm_cluster_bits b"
  note cr = cluster_range_spec [OF k n fit res]
  have N: "0 < unat num" using n by (simp add: word_less_nat_alt)
  have cl: "unat c \<le> ?l" unfolding cr(1) using N by (intro div_le_mono) linarith
  have "?l \<le> unat block + unat num - 1" by (rule div_le_dividend)
  moreover have "(0::nat) < 2 ^ bm_cluster_bits b" by simp
  ultimately have l64: "?l < 2 ^ 64" using fit N by linarith
  have m0: "0 < unat m" using cr(2) cl by linarith
  have last: "unat (c + ucast m - 1) = ?l"
    using unat_last [OF m0, of c] cr(2) l64 by simp
  obtain last' :: u64 where l': "unat last' = ?l" using unat_word_of_nat [where 'a = 64, of ?l] l64 by auto
  have iff: "gb_covers (Bitmap64 b) block num \<longleftrightarrow> unat (bm_start b) \<le> unat c \<and> ?l \<le> unat (bm_end b)"
  proof
    assume a: "gb_covers (Bitmap64 b) block num"
    have "c \<in> clusters_of (bm_cluster_bits b) block num" "last' \<in> clusters_of (bm_cluster_bits b) block num"
      using cl cr(1) l' by (auto simp: clusters_of_iff [OF n])
    with a l' show "unat (bm_start b) \<le> unat c \<and> ?l \<le> unat (bm_end b)"
      by (auto simp: gb_covers_def gb_in_def word_le_nat_alt)
  next
    assume "unat (bm_start b) \<le> unat c \<and> ?l \<le> unat (bm_end b)"
    then show "gb_covers (Bitmap64 b) block num"
      using cr(1) by (auto simp: gb_covers_def clusters_of_iff [OF n] gb_in_def word_le_nat_alt)
  qed
  show "range_outside b c m \<longleftrightarrow> \<not> gb_covers (Bitmap64 b) block num"
    unfolding iff range_outside_def word_less_nat_alt last using cl by linarith
  show "gb_covers (Bitmap64 b) block num \<Longrightarrow> range_ok b c m"
    using iff cr(2) header_okD(2) [OF valid_64_header, of b] ok by (auto simp: range_ok_def)
  show "bit_range c m = clusters_of (bm_cluster_bits b) block num" by (rule cr(3))
qed

lemma range_32_iff:
  assumes n: "0 < num" "unat num < 2 ^ 31" and fit: "unat block + unat num < 2 ^ 64"
  shows "above_32 block \<or> above_32 (block + ucast num - 1) \<Longrightarrow> \<not> gb_covers (Bitmap32 b) block num"
    and "\<not> (above_32 block \<or> above_32 (block + ucast num - 1)) \<Longrightarrow>
      (ucast block < b32_start b \<or> ucast block > b32_end b \<or>
       ucast block + word_of_int (sint num) - 1 > b32_end b) \<longleftrightarrow> \<not> gb_covers (Bitmap32 b) block num"
    and "gb_covers (Bitmap32 b) block num \<Longrightarrow> b32_start b \<le> ucast block \<and>
      unat (ucast block :: u32) + nat (sint num) \<le> Suc (unat (b32_end b)) \<and>
      clusters_of 0 block num = ucast ` range_32 (ucast block) (nat (sint num))"
proof -
  have N: "0 < unat num" "nat (sint num) = unat num" "0 < sint num" "sint num < 2 ^ 31" using sint_bounds [OF n] by blast+
  have C: "x \<in> clusters_of 0 block num \<longleftrightarrow> unat block \<le> unat x \<and> unat x < unat block + unat num" for x
    using N by (auto simp: clusters_of_iff [OF n(1)])
  have last: "unat (block + ucast num - 1) = unat block + unat num - 1"
    using unat_last [OF N(1), of block] fit by simp
  have cov: "gb_covers (Bitmap32 b) block num \<longleftrightarrow>
      unat (b32_start b) \<le> unat block \<and> unat block + unat num \<le> Suc (unat (b32_end b))"
  proof
    assume a: "gb_covers (Bitmap32 b) block num"
    have "block \<in> clusters_of 0 block num" "block + ucast num - 1 \<in> clusters_of 0 block num"
      using N by (auto simp: C last)
    with a have "gb_in (Bitmap32 b) block" "gb_in (Bitmap32 b) (block + ucast num - 1)"
      by (simp_all add: gb_covers_def)
    then have "unat (b32_start b) \<le> unat block" "unat (block + ucast num - 1) \<le> unat (b32_end b)"
      by (simp_all add: gb_in_def word_le_nat_alt)
    then show "unat (b32_start b) \<le> unat block \<and> unat block + unat num \<le> Suc (unat (b32_end b))"
      unfolding last using N by linarith
  next
    assume "unat (b32_start b) \<le> unat block \<and> unat block + unat num \<le> Suc (unat (b32_end b))"
    then show "gb_covers (Bitmap32 b) block num" by (auto simp: gb_covers_def gb_in_def C word_le_nat_alt)
  qed
  show "\<not> gb_covers (Bitmap32 b) block num" if "above_32 block \<or> above_32 (block + ucast num - 1)"
    using that unat_u32_less [of "b32_end b"] N(1) unfolding cov above_32_iff last by linarith
  have u: "unat (ucast block :: u32) = unat block" if "unat block < 2 ^ 32" using that by (simp add: unat_ucast_32)
  show "(ucast block < b32_start b \<or> ucast block > b32_end b \<or>
       ucast block + word_of_int (sint num) - 1 > b32_end b) \<longleftrightarrow> \<not> gb_covers (Bitmap32 b) block num"
    if a: "\<not> (above_32 block \<or> above_32 (block + ucast num - 1))"
  proof -
    have lt: "unat block + unat num \<le> 2 ^ 32" using a N(1) unfolding above_32_iff last by linarith
    have ub: "unat (ucast block :: u32) = unat block" using a by (intro u) (simp add: above_32_iff)
    show ?thesis
    proof (cases "(ucast block :: u32) \<le> b32_end b")
      case True
      have "ucast block + word_of_int (sint num) - 1 > b32_end b \<longleftrightarrow> unat block + unat num > Suc (unat (b32_end b))"
        using range_check_32 [of "sint num" "ucast block" "b32_end b"] N lt True ub by simp
      with True show ?thesis unfolding cov by (auto simp: word_le_nat_alt word_less_nat_alt ub)
    next
      case False
      then have "unat (b32_end b) < unat block" by (simp add: word_le_nat_alt ub)
      then show ?thesis unfolding cov using False N(1) by auto
    qed
  qed
  show "b32_start b \<le> ucast block \<and> unat (ucast block :: u32) + nat (sint num) \<le> Suc (unat (b32_end b)) \<and>
      clusters_of 0 block num = ucast ` range_32 (ucast block) (nat (sint num))"
    if a: "gb_covers (Bitmap32 b) block num"
  proof -
    have lt: "unat block + unat num \<le> 2 ^ 32" using a unat_u32_less [of "b32_end b"] unfolding cov by linarith
    have ub: "unat (ucast block :: u32) = unat block" using lt N(1) by (intro u) linarith
    have "x \<in> clusters_of 0 block num \<longleftrightarrow> x \<in> ucast ` range_32 (ucast block) (unat num)" for x
    proof
      assume "x \<in> clusters_of 0 block num"
      then have x: "unat block \<le> unat x" "unat x < unat block + unat num" by (auto simp: C)
      then have s: "\<not> above_32 x" using lt by (simp add: above_32_iff)
      from x have "(ucast x :: u32) \<in> range_32 (ucast block) (unat num)"
        by (simp add: range_32_def ub ucast_32_64(1) [OF s])
      then show "x \<in> ucast ` range_32 (ucast block) (unat num)"
        using ucast_32_64(2) [OF s] by (metis image_eqI)
    next
      assume "x \<in> ucast ` range_32 (ucast block) (unat num)"
      then show "x \<in> clusters_of 0 block num" by (auto simp: C range_32_def ub)
    qed
    with a show ?thesis unfolding cov by (auto simp: word_le_nat_alt ub N(2))
  qed
qed

lemma mark_range_generic:
  assumes ok: "gb_ok g" and n: "0 < num" "unat num < 2 ^ 31"
    and fit: "unat block + unat num + 2 ^ gb_bits g \<le> 2 ^ 64"
  shows "\<exists>g'. ext2fs_mark_block_bitmap_range2 (Some g) block num = Some g' \<and> gb_ok g' \<and> gb_same g g' \<and>
    gb_set g' = (if gb_covers g block num then gb_set g \<union> clusters_of (gb_bits g) block num else gb_set g)"
proof (cases g)
  case (Bitmap64 b)
  obtain c m where cr: "cluster_range (bm_cluster_bits b) block num = (c, m)" by fastforce
  have ok': "gb_ok (Bitmap64 b)" "valid_64 b" using ok Bitmap64 by simp_all
  note out = range_outside_iff [OF ok'(1) n(1) _ cr]
  show ?thesis
  proof (cases "gb_covers g block num")
    case True
    then have r: "range_ok b c m" using out(2) fit Bitmap64 by simp
    note f = extent_marked(1) [OF ok'(2) r refl]
    from f gb_ok_64 [OF f ok'(1)] True fit out cr ok' show ?thesis
      unfolding Bitmap64 by (intro exI [of _ "Bitmap64 (mark_bmap_extent (bitmap_ops b) b c m)"]) simp
  qed (use ok' cr fit out Bitmap64 in simp)
next
  case (Bitmap32 b)
  have v: "gb_ok (Bitmap32 b)" "valid_32 b" "EXT2FS_IS_32_BITMAP (b32_magic b)" using ok Bitmap32 by auto
  have "unat block + unat num < 2 ^ 64" using fit Bitmap32 by simp
  note r = range_32_iff [OF n this, of b]
  show ?thesis
  proof (cases "gb_covers g block num")
    case True
    then have c: "gb_covers (Bitmap32 b) block num" using Bitmap32 by simp
    with r(1) have a: "\<not> (above_32 block \<or> above_32 (block + ucast num - 1))" by blast
    note f = mark_range_32 [OF v(2) sint_bounds(1,2) [OF n] r(3) [OF c, THEN conjunct1]
        r(3) [OF c, THEN conjunct2, THEN conjunct1]]
    from f gb_ok_32 [OF f v(1)] r(3) [OF c] a v(3) c show ?thesis
      unfolding Bitmap32 by (simp add: image_Un del: gb_ok.simps)
  next
    case False
    then have c: "\<not> gb_covers (Bitmap32 b) block num" using Bitmap32 by simp
    show ?thesis
    proof (cases "above_32 block \<or> above_32 (block + ucast num - 1)")
      case a: False
      with r(2) [OF a] c have "ext2fs_mark_block_bitmap_range b (ucast block) (sint num) = b"
        by (simp add: ext2fs_mark_block_bitmap_range_def)
      with a v False Bitmap32 show ?thesis by simp
    qed (use v False Bitmap32 in auto)
  qed
qed

lemma unmark_range_generic:
  assumes ok: "gb_ok g" and n: "0 < num" "unat num < 2 ^ 31"
    and fit: "unat block + unat num + 2 ^ gb_bits g \<le> 2 ^ 64"
  shows "\<exists>g'. ext2fs_unmark_block_bitmap_range2 (Some g) block num = Some g' \<and> gb_ok g' \<and> gb_same g g' \<and>
    gb_set g' = (if gb_covers g block num then gb_set g - clusters_of (gb_bits g) block num else gb_set g)"
proof (cases g)
  case (Bitmap64 b)
  obtain c m where cr: "cluster_range (bm_cluster_bits b) block num = (c, m)" by fastforce
  have ok': "gb_ok (Bitmap64 b)" "valid_64 b" using ok Bitmap64 by simp_all
  note out = range_outside_iff [OF ok'(1) n(1) _ cr]
  show ?thesis
  proof (cases "gb_covers g block num")
    case True
    then have r: "range_ok b c m" using out(2) fit Bitmap64 by simp
    note f = extent_marked(2) [OF ok'(2) r refl]
    from f gb_ok_64 [OF f ok'(1)] True fit out cr ok' show ?thesis
      unfolding Bitmap64 by (intro exI [of _ "Bitmap64 (unmark_bmap_extent (bitmap_ops b) b c m)"]) simp
  qed (use ok' cr fit out Bitmap64 in simp)
next
  case (Bitmap32 b)
  have v: "gb_ok (Bitmap32 b)" "valid_32 b" "EXT2FS_IS_32_BITMAP (b32_magic b)" using ok Bitmap32 by auto
  have "unat block + unat num < 2 ^ 64" using fit Bitmap32 by simp
  note r = range_32_iff [OF n this, of b]
  show ?thesis
  proof (cases "gb_covers g block num")
    case True
    then have c: "gb_covers (Bitmap32 b) block num" using Bitmap32 by simp
    with r(1) have a: "\<not> (above_32 block \<or> above_32 (block + ucast num - 1))" by blast
    note f = unmark_range_32 [OF v(2) sint_bounds(1,2) [OF n] r(3) [OF c, THEN conjunct1]
        r(3) [OF c, THEN conjunct2, THEN conjunct1]]
    from f gb_ok_32 [OF f v(1)] r(3) [OF c] a v(3) c show ?thesis
      unfolding Bitmap32 by (simp add: image_set_diff [OF ucast_inj_64] del: gb_ok.simps)
  next
    case False
    then have c: "\<not> gb_covers (Bitmap32 b) block num" using Bitmap32 by simp
    show ?thesis
    proof (cases "above_32 block \<or> above_32 (block + ucast num - 1)")
      case a: False
      with r(2) [OF a] c have "ext2fs_unmark_block_bitmap_range b (ucast block) (sint num) = b"
        by (simp add: ext2fs_unmark_block_bitmap_range_def)
      with a v False Bitmap32 show ?thesis by simp
    qed (use v False Bitmap32 in auto)
  qed
qed

lemma test_range_generic:
  assumes ok: "gb_ok g" and n: "0 < num" "unat num < 2 ^ 31"
    and fit: "unat block + unat num + 2 ^ gb_bits g \<le> 2 ^ 64"
    and cov: "gb_covers g block num" and mg: "\<And>b. g = Bitmap32 b \<Longrightarrow> b32_magic b = EXT2_ET_MAGIC_BLOCK_BITMAP"
    and res: "ext2fs_test_block_bitmap_range2 (Some g) block num = (r, g2)"
  shows "\<exists>g'. g2 = Some g' \<and> gb_ok g' \<and> gb_same g g' \<and> gb_set g' = gb_set g \<and>
    (r \<noteq> 0 \<longleftrightarrow> gb_set g \<inter> clusters_of (gb_bits g) block num = {})"
proof (cases "num = 1")
  case True
  let ?c = "drop_bit (gb_bits g) block"
  obtain r1 where t: "ext2fs_test_generic_bmap (Some g) block = (r1, g2)" "r = (if r1 = 0 then 1 else 0)"
    using res True by (cases g) (auto split: prod.splits)
  have "clusters_of (gb_bits g) block num = {?c}"
    unfolding True by (rule set_eqI) (simp add: clusters_of_iff word_unat_eq_iff unat_drop_bit, linarith)
  moreover from this have "gb_in g ?c" using cov by (simp add: gb_covers_def)
  ultimately show ?thesis using test_generic [OF ok t(1) refl] t(2) by auto
next
  case False
  show ?thesis
  proof (cases g)
    case (Bitmap64 b)
    obtain c m where cr: "cluster_range (bm_cluster_bits b) block num = (c, m)" by fastforce
    have ok': "gb_ok (Bitmap64 b)" "valid_64 b" using ok Bitmap64 by simp_all
    note out = range_outside_iff [OF ok'(1) n(1) _ cr]
    have c: "range_ok b c m" "\<not> range_outside b c m" "bit_range c m = clusters_of (bm_cluster_bits b) block num"
      using out cov fit Bitmap64 by auto
    with extent_marked(3) [OF ok'(2) c(1)] res False cr ok' Bitmap64 show ?thesis by auto
  next
    case (Bitmap32 b)
    have v: "valid_32 b" "EXT2FS_IS_32_BITMAP (b32_magic b)" using ok Bitmap32 by auto
    have "unat block + unat num < 2 ^ 64" using fit Bitmap32 by simp
    note r = range_32_iff [OF n this, of b]
    have c: "gb_covers (Bitmap32 b) block num" using cov Bitmap32 by simp
    with r(1) have a: "\<not> (above_32 block \<or> above_32 (block + ucast num - 1))" by blast
    note d = r(3) [OF c] and s = sint_bounds [OF n]
    have top: "unat (ucast block :: u32) + unat num \<le> Suc (unat (b32_real_end b))"
      using d s(3) valid_32D(2) [OF v(1)] by linarith
    have w: "word_of_int (sint num) = num" by simp
    have i: "in_32 b (ucast block)" using in_32_end [OF v(1)] d s by (auto simp: word_le_nat_alt)
    have "\<not> ucast block + word_of_int (sint num) - 1 > b32_real_end b"
      using range_check_32 [of "sint num" "ucast block" "b32_real_end b"] s top i
        unat_u32_less [of "b32_real_end b"] by (auto simp: in_32_def)
    then have "r = ext2fs_test_clear_generic_bitmap_range b (ucast block) num" "g2 = Some (Bitmap32 b)"
      using res False a v i mg [OF Bitmap32] Bitmap32 by (auto simp: in_32_def)
    then show ?thesis using test_clear_32 [OF v(1) i top] d ok Bitmap32 s(3) by (auto simp: ucast_inj_32)
  qed
qed

section \<open>Searching\<close>

text \<open>From clusters to blocks: the first block of the first cluster found, or the
  start of the search where that lies in the cluster.\<close>

lemma search_clusters:
  fixes start end' :: u64
  assumes r: "search_result P (drop_bit k start) (drop_bit k end') r" and le: "start \<le> end'"
  shows "search_result (\<lambda>x. P (drop_bit k x)) start end'
    (map_sum id (\<lambda>c. let c = push_bit k c in if c \<ge> start then c else start) r)"
proof (cases r)
  case (Inl e)
  have "drop_bit k start \<le> drop_bit k x \<and> drop_bit k x \<le> drop_bit k end'" if "start \<le> x" "x \<le> end'" for x
    using that by (simp add: word_le_nat_alt unat_drop_bit div_le_mono)
  with r show ?thesis by (auto simp: Inl search_result_def)
next
  case (Inr c)
  let ?K = "2 ^ k :: nat"
  have c: "drop_bit k start \<le> c" "c \<le> drop_bit k end'" "P c" "\<And>x. drop_bit k start \<le> x \<Longrightarrow> x < c \<Longrightarrow> \<not> P x"
    using r by (auto simp: Inr search_result_def)
  have up: "unat c * ?K \<le> unat end'"
    using c(2) by (simp add: word_le_nat_alt unat_drop_bit) (meson div_times_less_eq_dividend le_trans mult_le_mono1)
  then have pc: "unat (push_bit k c) = unat c * ?K"
    using unat_u64_less [of end'] by (intro unat_push_bit) linarith
  define b where "b = (if push_bit k c \<ge> start then push_bit k c else start)"
  have db: "drop_bit k b = c"
  proof (cases "push_bit k c \<ge> start")
    case True
    then show ?thesis by (simp add: b_def word_unat_eq_iff unat_drop_bit pc)
  next
    case False
    then have "unat c * ?K \<le> unat start" using pc by (simp add: word_le_nat_alt)
    then have "unat c \<le> unat start div ?K" by (simp add: less_eq_div_iff_mult_less_eq)
    with c(1) False show ?thesis by (simp add: b_def word_unat_eq_iff word_le_nat_alt unat_drop_bit)
  qed
  have "start \<le> b" "b \<le> end'" using up pc le by (auto simp: b_def word_le_nat_alt)
  moreover have "\<not> P (drop_bit k x)" if "start \<le> x" "x < b" for x
  proof -
    have "push_bit k c \<ge> start" using that by (auto simp: b_def split: if_splits)
    then have "unat x < unat c * ?K" using that pc by (simp add: b_def word_less_nat_alt)
    then have "drop_bit k x < c" by (simp add: word_less_nat_alt unat_drop_bit less_mult_imp_div_less)
    moreover have "drop_bit k start \<le> drop_bit k x" using that by (simp add: word_le_nat_alt unat_drop_bit div_le_mono)
    ultimately show ?thesis using c(4) by blast
  qed
  ultimately show ?thesis using c(3) db by (simp add: Inr search_result_def b_def [symmetric] Let_def)
qed

lemma search_result_cong:
  "search_result P a b r \<Longrightarrow> (\<And>x. a \<le> x \<Longrightarrow> x \<le> b \<Longrightarrow> P x = Q x) \<Longrightarrow> search_result Q a b r"
  by (auto simp: search_result_def split: sum.splits)

lemma search_32_64:
  assumes "\<not> above_32 start" "\<not> above_32 end'" "search_result P (ucast start) (ucast end') (r :: errcode + u32)"
  shows "search_result (\<lambda>x. P (ucast x)) start end' (map_sum id ucast r)"
proof -
  note s = ucast_32_64 [OF assms(1)] and e = ucast_32_64 [OF assms(2)]
  have x: "ucast start \<le> (ucast x :: u32) \<and> (start \<le> x \<and> x \<le> end' \<longrightarrow> (ucast x :: u32) \<le> ucast end')"
    if "start \<le> x" "x \<le> end'" for x
  proof -
    have "\<not> above_32 x" using that(2) assms(2) by (simp add: above_32_iff word_le_nat_alt)
    from ucast_32_64(1) [OF this] that show ?thesis by (simp add: word_le_nat_alt s e)
  qed
  show ?thesis
  proof (cases r)
    case (Inl e)
    with assms(3) x show ?thesis by (auto simp: search_result_def)
  next
    case (Inr c)
    have c: "ucast start \<le> c" "c \<le> ucast end'" "P c" "\<And>x. ucast start \<le> x \<Longrightarrow> x < c \<Longrightarrow> \<not> P x"
      using assms(3) by (auto simp: Inr search_result_def)
    then have b: "start \<le> ucast c" "ucast c \<le> end'" by (simp_all add: word_le_nat_alt s e)
    have "\<not> P (ucast x)" if "start \<le> x" "x < ucast c" for x
    proof -
      have "\<not> above_32 x" using that(2) unat_u32_less [of c] by (simp add: above_32_iff word_less_nat_alt)
      from ucast_32_64(1) [OF this] that c(4) [of "ucast x"] show ?thesis
        by (simp add: word_le_nat_alt word_less_nat_alt s)
    qed
    with b c(3) show ?thesis by (simp add: Inr search_result_def)
  qed
qed

text \<open>The two layers of the search, for either polarity \<open>P\<close>.\<close>

lemma find_generic_64:
  assumes v: "valid_64 b" "EXT2FS_IS_64_BITMAP (bm_magic b)" and le: "start \<le> end'"
    and i: "bm_start b \<le> drop_bit (bm_cluster_bits b) start" "drop_bit (bm_cluster_bits b) end' \<le> bm_end b"
    and f: "search (bitmap_ops b) = Some f"
      "\<And>s e. in_range b s \<Longrightarrow> in_range b e \<Longrightarrow> s \<le> e \<Longrightarrow> search_result P s e (f b s e)"
  shows "\<exists>r. find_first_generic search hit search_b (Some (Bitmap64 b)) start end' = Some r \<and>
    search_result (\<lambda>x. P (drop_bit (bm_cluster_bits b) x)) start end' r"
proof -
  let ?k = "bm_cluster_bits b"
  have le': "drop_bit ?k start \<le> drop_bit ?k end'" using le by (simp add: word_le_nat_alt unat_drop_bit div_le_mono)
  have j: "in_range b (drop_bit ?k start)" "in_range b (drop_bit ?k end')"
    by (rule in_range_64 [OF v(1) i(1) order_trans [OF le' i(2)]], rule in_range_64 [OF v(1) order_trans [OF i(1) le'] i(2)])
  have "find_first_generic search hit search_b (Some (Bitmap64 b)) start end' =
      Some (map_sum id (\<lambda>c. let c = push_bit ?k c in if c \<ge> start then c else start) (f b (drop_bit ?k start) (drop_bit ?k end')))"
    using v(2) i le by (simp only: find_first_generic.simps Let_def f(1) option.case option.map not_less [symmetric] if_False HOL.simp_thms)
  with search_clusters [OF f(2) [OF j le'] le] show ?thesis by blast
qed

lemma find_generic_32:
  assumes v: "EXT2FS_IS_32_BITMAP (b32_magic b)" and a: "\<not> above_32 start" "\<not> above_32 end'"
    and q: "\<exists>r. search_b b (ucast start) (ucast end') = Some r \<and> search_result P (ucast start) (ucast end') r"
  shows "\<exists>r. find_first_generic search hit search_b (Some (Bitmap32 b)) start end' = Some r \<and>
    search_result (\<lambda>x. P (ucast x)) start end' r"
  using q search_32_64 [OF a] v a by auto

lemma search_ends_32:
  assumes "gb_in (Bitmap32 b) start" "gb_in (Bitmap32 b) end'" "start \<le> end'" "end' \<noteq> 0xFFFFFFFF"
  shows "\<not> above_32 start" "\<not> above_32 end'" "b32_start b \<le> ucast start" "ucast end' \<le> b32_end b"
    "(ucast start :: u32) \<le> ucast end'" "(ucast end' :: u32) \<noteq> 0xFFFFFFFF"
proof -
  show a: "\<not> above_32 start" "\<not> above_32 end'" using assms gb_in_above by blast+
  then show "b32_start b \<le> ucast start" "ucast end' \<le> b32_end b"
    using assms gb_in_32 by blast+
  show "(ucast start :: u32) \<le> ucast end'" using assms ucast_32_64(1) a by (simp add: word_le_nat_alt)
  show "(ucast end' :: u32) \<noteq> 0xFFFFFFFF"
  proof
    assume "(ucast end' :: u32) = 0xFFFFFFFF"
    then have "(ucast (ucast end' :: u32) :: u64) = 0xFFFFFFFF" by simp
    with assms(4) ucast_32_64(2) [OF a(2)] show False by simp
  qed
qed

lemma search_set_32:
  assumes "\<not> above_32 end'" "search_result (\<lambda>x. (ucast x \<in> marked_32 b) = pol) start end' r"
  shows "search_result (\<lambda>x. (x \<in> gb_set (Bitmap32 b)) = pol) start end' r"
proof (rule search_result_cong [OF assms(2)])
  fix x assume "x \<le> end'"
  then have "\<not> above_32 x" using assms(1) by (simp add: above_32_iff word_le_nat_alt)
  from gb_in_32(2) [OF this] show "((ucast x \<in> marked_32 b) = pol) = ((x \<in> gb_set (Bitmap32 b)) = pol)" by simp
qed

lemma find_first_set_generic:
  assumes ok: "gb_ok g" and r: "gb_in g (drop_bit (gb_bits g) start)" "gb_in g (drop_bit (gb_bits g) end')" "start \<le> end'"
    and t: "\<And>b. g = Bitmap32 b \<Longrightarrow> end' \<noteq> 0xFFFFFFFF"
  shows "\<exists>r. ext2fs_find_first_set_generic_bmap (Some g) start end' = Some r \<and>
    search_result (\<lambda>x. drop_bit (gb_bits g) x \<in> gb_set g) start end' r"
proof (cases g)
  case (Bitmap64 b)
  have v: "valid_64 b" "EXT2FS_IS_64_BITMAP (bm_magic b)" using ok Bitmap64 by auto
  have i: "bm_start b \<le> drop_bit (bm_cluster_bits b) start" "drop_bit (bm_cluster_bits b) end' \<le> bm_end b"
    using r Bitmap64 by (simp_all add: gb_in_def)
  obtain f where f: "ops_find_first_set (bitmap_ops b) = Some f"
    "\<And>s e. in_range b s \<Longrightarrow> in_range b e \<Longrightarrow> s \<le> e \<Longrightarrow> search_result (\<lambda>x. x \<in> marked_64 b) s e (f b s e)"
  proof (cases "valid_ba b")
    case True
    then show ?thesis using that [of "ba_find_first_set 0"] ba_kind [OF True] ba_find_first_set_abs [OF True]
      by (simp add: ext2fs_blkmap64_bitarray_def)
  next
    case False
    then have rb: "valid_rb b" using v(1) by (simp add: valid_64_def)
    then show ?thesis using that [of rb_find_first_set] rb_kind [OF rb] rb_find_first_set_abs [OF rb]
      by (simp add: ext2fs_blkmap64_rbtree_def)
  qed
  from find_generic_64 [where search = ops_find_first_set and f = f and P = "\<lambda>x. x \<in> marked_64 b", OF v r(3) i f]
  show ?thesis by (simp add: Bitmap64 ext2fs_find_first_set_generic_bmap_def)
next
  case (Bitmap32 b)
  have v: "valid_32 b" "EXT2FS_IS_32_BITMAP (b32_magic b)" using ok Bitmap32 by auto
  note s = search_ends_32 [of b start end'] note s = s [OF _ _ r(3) t [OF Bitmap32]]
  have i: "gb_in (Bitmap32 b) start" "gb_in (Bitmap32 b) end'" using r Bitmap32 by auto
  from find_generic_32 [where search = ops_find_first_set and hit = "\<lambda>r. r \<noteq> 0"
    and search_b = ext2fs_find_first_set_generic_bitmap and P = "\<lambda>x. x \<in> marked_32 b",
    OF v(2) s(1,2) [OF i] find_first_32_abs(1) [OF v(1) s(3-6) [OF i]]]
  show ?thesis using search_set_32 [OF s(2) [OF i], of b True start]
    by (auto simp: Bitmap32 ext2fs_find_first_set_generic_bmap_def simp del: find_first_generic.simps gb_set.simps)
qed

lemma find_first_zero_generic:
  assumes ok: "gb_ok g" and r: "gb_in g (drop_bit (gb_bits g) start)" "gb_in g (drop_bit (gb_bits g) end')" "start \<le> end'"
    and t: "\<And>b. g = Bitmap32 b \<Longrightarrow> end' \<noteq> 0xFFFFFFFF"
    and ne: "\<And>b. g = Bitmap64 b \<Longrightarrow> valid_rb b \<Longrightarrow> rb_root (rb_priv b) \<noteq> Leaf"
  shows "\<exists>r. ext2fs_find_first_zero_generic_bmap (Some g) start end' = Some r \<and>
    search_result (\<lambda>x. drop_bit (gb_bits g) x \<notin> gb_set g) start end' r"
proof (cases g)
  case (Bitmap64 b)
  have v: "valid_64 b" "EXT2FS_IS_64_BITMAP (bm_magic b)" using ok Bitmap64 by auto
  have i: "bm_start b \<le> drop_bit (bm_cluster_bits b) start" "drop_bit (bm_cluster_bits b) end' \<le> bm_end b"
    using r Bitmap64 by (simp_all add: gb_in_def)
  obtain f where f: "ops_find_first_zero (bitmap_ops b) = Some f"
    "\<And>s e. in_range b s \<Longrightarrow> in_range b e \<Longrightarrow> s \<le> e \<Longrightarrow> search_result (\<lambda>x. x \<notin> marked_64 b) s e (f b s e)"
  proof (cases "valid_ba b")
    case True
    then show ?thesis using that [of "ba_find_first_zero 0"] ba_kind [OF True] ba_find_first_zero_abs [OF True]
      by (simp add: ext2fs_blkmap64_bitarray_def)
  next
    case False
    then have rb: "valid_rb b" using v(1) by (simp add: valid_64_def)
    then show ?thesis using that [of rb_find_first_zero] rb_kind [OF rb] rb_find_first_zero_abs [OF rb ne [OF Bitmap64 rb]]
      by (simp add: ext2fs_blkmap64_rbtree_def)
  qed
  from find_generic_64 [where search = ops_find_first_zero and f = f and P = "\<lambda>x. x \<notin> marked_64 b", OF v r(3) i f]
  show ?thesis by (simp add: Bitmap64 ext2fs_find_first_zero_generic_bmap_def)
next
  case (Bitmap32 b)
  have v: "valid_32 b" "EXT2FS_IS_32_BITMAP (b32_magic b)" using ok Bitmap32 by auto
  note s = search_ends_32 [of b start end'] note s = s [OF _ _ r(3) t [OF Bitmap32]]
  have i: "gb_in (Bitmap32 b) start" "gb_in (Bitmap32 b) end'" using r Bitmap32 by auto
  from find_generic_32 [where search = ops_find_first_zero and hit = "\<lambda>r. r = 0"
    and search_b = ext2fs_find_first_zero_generic_bitmap and P = "\<lambda>x. x \<notin> marked_32 b",
    OF v(2) s(1,2) [OF i] find_first_32_abs(2) [OF v(1) s(3-6) [OF i]]]
  show ?thesis using search_set_32 [OF s(2) [OF i], of b False start]
    by (auto simp: Bitmap32 ext2fs_find_first_zero_generic_bmap_def simp del: find_first_generic.simps gb_set.simps)
qed

section \<open>Creating, copying and resizing\<close>

lemma new_ops_kind: "new_ops fs t = Some ops \<Longrightarrow> ops = ext2fs_blkmap64_bitarray 0 \<or> ops = ext2fs_blkmap64_rbtree"
  by (auto simp: new_ops_def Let_def split: if_splits sum.splits)

lemma alloc_generic:
  assumes "start \<le> end'" "end' \<le> real_end" "Suc (unat real_end) < 2 ^ 64" "EXT2FS_IS_64_BITMAP magic"
    "fs_cluster_ratio_bits fs < 31" "ext2fs_alloc_generic_bmap mem junk fs magic t start end' real_end descr = Inr g"
  shows "gb_ok g \<and> gb_set g = {} \<and> bitmap_magic g = magic \<and> gb_start g = start \<and> gb_end g = end' \<and>
    gb_bits g = (if magic = EXT2_ET_MAGIC_BLOCK_BITMAP64 then fs_cluster_ratio_bits fs else 0) \<and>
    (\<exists>b. g = Bitmap64 b \<and> bm_real_end b = real_end)"
proof -
  define b0 where "b0 = \<lparr>bm_magic = magic, bm_start = start, bm_end = end', bm_real_end = real_end,
    bm_cluster_bits = (if magic = EXT2_ET_MAGIC_BLOCK_BITMAP64 then fs_cluster_ratio_bits fs else 0),
    bm_description = descr, bm_private = BA_private [],
    bm_base_error_code =
      (if magic = EXT2_ET_MAGIC_INODE_BITMAP64 then EXT2_ET_BAD_INODE_MARK
       else if magic = EXT2_ET_MAGIC_BLOCK_BITMAP64 then EXT2_ET_BAD_BLOCK_MARK
       else EXT2_ET_BAD_GENERIC_MARK)\<rparr>"
  obtain ops m1 b where o: "new_ops fs t = Some ops" "new_bmap ops m1 junk b0 = (0, b)" "g = Bitmap64 b"
    using assms(6) unfolding ext2fs_alloc_generic_bmap_def Let_def b0_def [symmetric]
    by (auto split: option.splits if_splits prod.splits)
  have h: "header_ok b0" "bm_magic b0 = magic" "bm_start b0 = start" "bm_end b0 = end'" "bm_real_end b0 = real_end"
    "bm_cluster_bits b0 = (if magic = EXT2_ET_MAGIC_BLOCK_BITMAP64 then fs_cluster_ratio_bits fs else 0)"
    using assms(1-3) by (simp_all add: b0_def header_ok_def)
  have "valid_64 b \<and> same_header b0 b \<and> marked_64 b = {}"
    using o h(1) new_ops_kind any_ba.new_bmap_marked any_rb.new_bmap_marked unfolding dispatch_sel by blast
  with o(3) h assms(4,5) show ?thesis by auto
qed

lemma alloc_generic_fails:
  assumes "ext2fs_alloc_generic_bmap mem junk fs magic t start end' real_end descr = Inl e"
  shows "e = EINVAL \<and> t \<notin> {0, 1, 2, 3} \<or> e = EXT2_ET_NO_MEMORY \<and> (\<exists>i. \<not> mem i)"
  using assms
  by (auto simp: ext2fs_alloc_generic_bmap_def Let_def new_ops_def ext2fs_blkmap64_bitarray_def ext2fs_blkmap64_rbtree_def
      ba_new_bmap_def ba_alloc_private_data_def rb_new_bmap_def rb_alloc_private_data_def
      split: option.splits if_splits prod.splits sum.splits)

lemma copy_generic:
  assumes ok: "gb_ok g" and w: "\<And>b. g = Bitmap32 b \<Longrightarrow> whole_32 b"
    and res: "ext2fs_copy_generic_bmap mem junk (Some g) = (Inr g', Some g'')"
  shows "gb_ok g' \<and> gb_ok g'' \<and> gb_set g' = gb_set g \<and> gb_set g'' = gb_set g \<and> bitmap_magic g' = bitmap_magic g \<and>
    gb_start g' = gb_start g \<and> gb_end g' = gb_end g \<and> gb_bits g' = gb_bits g \<and> gb_same g g''"
proof (cases g)
  case (Bitmap32 b)
  then have c: "ext2fs_copy_generic_bitmap mem junk b = Inr g'" "g'' = Bitmap32 b"
    using res ok by auto
  from copy_bitmap_marked [OF _ w [OF Bitmap32] c(1)] ok show ?thesis by (auto simp: Bitmap32 c(2))
next
  case (Bitmap64 b)
  let ?n = "b\<lparr>bm_private := BA_private [], bm_description := map_option (\<lambda>descr. ''copy of '' @ descr) (bm_description b)\<rparr>"
  from res ok Bitmap64 obtain m1 b' b'' where
    c: "copy_bmap (bitmap_ops b) m1 junk b ?n = (0, b'', b')" "g' = Bitmap64 b'" "g'' = Bitmap64 b''"
    by (auto simp: Let_def split: if_splits prod.splits)
  have "valid_64 b' \<and> same_header ?n b' \<and> marked_64 b' = marked_64 b \<and> valid_64 b'' \<and> same_header b b'' \<and> marked_64 b'' = marked_64 b"
  proof (cases "valid_ba b")
    case True
    with ba_copy_valid [OF True _ _ _ c(1) [unfolded conjunct1 [OF ba_kind [OF True]] bitarray_ops]] show ?thesis
      using ba_kind by auto
  next
    case False
    then have v: "valid_rb b" using ok Bitmap64 by (simp add: valid_64_def)
    have "same_header b b''" using c(1) unfolding conjunct1 [OF rb_kind [OF v]] rbtree_ops
      by (auto simp: rb_copy_bmap_def Let_def split: prod.splits if_splits)
    with rb_copy_valid [OF v _ _ _ c(1) [unfolded conjunct1 [OF rb_kind [OF v]] rbtree_ops]] show ?thesis
      using rb_kind v by auto
  qed
  with ok show ?thesis by (auto simp: c(2,3) Bitmap64)
qed

text \<open>No bit of the last byte of the array lies beyond the real end; the tree never
  has such bits. A resize that shrinks a map may leave them in an array.\<close>

fun gb_tight :: "generic_bitmap \<Rightarrow> bool" where
  "gb_tight (Bitmap32 b) = tight_32 b"
| "gb_tight (Bitmap64 b) = (case bm_private b of BA_private _ \<Rightarrow> ba_tight b | RB_private _ \<Rightarrow> True)"

lemma resize_header:
  "resize_bmap (bitmap_ops b) mem junk b new_end new_real_end = (0, b') \<Longrightarrow>
   bm_magic b' = bm_magic b \<and> bm_start b' = bm_start b \<and> bm_cluster_bits b' = bm_cluster_bits b"
  by (auto simp: bitmap_ops_def ba_resize_bmap_def rb_resize_bmap_def Let_def split: bmap_private.splits if_splits)

lemma resize_64:
  assumes v: "valid_64 b" and t: "gb_tight (Bitmap64 b)"
    and n: "bm_start b \<le> new_end" "new_end \<le> new_real_end" "Suc (unat new_real_end) < 2 ^ 64"
    and res: "resize_bmap (bitmap_ops b) mem junk b new_end new_real_end = (0, b')"
  shows "valid_64 b' \<and> bm_end b' = new_end \<and>
    (\<forall>c. bm_start b \<le> c \<and> c \<le> new_end \<longrightarrow> (c \<in> marked_64 b' \<longleftrightarrow> c \<in> marked_64 b \<and> c \<le> bm_end b))"
proof (cases "valid_ba b")
  case True
  have r: "ba_resize_bmap mem junk b new_end new_real_end = (0, b')" using res ba_kind [OF True] by simp
  have t': "ba_tight b" using t valid_baD(3) [OF True] by simp
  note m = ba_resize_marked [OF True t' n r]
  from m [OF order_refl n(1)] have v': "valid_ba b'" "bm_end b' = new_end" by blast+
  have "c \<in> marked_64 b' \<longleftrightarrow> c \<in> marked_64 b \<and> c \<le> bm_end b" if "bm_start b \<le> c" "c \<le> new_end" for c
    unfolding conjunct1 [OF conjunct2 [OF ba_kind [OF True]]] conjunct1 [OF conjunct2 [OF ba_kind [OF v'(1)]]]
    using m [OF that] by blast
  with v' ba_kind [OF v'(1)] show ?thesis by blast
next
  case False
  then have rb: "valid_rb b" using v by (simp add: valid_64_def)
  have "rb_resize_bmap b new_end new_real_end = (0, b')" using res rb_kind [OF rb] by simp
  from rb_resize_valid [OF rb n this] have v': "valid_rb b'" "bm_end b' = new_end"
    "marked_rb b' = {c \<in> marked_rb b. c \<le> bm_end b \<and> c \<le> new_end} \<union> {c. new_end < c \<and> c \<le> new_real_end}" by blast+
  have "c \<in> marked_64 b' \<longleftrightarrow> c \<in> marked_64 b \<and> c \<le> bm_end b" if "c \<le> new_end" for c
  proof -
    have "\<not> new_end < c" using that by (rule leD)
    then show ?thesis
      unfolding conjunct1 [OF conjunct2 [OF rb_kind [OF rb]]] conjunct1 [OF conjunct2 [OF rb_kind [OF v'(1)]]] v'(3)
      using that by blast
  qed
  with v' rb_kind [OF v'(1)] show ?thesis by blast
qed

lemma resize_generic:
  assumes ok: "gb_ok g" and t: "gb_tight g"
    and n: "gb_start g \<le> new_end" "new_end \<le> new_real_end" "Suc (unat new_real_end) < 2 ^ 64"
      "\<And>b. g = Bitmap32 b \<Longrightarrow> \<not> above_32 new_real_end"
    and res: "ext2fs_resize_generic_bmap mem junk (Some g) new_end new_real_end = (0, g1)"
  shows "\<exists>g'. g1 = Some g' \<and> gb_ok g' \<and> bitmap_magic g' = bitmap_magic g \<and> gb_start g' = gb_start g \<and>
    gb_end g' = new_end \<and> gb_bits g' = gb_bits g \<and>
    (\<forall>c. gb_in g' c \<longrightarrow> (c \<in> gb_set g' \<longleftrightarrow> c \<in> gb_set g \<and> c \<le> gb_end g))"
proof (cases g)
  case (Bitmap32 b)
  note a = n(4) [OF Bitmap32]
  have a': "\<not> above_32 new_end" using a n(2) by (simp add: above_32_iff word_le_nat_alt)
  have le: "b32_start b \<le> ucast new_end" "(ucast new_end :: u32) \<le> ucast new_real_end"
    using n(1,2) ucast_32_64(1) [OF a] ucast_32_64(1) [OF a'] Bitmap32 by (simp_all add: word_le_nat_alt)
  have v: "valid_32 b" "tight_32 b" "EXT2FS_IS_32_BITMAP (b32_magic b)" using ok t Bitmap32 by auto
  from res Bitmap32 v(3) have
    r: "ext2fs_resize_generic_bitmap mem junk (b32_magic b) (ucast new_end) (ucast new_real_end) (Some (Bitmap32 b)) = (0, g1)"
    by simp
  from resize_32 [OF v(1,2) refl le r] obtain b' where b': "g1 = Some (Bitmap32 b')" "valid_32 b'"
    "b32_magic b' = b32_magic b" "b32_start b' = b32_start b" "b32_end b' = ucast new_end"
    "\<And>x. b32_start b \<le> x \<Longrightarrow> x \<le> ucast new_end \<Longrightarrow> x \<in> marked_32 b' \<longleftrightarrow> x \<in> marked_32 b \<and> x \<le> b32_end b" by blast
  have "c \<in> gb_set (Bitmap32 b') \<longleftrightarrow> c \<in> gb_set g \<and> c \<le> gb_end g" if i: "gb_in (Bitmap32 b') c" for c
  proof -
    have c: "\<not> above_32 c" using i gb_in_above by blast
    have "c \<le> gb_end g \<longleftrightarrow> (ucast c :: u32) \<le> b32_end b"
      using ucast_32_64(1) [OF c] by (simp add: Bitmap32 word_le_nat_alt)
    then show ?thesis using b'(6) [of "ucast c"] i gb_in_32 [OF c] b'(4,5) by (simp add: Bitmap32 del: gb_set.simps)
  qed
  then show ?thesis
    using b' v(3) ucast_32_64(2) [OF a'] by (intro exI [of _ "Bitmap32 b'"]) (simp add: Bitmap32 del: gb_set.simps)
next
  case (Bitmap64 b)
  have v: "valid_64 b" "EXT2FS_IS_64_BITMAP (bm_magic b)" "bm_cluster_bits b < 31" using ok Bitmap64 by auto
  from res Bitmap64 v(2) obtain b' where r: "resize_bmap (bitmap_ops b) mem junk b new_end new_real_end = (0, b')"
    "g1 = Some (Bitmap64 b')" by (auto split: prod.splits)
  have n': "bm_start b \<le> new_end" and t': "gb_tight (Bitmap64 b)" using n(1) t Bitmap64 by auto
  from resize_64 [OF v(1) t' n' n(2,3) r(1)] resize_header [OF r(1)] show ?thesis
    using v r(2) by (intro exI [of _ "Bitmap64 b'"]) (simp add: Bitmap64 gb_in_def)
qed
end
