(* ===== verification/Blknum_Correct.thy ===== *)
theory Blknum_Correct
  imports Blknum
begin

text \<open>
  Correctness of \<open>blknum.c\<close>: a number stored in two halves is read back, an
  accessor of one group leaves the other groups alone, and the block groups
  partition the blocks of the file system.
\<close>

section \<open>Numbers in two halves\<close>

lemma join_split_64:
  "(ucast (ucast x :: u32) :: u64) OR push_bit 32 (ucast (ucast (drop_bit 32 x) :: u32)) = x"
  by (rule bit_eqI) (auto simp: bit_simps)

lemma join_split_32:
  "(ucast (ucast x :: u16) :: u32) OR push_bit 16 (ucast (ucast (drop_bit 16 x) :: u16)) = x"
  by (rule bit_eqI) (auto simp: bit_simps)

text \<open>What a counter of a group descriptor and of the super block can hold.\<close>

definition low_64 :: "ext2_super_block \<Rightarrow> u64 \<Rightarrow> u64" where
  "low_64 sb x = (if ext2fs_has_feature_64bit sb then x else ucast (ucast x :: u32))"

definition low_32 :: "ext2_super_block \<Rightarrow> u32 \<Rightarrow> u32" where
  "low_32 sb x = (if ext2fs_has_feature_64bit sb then x else ucast (ucast x :: u16))"

lemma unat_low_64: "unat (low_64 sb x) = (if ext2fs_has_feature_64bit sb then unat x else unat x mod 2 ^ 32)"
  by (simp add: low_64_def unsigned_ucast_eq unsigned_take_bit_eq take_bit_eq_mod [where 'a = nat])

lemma unat_low_32: "unat (low_32 sb x) = (if ext2fs_has_feature_64bit sb then unat x else unat x mod 2 ^ 16)"
  by (simp add: low_32_def unsigned_ucast_eq unsigned_take_bit_eq take_bit_eq_mod [where 'a = nat])

lemma blocks_count_set:
  "ext2fs_blocks_count (ext2fs_blocks_count_set sb n) = low_64 sb n"
  "ext2fs_r_blocks_count (ext2fs_r_blocks_count_set sb n) = low_64 sb n"
  "ext2fs_free_blocks_count (ext2fs_free_blocks_count_set sb n) = low_64 sb n"
  by (simp_all add: ext2fs_blocks_count_def ext2fs_blocks_count_set_def ext2fs_r_blocks_count_def
      ext2fs_r_blocks_count_set_def ext2fs_free_blocks_count_def ext2fs_free_blocks_count_set_def
      low_64_def ext2fs_has_feature_64bit_def Let_def join_split_64)

lemma file_acl_set:
  "ext2fs_file_acl_block fs (ext2fs_file_acl_block_set fs inode blk) =
    (case fs of Some f \<Rightarrow> if ext2fs_has_feature_64bit (fs_super f) then ucast (ucast blk :: u32) OR
        push_bit 32 (ucast (ucast (drop_bit 32 blk) :: u16)) else ucast (ucast blk :: u32)
     | None \<Rightarrow> ucast (ucast blk :: u32))"
  by (auto simp: ext2fs_file_acl_block_def ext2fs_file_acl_block_set_def Let_def split: option.splits)

lemma inode_size_roundtrip:
  assumes "ext2fs_inode_size_set fs inode sz = (0, fs', inode')" "sz < 2 ^ 63"
  shows "0 \<le> sz \<and> int (unat (EXT2_I_SIZE inode')) = sz"
proof -
  have p: "0 \<le> sz" using assms(1) by (auto simp: ext2fs_inode_size_set_def split: if_splits)
  have "i_size inode' = ucast ((word_of_int sz :: u64) AND 0xffffffff)" "i_size_high inode' = ucast (drop_bit 32 (word_of_int sz :: u64))"
    using assms(1) by (auto simp: ext2fs_inode_size_set_def Let_def split: if_splits option.splits prod.splits)
  moreover have "ucast ((word_of_int sz :: u64) AND 0xffffffff) = (ucast (word_of_int sz :: u64) :: u32)"
  proof -
    have m: "(0xffffffff :: u64) = mask 32" by (simp add: mask_eq_exp_minus_1)
    show ?thesis unfolding m by (rule bit_eqI) (auto simp: bit_simps)
  qed
  ultimately have "EXT2_I_SIZE inode' = (word_of_int sz :: u64)" by (simp add: join_split_64)
  with p assms(2) show ?thesis by (simp add: unsigned_of_int take_bit_int_eq_self)
qed

section \<open>Fields of the group descriptors\<close>

definition groups_ok :: "ext2_filsys \<Rightarrow> bool" where
  "groups_ok fs \<longleftrightarrow> length (fs_group_desc fs) = unat (fs_group_desc_count fs)"

definition in_groups :: "ext2_filsys \<Rightarrow> u32 \<Rightarrow> bool" where
  "in_groups fs grp \<longleftrightarrow> grp < fs_group_desc_count fs"

text \<open>Everything of the file system but the descriptors.\<close>

definition same_fs :: "ext2_filsys \<Rightarrow> ext2_filsys \<Rightarrow> bool" where
  "same_fs fs fs' \<longleftrightarrow> fs' = fs\<lparr>fs_group_desc := fs_group_desc fs'\<rparr> \<and>
     length (fs_group_desc fs') = length (fs_group_desc fs)"

lemma same_fs_refl [simp]: "same_fs fs fs"
  by (simp add: same_fs_def)

lemma same_fsD:
  assumes "same_fs fs fs'"
  shows "fs_magic fs' = fs_magic fs" "fs_flags fs' = fs_flags fs" "fs_super fs' = fs_super fs"
    "fs_blocksize fs' = fs_blocksize fs" "fs_group_desc_count fs' = fs_group_desc_count fs"
    "fs_inode_map fs' = fs_inode_map fs" "fs_block_map fs' = fs_block_map fs"
    "fs_cluster_ratio_bits fs' = fs_cluster_ratio_bits fs" "fs_default_bitmap_type fs' = fs_default_bitmap_type fs"
    "groups_ok fs' = groups_ok fs" "in_groups fs' grp = in_groups fs grp"
proof -
  obtain ds where ds: "fs' = fs\<lparr>fs_group_desc := ds\<rparr>" "length ds = length (fs_group_desc fs)"
    using assms unfolding same_fs_def by metis
  show "fs_magic fs' = fs_magic fs" "fs_flags fs' = fs_flags fs" "fs_super fs' = fs_super fs"
    "fs_blocksize fs' = fs_blocksize fs" "fs_group_desc_count fs' = fs_group_desc_count fs"
    "fs_inode_map fs' = fs_inode_map fs" "fs_block_map fs' = fs_block_map fs"
    "fs_cluster_ratio_bits fs' = fs_cluster_ratio_bits fs" "fs_default_bitmap_type fs' = fs_default_bitmap_type fs"
    "groups_ok fs' = groups_ok fs" "in_groups fs' grp = in_groups fs grp"
    by (simp_all add: ds groups_ok_def in_groups_def)
qed

lemma same_fs_trans: "same_fs a b \<Longrightarrow> same_fs b c \<Longrightarrow> same_fs a c"
  unfolding same_fs_def by (metis (no_types, lifting) ext2_filsys.cases ext2_filsys.update_convs(6))

lemma gd_upd_same [simp]: "same_fs fs (gd_upd f fs grp)"
  by (simp add: same_fs_def gd_upd_def)

lemma gd_upd_nth:
  assumes "groups_ok fs" "in_groups fs grp" "in_groups fs h"
  shows "ext4fs_group_desc (gd_upd f fs grp) h =
    (if h = grp then f (ext4fs_group_desc fs grp) else ext4fs_group_desc fs h)"
  using assms
  by (simp add: gd_upd_def ext2fs_group_desc_def groups_ok_def in_groups_def word_less_nat_alt nth_list_update word_unat_eq_iff)

lemma in_groups_nat: "g < unat (fs_group_desc_count fs) \<Longrightarrow> in_groups fs (word_of_nat g) \<and> unat (word_of_nat g :: u32) = g"
  using unat_u32_less [of "fs_group_desc_count fs"] unat_word_of_nat [where 'a = 32, of g]
  by (simp add: in_groups_def word_less_nat_alt)

text \<open>The sum of a counter over the groups.\<close>

definition group_total :: "(ext2_filsys \<Rightarrow> u32 \<Rightarrow> u32) \<Rightarrow> ext2_filsys \<Rightarrow> nat" where
  "group_total get fs = (\<Sum>g<unat (fs_group_desc_count fs). unat (get fs (word_of_nat g)))"

text \<open>The contract of a counter of the descriptors: \<open>keep\<close> is what the field can hold.\<close>

locale group_field =
  fixes get :: "ext2_filsys \<Rightarrow> u32 \<Rightarrow> u32"
    and set' :: "ext2_filsys \<Rightarrow> u32 \<Rightarrow> u32 \<Rightarrow> ext2_filsys"
  assumes set_same: "same_fs fs (set' fs grp n)"
    and get_set: "groups_ok fs \<Longrightarrow> in_groups fs grp \<Longrightarrow> in_groups fs h \<Longrightarrow>
      get (set' fs grp n) h = (if h = grp then low_32 (fs_super fs) n else get fs h)"
    and get_low: "low_32 (fs_super fs) (get fs grp) = get fs grp"
begin

lemma total_set:
  assumes "groups_ok fs" "in_groups fs grp"
  shows "group_total get (set' fs grp n) + unat (get fs grp) = group_total get fs + unat (low_32 (fs_super fs) n)"
proof -
  let ?N = "unat (fs_group_desc_count fs)" and ?i = "unat grp"
  have i: "?i < ?N" using assms(2) by (simp add: in_groups_def word_less_nat_alt)
  have eq: "unat (get (set' fs grp n) (word_of_nat g)) =
      (if g = ?i then unat (low_32 (fs_super fs) n) else unat (get fs (word_of_nat g)))" if "g < ?N" for g
    using get_set [OF assms, of "word_of_nat g"] in_groups_nat [OF that] by (auto simp: word_unat_eq_iff)
  have "group_total get (set' fs grp n) = (\<Sum>g<?N. if g = ?i then unat (low_32 (fs_super fs) n) else unat (get fs (word_of_nat g)))"
    using eq by (simp add: group_total_def same_fsD(5) [OF set_same])
  also have "\<dots> + unat (get fs grp) = group_total get fs + unat (low_32 (fs_super fs) n)"
    using i by (simp add: group_total_def sum.remove [of "{..<?N}" ?i] sum.If_cases Diff_eq [symmetric])
  finally show ?thesis .
qed

end

lemma low_32_join: "low_32 sb (ucast (lo :: u16) OR (if ext2fs_has_feature_64bit sb then push_bit 16 (ucast (hi :: u16)) else 0)) =
  ucast lo OR (if ext2fs_has_feature_64bit sb then push_bit 16 (ucast hi) else 0)"
proof -
  have "(ucast (ucast (ucast lo :: u32) :: u16) :: u32) = ucast lo"
    by (rule bit_eqI) (auto simp: bit_simps dest: bit_imp_le_length)
  then show ?thesis by (simp add: low_32_def)
qed

lemma low_32_cases:
  "ext2fs_has_feature_64bit sb \<Longrightarrow> low_32 sb n = n"
  "\<not> ext2fs_has_feature_64bit sb \<Longrightarrow> low_32 sb n = ucast (ucast n :: u16)"
  by (simp_all add: low_32_def)

lemmas gd_defs = gd_upd_nth same_fsD(3) [OF gd_upd_same] Let_def low_32_join low_32_cases join_split_32

interpretation free_blocks: group_field ext2fs_bg_free_blocks_count ext2fs_bg_free_blocks_count_set
  by unfold_locales (simp_all add: ext2fs_bg_free_blocks_count_def ext2fs_bg_free_blocks_count_set_def gd_defs)

interpretation free_inodes: group_field ext2fs_bg_free_inodes_count ext2fs_bg_free_inodes_count_set
  by unfold_locales (simp_all add: ext2fs_bg_free_inodes_count_def ext2fs_bg_free_inodes_count_set_def gd_defs)

interpretation used_dirs: group_field ext2fs_bg_used_dirs_count ext2fs_bg_used_dirs_count_set
  by unfold_locales (simp_all add: ext2fs_bg_used_dirs_count_def ext2fs_bg_used_dirs_count_set_def gd_defs)

interpretation itable_unused: group_field ext2fs_bg_itable_unused ext2fs_bg_itable_unused_set
  by unfold_locales (simp_all add: ext2fs_bg_itable_unused_def ext2fs_bg_itable_unused_set_def gd_defs)

lemma block_loc_set:
  assumes "groups_ok fs" "in_groups fs grp" "in_groups fs h"
  shows "ext2fs_block_bitmap_loc (ext2fs_block_bitmap_loc_set fs grp blk) h =
      (if h = grp then low_64 (fs_super fs) blk else ext2fs_block_bitmap_loc fs h)"
    and "ext2fs_inode_bitmap_loc (ext2fs_inode_bitmap_loc_set fs grp blk) h =
      (if h = grp then low_64 (fs_super fs) blk else ext2fs_inode_bitmap_loc fs h)"
    and "ext2fs_inode_table_loc (ext2fs_inode_table_loc_set fs grp blk) h =
      (if h = grp then low_64 (fs_super fs) blk else ext2fs_inode_table_loc fs h)"
  using assms
  by (simp_all add: ext2fs_block_bitmap_loc_def ext2fs_block_bitmap_loc_set_def ext2fs_inode_bitmap_loc_def
      ext2fs_inode_bitmap_loc_set_def ext2fs_inode_table_loc_def ext2fs_inode_table_loc_set_def
      gd_upd_nth same_fsD(3) [OF gd_upd_same] Let_def low_64_def join_split_64)

lemma bg_flags_upd:
  assumes "groups_ok fs" "in_groups fs grp" "in_groups fs h"
  shows "ext2fs_bg_flags (ext2fs_bg_flags_set fs grp fl) h =
      (if h = grp then ext2fs_bg_flags fs grp OR fl else ext2fs_bg_flags fs h)"
    and "ext2fs_bg_flags (ext2fs_bg_flags_clear fs grp fl) h =
      (if h = grp then ext2fs_bg_flags fs grp AND NOT fl else ext2fs_bg_flags fs h)"
    and "ext2fs_bg_flags (ext2fs_bg_flags_zap fs grp) h = (if h = grp then 0 else ext2fs_bg_flags fs h)"
  using assms by (simp_all add: ext2fs_bg_flags_def ext2fs_bg_flags_set_def ext2fs_bg_flags_clear_def
      ext2fs_bg_flags_zap_def gd_upd_nth)

section \<open>The blocks of a group\<close>

text \<open>The geometry that \<open>ext2fs_open2\<close> establishes: the groups cover the blocks of the
  file system, and the last one is not empty.\<close>

definition geometry_ok :: "ext2_filsys \<Rightarrow> bool" where
  "geometry_ok fs \<longleftrightarrow> 0 < s_blocks_per_group (fs_super fs) \<and>
     unat (s_first_data_block (fs_super fs)) < unat (ext2fs_blocks_count (fs_super fs)) \<and>
     unat (fs_group_desc_count fs) =
       (unat (ext2fs_blocks_count (fs_super fs)) - unat (s_first_data_block (fs_super fs)) - 1)
         div unat (s_blocks_per_group (fs_super fs)) + 1"

abbreviation fs_fdb :: "ext2_filsys \<Rightarrow> nat" where
  "fs_fdb fs \<equiv> unat (s_first_data_block (fs_super fs))"

abbreviation fs_bpg :: "ext2_filsys \<Rightarrow> nat" where
  "fs_bpg fs \<equiv> unat (s_blocks_per_group (fs_super fs))"

abbreviation fs_blocks :: "ext2_filsys \<Rightarrow> nat" where
  "fs_blocks fs \<equiv> unat (ext2fs_blocks_count (fs_super fs))"

lemma geometry_okD:
  assumes "geometry_ok fs"
  shows "0 < fs_bpg fs" "fs_fdb fs < fs_blocks fs" "unat (fs_group_desc_count fs) = (fs_blocks fs - fs_fdb fs - 1) div fs_bpg fs + 1"
  using assms by (simp_all add: geometry_ok_def word_less_nat_alt)

lemma unat_group_of_blk:
  assumes g: "geometry_ok fs" and b: "fs_fdb fs \<le> unat blk" "unat blk < fs_blocks fs"
  shows "unat (ext2fs_group_of_blk2 fs blk) = (unat blk - fs_fdb fs) div fs_bpg fs"
    and "in_groups fs (ext2fs_group_of_blk2 fs blk)"
proof -
  note d = geometry_okD [OF g]
  let ?q = "(blk - ucast (s_first_data_block (fs_super fs))) div ucast (s_blocks_per_group (fs_super fs))"
  have q: "unat ?q = (unat blk - fs_fdb fs) div fs_bpg fs"
    using b by (simp add: unat_div unat_minus_le)
  have le: "(unat blk - fs_fdb fs) div fs_bpg fs \<le> (fs_blocks fs - fs_fdb fs - 1) div fs_bpg fs"
    using b by (intro div_le_mono) linarith
  then have lt: "unat ?q < unat (fs_group_desc_count fs)" using q d(3) by linarith
  then show u: "unat (ext2fs_group_of_blk2 fs blk) = (unat blk - fs_fdb fs) div fs_bpg fs"
    using q unat_u32_less [of "fs_group_desc_count fs"] by (simp add: ext2fs_group_of_blk2_def unat_ucast_32)
  show "in_groups fs (ext2fs_group_of_blk2 fs blk)"
    using lt by (simp add: in_groups_def word_less_nat_alt u q)
qed

lemma group_fits:
  assumes "geometry_ok fs" "in_groups fs grp"
  shows "fs_fdb fs + fs_bpg fs * unat grp < fs_blocks fs"
proof -
  note d = geometry_okD [OF assms(1)]
  have "unat grp \<le> (fs_blocks fs - fs_fdb fs - 1) div fs_bpg fs"
    using assms(2) d(3) by (simp add: in_groups_def word_less_nat_alt)
  then have "unat grp * fs_bpg fs \<le> fs_blocks fs - fs_fdb fs - 1"
    using d(1) by (simp add: less_eq_div_iff_mult_less_eq)
  with d(2) show ?thesis by (simp add: mult.commute)
qed

lemma unat_group_first:
  assumes "geometry_ok fs" "in_groups fs grp"
  shows "unat (ext2fs_group_first_block2 fs grp) = fs_fdb fs + fs_bpg fs * unat grp"
proof -
  have f: "fs_fdb fs + fs_bpg fs * unat grp < 2 ^ 64"
    using group_fits [OF assms] unat_u64_less [of "ext2fs_blocks_count (fs_super fs)"] by linarith
  then have "unat ((ucast (s_blocks_per_group (fs_super fs)) :: u64) * ucast grp) = fs_bpg fs * unat grp"
    by (simp add: unat_word_ariths)
  with f show ?thesis by (simp add: ext2fs_group_first_block2_def unat_word_ariths)
qed

lemma unat_last_group:
  assumes "geometry_ok fs"
  shows "unat (fs_group_desc_count fs - 1) = unat (fs_group_desc_count fs) - 1"
  using geometry_okD(3) [OF assms] by (intro unat_minus_one) auto

text \<open>The last block of a group, on natural numbers.\<close>

lemma unat_group_last:
  assumes g: "geometry_ok fs" and i: "in_groups fs grp"
  shows "unat (ext2fs_group_last_block2 fs grp) =
    (if grp = fs_group_desc_count fs - 1 then fs_blocks fs - 1 else fs_fdb fs + fs_bpg fs * unat grp + fs_bpg fs - 1)"
proof (cases "grp = fs_group_desc_count fs - 1")
  case True
  have "ext2fs_blocks_count (fs_super fs) \<noteq> 0" using geometry_okD(2) [OF g] by auto
  then have "unat (ext2fs_blocks_count (fs_super fs) - 1) = fs_blocks fs - 1"
    by (simp add: unat_minus_one)
  with True show ?thesis by (simp add: ext2fs_group_last_block2_def)
next
  case False
  note d = geometry_okD [OF g]
  have c0: "unat (fs_group_desc_count fs) \<noteq> 0" using d(3) by simp
  with unat_last_group [OF g] False i have l: "Suc (unat grp) < unat (fs_group_desc_count fs)"
    by (simp add: in_groups_def word_less_nat_alt word_unat_eq_iff)
  then have "in_groups fs (grp + 1)" "unat (grp + 1) = Suc (unat grp)"
    using unat_u32_less [of "fs_group_desc_count fs"] by (simp_all add: in_groups_def word_less_nat_alt unat_word_ariths)
  with group_fits [OF g, of "grp + 1"] have
    f: "fs_fdb fs + fs_bpg fs * unat grp + fs_bpg fs < 2 ^ 64"
    using unat_u64_less [of "ext2fs_blocks_count (fs_super fs)"] by (simp add: algebra_simps)
  have "s_blocks_per_group (fs_super fs) \<noteq> 0" using d(1) by auto
  then have b: "unat (s_blocks_per_group (fs_super fs) - 1) = fs_bpg fs - 1" by (rule unat_minus_one)
  have "unat (ext2fs_group_first_block2 fs grp + ucast (s_blocks_per_group (fs_super fs) - 1)) =
      fs_fdb fs + fs_bpg fs * unat grp + (fs_bpg fs - 1)"
    using f d(1) b unat_group_first [OF g i] by (subst unat_add_lem [THEN iffD1]) simp_all
  with False d(1) show ?thesis by (simp add: ext2fs_group_last_block2_def)
qed

lemma div_eq_range: "0 < (n :: nat) \<Longrightarrow> a div n = q \<longleftrightarrow> n * q \<le> a \<and> a < n * q + n"
  using dividend_less_times_div [of n a] times_div_less_eq_dividend [of n a]
  by (auto intro: div_nat_eqI simp: ac_simps)

lemma group_range_nat:
  assumes g: "geometry_ok fs" and b: "fs_fdb fs \<le> b" "b < fs_blocks fs" and i: "in_groups fs grp"
  shows "(b - fs_fdb fs) div fs_bpg fs = unat grp \<longleftrightarrow>
    unat (ext2fs_group_first_block2 fs grp) \<le> b \<and> b \<le> unat (ext2fs_group_last_block2 fs grp)"
proof -
  note d = geometry_okD [OF g]
  have dv: "(b - fs_fdb fs) div fs_bpg fs = unat grp \<longleftrightarrow>
      fs_bpg fs * unat grp \<le> b - fs_fdb fs \<and> b - fs_fdb fs < fs_bpg fs * unat grp + fs_bpg fs"
    using d(1) by (rule div_eq_range)
  show ?thesis
  proof (cases "grp = fs_group_desc_count fs - 1")
    case True
    have "unat grp = (fs_blocks fs - fs_fdb fs - 1) div fs_bpg fs"
      using d(3) unat_last_group [OF g] by (simp add: True)
    then have "fs_blocks fs - fs_fdb fs - 1 < fs_bpg fs * unat grp + fs_bpg fs"
      using d(1) dividend_less_times_div [of "fs_bpg fs" "fs_blocks fs - fs_fdb fs - 1"] by simp
    then show ?thesis unfolding dv unat_group_first [OF g i] unat_group_last [OF g i] using True b by auto
  next
    case False
    then show ?thesis unfolding dv unat_group_first [OF g i] unat_group_last [OF g i] using b d(1) by auto
  qed
qed

lemma group_of_blk_iff:
  assumes g: "geometry_ok fs" and b: "fs_fdb fs \<le> unat blk" "unat blk < fs_blocks fs" and i: "in_groups fs grp"
  shows "ext2fs_group_of_blk2 fs blk = grp \<longleftrightarrow>
    ext2fs_group_first_block2 fs grp \<le> blk \<and> blk \<le> ext2fs_group_last_block2 fs grp"
  using group_range_nat [OF g b i] unat_group_of_blk(1) [OF g b]
  by (simp add: word_unat_eq_iff word_le_nat_alt)

lemma group_blocks_count_range:
  assumes g: "geometry_ok fs" and i: "in_groups fs grp" and s: "fs_bpg fs < 2 ^ 31"
  shows "ext2fs_group_blocks_count fs grp =
    int (Suc (unat (ext2fs_group_last_block2 fs grp)) - unat (ext2fs_group_first_block2 fs grp))"
proof (cases "grp = fs_group_desc_count fs - 1")
  case False
  then show ?thesis
    using s geometry_okD(1) [OF g] unfolding unat_group_first [OF g i] unat_group_last [OF g i]
    by (simp add: ext2fs_group_blocks_count_def sint_small)
next
  case True
  note d = geometry_okD [OF g]
  let ?n = "fs_blocks fs - fs_fdb fs" and ?b = "fs_bpg fs"
  let ?r = "ucast ((ext2fs_blocks_count (fs_super fs) - ucast (s_first_data_block (fs_super fs)))
                           mod ucast (s_blocks_per_group (fs_super fs))) :: u32"
  have r: "unat ?r = ?n mod ?b"
  proof -
    have "?n mod ?b < 2 ^ 32" using s mod_less_divisor [OF d(1), of ?n] by simp
    then show ?thesis using d(2) by (simp add: unat_ucast_32 unat_mod unat_minus_le)
  qed
  have "?n mod ?b < 2 ^ 31" using s mod_less_divisor [OF d(1), of ?n] by linarith
  then have c: "ext2fs_group_blocks_count fs grp = (if ?n mod ?b = 0 then int ?b else int (?n mod ?b))"
    using s r True by (simp add: ext2fs_group_blocks_count_def Let_def sint_small)
  have gr: "unat grp = (?n - 1) div ?b" using d(3) unat_last_group [OF g] by (simp add: True)
  have "(if ?n mod ?b = 0 then ?b else ?n mod ?b) = ?n - ?b * ((?n - 1) div ?b)"
  proof -
    have "?n = Suc (?n - 1)" using d(2) by simp
    then obtain m where m: "?n = Suc m" by blast
    have "Suc m - ?b * (m div ?b) = Suc (m mod ?b)" using mult_div_mod_eq [of ?b m] by linarith
    then show ?thesis unfolding m using d(1) by (auto simp: mod_Suc)
  qed
  moreover have "Suc (unat (ext2fs_group_last_block2 fs grp)) - unat (ext2fs_group_first_block2 fs grp) =
      ?n - ?b * ((?n - 1) div ?b)"
    using d(2) unfolding unat_group_first [OF g i] unat_group_last [OF g i] gr using True by simp
  ultimately show ?thesis using c by (metis (full_types))
qed

lemma group_blocks_total:
  assumes g: "geometry_ok fs" and s: "fs_bpg fs < 2 ^ 31"
  shows "(\<Sum>i<unat (fs_group_desc_count fs). ext2fs_group_blocks_count fs (word_of_nat i)) = int (fs_blocks fs - fs_fdb fs)"
proof -
  note d = geometry_okD [OF g]
  let ?N = "unat (fs_group_desc_count fs)" and ?c = "\<lambda>i. ext2fs_group_blocks_count fs (word_of_nat i)"
  obtain k where k: "?N = Suc k" using d(3) by simp
  have last: "word_of_nat i = fs_group_desc_count fs - 1 \<longleftrightarrow> i = k" if "i < ?N" for i
    using in_groups_nat [OF that] unat_last_group [OF g] k by (simp add: word_unat_eq_iff)
  have "?c i = int (fs_bpg fs)" if "i < k" for i
    using last [of i] that k s by (simp add: ext2fs_group_blocks_count_def sint_small)
  then have "(\<Sum>i<k. ?c i) = int k * int (fs_bpg fs)" by simp
  moreover have kN: "k < ?N" using k by simp
  then have "?c k = int (fs_blocks fs - (fs_fdb fs + fs_bpg fs * k))"
    using group_blocks_count_range [OF g _ s, of "word_of_nat k"] unat_group_first [OF g, of "word_of_nat k"]
      unat_group_last [OF g, of "word_of_nat k"] in_groups_nat [OF kN] last [OF kN] d(2) by simp
  moreover have "fs_fdb fs + fs_bpg fs * k < fs_blocks fs"
    using group_fits [OF g, of "word_of_nat k"] in_groups_nat [OF kN] by simp
  ultimately show ?thesis by (simp add: k algebra_simps of_nat_diff)
qed
end
