(* ===== verification/Bitmaps_Correct.thy ===== *)
theory Bitmaps_Correct
  imports Bitmaps Gen_Bitmap64_Correct Blknum_Correct
begin

text \<open>
  Correctness of \<open>bitmaps.c\<close> and of the functions built on the searches: a new map
  covers the blocks or inodes of the file system, counting counts, and the
  conversion to clusters keeps a cluster exactly when one of its blocks was set.
\<close>

section \<open>New maps\<close>

text \<open>Clusters fit the groups: a group holds whole clusters, and the first block
  starts one.\<close>

definition clusters_ok :: "ext2_filsys \<Rightarrow> bool" where
  "clusters_ok fs \<longleftrightarrow> fs_cluster_ratio_bits fs < 31 \<and>
     fs_bpg fs = unat (s_clusters_per_group (fs_super fs)) * 2 ^ fs_cluster_ratio_bits fs \<and>
     fs_fdb fs mod 2 ^ fs_cluster_ratio_bits fs = 0"

lemma unat_B2C: "unat (EXT2FS_B2C fs blk) = unat blk div 2 ^ fs_cluster_ratio_bits fs"
  by (simp add: EXT2FS_B2C_def unat_drop_bit)

lemma unat_mult_32: "unat ((ucast (a :: u32) :: u64) * ucast (b :: u32)) = unat a * unat b"
proof -
  have "unat a \<le> 2 ^ 32 - 1" "unat b \<le> 2 ^ 32 - 1" using unat_u32_less [of a] unat_u32_less [of b] by linarith+
  then have "unat a * unat b \<le> (2 ^ 32 - 1) * (2 ^ 32 - 1)" by (rule mult_le_mono)
  then have "unat a * unat b < 2 ^ 64" by simp
  then show ?thesis by (simp add: unat_word_ariths)
qed

lemma unat_real_end:
  assumes "0 < unat (a :: u32)" "0 < unat (b :: u32)" "unat s < 2 ^ 32"
  shows "unat ((ucast a :: u64) * ucast b - 1 + s) = unat a * unat b - 1 + unat s"
proof -
  have "unat a \<le> 2 ^ 32 - 1" "unat b \<le> 2 ^ 32 - 1" using unat_u32_less [of a] unat_u32_less [of b] by linarith+
  then have m: "unat a * unat b \<le> (2 ^ 32 - 1) * (2 ^ 32 - 1)" by (rule mult_le_mono)
  have p: "0 < unat a * unat b" using assms(1,2) by simp
  then have "(ucast a :: u64) * ucast b \<noteq> 0" using unat_mult_32 [of a b] by (metis less_numeral_extra(3) unat_0)
  then have "unat ((ucast a :: u64) * ucast b - 1) = unat a * unat b - 1"
    by (simp add: unat_minus_one unat_mult_32)
  moreover have "unat a * unat b - 1 + unat s < 2 ^ 64" using m assms(3) by simp
  ultimately show ?thesis by (simp add: unat_word_ariths)
qed

lemma block_map_bounds:
  assumes g: "geometry_ok fs" and c: "clusters_ok fs"
  defines "s \<equiv> EXT2FS_B2C fs (ucast (s_first_data_block (fs_super fs)))"
    and "e \<equiv> EXT2FS_B2C fs (ext2fs_blocks_count (fs_super fs) - 1)"
    and "r \<equiv> ucast (s_clusters_per_group (fs_super fs)) * ucast (fs_group_desc_count fs) - 1 + EXT2FS_B2C fs (ucast (s_first_data_block (fs_super fs)))"
  shows "s \<le> e" "e \<le> r" "Suc (unat r) < 2 ^ 64"
proof -
  note d = geometry_okD [OF g]
  let ?K = "2 ^ fs_cluster_ratio_bits fs :: nat" and ?cpg = "unat (s_clusters_per_group (fs_super fs))"
    and ?N = "unat (fs_group_desc_count fs)"
  have k: "fs_bpg fs = ?cpg * ?K" "fs_fdb fs mod ?K = 0" using c by (simp_all add: clusters_ok_def)
  have us: "unat s = fs_fdb fs div ?K" by (simp add: s_def unat_B2C)
  have "ext2fs_blocks_count (fs_super fs) \<noteq> 0" using d(2) by auto
  then have ue: "unat e = (fs_blocks fs - 1) div ?K" by (simp add: e_def unat_B2C unat_minus_one)
  have pos: "0 < ?cpg" "0 < ?N" using d(1,3) k(1) by simp_all
  have s32: "unat s < 2 ^ 32" unfolding us using unat_u32_less [of "s_first_data_block (fs_super fs)"]
    by (meson div_le_dividend le_less_trans)
  have ur: "unat r = ?cpg * ?N - 1 + unat s" unfolding r_def s_def [symmetric] by (rule unat_real_end [OF pos s32])
  show "s \<le> e" unfolding word_le_nat_alt us ue using d(2) by (intro div_le_mono) linarith
  have "fs_blocks fs - 1 - fs_fdb fs < fs_bpg fs * ?N"
    unfolding d(3) using dividend_less_times_div [OF d(1), of "fs_blocks fs - fs_fdb fs - 1"] by simp
  then have "fs_blocks fs - 1 < (?cpg * ?N) * ?K + fs_fdb fs" unfolding k(1) using d(2) by (simp add: ac_simps)
  also have "\<dots> = (?cpg * ?N + unat s) * ?K"
    using k(2) us by (simp add: add_mult_distrib) (metis dvd_div_mult_self mod_0_imp_dvd)
  finally have "unat e < ?cpg * ?N + unat s" unfolding ue by (rule less_mult_imp_div_less)
  with pos ur show "e \<le> r" unfolding word_le_nat_alt by (simp add: Suc_leI flip: less_Suc_eq_le)
  have "?cpg \<le> 2 ^ 32 - 1" "?N \<le> 2 ^ 32 - 1"
    using unat_u32_less [of "s_clusters_per_group (fs_super fs)"] unat_u32_less [of "fs_group_desc_count fs"] by linarith+
  then have "?cpg * ?N \<le> (2 ^ 32 - 1) * (2 ^ 32 - 1)" by (rule mult_le_mono)
  with s32 show "Suc (unat r) < 2 ^ 64" unfolding ur by simp
qed

lemma allocate_block_bitmap_new:
  assumes g: "geometry_ok fs" and c: "clusters_ok fs"
    and l: "fs_flags fs AND EXT2_FLAG_64BITS = 0 \<Longrightarrow> fs_cluster_ratio_bits fs = 0"
    and r: "ext2fs_allocate_block_bitmap mem junk fs descr = Inr b"
  shows "gb_ok b \<and> gb_set b = {} \<and> gb_bits b = fs_cluster_ratio_bits fs \<and>
    gb_start b = EXT2FS_B2C fs (ucast (s_first_data_block (fs_super fs))) \<and>
    gb_end b = EXT2FS_B2C fs (ext2fs_blocks_count (fs_super fs) - 1) \<and>
    (fs_flags fs AND EXT2_FLAG_64BITS \<noteq> 0 \<longrightarrow> (\<exists>c. b = Bitmap64 c \<and> bm_real_end c =
      ucast (s_clusters_per_group (fs_super fs)) * ucast (fs_group_desc_count fs) - 1 + EXT2FS_B2C fs (ucast (s_first_data_block (fs_super fs)))))"
proof (cases "fs_flags fs AND EXT2_FLAG_64BITS = 0")
  case False
  then have "ext2fs_alloc_generic_bmap mem junk fs EXT2_ET_MAGIC_BLOCK_BITMAP64 (int (unat (fs_default_bitmap_type fs)))
     (EXT2FS_B2C fs (ucast (s_first_data_block (fs_super fs)))) (EXT2FS_B2C fs (ext2fs_blocks_count (fs_super fs) - 1))
     (ucast (s_clusters_per_group (fs_super fs)) * ucast (fs_group_desc_count fs) - 1 + EXT2FS_B2C fs (ucast (s_first_data_block (fs_super fs))))
     descr = Inr b"
    using r by (auto simp: ext2fs_allocate_block_bitmap_def Let_def split: if_splits)
  from alloc_generic [OF block_map_bounds [OF g c] _ _ this] c False show ?thesis
    by (simp add: clusters_ok_def EXT2FS_IS_64_BITMAP_def)
next
  case True
  define s e r1 where d: "s = EXT2FS_B2C fs (ucast (s_first_data_block (fs_super fs)))"
    "e = EXT2FS_B2C fs (ext2fs_blocks_count (fs_super fs) - 1)"
    "r1 = ucast (s_clusters_per_group (fs_super fs)) * ucast (fs_group_desc_count fs) - 1 + EXT2FS_B2C fs (ucast (s_first_data_block (fs_super fs)))"
  note b = block_map_bounds [OF g c, folded d]
  have m: "ext2fs_make_generic_bitmap mem junk EXT2_ET_MAGIC_BLOCK_BITMAP (ucast s) (ucast e) (ucast r1) descr None = Inr b"
    and le: "r1 \<le> 0xFFFFFFFF"
    using r True by (auto simp: ext2fs_allocate_block_bitmap_def Let_def d split: if_splits)
  have a: "\<not> above_32 r1" "\<not> above_32 e" "\<not> above_32 s"
    using le b(1,2) by (simp_all add: above_32_iff word_le_nat_alt)
  note u = ucast_32_64 [OF a(1)] ucast_32_64 [OF a(2)] ucast_32_64 [OF a(3)]
  have "(ucast s :: u32) \<le> ucast e" "(ucast e :: u32) \<le> ucast r1" using b(1,2) u by (simp_all add: word_le_nat_alt)
  from make_bitmap_new [OF this m] obtain b' where "b = Bitmap32 b'" "valid_32 b'" "marked_32 b' = {}"
    "b32_magic b' = EXT2_ET_MAGIC_BLOCK_BITMAP" "b32_start b' = ucast s" "b32_end b' = ucast e" by blast
  with l [OF True] u True show ?thesis by (simp add: EXT2FS_IS_32_BITMAP_def flip: d)
qed

section \<open>Counting\<close>

definition count_in :: "(nat \<Rightarrow> bool) \<Rightarrow> nat \<Rightarrow> nat \<Rightarrow> nat" where
  "count_in P a b = card {n \<in> {a..b}. P n}"

lemma count_in_none: "(\<And>n. a \<le> n \<Longrightarrow> n \<le> b \<Longrightarrow> \<not> P n) \<Longrightarrow> count_in P a b = 0"
  by (auto simp: count_in_def)

text \<open>A gap, a run and the bit that ends it; or a run up to the end.\<close>

lemma count_in_run:
  assumes "a \<le> m" "m \<le> z" "z \<le> b" "\<And>n. a \<le> n \<Longrightarrow> n < m \<Longrightarrow> \<not> P n" "\<And>n. m \<le> n \<Longrightarrow> n < z \<Longrightarrow> P n" "\<not> P z"
  shows "count_in P a b = (z - m) + count_in P (Suc z) b"
proof -
  have "{n \<in> {a..b}. P n} = {m..<z} \<union> {n \<in> {Suc z..b}. P n}"
  proof (rule set_eqI)
    fix n show "n \<in> {n \<in> {a..b}. P n} \<longleftrightarrow> n \<in> {m..<z} \<union> {n \<in> {Suc z..b}. P n}"
      using assms(4) [of n] assms(5) [of n] assms(1-3,6) by (cases "n < m"; cases "n < z"; cases "n = z") auto
  qed
  moreover have "card ({m..<z} \<union> {n \<in> {Suc z..b}. P n}) = card {m..<z} + card {n \<in> {Suc z..b}. P n}"
    by (rule card_Un_disjoint) auto
  ultimately show "count_in P a b = (z - m) + count_in P (Suc z) b" by (simp add: count_in_def)
qed

lemma count_in_tail:
  assumes "a \<le> m" "m \<le> b" "\<And>n. a \<le> n \<Longrightarrow> n < m \<Longrightarrow> \<not> P n" "\<And>n. m \<le> n \<Longrightarrow> n \<le> b \<Longrightarrow> P n"
  shows "count_in P a b = Suc b - m"
proof -
  have "{n \<in> {a..b}. P n} = {m..b}"
  proof (rule set_eqI)
    fix n show "n \<in> {n \<in> {a..b}. P n} \<longleftrightarrow> n \<in> {m..b}"
      using assms(3) [of n] assms(4) [of n] assms(1,2) by (cases "n < m") auto
  qed
  then show ?thesis by (simp add: count_in_def)
qed

text \<open>The blocks of a map that are in use, by their numbers.\<close>

definition used_block :: "generic_bitmap \<Rightarrow> nat \<Rightarrow> bool" where
  "used_block g n \<longleftrightarrow> n < 2 ^ 64 \<and> drop_bit (gb_bits g) (word_of_nat n) \<in> gb_set g"

lemma used_block_word: "used_block g (unat x) \<longleftrightarrow> drop_bit (gb_bits g) x \<in> gb_set g"
  using unat_u64_less [of x] by (simp add: used_block_def)

lemma nat_u64_ex: "n < 2 ^ 64 \<Longrightarrow> \<exists>x :: u64. unat x = n"
  using unat_word_of_nat [where 'a = 64, of n] by auto
 
lemma root_not_empty: "gb_set (Bitmap64 b) \<noteq> {} \<Longrightarrow> valid_rb b \<Longrightarrow> rb_root (rb_priv b) \<noteq> Leaf"
  using rb_kind [of b] by (auto simp: marked_rb_def rb_bits_def)

text \<open>What a search up to \<open>end'\<close> needs.\<close>

definition search_ok :: "generic_bitmap \<Rightarrow> u64 \<Rightarrow> bool" where
  "search_ok g end' \<longleftrightarrow> gb_ok g \<and> gb_in g (drop_bit (gb_bits g) end') \<and> Suc (unat end') < 2 ^ 64 \<and>
     (\<forall>b. g = Bitmap32 b \<longrightarrow> end' \<noteq> 0xFFFFFFFF)"

lemma gb_in_mono:
  assumes "gb_in g (drop_bit k a)" "gb_in g (drop_bit k e)" "a \<le> b" "b \<le> e"
  shows "gb_in g (drop_bit k b)"
proof -
  have "drop_bit k a \<le> drop_bit k b" "drop_bit k b \<le> drop_bit k e"
    using assms(3,4) by (simp_all add: word_le_nat_alt unat_drop_bit div_le_mono)
  with assms(1,2) show ?thesis unfolding gb_in_def by (meson order_trans)
qed

text \<open>The result of a search on block numbers.\<close>

definition found_nat :: "(nat \<Rightarrow> bool) \<Rightarrow> u64 \<Rightarrow> u64 \<Rightarrow> errcode + u64 \<Rightarrow> bool" where
  "found_nat P start end' r \<longleftrightarrow>
    (case r of
       Inl e \<Rightarrow> e = ENOENT \<and> (\<forall>n. unat start \<le> n \<and> n \<le> unat end' \<longrightarrow> \<not> P n)
     | Inr b \<Rightarrow> unat start \<le> unat b \<and> unat b \<le> unat end' \<and> P (unat b) \<and> (\<forall>n. unat start \<le> n \<and> n < unat b \<longrightarrow> \<not> P n))"

lemma found_nat_search:
  assumes "search_result Q start end' r" "\<And>x. Q x \<longleftrightarrow> P (unat x)"
  shows "found_nat P start end' r"
proof (cases r)
  case (Inl e)
  have "\<not> P n" if "unat start \<le> n" "n \<le> unat end'" for n
  proof -
    note n = that
    obtain x :: u64 where "unat x = n" using nat_u64_ex [of n] n(2) unat_u64_less [of end'] by (meson le_less_trans)
    then show ?thesis using assms n by (auto simp: Inl search_result_def word_le_nat_alt)
  qed
  with assms(1) show ?thesis by (simp add: Inl found_nat_def search_result_def)
next
  case (Inr b)
  have "\<not> P n" if "unat start \<le> n" "n < unat b" for n
  proof -
    note n = that
    obtain x :: u64 where "unat x = n" using nat_u64_ex [of n] n(2) unat_u64_less [of b] by (meson less_trans)
    then show ?thesis using assms n by (auto simp: Inr search_result_def word_le_nat_alt word_less_nat_alt)
  qed
  with assms show ?thesis by (simp add: Inr found_nat_def search_result_def word_le_nat_alt)
qed

lemma find_set_nat:
  assumes "search_ok g end'" "gb_in g (drop_bit (gb_bits g) start)" "start \<le> end'"
  shows "\<exists>r. ext2fs_find_first_set_block_bitmap2 (Some g) start end' = Some r \<and> found_nat (used_block g) start end' r"
proof -
  obtain r where r: "ext2fs_find_first_set_generic_bmap (Some g) start end' = Some r"
    "search_result (\<lambda>x. drop_bit (gb_bits g) x \<in> gb_set g) start end' r"
    using find_first_set_generic [of g start end'] assms by (auto simp: search_ok_def)
  from found_nat_search [OF r(2)] r(1) show ?thesis by (auto simp: bitmap_inlines used_block_word)
qed

lemma find_zero_nat:
  assumes "search_ok g end'" "gb_in g (drop_bit (gb_bits g) start)" "start \<le> end'" "gb_set g \<noteq> {}"
  shows "\<exists>r. ext2fs_find_first_zero_block_bitmap2 (Some g) start end' = Some r \<and>
    found_nat (\<lambda>n. \<not> used_block g n) start end' r"
proof -
  obtain r where r: "ext2fs_find_first_zero_generic_bmap (Some g) start end' = Some r"
    "search_result (\<lambda>x. drop_bit (gb_bits g) x \<notin> gb_set g) start end' r"
    using find_first_zero_generic [of g start end'] assms root_not_empty by (auto simp: search_ok_def simp del: gb_set.simps)
  from found_nat_search [OF r(2)] r(1) show ?thesis by (auto simp: bitmap_inlines used_block_word)
qed


lemma unat_Suc_64: "Suc (unat (x :: u64)) < 2 ^ 64 \<Longrightarrow> unat (x + 1) = Suc (unat x)"
  by (simp add: unat_word_ariths)

lemma found_run:
  assumes f: "found_nat P start end' (Inr m)" and z: "found_nat (\<lambda>n. \<not> P n) m end' r"
  shows "r = Inr z' \<Longrightarrow> count_in P (unat start) (unat end') = (unat z' - unat m) + count_in P (Suc (unat z')) (unat end')"
    and "r = Inl e \<Longrightarrow> count_in P (unat start) (unat end') = Suc (unat end') - unat m"
proof -
  note fs = f [unfolded found_nat_def sum.case]
  { assume "r = Inr z'"
    note zs = z [unfolded found_nat_def \<open>r = Inr z'\<close> sum.case]
    show "count_in P (unat start) (unat end') = (unat z' - unat m) + count_in P (Suc (unat z')) (unat end')"
      using fs zs by (intro count_in_run) auto }
  { assume "r = Inl e"
    note zs = z [unfolded found_nat_def \<open>r = Inl e\<close> sum.case]
    show "count_in P (unat start) (unat end') = Suc (unat end') - unat m"
      using fs zs by (intro count_in_tail) auto }
qed

text \<open>The last block is only looked at when the run before it reaches it, so the
  count is right when the last block is not in use on its own.\<close>

lemma count_used_loop_counts:
  assumes ok: "search_ok g end'" and last: "used_block g (unat end') \<Longrightarrow> used_block g (unat end' - 1)"
  shows "unat start \<le> Suc (unat end') \<Longrightarrow> gb_in g (drop_bit (gb_bits g) (if start \<le> end' then start else end')) \<Longrightarrow>
    start < end' \<or> rv = 0 \<and> (start = end' \<longrightarrow> \<not> used_block g (unat end')) \<Longrightarrow>
    count_used_loop (Some g) end' start tot rv =
      Some (0, tot + word_of_nat (count_in (used_block g) (unat start) (unat end')))"
proof (induction "Suc (unat end') - unat start" arbitrary: start tot rv rule: less_induct)
  case less
  have e: "Suc (unat end') < 2 ^ 64" using ok by (simp add: search_ok_def)
  show ?case
  proof (cases "start < end'")
    case False
    have "count_in (used_block g) (unat start) (unat end') = 0"
    proof (rule count_in_none)
      fix n assume "unat start \<le> n" "n \<le> unat end'"
      with False have "start = end'" "n = unat end'" by (simp_all add: word_less_nat_alt word_unat_eq_iff)
      with less.prems(3) show "\<not> used_block g n" by auto
    qed
    then show ?thesis using False less.prems(3) by (subst count_used_loop.simps) simp
  next
    case True
    then have le: "start \<le> end'" by simp
    have i: "gb_in g (drop_bit (gb_bits g) start)" using less.prems(2) le by simp
    obtain r where r: "ext2fs_find_first_set_block_bitmap2 (Some g) start end' = Some r"
      "found_nat (used_block g) start end' r" using find_set_nat [OF ok i le] by blast
    show ?thesis
    proof (cases r)
      case (Inl x)
      then have "x = ENOENT" "count_in (used_block g) (unat start) (unat end') = 0"
        using r(2) by (auto simp: found_nat_def intro: count_in_none)
      with True r(1) Inl show ?thesis by (subst count_used_loop.simps) simp
    next
      case (Inr m)
      note m = r(2) [unfolded Inr]
      have mm: "start \<le> m" "m \<le> end'" "used_block g (unat m)" using m by (simp_all add: found_nat_def word_le_nat_alt)
      have im: "gb_in g (drop_bit (gb_bits g) m)"
        using gb_in_mono [OF i _ mm(1,2)] ok by (simp add: search_ok_def)
      have ne: "gb_set g \<noteq> {}" using mm(3) by (auto simp: used_block_word)
      obtain q where q: "ext2fs_find_first_zero_block_bitmap2 (Some g) m end' = Some q"
        "found_nat (\<lambda>n. \<not> used_block g n) m end' q" using find_zero_nat [OF ok im mm(2) ne] by blast
      show ?thesis
      proof (cases q)
        case (Inl x)
        have "x = ENOENT" using q(2) Inl by (simp add: found_nat_def)
        moreover have "end' - m + 1 = word_of_nat (count_in (used_block g) (unat start) (unat end'))"
        proof (rule word_unat_eq_iff [THEN iffD2])
          have "unat (end' - m) = unat end' - unat m" using mm(2) by (simp add: unat_minus_le word_le_nat_alt)
          then have "unat (end' - m + 1) = Suc (unat end') - unat m"
            using e mm(2) by (subst unat_Suc_64) (auto simp: word_le_nat_alt)
          then show "unat (end' - m + 1) = unat (word_of_nat (count_in (used_block g) (unat start) (unat end')) :: u64)"
            using found_run(2) [OF m q(2) Inl] e by (simp add: unat_word_of_nat)
        qed
        ultimately show ?thesis using True r(1) q(1) Inr Inl by (subst count_used_loop.simps) simp
      next
        case zi: (Inr z)
        have z: "m \<le> z" "z \<le> end'" "\<not> used_block g (unat z)" using q(2) zi by (simp_all add: found_nat_def word_le_nat_alt)
        have z1: "unat (z + 1) = Suc (unat z)" using z(2) e by (intro unat_Suc_64) (auto simp: word_le_nat_alt)
        have c: "count_in (used_block g) (unat start) (unat end') = (unat z - unat m) + count_in (used_block g) (Suc (unat z)) (unat end')"
          by (rule found_run(1) [OF m q(2) zi])
        have iz: "gb_in g (drop_bit (gb_bits g) (if z + 1 \<le> end' then z + 1 else end'))"
        proof (cases "z + 1 \<le> end'")
          case True
          have "start \<le> z + 1" using mm(1) z(1) z1 by (simp add: word_le_nat_alt)
          from gb_in_mono [OF i _ this True] True ok show ?thesis by (simp add: search_ok_def)
        qed (use ok in \<open>simp add: search_ok_def\<close>)
        have "count_used_loop (Some g) end' (z + 1) (tot + (z - m)) 0 =
            Some (0, tot + (z - m) + word_of_nat (count_in (used_block g) (unat (z + 1)) (unat end')))"
        proof (rule less.hyps [OF _ _ iz])
          show "Suc (unat end') - unat (z + 1) < Suc (unat end') - unat start"
            using z1 mm(1) z(1,2) by (simp add: word_le_nat_alt)
          show "unat (z + 1) \<le> Suc (unat end')" using z1 z(2) by (simp add: word_le_nat_alt)
          have "\<not> used_block g (unat end')" if "z + 1 = end'"
          proof -
            have "unat end' - 1 = unat z" using z1 that by simp
            with last z(3) show ?thesis by auto
          qed
          then show "z + 1 < end' \<or> (0 :: errcode) = 0 \<and> (z + 1 = end' \<longrightarrow> \<not> used_block g (unat end'))" by blast
        qed
        moreover have "z - m = word_of_nat (unat z - unat m)"
          using z(1) by (simp add: word_le_nat_alt of_nat_diff)
        ultimately show ?thesis using True r(1) q(1) Inr zi c z1 by (subst count_used_loop.simps) (simp add: add.assoc)
      qed
    qed
  qed
qed

section \<open>Converting to clusters\<close>

definition convert_ok :: "ext2_filsys \<Rightarrow> bmap64 \<Rightarrow> generic_bitmap \<Rightarrow> bool" where
  "convert_ok fs b c \<longleftrightarrow> gb_ok (Bitmap64 b) \<and> bm_cluster_bits b = 0 \<and> bm_end b = bm_real_end b \<and>
     unat (bm_real_end b) mod 2 ^ fs_cluster_ratio_bits fs \<noteq> 0 \<and>
     unat (bm_real_end b) + 2 ^ fs_cluster_ratio_bits fs < 2 ^ 64 \<and>
     gb_ok c \<and> gb_bits c = fs_cluster_ratio_bits fs \<and>
     gb_in c (EXT2FS_B2C fs (bm_start b)) \<and> gb_in c (EXT2FS_B2C fs (bm_real_end b))"

text \<open>The first block of the cluster after the one of \<open>x\<close>.\<close>

lemma unat_next_cluster:
  assumes "unat x + 2 ^ fs_cluster_ratio_bits fs < 2 ^ 64"
  shows "unat (EXT2FS_C2B fs (EXT2FS_B2C fs x + 1)) =
    Suc (unat x div 2 ^ fs_cluster_ratio_bits fs) * 2 ^ fs_cluster_ratio_bits fs"
proof -
  let ?K = "2 ^ fs_cluster_ratio_bits fs :: nat"
  have b: "Suc (unat x div ?K) * ?K < 2 ^ 64"
  proof -
    have "Suc (unat x div ?K) * ?K = ?K + ?K * (unat x div ?K)" by simp
    with assms times_div_less_eq_dividend [of ?K "unat x"] show ?thesis by linarith
  qed
  have "1 \<le> ?K" by simp
  then have "Suc (unat x div ?K) < 2 ^ 64" using b by (metis le_less_trans mult.right_neutral mult_le_mono2)
  then have s: "unat (EXT2FS_B2C fs x + 1) = Suc (unat x div ?K)"
    using unat_Suc_64 [of "EXT2FS_B2C fs x"] by (simp add: unat_B2C)
  show ?thesis unfolding EXT2FS_C2B_def using b by (subst unat_push_bit) (simp_all add: s)
qed

lemma next_cluster_iff:
  assumes "unat x + 2 ^ fs_cluster_ratio_bits fs < 2 ^ 64" "x \<le> y"
  shows "EXT2FS_C2B fs (EXT2FS_B2C fs x + 1) \<le> y \<longleftrightarrow> EXT2FS_B2C fs y \<noteq> EXT2FS_B2C fs x"
proof -
  let ?K = "2 ^ fs_cluster_ratio_bits fs :: nat"
  have "unat x div ?K \<le> unat y div ?K" using assms(2) by (simp add: word_le_nat_alt div_le_mono)
  moreover have "Suc (unat x div ?K) * ?K \<le> unat y \<longleftrightarrow> Suc (unat x div ?K) \<le> unat y div ?K"
    by (rule less_eq_div_iff_mult_less_eq [symmetric]) simp
  ultimately show ?thesis
    unfolding word_le_nat_alt unat_next_cluster [OF assms(1)] word_unat_eq_iff unat_B2C by linarith
qed

lemma convert_ok_step:
  assumes "convert_ok fs b c" "bm_start b \<le> m" "m \<le> bm_real_end b"
  shows "\<exists>c'. snd (ext2fs_mark_block_bitmap2 (Some c) m) = Some c' \<and> gb_same c c' \<and> convert_ok fs b c' \<and>
    gb_set c' = insert (EXT2FS_B2C fs m) (gb_set c)"
proof -
  have c: "gb_ok c" "gb_bits c = fs_cluster_ratio_bits fs" "gb_in c (EXT2FS_B2C fs (bm_start b))" "gb_in c (EXT2FS_B2C fs (bm_real_end b))"
    using assms(1) by (simp_all add: convert_ok_def)
  have "gb_in c (EXT2FS_B2C fs m)"
    using gb_in_mono [OF c(3,4) [unfolded EXT2FS_B2C_def] assms(2,3)] by (simp add: EXT2FS_B2C_def)
  obtain r g2 where m: "ext2fs_mark_generic_bmap (Some c) m = (r, g2)" by fastforce
  from mark_generic [OF c(1) m] \<open>gb_in c (EXT2FS_B2C fs m)\<close> c(2) obtain c' where
    c': "g2 = Some c'" "gb_ok c'" "gb_same c c'" "gb_set c' = insert (EXT2FS_B2C fs m) (gb_set c)"
    by (auto simp: EXT2FS_B2C_def)
  then have "convert_ok fs b c'" using assms(1) gb_sameD [OF c'(3)] by (simp add: convert_ok_def)
  with c' m show ?thesis by (auto simp: bitmap_inlines)
qed

lemma convert_loop_clusters:
  assumes "bm_start b \<le> i" "i \<noteq> bm_real_end b" "convert_ok fs b c"
  shows "\<exists>c'. convert_loop fs b c i = Some c' \<and> gb_same c c' \<and> gb_ok c' \<and>
    gb_set c' = gb_set c \<union> EXT2FS_B2C fs ` {x \<in> marked_64 b. i \<le> x}"
  using assms
proof (induction "unat (bm_real_end b) + 2 ^ fs_cluster_ratio_bits fs - unat i" arbitrary: i c rule: less_induct)
  case less
  let ?K = "2 ^ fs_cluster_ratio_bits fs :: nat"
  have b: "gb_ok (Bitmap64 b)" "bm_cluster_bits b = 0" "bm_end b = bm_real_end b" "unat (bm_real_end b) mod ?K \<noteq> 0"
    "unat (bm_real_end b) + ?K < 2 ^ 64" "gb_ok c" using less.prems(3) unfolding convert_ok_def by - (elim conjE, assumption)+
  have v: "valid_64 b" using b(1) by simp
  have rng: "x \<le> bm_real_end b \<and> bm_start b \<le> x" if "x \<in> marked_64 b" for x
    using any_ba.marked_in_range [OF v that] unfolding in_range_def by blast
  show ?case
  proof (cases "i < bm_real_end b")
    case False
    then have "bm_real_end b < i" using less.prems(2) by (metis not_less_iff_gr_or_eq)
    then have "x \<notin> marked_64 b" if "i \<le> x" for x using rng [of x] that by (metis leD order_less_le_trans)
    then have e: "gb_set c = gb_set c \<union> EXT2FS_B2C fs ` {x \<in> marked_64 b. i \<le> x}" by blast
    have "convert_loop fs b c i = Some c" unfolding convert_loop.simps [of fs b c i] if_not_P [OF False] by (rule refl)
    with b(6) e show ?thesis using gb_same_refl by blast
  next
    case True
    have so: "search_ok (Bitmap64 b) (bm_real_end b)"
      using b less.prems(1) True header_okD(3) [OF valid_64_header [OF v]] by (simp add: search_ok_def gb_in_def)
    have ig: "gb_in (Bitmap64 b) (drop_bit (gb_bits (Bitmap64 b)) i)" using b less.prems(1) True by (simp add: gb_in_def)
    obtain r where r: "ext2fs_find_first_set_block_bitmap2 (Some (Bitmap64 b)) i (bm_real_end b) = Some r"
      "found_nat (used_block (Bitmap64 b)) i (bm_real_end b) r" using find_set_nat [OF so ig less_imp_le [OF True]] by blast
    have ub: "used_block (Bitmap64 b) (unat x) \<longleftrightarrow> x \<in> marked_64 b" for x by (simp add: used_block_word b(2))
    show ?thesis
    proof (cases r)
      case (Inl e)
      have "x \<notin> marked_64 b" if "i \<le> x" for x
        using r(2) Inl that rng [of x] ub [of x] unfolding found_nat_def word_le_nat_alt by auto
      then have e: "gb_set c = gb_set c \<union> EXT2FS_B2C fs ` {x \<in> marked_64 b. i \<le> x}" by blast
      have "convert_loop fs b c i = Some c" unfolding convert_loop.simps [of fs b c i] if_P [OF True] r(1) Inl by simp
      with b(6) e show ?thesis using gb_same_refl by blast
    next
      case (Inr m)
      have m: "i \<le> m" "m \<le> bm_real_end b" "m \<in> marked_64 b" "\<And>x. i \<le> x \<Longrightarrow> x < m \<Longrightarrow> x \<notin> marked_64 b"
        using r(2) Inr ub by (auto simp: found_nat_def word_le_nat_alt word_less_nat_alt)
      have fit: "unat m + ?K < 2 ^ 64" using b(5) m(2) by (simp add: word_le_nat_alt)
      let ?i = "EXT2FS_C2B fs (EXT2FS_B2C fs m + 1)"
      obtain c' where c': "snd (ext2fs_mark_block_bitmap2 (Some c) m) = Some c'" "gb_same c c'" "convert_ok fs b c'"
        "gb_set c' = insert (EXT2FS_B2C fs m) (gb_set c)"
        using convert_ok_step [OF less.prems(3)] m(1,2) less.prems(1) order_trans by blast
      have gt: "unat m < unat ?i" unfolding unat_next_cluster [OF fit]
        using dividend_less_div_times [of ?K "unat m"] by simp
      have up: "unat ?i \<le> unat m + ?K" unfolding unat_next_cluster [OF fit]
        using times_div_less_eq_dividend [of ?K "unat m"] by (simp add: ac_simps)
      have ne: "?i \<noteq> bm_real_end b"
        using b(4) unat_next_cluster [OF fit] by (metis mod_mult_self2_is_0)
      have "bm_start b \<le> ?i" using less.prems(1) m(1) gt by (simp add: word_le_nat_alt)
      moreover have "unat (bm_real_end b) + ?K - unat ?i < unat (bm_real_end b) + ?K - unat i"
        using gt up m(1,2) by (simp add: word_le_nat_alt)
      ultimately obtain c'' where c'': "convert_loop fs b c' ?i = Some c''" "gb_same c' c''" "gb_ok c''"
        "gb_set c'' = gb_set c' \<union> EXT2FS_B2C fs ` {x \<in> marked_64 b. ?i \<le> x}"
        using less.hyps [of ?i c'] ne c'(3) by blast
      have "EXT2FS_B2C fs ` {x \<in> marked_64 b. i \<le> x} = insert (EXT2FS_B2C fs m) (EXT2FS_B2C fs ` {x \<in> marked_64 b. ?i \<le> x})"
        (is "?A = ?B")
      proof (rule equalityI; rule subsetI)
        fix y assume "y \<in> ?A"
        then obtain x where x: "x \<in> marked_64 b" "i \<le> x" "y = EXT2FS_B2C fs x" by blast
        then have "m \<le> x" using m(4) [of x] by (meson not_le)
        with next_cluster_iff [OF fit this] x show "y \<in> ?B" by blast
      next
        fix y assume y: "y \<in> ?B"
        have "i \<le> x" if "?i \<le> x" for x using that m(1) gt by (simp add: word_le_nat_alt)
        with y m(1,3) show "y \<in> ?A" by blast
      qed
      then have s: "gb_set c'' = gb_set c \<union> EXT2FS_B2C fs ` {x \<in> marked_64 b. i \<le> x}"
        unfolding c''(4) c'(4) by blast
      have "convert_loop fs b c i = Some c''"
        unfolding convert_loop.simps [of fs b c i] if_P [OF True] r(1) Inr using c'(1) c''(1) by simp
      with s c''(3) gb_same_trans [OF c'(2) c''(2)] show ?thesis by blast
    qed
  qed
qed

lemma valid_64_end:
  assumes "valid_64 b" "bm_start b \<le> e" "e \<le> bm_real_end b"
  shows "valid_64 (b\<lparr>bm_end := e\<rparr>)" "marked_64 (b\<lparr>bm_end := e\<rparr>) = marked_64 b"
proof -
  have h: "header_ok (b\<lparr>bm_end := e\<rparr>)" using valid_64_header [OF assms(1)] assms(2,3) by (simp add: header_ok_def)
  show "valid_64 (b\<lparr>bm_end := e\<rparr>)" using assms(1) h
    by (cases "bm_private b") (auto simp: valid_64_def valid_ba_def valid_rb_def ba_size_def)
  show "marked_64 (b\<lparr>bm_end := e\<rparr>) = marked_64 b"
    by (simp add: marked_64_def marked_ba_def marked_rb_def ba_priv_def rb_priv_def in_range_def split: bmap_private.splits)
qed

text \<open>The bitmap with one bit per block that \<open>ext2fs_allocate_subcluster_bitmap\<close> makes.\<close>

definition subcluster_map :: "ext2_filsys \<Rightarrow> bmap64 \<Rightarrow> bool" where
  "subcluster_map fs b \<longleftrightarrow> gb_ok (Bitmap64 b) \<and> bm_cluster_bits b = 0 \<and>
     bm_start b = ucast (s_first_data_block (fs_super fs)) \<and>
     bm_real_end b = ucast (s_blocks_per_group (fs_super fs)) * ucast (fs_group_desc_count fs) - 1 +
       ucast (s_first_data_block (fs_super fs))"

lemma subcluster_real_end:
  assumes g: "geometry_ok fs" and c: "clusters_ok fs" and k: "fs_cluster_ratio_bits fs \<noteq> 0" and b: "subcluster_map fs b"
  shows "unat (bm_real_end b) mod 2 ^ fs_cluster_ratio_bits fs \<noteq> 0"
    and "unat (bm_real_end b) + 2 ^ fs_cluster_ratio_bits fs < 2 ^ 64"
    and "EXT2FS_B2C fs (bm_real_end b) = ucast (s_clusters_per_group (fs_super fs)) * ucast (fs_group_desc_count fs) - 1 +
      EXT2FS_B2C fs (ucast (s_first_data_block (fs_super fs)))"
proof -
  note d = geometry_okD [OF g]
  let ?K = "2 ^ fs_cluster_ratio_bits fs :: nat" and ?cpg = "unat (s_clusters_per_group (fs_super fs))"
    and ?N = "unat (fs_group_desc_count fs)"
  have kk: "fs_bpg fs = ?cpg * ?K" "fs_fdb fs mod ?K = 0" "fs_cluster_ratio_bits fs < 31"
    using c by (simp_all add: clusters_ok_def)
  have K: "1 < ?K" using k one_less_power [of "2 :: nat"] by simp
  have pos: "0 < ?cpg" "0 < ?N" using d(1,3) kk(1) by simp_all
  have f32: "unat (ucast (s_first_data_block (fs_super fs)) :: u64) < 2 ^ 32" using unat_u32_less by simp
  have re: "unat (bm_real_end b) = fs_bpg fs * ?N - 1 + fs_fdb fs"
    using unat_real_end [OF d(1) pos(2) f32] b by (simp add: subcluster_map_def)
  obtain q where q: "fs_fdb fs = q * ?K" using kk(2) by (metis dvd_div_mult_self mod_0_imp_dvd)
  define M where "M = ?cpg * ?N + q"
  have M: "0 < M" using pos by (simp add: M_def)
  have "fs_bpg fs * ?N + fs_fdb fs = M * ?K" by (simp add: kk(1) q M_def algebra_simps)
  then have reM: "unat (bm_real_end b) = M * ?K - 1"
    using re d(1) pos(2) by (metis Nat.add_diff_assoc2 One_nat_def Suc_leI nat_0_less_mult_iff)
  obtain m where m: "M = Suc m" using M gr0_implies_Suc by blast
  have reM': "unat (bm_real_end b) = m * ?K + (?K - 1)" unfolding reM m using K by simp
  have "unat (bm_real_end b) mod ?K = ?K - 1" unfolding reM' using K by (subst mod_mult_self3) simp
  then show "unat (bm_real_end b) mod ?K \<noteq> 0" using K by linarith
  have "unat (bm_real_end b) div ?K = m" unfolding reM' using K by (subst div_mult_self3) simp_all
  then have u: "unat (EXT2FS_B2C fs (bm_real_end b)) = m" by (simp add: unat_B2C)
  have fB: "unat (EXT2FS_B2C fs (ucast (s_first_data_block (fs_super fs)))) = q" using q K by (simp add: unat_B2C)
  then have "q < 2 ^ 32" using f32 by (metis div_le_dividend le_less_trans unat_B2C)
  with unat_real_end [OF pos, of "EXT2FS_B2C fs (ucast (s_first_data_block (fs_super fs)))"] fB u m pos
  show "EXT2FS_B2C fs (bm_real_end b) = ucast (s_clusters_per_group (fs_super fs)) * ucast (fs_group_desc_count fs) - 1 +
      EXT2FS_B2C fs (ucast (s_first_data_block (fs_super fs)))"
    by (simp add: word_unat_eq_iff M_def)
  have "fs_bpg fs \<le> 2 ^ 32 - 1" "?N \<le> 2 ^ 32 - 1"
    using unat_u32_less [of "s_blocks_per_group (fs_super fs)"] unat_u32_less [of "fs_group_desc_count fs"] by linarith+
  then have "fs_bpg fs * ?N \<le> (2 ^ 32 - 1) * (2 ^ 32 - 1)" by (rule mult_le_mono)
  moreover have "?K \<le> 2 ^ 31" using kk(3) by (intro power_increasing) auto
  ultimately show "unat (bm_real_end b) + ?K < 2 ^ 64"
    unfolding re using f32 by simp
qed


lemma convert_subcluster:
  assumes g: "geometry_ok fs" and c: "clusters_ok fs" and k: "fs_cluster_ratio_bits fs \<noteq> 0"
    and f: "fs_flags fs AND EXT2_FLAG_64BITS \<noteq> 0" and b: "subcluster_map fs b"
    and lt: "bm_start b < bm_real_end b"
  shows "\<exists>r g'. ext2fs_convert_subcluster_bitmap mem junk fs (Bitmap64 b) = Some (r, g') \<and>
    (r = 0 \<longrightarrow> gb_ok g' \<and> gb_bits g' = fs_cluster_ratio_bits fs \<and> gb_set g' = EXT2FS_B2C fs ` marked_64 b) \<and>
    (r \<noteq> 0 \<longrightarrow> g' = Bitmap64 b)"
proof -
  have bo: "valid_64 b" "EXT2FS_IS_64_BITMAP (bm_magic b)" "bm_cluster_bits b = 0"
    using b by (auto simp: subcluster_map_def)
  let ?d = "Some ''converted cluster bitmap''"
  show ?thesis
  proof (cases "ext2fs_allocate_block_bitmap mem junk fs ?d")
    case (Inl e)
    then have "e \<noteq> 0" by (auto simp: ext2fs_allocate_block_bitmap_def Let_def f dest!: alloc_generic_fails split: if_splits)
    with Inl k bo show ?thesis by (simp add: ext2fs_convert_subcluster_bitmap_def)
  next
    case (Inr cm)
    from allocate_block_bitmap_new [OF g c _ Inr] f obtain cb where
      cb: "cm = Bitmap64 cb" "gb_ok (Bitmap64 cb)" "marked_64 cb = {}" "bm_cluster_bits cb = fs_cluster_ratio_bits fs"
        "bm_start cb = EXT2FS_B2C fs (ucast (s_first_data_block (fs_super fs)))"
        "bm_real_end cb = EXT2FS_B2C fs (bm_real_end b)"
      using subcluster_real_end(3) [OF g c k b] by auto
    let ?b = "b\<lparr>bm_end := bm_real_end b\<rparr>" and ?c = "cb\<lparr>bm_end := bm_real_end cb\<rparr>"
    have h: "bm_start b \<le> bm_real_end b" "bm_start cb \<le> bm_end cb" "bm_end cb \<le> bm_real_end cb"
      using lt valid_64_header [of cb] cb(2) by (simp_all add: header_ok_def)
    have vb: "valid_64 ?b" "marked_64 ?b = marked_64 b" and vc: "valid_64 ?c" "marked_64 ?c = marked_64 cb"
      using valid_64_end [OF bo(1) h(1) order_refl] valid_64_end [of cb, OF _ order_trans [OF h(2,3)] order_refl] cb(2) by simp_all
    have bs: "bm_start b = ucast (s_first_data_block (fs_super fs))" using b by (simp add: subcluster_map_def)
    have "convert_ok fs ?b (Bitmap64 ?c)"
      unfolding convert_ok_def using vb vc bo cb h subcluster_real_end(1,2) [OF g c k b] bs
      by (simp add: gb_in_def)
    moreover have "bm_start b \<noteq> bm_real_end b" using lt by (rule less_imp_neq)
    ultimately obtain c' where c': "convert_loop fs ?b (Bitmap64 ?c) (bm_start b) = Some c'" "gb_same (Bitmap64 ?c) c'" "gb_ok c'"
      "gb_set c' = gb_set (Bitmap64 ?c) \<union> EXT2FS_B2C fs ` {x \<in> marked_64 ?b. bm_start b \<le> x}"
      using convert_loop_clusters [of ?b "bm_start b" fs "Bitmap64 ?c"] by auto
    obtain cc where cc: "c' = Bitmap64 cc" "same_header ?c cc" using c'(2) by (cases c') auto
    have "x \<in> marked_64 b \<Longrightarrow> bm_start b \<le> x" for x using any_ba.marked_in_range [OF bo(1)] unfolding in_range_def by blast
    then have "{x \<in> marked_64 ?b. bm_start b \<le> x} = marked_64 b" using vb(2) by blast
    then have s: "marked_64 cc = EXT2FS_B2C fs ` marked_64 b" using c'(4) cc(1) vc(2) cb(3) by simp
    have vcc: "valid_64 cc" "EXT2FS_IS_64_BITMAP (bm_magic cc)" "bm_cluster_bits cc < 31" using c'(3) cc(1) by simp_all
    have "bm_start cc \<le> bm_end cb" "bm_end cb \<le> bm_real_end cc" using cc(2) h(2,3) by simp_all
    note fin = valid_64_end [OF vcc(1) this]
    have "ext2fs_convert_subcluster_bitmap mem junk fs (Bitmap64 b) = Some (0, Bitmap64 (cc\<lparr>bm_end := bm_end cb\<rparr>))"
      using k bo Inr cb(1) c'(1) cc(1) by (simp add: ext2fs_convert_subcluster_bitmap_def)
    moreover have "bm_cluster_bits cc = fs_cluster_ratio_bits fs" using cc(2) cb(4) by simp
    ultimately show ?thesis using fin s vcc by auto
  qed
qed

end
