(* ===== verification/Gen_Bitmap_Run.thy ===== *)
theory Gen_Bitmap_Run
  imports Gen_Bitmap64_Correct
begin

text \<open>
  Clients of the generic bitmap layer. The contract of the layer is the locale
  \<open>cluster_map\<close>: a map stands for bounds, a cluster size and a set of clusters, and
  each operation does what the specification on that set says. Every sequence of
  calls is then a run of the specification, whatever the layout and the back end.
\<close>

section \<open>Calls\<close>

datatype gb_call =
    GMark u64
  | GUnmark u64
  | GTest u64
  | GMark_range u64 u32
  | GUnmark_range u64 u32
  | GTest_range u64 u32
  | GClear

text \<open>Outside the map, the result of a range test is not part of the contract: the two
  layouts disagree on it.\<close>

definition range_args :: "nat \<Rightarrow> u64 \<Rightarrow> u32 \<Rightarrow> bool" where
  "range_args k block num \<longleftrightarrow> 0 < num \<and> unat num < 2 ^ 31 \<and> unat block + unat num + 2 ^ k \<le> 2 ^ 64"

fun gb_call_ok :: "generic_bitmap \<Rightarrow> gb_call \<Rightarrow> bool" where
  "gb_call_ok g (GMark_range block num) = range_args (gb_bits g) block num"
| "gb_call_ok g (GUnmark_range block num) = range_args (gb_bits g) block num"
| "gb_call_ok g (GTest_range block num) = (range_args (gb_bits g) block num \<and> gb_covers g block num)"
| "gb_call_ok g _ = True"

fun gb_exec :: "gb_call \<Rightarrow> generic_bitmap option \<Rightarrow> bool \<times> generic_bitmap option" where
  "gb_exec (GMark arg) g = (case ext2fs_mark_generic_bmap g arg of (r, g) \<Rightarrow> (r \<noteq> 0, g))"
| "gb_exec (GUnmark arg) g = (case ext2fs_unmark_generic_bmap g arg of (r, g) \<Rightarrow> (r \<noteq> 0, g))"
| "gb_exec (GTest arg) g = (case ext2fs_test_generic_bmap g arg of (r, g) \<Rightarrow> (r \<noteq> 0, g))"
| "gb_exec (GMark_range block num) g = (False, ext2fs_mark_block_bitmap_range2 g block num)"
| "gb_exec (GUnmark_range block num) g = (False, ext2fs_unmark_block_bitmap_range2 g block num)"
| "gb_exec (GTest_range block num) g = (case ext2fs_test_block_bitmap_range2 g block num of (r, g) \<Rightarrow> (r \<noteq> 0, g))"
| "gb_exec GClear g = (False, map_option ext2fs_clear_generic_bmap g)"

fun gb_run :: "gb_call list \<Rightarrow> generic_bitmap option \<Rightarrow> bool list \<times> generic_bitmap option" where
  "gb_run [] g = ([], g)"
| "gb_run (c # cs) g = (case gb_exec c g of (r, g) \<Rightarrow> case gb_run cs g of (rs, g) \<Rightarrow> (r # rs, g))"

section \<open>The specification\<close>

text \<open>The calls on a set of clusters of a map that covers \<open>lo\<close> to \<open>hi\<close> with \<open>2 ^ k\<close> blocks
  in a cluster. A call without a result has the result \<open>False\<close>. Clearing reports whether the
  cluster was marked; where \<open>w\<close> holds, as for extent trees, also when the next one is.\<close>

definition covered :: "u64 \<Rightarrow> u64 \<Rightarrow> u64 set \<Rightarrow> bool" where
  "covered lo hi C \<longleftrightarrow> (\<forall>c\<in>C. lo \<le> c \<and> c \<le> hi)"

fun cset_exec :: "bool \<Rightarrow> u64 \<Rightarrow> u64 \<Rightarrow> nat \<Rightarrow> gb_call \<Rightarrow> u64 set \<Rightarrow> bool \<times> u64 set" where
  "cset_exec w lo hi k (GMark arg) S =
     (let c = drop_bit k arg in if lo \<le> c \<and> c \<le> hi then (c \<in> S, insert c S) else (False, S))"
| "cset_exec w lo hi k (GUnmark arg) S =
     (let c = drop_bit k arg
      in if lo \<le> c \<and> c \<le> hi then (c \<in> S \<or> w \<and> next_marked S c, S - {c}) else (False, S))"
| "cset_exec w lo hi k (GTest arg) S = (let c = drop_bit k arg in (lo \<le> c \<and> c \<le> hi \<and> c \<in> S, S))"
| "cset_exec w lo hi k (GMark_range block num) S =
     (let C = clusters_of k block num in (False, if covered lo hi C then S \<union> C else S))"
| "cset_exec w lo hi k (GUnmark_range block num) S =
     (let C = clusters_of k block num in (False, if covered lo hi C then S - C else S))"
| "cset_exec w lo hi k (GTest_range block num) S = (S \<inter> clusters_of k block num = {}, S)"
| "cset_exec w lo hi k GClear S = (False, {})"

fun cset_run :: "bool \<Rightarrow> u64 \<Rightarrow> u64 \<Rightarrow> nat \<Rightarrow> gb_call list \<Rightarrow> u64 set \<Rightarrow> bool list \<times> u64 set" where
  "cset_run w lo hi k [] S = ([], S)"
| "cset_run w lo hi k (c # cs) S =
     (case cset_exec w lo hi k c S of (r, S) \<Rightarrow> case cset_run w lo hi k cs S of (rs, S) \<Rightarrow> (r # rs, S))"

text \<open>The calls for which it does not matter how far clearing looks.\<close>

fun clean_call :: "nat \<Rightarrow> gb_call \<Rightarrow> u64 set \<Rightarrow> bool" where
  "clean_call k (GUnmark arg) S = (let c = drop_bit k arg in c \<in> S \<or> \<not> next_marked S c)"
| "clean_call k _ S = True"

fun clean_run :: "u64 \<Rightarrow> u64 \<Rightarrow> nat \<Rightarrow> gb_call list \<Rightarrow> u64 set \<Rightarrow> bool" where
  "clean_run lo hi k [] S = True"
| "clean_run lo hi k (c # cs) S = (clean_call k c S \<and> clean_run lo hi k cs (snd (cset_exec False lo hi k c S)))"

lemma clean_run_wide: "clean_run lo hi k cs S \<Longrightarrow> cset_run w lo hi k cs S = cset_run False lo hi k cs S"
proof (induction cs arbitrary: S)
  case (Cons c cs)
  have "cset_exec w lo hi k c S = cset_exec False lo hi k c S" using Cons.prems by (cases c) (auto simp: Let_def)
  with Cons show ?case by (simp add: case_prod_beta)
qed simp

section \<open>The contract\<close>

locale cluster_map =
  fixes ok :: "'m \<Rightarrow> bool" and call_ok :: "'m \<Rightarrow> 'c \<Rightarrow> bool"
    and exec :: "'c \<Rightarrow> 'm option \<Rightarrow> bool \<times> 'm option" and spec :: "'m \<Rightarrow> 'c \<Rightarrow> 's \<Rightarrow> bool \<times> 's"
    and abs :: "'m \<Rightarrow> 's" and same :: "'m \<Rightarrow> 'm \<Rightarrow> bool"
    and run :: "'c list \<Rightarrow> 'm option \<Rightarrow> bool list \<times> 'm option"
    and spec_run :: "'m \<Rightarrow> 'c list \<Rightarrow> 's \<Rightarrow> bool list \<times> 's"
  assumes exec_spec: "ok m \<Longrightarrow> call_ok m c \<Longrightarrow>
      \<exists>r m'. exec c (Some m) = (r, Some m') \<and> ok m' \<and> same m m' \<and> spec m c (abs m) = (r, abs m')"
    and same_refl: "same m m"
    and same_trans: "same m m' \<Longrightarrow> same m' m'' \<Longrightarrow> same m m''"
    and same_call: "same m m' \<Longrightarrow> call_ok m' = call_ok m \<and> spec m' = spec m \<and> spec_run m' = spec_run m"
    and run_Nil: "run [] m0 = ([], m0)"
    and run_Cons: "run (c # cs) m0 = (case exec c m0 of (r, m0) \<Rightarrow> case run cs m0 of (rs, m0) \<Rightarrow> (r # rs, m0))"
    and spec_run_Nil: "spec_run m [] s = ([], s)"
    and spec_run_Cons: "spec_run m (c # cs) s =
      (case spec m c s of (r, s) \<Rightarrow> case spec_run m cs s of (rs, s) \<Rightarrow> (r # rs, s))"
begin

lemma run_spec:
  "ok m \<Longrightarrow> list_all (call_ok m) cs \<Longrightarrow>
   \<exists>rs m'. run cs (Some m) = (rs, Some m') \<and> ok m' \<and> same m m' \<and> spec_run m cs (abs m) = (rs, abs m')"
proof (induction cs arbitrary: m)
  case Nil
  then show ?case by (simp add: run_Nil spec_run_Nil same_refl)
next
  case (Cons c cs)
  then obtain r m1 where e: "exec c (Some m) = (r, Some m1)" "ok m1" "same m m1" "spec m c (abs m) = (r, abs m1)"
    using exec_spec [of m c] by auto
  have "list_all (call_ok m1) cs" using Cons.prems(2) same_call [OF e(3)] by simp
  from Cons.IH [OF e(2) this] obtain rs m2 where
    "run cs (Some m1) = (rs, Some m2)" "ok m2" "same m1 m2" "spec_run m1 cs (abs m1) = (rs, abs m2)" by blast
  with e same_call [OF e(3)] same_trans [OF e(3)] show ?case by (auto simp: run_Cons spec_run_Cons)
qed

end

section \<open>The generic layer keeps the contract\<close>

abbreviation gb_spec :: "generic_bitmap \<Rightarrow> gb_call \<Rightarrow> u64 set \<Rightarrow> bool \<times> u64 set" where
  "gb_spec g \<equiv> cset_exec (gb_wide g) (gb_start g) (gb_end g) (gb_bits g)"

abbreviation gb_spec_run :: "generic_bitmap \<Rightarrow> gb_call list \<Rightarrow> u64 set \<Rightarrow> bool list \<times> u64 set" where
  "gb_spec_run g \<equiv> cset_run (gb_wide g) (gb_start g) (gb_end g) (gb_bits g)"

lemma covered_gb: "covered (gb_start g) (gb_end g) (clusters_of (gb_bits g) block num) = gb_covers g block num"
  by (simp add: covered_def gb_covers_def gb_in_def)

text \<open>The range test looks at the magic number of a 32-bit map: it must be a block map.\<close>

definition block_map :: "generic_bitmap \<Rightarrow> bool" where
  "block_map g \<longleftrightarrow> gb_ok g \<and> (\<forall>b. g = Bitmap32 b \<longrightarrow> b32_magic b = EXT2_ET_MAGIC_BLOCK_BITMAP)"

lemma block_map_same:
  assumes "block_map g" "gb_same g g'" "gb_ok g'"
  shows "block_map g'"
  using assms gb_sameD(5) [OF assms(2)] by (cases g; cases g') (auto simp: block_map_def)

text \<open>No call changes the back end of a map.\<close>

lemma op_kind:
  "is_tree (snd (mark_bmap (bitmap_ops b) b x)) = is_tree b" "is_tree (snd (unmark_bmap (bitmap_ops b) b x)) = is_tree b"
  "is_tree (snd (test_bmap (bitmap_ops b) b x)) = is_tree b" "is_tree (mark_bmap_extent (bitmap_ops b) b x n) = is_tree b"
  "is_tree (unmark_bmap_extent (bitmap_ops b) b x n) = is_tree b" "is_tree (clear_bmap (bitmap_ops b) b) = is_tree b"
  by (cases "bm_private b"; simp add: bitmap_ops_def is_tree_def ba_mark_bmap_def rb_mark_bmap_def ba_unmark_bmap_def rb_unmark_bmap_def
      ba_test_bmap_def rb_test_bmap_def ba_mark_bmap_extent_def rb_mark_bmap_extent_def ba_unmark_bmap_extent_def
      rb_unmark_bmap_extent_def ba_clear_bmap_def rb_clear_bmap_def Let_def case_prod_beta)+

lemma gb_exec_kind: "gb_exec c (Some g) = (r, Some g') \<Longrightarrow> gb_wide g' = gb_wide g"
  by (cases c; cases g)
    (auto simp: Let_def case_prod_beta op_kind split: if_splits)

definition gb_kin :: "generic_bitmap \<Rightarrow> generic_bitmap \<Rightarrow> bool" where
  "gb_kin g g' \<longleftrightarrow> gb_same g g' \<and> gb_wide g' = gb_wide g"

lemma gb_exec_spec:
  assumes "block_map g" "gb_call_ok g c"
  shows "\<exists>r g'. gb_exec c (Some g) = (r, Some g') \<and> block_map g' \<and> gb_kin g g' \<and> gb_spec g c (gb_set g) = (r, gb_set g')"
proof -
  have ok: "gb_ok g" using assms(1) by (simp add: block_map_def)
  have "\<exists>r g'. gb_exec c (Some g) = (r, Some g') \<and> gb_ok g' \<and> gb_same g g' \<and> gb_spec g c (gb_set g) = (r, gb_set g')"
  proof (cases c)
    case (GMark arg)
    obtain r g2 where m: "ext2fs_mark_generic_bmap (Some g) arg = (r, g2)" by fastforce
    from mark_generic [OF ok m refl] m show ?thesis by (auto simp: GMark Let_def gb_in_def)
  next
    case (GUnmark arg)
    obtain r g2 where m: "ext2fs_unmark_generic_bmap (Some g) arg = (r, g2)" by fastforce
    from unmark_generic [OF ok m refl] m show ?thesis by (auto simp: GUnmark Let_def gb_in_def)
  next
    case (GTest arg)
    obtain r g2 where m: "ext2fs_test_generic_bmap (Some g) arg = (r, g2)" by fastforce
    from test_generic [OF ok m refl] m show ?thesis by (auto simp: GTest Let_def gb_in_def)
  next
    case (GMark_range block num)
    then show ?thesis using mark_range_generic [OF ok, of num block] assms(2) by (auto simp: range_args_def Let_def covered_gb)
  next
    case (GUnmark_range block num)
    then show ?thesis using unmark_range_generic [OF ok, of num block] assms(2) by (auto simp: range_args_def Let_def covered_gb)
  next
    case (GTest_range block num)
    obtain r g2 where m: "ext2fs_test_block_bitmap_range2 (Some g) block num = (r, g2)" by fastforce
    from test_range_generic [OF ok _ _ _ _ _ m] GTest_range assms m show ?thesis
      by (auto simp: range_args_def block_map_def)
  next
    case GClear
    then show ?thesis using clear_generic [OF ok] by auto
  qed
  then obtain r g' where "gb_exec c (Some g) = (r, Some g')" "gb_ok g'" "gb_same g g'" "gb_spec g c (gb_set g) = (r, gb_set g')" by blast
  with block_map_same [OF assms(1)] gb_exec_kind [of c g r g'] show ?thesis by (auto simp: gb_kin_def)
qed

lemma gb_same_call:
  assumes "gb_same g g'"
  shows "gb_call_ok g' = gb_call_ok g"
proof
  fix c show "gb_call_ok g' c = gb_call_ok g c"
    using gb_sameD [OF assms] by (cases c) (simp_all add: gb_covers_def)
qed

interpretation generic_map: cluster_map block_map gb_call_ok gb_exec gb_spec gb_set gb_kin gb_run gb_spec_run
proof (unfold_locales, goal_cases)
  case (1 m c)
  then show ?case by (rule gb_exec_spec)
next
  case (3 m m' m'')
  then show ?case using gb_same_trans by (auto simp: gb_kin_def)
next
  case (4 m m')
  then have "gb_same m m'" "gb_wide m' = gb_wide m" by (simp_all add: gb_kin_def)
  with gb_same_call [of m m'] gb_sameD(1,2,3) [of m m'] show ?case by simp
qed (simp_all add: gb_kin_def)

end
