(* ===== verification/Crc.thy ===== *)
theory Crc
  imports Prelude
begin

text \<open>
  Cyclic redundancy checks of any width that take the bits of a byte from the least
  significant one on. One bit is a shift and, if a one falls out, the addition of the
  polynomial. The map is linear over exclusive or, which is why a table with an entry for
  every byte can replace eight steps; it is injective, which is why a short burst of errors
  is never overlooked.
\<close>

section \<open>The shift register\<close>

definition crc_bit :: "'a::len word \<Rightarrow> 'a word \<Rightarrow> 'a word" where
  "crc_bit p x = drop_bit 1 x XOR (if bit x 0 then p else 0)"

fun crc_bits :: "'a::len word \<Rightarrow> nat \<Rightarrow> 'a word \<Rightarrow> 'a word" where
  "crc_bits p 0 x = x"
| "crc_bits p (Suc n) x = crc_bits p n (crc_bit p x)"

lemma crc_bits_add: "crc_bits p (m + n) x = crc_bits p n (crc_bits p m x)"
  by (induction m arbitrary: x) auto

lemma drop_bit_xor_word: "drop_bit n (x XOR y) = drop_bit n x XOR drop_bit n (y :: 'a::len word)"
  by (rule bit_word_eqI) (simp add: bit_simps)

definition xor_linear :: "('a::len word \<Rightarrow> 'b::len word) \<Rightarrow> bool" where
  "xor_linear f \<longleftrightarrow> (\<forall>x y. f (x XOR y) = f x XOR f y)"

lemma xor_linearD: "xor_linear f \<Longrightarrow> f (x XOR y) = f x XOR f y"
  by (simp add: xor_linear_def)

lemma xor_linear_0: "xor_linear f \<Longrightarrow> f 0 = 0"
  using xor_linearD [of f 0 0] by simp

lemma xor_linear_comp: "xor_linear f \<Longrightarrow> xor_linear g \<Longrightarrow> xor_linear (\<lambda>x. f (g x))"
  by (simp add: xor_linear_def)

lemma xor_linear_funpow:
  fixes f :: "'a::len word \<Rightarrow> 'a word"
  shows "xor_linear f \<Longrightarrow> xor_linear (f ^^ n)"
  by (induction n) (simp_all add: xor_linear_def)

lemma xor_assocs: "(a XOR b) XOR (c XOR d) = (a XOR c) XOR (b XOR (d :: 'a::len word))"
  by (rule bit_word_eqI) (auto simp: bit_simps)

lemma crc_bit_linear: "xor_linear (crc_bit (p :: 'a::len word))"
  unfolding xor_linear_def
proof (intro allI)
  fix x y :: "'a word"
  have "(if bit (x XOR y) 0 then p else 0) = (if bit x 0 then p else 0) XOR (if bit y 0 then p else 0)"
    by (cases "bit x 0"; cases "bit y 0") (simp_all only: bit_xor_iff simp_thms if_True if_False xor.left_neutral xor.right_neutral xor_self_eq)
  then show "crc_bit p (x XOR y) = crc_bit p x XOR crc_bit p y"
    unfolding crc_bit_def drop_bit_xor_word by (simp only: xor_assocs [of "drop_bit 1 x"])
qed

lemma crc_bits_funpow: "crc_bits p n x = (crc_bit p ^^ n) x"
  by (induction n arbitrary: x) (simp_all add: funpow_swap1)

lemma crc_bits_linear: "xor_linear (crc_bits p n)"
  using xor_linear_funpow [OF crc_bit_linear, of n p] by (simp add: xor_linear_def crc_bits_funpow)

text \<open>Without a one in the low bits nothing is added.\<close>

lemma crc_bits_shift: "(\<And>i. i < n \<Longrightarrow> \<not> bit x i) \<Longrightarrow> crc_bits p n x = drop_bit n x"
proof (induction n arbitrary: x)
  case (Suc n)
  have "crc_bit p x = drop_bit 1 x" using Suc.prems [of 0] by (simp add: crc_bit_def)
  moreover have "\<not> bit (drop_bit 1 x) i" if "i < n" for i using Suc.prems [of "Suc i"] that by (simp add: bit_simps)
  ultimately show ?case using Suc.IH [of "drop_bit 1 x"] by (simp add: drop_bit_drop_bit)
qed simp

section \<open>Bytes\<close>

text \<open>A map that takes in one byte: it is linear and shifts out a byte that is zero.\<close>

definition byte_shift :: "('a::len word \<Rightarrow> 'a word) \<Rightarrow> bool" where
  "byte_shift T \<longleftrightarrow> xor_linear T \<and> (\<forall>x. take_bit 8 x = 0 \<longrightarrow> T x = drop_bit 8 x)"

lemma byte_shiftD: "byte_shift T \<Longrightarrow> xor_linear T" "byte_shift T \<Longrightarrow> take_bit 8 x = 0 \<Longrightarrow> T x = drop_bit 8 x"
  by (simp_all add: byte_shift_def)

lemma take_bit_0_bits: "take_bit n (x :: 'a::len word) = 0 \<Longrightarrow> i < n \<Longrightarrow> \<not> bit x i"
  by (metis bit_0_eq bit_take_bit_iff bot_apply bot_bool_def)

lemma crc_bits_byte_shift: "byte_shift (crc_bits p 8)"
  using crc_bits_linear crc_bits_shift take_bit_0_bits unfolding byte_shift_def by blast

lemma byte_split:
  assumes "byte_shift T"
  shows "T x = T (take_bit 8 x) XOR drop_bit 8 x"
proof -
  let ?h = "x XOR take_bit 8 x"
  have "take_bit 8 ?h = 0" by (rule bit_word_eqI) (simp add: bit_simps)
  then have "T ?h = drop_bit 8 ?h" using byte_shiftD(2) [OF assms] by blast
  also have "\<dots> = drop_bit 8 x" by (rule bit_word_eqI) (simp add: bit_simps)
  finally have "T (take_bit 8 x XOR ?h) = T (take_bit 8 x) XOR drop_bit 8 x"
    using xor_linearD [OF byte_shiftD(1) [OF assms]] by simp
  moreover have "take_bit 8 x XOR ?h = x" by (rule bit_word_eqI) (auto simp: bit_simps)
  ultimately show ?thesis by simp
qed

lemma mask_255: "x AND 255 = (take_bit 8 x :: 'a::len word)"
  by (simp add: take_bit_eq_mask mask_eq_exp_minus_1)

fun crc_bytes :: "('a::len word \<Rightarrow> 'a word) \<Rightarrow> 'a word \<Rightarrow> u8 list \<Rightarrow> 'a word" where
  "crc_bytes T crc [] = crc"
| "crc_bytes T crc (b # bs) = crc_bytes T (T (crc XOR ucast b)) bs"

lemma crc_bytes_append: "crc_bytes T crc (xs @ ys) = crc_bytes T (crc_bytes T crc xs) ys"
  by (induction xs arbitrary: crc) auto

section \<open>Tables\<close>

text \<open>The values of a linear map on all numbers below a power of two, from its values on the powers.\<close>

definition add_span :: "'a::len word \<Rightarrow> 'a word list \<Rightarrow> 'a word list" where
  "add_span v l = l @ map (\<lambda>x. v XOR x) l"

lemma length_span: "length (fold add_span vs l) = 2 ^ length vs * length l"
  by (induction vs arbitrary: l) (simp_all add: add_span_def)

lemma word_of_nat_xor:
  assumes "i < 2 ^ n"
  shows "(word_of_nat i + 2 ^ n :: 'a::len word) = 2 ^ n XOR word_of_nat i"
proof -
  have "\<not> bit i n" using assms by (simp add: bit_iff_odd)
  then have "(word_of_nat i :: 'a word) AND 2 ^ n = 0"
    by (intro bit_word_eqI) (auto simp: bit_simps)
  from disjunctive_add_eq_xor [OF this] show ?thesis by (simp add: xor.commute)
qed

lemma span_table:
  assumes "xor_linear f"
  shows "fold add_span (map (\<lambda>j. f (2 ^ j)) [0..<n]) [0] = map (\<lambda>i. f (word_of_nat i)) [0..<2 ^ n]"
proof (induction n)
  case 0
  then show ?case by (simp add: xor_linear_0 [OF assms])
next
  case (Suc n)
  have "[0..<2 ^ Suc n] = [0..<2 ^ n] @ map (\<lambda>i. i + 2 ^ n) [0..<2 ^ n]"
    using map_add_upt [of "2 ^ n" "2 ^ n"] upt_add_eq_append [of 0 "2 ^ n" "2 ^ n"] by (simp add: mult_2)
  with Suc show ?case
    by (simp add: add_span_def comp_def word_of_nat_xor xor_linearD [OF assms] cong: map_cong)
qed

lemma span_byte:
  assumes "xor_linear f" "vs = map f [1, 2, 4, 8, 0x10, 0x20, 0x40, 0x80]"
  shows "fold add_span vs [0] = map (\<lambda>i. f (word_of_nat i)) [0..<256]"
proof -
  have "[0..<8] = [0, 1, 2, 3, 4, 5, 6, 7]" by (simp add: upt_rec)
  then have "vs = map (\<lambda>j. f (2 ^ j)) [0..<8]" unfolding assms(2) by simp
  then show ?thesis using span_table [OF assms(1), of 8] by simp
qed

text \<open>The rows of a table for several bytes at once: each row is the last one with one more byte.\<close>

fun row_chain :: "('a \<Rightarrow> 'a) \<Rightarrow> 'a list \<Rightarrow> 'a list list \<Rightarrow> bool" where
  "row_chain T ps [] \<longleftrightarrow> True"
| "row_chain T ps (vs # vss) \<longleftrightarrow> vs = map T ps \<and> row_chain T vs vss"

lemma row_chain_nth: "row_chain T ps vss \<Longrightarrow> k < length vss \<Longrightarrow> vss ! k = map (T ^^ Suc k) ps"
proof (induction vss arbitrary: ps k)
  case (Cons vs vss)
  then show ?case by (cases k) (auto simp: funpow_swap1)
qed simp

lemma span_rows:
  fixes f :: "'a::len word \<Rightarrow> 'a word"
  assumes "xor_linear T" "xor_linear f" "row_chain T (map f [1, 2, 4, 8, 0x10, 0x20, 0x40, 0x80]) vss"
    and "k < length vss" "i < 256"
  shows "map (\<lambda>vs. fold add_span vs [0]) vss ! k ! i = (T ^^ Suc k) (f (word_of_nat i))"
proof -
  have "vss ! k = map (\<lambda>x. (T ^^ Suc k) (f x)) [1, 2, 4, 8, 0x10, 0x20, 0x40, 0x80]"
    using row_chain_nth [OF assms(3,4)] by (simp only: map_map comp_def)
  from span_byte [OF xor_linear_comp [OF xor_linear_funpow [OF assms(1)] assms(2)] this] assms(4,5)
  show ?thesis by simp
qed

section \<open>Bursts of errors\<close>

lemma crc_bit_inj:
  fixes p :: "'a::len word"
  assumes "bit p (LENGTH('a) - 1)"
  shows "inj (crc_bit p)"
proof (rule injI)
  fix x y assume "crc_bit p x = crc_bit p y"
  then have z: "crc_bit p (x XOR y) = 0" using xor_linearD [OF crc_bit_linear, of p x y] by simp
  let ?x = "x XOR y"
  have b: "\<not> bit ?x 0"
  proof
    assume "bit ?x 0"
    then have "crc_bit p ?x = drop_bit 1 ?x XOR p" by (simp only: crc_bit_def if_True)
    moreover have "\<not> bit (drop_bit 1 ?x) (LENGTH('a) - 1)" using bit_imp_le_length [of ?x "LENGTH('a)"]
      by (simp only: bit_drop_bit_eq comp_def) simp
    ultimately have "bit (crc_bit p ?x) (LENGTH('a) - 1)" using assms by (simp only: bit_xor_iff) blast
    with z show False by simp
  qed
  then have d: "drop_bit 1 ?x = 0" using z by (simp only: crc_bit_def if_False xor.right_neutral)
  have "\<not> bit ?x n" for n
  proof (cases n)
    case (Suc m)
    have "\<not> bit (drop_bit 1 ?x) m" unfolding d by simp
    then show ?thesis by (simp only: bit_drop_bit_eq comp_def Suc plus_1_eq_Suc) simp
  qed (use b in simp)
  then have "?x = 0" by (intro bit_word_eqI) simp
  then show "x = y" by (metis xor.assoc xor.left_neutral xor.right_neutral xor_self_eq)
qed

lemma crc_bits_inj: "bit p (LENGTH('a) - 1) \<Longrightarrow> inj (crc_bits (p :: 'a::len word) n)"
  unfolding inj_def crc_bits_funpow using inj_fn [OF crc_bit_inj, of p n] by (simp add: inj_def)

lemma crc_bytes_inj: "inj T \<Longrightarrow> crc_bytes T c bs = crc_bytes T d bs \<Longrightarrow> c = d"
proof (induction bs arbitrary: c d)
  case (Cons b bs)
  then have "c XOR ucast b = d XOR ucast b" by (auto dest: injD)
  then show ?case by (metis xor.assoc xor.right_neutral xor_self_eq)
qed simp

text \<open>The bytes of a short message as one number.\<close>

fun pack_bytes :: "u8 list \<Rightarrow> 'a::len word" where
  "pack_bytes [] = 0"
| "pack_bytes (b # bs) = ucast b XOR push_bit 8 (pack_bytes bs)"

lemma bit_pack_bytes:
  "n < LENGTH('a) \<Longrightarrow> bit (pack_bytes bs :: 'a::len word) n \<longleftrightarrow> n div 8 < length bs \<and> bit (bs ! (n div 8)) (n mod 8)"
proof (induction bs arbitrary: n)
  case (Cons b bs)
  show ?case
  proof (cases "n < 8")
    case True
    with Cons.prems show ?thesis by (simp add: bit_simps)
  next
    case False
    then have "n div 8 = Suc ((n - 8) div 8)" "n mod 8 = (n - 8) mod 8" "\<not> bit b n"
      using bit_imp_le_length [of b n] by (auto simp: le_div_geq le_mod_geq)
    with Cons.IH [of "n - 8"] Cons.prems False show ?thesis by (simp add: bit_simps)
  qed
qed simp

lemma crc_bytes_pack:
  fixes T :: "'a::len word \<Rightarrow> 'a word"
  assumes "byte_shift T"
  shows "8 * length bs \<le> LENGTH('a) \<Longrightarrow> crc_bytes T c bs = (T ^^ length bs) (c XOR pack_bytes bs)"
proof (induction bs arbitrary: c)
  case (Cons b bs)
  let ?y = "pack_bytes bs :: 'a word"
  have "take_bit 8 (push_bit 8 ?y) = 0" by (rule bit_word_eqI) (auto simp: bit_simps)
  then have "T (push_bit 8 ?y) = drop_bit 8 (push_bit 8 ?y)" by (rule byte_shiftD(2) [OF assms])
  also have "\<dots> = ?y"
  proof (rule bit_word_eqI)
    fix n assume n: "n < LENGTH('a)"
    have "\<not> n div 8 < length bs" if "\<not> 8 + n < LENGTH('a)" using that Cons.prems by auto
    then show "bit (drop_bit 8 (push_bit 8 ?y)) n = bit ?y n"
      using n by (auto simp: bit_simps bit_pack_bytes)
  qed
  finally have "T (c XOR ucast b XOR push_bit 8 ?y) = T (c XOR ucast b) XOR ?y"
    using xor_linearD [OF byte_shiftD(1) [OF assms], of "c XOR ucast b"] by (simp add: xor.assoc)
  with Cons show ?case by (simp add: funpow_swap1)
qed simp

lemma pack_bytes_inj:
  assumes "length xs = length ys" "8 * length xs \<le> LENGTH('a)" "pack_bytes xs = (pack_bytes ys :: 'a::len word)"
  shows "xs = ys"
proof (rule nth_equalityI [OF assms(1)])
  fix i assume i: "i < length xs"
  show "xs ! i = ys ! i"
  proof (rule bit_word_eqI)
    fix j assume "j < LENGTH(8)"
    then have j: "j < 8" by simp
    with i assms(2) have "8 * i + j < LENGTH('a)" by linarith
    from bit_pack_bytes [OF this, of xs] bit_pack_bytes [OF this, of ys] i j assms(1,3)
    show "bit (xs ! i) j = bit (ys ! i) j" by simp
  qed
qed

text \<open>Two messages that differ in a stretch no longer than the check have different checks.\<close>

lemma crc_bytes_burst:
  fixes T :: "'a::len word \<Rightarrow> 'a word"
  assumes "byte_shift T" "inj T" "length xs = length ys" "8 * length xs \<le> LENGTH('a)"
    and "crc_bytes T c (us @ xs @ vs) = crc_bytes T c (us @ ys @ vs)"
  shows "xs = ys"
proof -
  let ?c = "crc_bytes T c us"
  have "crc_bytes T ?c xs = crc_bytes T ?c ys"
    using assms(5) by (auto simp: crc_bytes_append dest: crc_bytes_inj [OF assms(2)])
  then have "?c XOR pack_bytes xs = ?c XOR pack_bytes ys"
    using assms(3,4) inj_fn [OF assms(2)] by (auto simp: crc_bytes_pack [OF assms(1)] dest: injD)
  then have "(pack_bytes xs :: 'a word) = pack_bytes ys" by (metis xor.assoc xor.left_neutral xor_self_eq)
  then show ?thesis by (rule pack_bytes_inj [OF assms(3,4)])
qed

end
