(* ===== verification/Crc16.thy ===== *)
theory Crc16
  imports Crc
begin

text \<open>
  \<open>lib/ext2fs/crc16.c\<close>: the check of 16 bits that the group descriptors carry. The table is
  the one of the source. It is shown to be the table of the polynomial \<open>0x8005\<close>, whose
  bits are reversed in \<open>0xA001\<close> because the check takes the low bit of a byte first.
\<close>

definition crc16_table :: "u16 list" where
  "crc16_table = [
     0x0000, 0xC0C1, 0xC181, 0x0140, 0xC301, 0x03C0, 0x0280, 0xC241,
     0xC601, 0x06C0, 0x0780, 0xC741, 0x0500, 0xC5C1, 0xC481, 0x0440,
     0xCC01, 0x0CC0, 0x0D80, 0xCD41, 0x0F00, 0xCFC1, 0xCE81, 0x0E40,
     0x0A00, 0xCAC1, 0xCB81, 0x0B40, 0xC901, 0x09C0, 0x0880, 0xC841,
     0xD801, 0x18C0, 0x1980, 0xD941, 0x1B00, 0xDBC1, 0xDA81, 0x1A40,
     0x1E00, 0xDEC1, 0xDF81, 0x1F40, 0xDD01, 0x1DC0, 0x1C80, 0xDC41,
     0x1400, 0xD4C1, 0xD581, 0x1540, 0xD701, 0x17C0, 0x1680, 0xD641,
     0xD201, 0x12C0, 0x1380, 0xD341, 0x1100, 0xD1C1, 0xD081, 0x1040,
     0xF001, 0x30C0, 0x3180, 0xF141, 0x3300, 0xF3C1, 0xF281, 0x3240,
     0x3600, 0xF6C1, 0xF781, 0x3740, 0xF501, 0x35C0, 0x3480, 0xF441,
     0x3C00, 0xFCC1, 0xFD81, 0x3D40, 0xFF01, 0x3FC0, 0x3E80, 0xFE41,
     0xFA01, 0x3AC0, 0x3B80, 0xFB41, 0x3900, 0xF9C1, 0xF881, 0x3840,
     0x2800, 0xE8C1, 0xE981, 0x2940, 0xEB01, 0x2BC0, 0x2A80, 0xEA41,
     0xEE01, 0x2EC0, 0x2F80, 0xEF41, 0x2D00, 0xEDC1, 0xEC81, 0x2C40,
     0xE401, 0x24C0, 0x2580, 0xE541, 0x2700, 0xE7C1, 0xE681, 0x2640,
     0x2200, 0xE2C1, 0xE381, 0x2340, 0xE101, 0x21C0, 0x2080, 0xE041,
     0xA001, 0x60C0, 0x6180, 0xA141, 0x6300, 0xA3C1, 0xA281, 0x6240,
     0x6600, 0xA6C1, 0xA781, 0x6740, 0xA501, 0x65C0, 0x6480, 0xA441,
     0x6C00, 0xACC1, 0xAD81, 0x6D40, 0xAF01, 0x6FC0, 0x6E80, 0xAE41,
     0xAA01, 0x6AC0, 0x6B80, 0xAB41, 0x6900, 0xA9C1, 0xA881, 0x6840,
     0x7800, 0xB8C1, 0xB981, 0x7940, 0xBB01, 0x7BC0, 0x7A80, 0xBA41,
     0xBE01, 0x7EC0, 0x7F80, 0xBF41, 0x7D00, 0xBDC1, 0xBC81, 0x7C40,
     0xB401, 0x74C0, 0x7580, 0xB541, 0x7700, 0xB7C1, 0xB681, 0x7640,
     0x7200, 0xB2C1, 0xB381, 0x7340, 0xB101, 0x71C0, 0x7080, 0xB041,
     0x5000, 0x90C1, 0x9181, 0x5140, 0x9301, 0x53C0, 0x5280, 0x9241,
     0x9601, 0x56C0, 0x5780, 0x9741, 0x5500, 0x95C1, 0x9481, 0x5440,
     0x9C01, 0x5CC0, 0x5D80, 0x9D41, 0x5F00, 0x9FC1, 0x9E81, 0x5E40,
     0x5A00, 0x9AC1, 0x9B81, 0x5B40, 0x9901, 0x59C0, 0x5880, 0x9841,
     0x8801, 0x48C0, 0x4980, 0x8941, 0x4B00, 0x8BC1, 0x8A81, 0x4A40,
     0x4E00, 0x8EC1, 0x8F81, 0x4F40, 0x8D01, 0x4DC0, 0x4C80, 0x8C41,
     0x4400, 0x84C1, 0x8581, 0x4540, 0x8701, 0x47C0, 0x4680, 0x8641,
     0x8201, 0x42C0, 0x4380, 0x8341, 0x4100, 0x81C1, 0x8081, 0x4040]"

text \<open>The value is kept in an \<open>unsigned int\<close>.\<close>

fun ext2fs_crc16 :: "u32 \<Rightarrow> u8 list \<Rightarrow> u32" where
  "ext2fs_crc16 crc [] = crc"
| "ext2fs_crc16 crc (b # buffer) =
     ext2fs_crc16 (((drop_bit 8 crc AND 0xFF) XOR ucast (crc16_table ! unat ((crc XOR ucast b) AND 0xFF))) AND 0x0000FFFF)
       buffer"

section \<open>The table\<close>

lemma crc16_table_span: "crc16_table = fold add_span [0xC0C1, 0xC181, 0xC301, 0xC601, 0xCC01, 0xD801, 0xF001, 0xA001] [0]"
  by (simp add: crc16_table_def add_span_def)

lemma crc16_table_powers:
  "[0xC0C1, 0xC181, 0xC301, 0xC601, 0xCC01, 0xD801, 0xF001, 0xA001] = map (crc_bits (0xA001 :: u16) 8) [1, 2, 4, 8, 0x10, 0x20, 0x40, 0x80]"
  by code_simp

lemma crc16_table_nth: "i < 256 \<Longrightarrow> crc16_table ! i = crc_bits 0xA001 8 (word_of_nat i)"
  unfolding crc16_table_span span_byte [OF crc_bits_linear crc16_table_powers] by simp

lemma crc16_step: "ucast (((drop_bit 8 crc AND 0xFF) XOR ucast (crc16_table ! unat ((crc XOR ucast b) AND 0xFF))) AND 0x0000FFFF) =
    crc_bits (0xA001 :: u16) 8 (ucast (crc :: u32) XOR ucast (b :: u8))"
proof -
  let ?x = "ucast crc XOR ucast b :: u16"
  have "unat ((crc XOR ucast b) AND 0xFF) < 256"
    unfolding mask_255 by (simp only: unsigned_take_bit_eq) (simp add: take_bit_eq_mod)
  then have "crc16_table ! unat ((crc XOR ucast b) AND 0xFF) = crc_bits 0xA001 8 (ucast ((crc XOR ucast b) AND 0xFF))"
    by (simp only: crc16_table_nth of_nat_unat)
  moreover have "ucast ((crc XOR ucast b) AND 0xFF) = take_bit 8 ?x"
    unfolding mask_255 by (rule bit_word_eqI) (auto simp: bit_simps)
  moreover have "ucast (((drop_bit 8 crc AND 0xFF) XOR ucast y) AND 0x0000FFFF) = y XOR drop_bit 8 ?x" for y :: u16
  proof -
    have "z AND 0xFFFF = take_bit 16 z" for z :: u32 by (simp add: take_bit_eq_mask mask_eq_exp_minus_1)
    then show ?thesis
      unfolding mask_255 by (intro bit_word_eqI) (auto simp: bit_simps dest: bit_imp_le_length)
  qed
  ultimately show ?thesis by (simp only: byte_split [OF crc_bits_byte_shift, of _ ?x])
qed

lemma ext2fs_crc16_bytes: "ucast (ext2fs_crc16 crc buffer) = crc_bytes (crc_bits 0xA001 8) (ucast crc :: u16) buffer"
  by (induction buffer arbitrary: crc) (simp_all only: ext2fs_crc16.simps crc_bytes.simps crc16_step)

text \<open>C22. The table-driven CRC-16 is the bitwise one: every byte is shifted through a register of 16
  bits with the polynomial \<open>0x8005\<close>, low bit first.\<close>

theorem crc16_bitwise: "ucast (ext2fs_crc16 crc buffer) = crc_bytes (crc_bits 0xA001 8) (ucast crc :: u16) buffer"
  by (rule ext2fs_crc16_bytes)

lemma crc16_burst:
  assumes "length xs = length ys" "length xs \<le> 2"
    and "(ucast (ext2fs_crc16 crc (us @ xs @ vs)) :: u16) = ucast (ext2fs_crc16 crc (us @ ys @ vs))"
  shows "xs = ys"
proof -
  have "inj (crc_bits (0xA001 :: u16) 8)" by (rule crc_bits_inj) (simp add: bit_numeral_rec)
  with assms show ?thesis
    using crc_bytes_burst [OF crc_bits_byte_shift, of "0xA001 :: u16" xs ys] by (simp add: ext2fs_crc16_bytes)
qed

text \<open>C23. Changing bytes of a buffer within two neighbouring bytes always changes its CRC-16,
  whatever the start value is.\<close>

theorem crc16_detects_burst:
  assumes "length xs = length ys" "length xs \<le> 2" "xs \<noteq> ys"
  shows "ext2fs_crc16 crc (us @ xs @ vs) \<noteq> ext2fs_crc16 crc (us @ ys @ vs)"
  using crc16_burst [OF assms(1,2), of crc us vs] assms(3) by auto

theorem crc16_detects_burst_witness: "ext2fs_crc16 0xFFFF [1, 2, 3, 4] \<noteq> ext2fs_crc16 0xFFFF [1, 7, 9, 4]"
  using crc16_detects_burst [of "[2, 3]" "[7, 9]" "0xFFFF" "[1]" "[4]"] by simp

end
