(* ===== verification/Bytes.thy ===== *)
theory Bytes
  imports Prelude
begin

text \<open>
  Numbers in memory: a buffer is a list of bytes, and a field of it is read and written at an
  offset, with the low byte first.
\<close>

definition le_word :: "u8 \<Rightarrow> u8 \<Rightarrow> u8 \<Rightarrow> u8 \<Rightarrow> u32" where
  "le_word b0 b1 b2 b3 = ucast b0 OR push_bit 8 (ucast b1) OR push_bit 16 (ucast b2) OR push_bit 24 (ucast b3)"

definition le16 :: "u16 \<Rightarrow> u8 list" where
  "le16 v = [ucast v, ucast (drop_bit 8 v)]"

definition le32 :: "u32 \<Rightarrow> u8 list" where
  "le32 v = [ucast v, ucast (drop_bit 8 v), ucast (drop_bit 16 v), ucast (drop_bit 24 v)]"

definition le64 :: "u64 \<Rightarrow> u8 list" where
  "le64 v = le32 (ucast v) @ le32 (ucast (drop_bit 32 v))"

definition get16 :: "u8 list \<Rightarrow> nat \<Rightarrow> u16" where
  "get16 buf off = ucast (buf ! off) OR push_bit 8 (ucast (buf ! (off + 1)))"

definition get32 :: "u8 list \<Rightarrow> nat \<Rightarrow> u32" where
  "get32 buf off = le_word (buf ! off) (buf ! (off + 1)) (buf ! (off + 2)) (buf ! (off + 3))"

definition put_bytes :: "u8 list \<Rightarrow> nat \<Rightarrow> u8 list \<Rightarrow> u8 list" where
  "put_bytes buf off bs = take off buf @ bs @ drop (off + length bs) buf"

definition put16 :: "u8 list \<Rightarrow> nat \<Rightarrow> u16 \<Rightarrow> u8 list" where
  "put16 buf off v = put_bytes buf off (le16 v)"

definition put32 :: "u8 list \<Rightarrow> nat \<Rightarrow> u32 \<Rightarrow> u8 list" where
  "put32 buf off v = put_bytes buf off (le32 v)"

section \<open>Reading what was written\<close>

lemma length_le [simp]: "length (le16 v) = 2" "length (le32 w) = 4" "length (le64 x) = 8"
  by (simp_all add: le16_def le32_def le64_def)

lemma length_put_bytes [simp]: "off + length bs \<le> length buf \<Longrightarrow> length (put_bytes buf off bs) = length buf"
  by (simp add: put_bytes_def)

lemma nth_put_bytes:
  assumes "off + length bs \<le> length buf" "i < length buf"
  shows "put_bytes buf off bs ! i = (if off \<le> i \<and> i < off + length bs then bs ! (i - off) else buf ! i)"
  using assms by (auto simp: put_bytes_def nth_append min_def)

lemma take_put_bytes [simp]: "n \<le> off \<Longrightarrow> off + length bs \<le> length buf \<Longrightarrow> take n (put_bytes buf off bs) = take n buf"
  by (simp add: put_bytes_def min_def)

lemma drop_put_bytes [simp]:
  assumes "off + length bs \<le> n" "off + length bs \<le> length buf"
  shows "drop n (put_bytes buf off bs) = drop n buf"
proof -
  have "drop n (take off buf) = []" "drop (n - off) bs = []" using assms by simp_all
  with assms show ?thesis by (simp add: put_bytes_def)
qed

lemma put_put_bytes [simp]:
  assumes "off + length bs \<le> length buf" "length bs = length cs"
  shows "put_bytes (put_bytes buf off bs) off cs = put_bytes buf off cs"
proof -
  have "take off (put_bytes buf off bs) = take off buf" using assms by simp
  moreover have "drop (off + length cs) (put_bytes buf off bs) = drop (off + length cs) buf" using assms by simp
  ultimately show ?thesis by (simp add: put_bytes_def [of "put_bytes buf off bs"] put_bytes_def [of buf off cs])
qed

lemma put_bytes_same: "off + length bs \<le> length buf \<Longrightarrow> take (length bs) (drop off buf) = bs \<Longrightarrow> put_bytes buf off bs = buf"
  unfolding put_bytes_def by (metis add.commute append_take_drop_id drop_drop)

lemma le_word_le32: "le_word (ucast v) (ucast (drop_bit 8 v)) (ucast (drop_bit 16 v)) (ucast (drop_bit 24 v)) = v"
proof (rule bit_word_eqI)
  fix n assume "n < LENGTH(32)"
  then have n: "n < 32" by simp
  consider "n < 8" | "8 \<le> n" "n < 16" | "16 \<le> n" "n < 24" | "24 \<le> n" by linarith
  then show "bit (le_word (ucast v) (ucast (drop_bit 8 v)) (ucast (drop_bit 16 v)) (ucast (drop_bit 24 v))) n = bit v n"
    using n by cases (auto simp: le_word_def bit_simps)
qed

lemma word_16_le16: "ucast (ucast v :: u8) OR push_bit 8 (ucast (ucast (drop_bit 8 v) :: u8)) = (v :: u16)"
proof (rule bit_word_eqI)
  fix n assume "n < LENGTH(16)"
  then have n: "n < 16" by simp
  consider "n < 8" | "8 \<le> n" by linarith
  then show "bit (ucast (ucast v :: u8) OR push_bit 8 (ucast (ucast (drop_bit 8 v) :: u8)) :: u16) n = bit v n"
    using n by cases (auto simp: bit_simps)
qed

lemma get_put [simp]:
  "off + 4 \<le> length buf \<Longrightarrow> get32 (put32 buf off v) off = v"
  "off + 2 \<le> length buf \<Longrightarrow> get16 (put16 buf off w) off = w"
  by (simp_all add: get32_def put32_def get16_def put16_def nth_put_bytes)
    (simp_all add: le32_def le16_def le_word_le32 word_16_le16)

lemma get_put_other [simp]:
  "off + length bs \<le> length buf \<Longrightarrow> i + 4 \<le> length buf \<Longrightarrow> i + 4 \<le> off \<or> off + length bs \<le> i \<Longrightarrow>
    get32 (put_bytes buf off bs) i = get32 buf i"
  "off + length bs \<le> length buf \<Longrightarrow> i + 2 \<le> length buf \<Longrightarrow> i + 2 \<le> off \<or> off + length bs \<le> i \<Longrightarrow>
    get16 (put_bytes buf off bs) i = get16 buf i"
  by (auto simp: get32_def get16_def nth_put_bytes)

end
