(* ===== verification/Crc32c.thy ===== *)
theory Crc32c
  imports Crc32c_Table Bitops Bytes
begin

text \<open>
  \<open>lib/ext2fs/crc32c.c\<close>: the two checks of 32 bits, CRC-32C with the low bit first and CRC-32
  with the high bit first, by slices of eight bytes as they are configured in
  \<open>crc32c_defs.h\<close>, on a little-endian machine. The bitwise variants that the same file has for
  \<open>CRC_LE_BITS == 1\<close> and \<open>CRC_BE_BITS == 1\<close> are the references.
\<close>

section \<open>The code\<close>

definition tobe :: "u32 \<Rightarrow> u32" where
  "tobe x = push_bit 24 (x AND 0x000000FF) OR push_bit 8 (x AND 0x0000FF00) OR
     drop_bit 8 (x AND 0x00FF0000) OR drop_bit 24 (x AND 0xFF000000)"

definition crc32table_be :: "u32 list list" where
  "crc32table_be = map (map tobe) crc32table_be_rows"

definition crc32ctable_le :: "u32 list list" where
  "crc32ctable_le = crc32ctable_le_rows"

text \<open>The macros of \<open>crc32_body\<close>.\<close>

definition DO_CRC :: "u32 list list \<Rightarrow> u32 \<Rightarrow> u8 \<Rightarrow> u32" where
  "DO_CRC tab crc x = tab ! 0 ! unat ((crc XOR ucast x) AND 255) XOR drop_bit 8 crc"

definition DO_CRC4 :: "u32 list list \<Rightarrow> u32 \<Rightarrow> u32" where
  "DO_CRC4 tab q = tab ! 3 ! unat (q AND 255) XOR tab ! 2 ! unat (drop_bit 8 q AND 255) XOR
     tab ! 1 ! unat (drop_bit 16 q AND 255) XOR tab ! 0 ! unat (drop_bit 24 q AND 255)"

definition DO_CRC8 :: "u32 list list \<Rightarrow> u32 \<Rightarrow> u32" where
  "DO_CRC8 tab q = tab ! 7 ! unat (q AND 255) XOR tab ! 6 ! unat (drop_bit 8 q AND 255) XOR
     tab ! 5 ! unat (drop_bit 16 q AND 255) XOR tab ! 4 ! unat (drop_bit 24 q AND 255)"

text \<open>The three loops: single bytes up to an aligned address, eight bytes at a time, and the rest.
  \<open>addr\<close> is the address of the buffer.\<close>

fun body_align :: "u32 list list \<Rightarrow> nat \<Rightarrow> u32 \<Rightarrow> u8 list \<Rightarrow> u32 \<times> u8 list" where
  "body_align tab addr crc [] = (crc, [])"
| "body_align tab addr crc (b # buf) =
     (if addr mod 4 \<noteq> 0 then body_align tab (Suc addr) (DO_CRC tab crc b) buf else (crc, b # buf))"

fun body_rest :: "u32 list list \<Rightarrow> u32 \<Rightarrow> u8 list \<Rightarrow> u32" where
  "body_rest tab crc [] = crc"
| "body_rest tab crc (b # buf) = body_rest tab (DO_CRC tab crc b) buf"

fun body_words :: "u32 list list \<Rightarrow> u32 \<Rightarrow> u8 list \<Rightarrow> u32" where
  "body_words tab crc (b0 # b1 # b2 # b3 # b4 # b5 # b6 # b7 # buf) =
     body_words tab (DO_CRC8 tab (crc XOR le_word b0 b1 b2 b3) XOR DO_CRC4 tab (le_word b4 b5 b6 b7)) buf"
| "body_words tab crc buf = body_rest tab crc buf"

definition crc32_body :: "nat \<Rightarrow> u32 list list \<Rightarrow> u32 \<Rightarrow> u8 list \<Rightarrow> u32" where
  "crc32_body addr tab crc buf = (case body_align tab addr crc buf of (crc, buf) \<Rightarrow> body_words tab crc buf)"

definition crc32_le_generic :: "nat \<Rightarrow> u32 list list \<Rightarrow> u32 \<Rightarrow> u8 list \<Rightarrow> u32" where
  "crc32_le_generic addr tab crc p = crc32_body addr tab crc p"

definition ext2fs_crc32c_le :: "nat \<Rightarrow> u32 \<Rightarrow> u8 list \<Rightarrow> u32" where
  "ext2fs_crc32c_le addr crc p = crc32_le_generic addr crc32ctable_le crc p"

definition crc32_be_generic :: "nat \<Rightarrow> u32 list list \<Rightarrow> u32 \<Rightarrow> u8 list \<Rightarrow> u32" where
  "crc32_be_generic addr tab crc p = ext2fs_swab32 (crc32_body addr tab (ext2fs_swab32 crc) p)"

definition ext2fs_crc32_be :: "nat \<Rightarrow> u32 \<Rightarrow> u8 list \<Rightarrow> u32" where
  "ext2fs_crc32_be addr crc p = crc32_be_generic addr crc32table_be crc p"

text \<open>The variants for one bit at a time.\<close>

fun crc32_le_bitwise :: "u32 \<Rightarrow> u32 \<Rightarrow> u8 list \<Rightarrow> u32" where
  "crc32_le_bitwise polynomial crc [] = crc"
| "crc32_le_bitwise polynomial crc (b # p) =
     crc32_le_bitwise polynomial
       (((\<lambda>crc. drop_bit 1 crc XOR (if crc AND 1 \<noteq> 0 then polynomial else 0)) ^^ 8) (crc XOR ucast b)) p"

fun crc32_be_bitwise :: "u32 \<Rightarrow> u32 \<Rightarrow> u8 list \<Rightarrow> u32" where
  "crc32_be_bitwise polynomial crc [] = crc"
| "crc32_be_bitwise polynomial crc (b # p) =
     crc32_be_bitwise polynomial
       (((\<lambda>crc. push_bit 1 crc XOR (if crc AND 0x80000000 \<noteq> 0 then polynomial else 0)) ^^ 8)
         (crc XOR push_bit 24 (ucast b))) p"

section \<open>Slices of eight bytes\<close>

locale crc_slices =
  fixes T :: "u32 \<Rightarrow> u32" and tab :: "u32 list list"
  assumes shift: "byte_shift T"
    and entry: "k < 8 \<Longrightarrow> i < 256 \<Longrightarrow> tab ! k ! i = (T ^^ Suc k) (word_of_nat i)"
begin

lemma entry_byte: "k < 8 \<Longrightarrow> tab ! k ! unat (x AND 255) = (T ^^ Suc k) (take_bit 8 x)"
proof -
  assume "k < 8"
  moreover have "unat (x AND 255) < 256"
    unfolding mask_255 by (simp only: unsigned_take_bit_eq) (simp add: take_bit_eq_mod)
  ultimately have "tab ! k ! unat (x AND 255) = (T ^^ Suc k) (word_of_nat (unat (x AND 255)))" by (rule entry)
  then show ?thesis by (simp only: of_nat_unat mask_255) simp
qed

lemma DO_CRC_step: "DO_CRC tab crc x = T (crc XOR ucast x)"
proof -
  have "drop_bit 8 (crc XOR ucast x) = drop_bit 8 crc" by (rule bit_word_eqI) (auto simp: bit_simps dest: bit_imp_le_length)
  then show ?thesis
    unfolding DO_CRC_def byte_split [OF shift, of "crc XOR ucast x"] using entry_byte [of 0] by simp
qed

lemma linear: "(T ^^ n) (x XOR y) = (T ^^ n) x XOR (T ^^ n) y"
  using xor_linearD [OF xor_linear_funpow [OF byte_shiftD(1) [OF shift]]] .

lemma split_step: "(T ^^ (n + 1)) x = (T ^^ (n + 1)) (take_bit 8 x) XOR (T ^^ n) (drop_bit 8 x)"
  using byte_split [OF shift, of x] by (simp add: linear funpow_swap1)

lemma split_word:
  "(T ^^ (n + 4)) q = (T ^^ (n + 4)) (take_bit 8 q) XOR (T ^^ (n + 3)) (take_bit 8 (drop_bit 8 q)) XOR
     (T ^^ (n + 2)) (take_bit 8 (drop_bit 16 q)) XOR (T ^^ (n + 1)) (take_bit 8 (drop_bit 24 q))"
proof -
  have n: "n + 2 = n + 1 + 1" "n + 3 = n + 2 + 1" "n + 4 = n + 3 + 1" by simp_all
  have "take_bit 8 (drop_bit 24 q) = drop_bit 24 q" by (rule bit_word_eqI) (auto simp: bit_simps dest: bit_imp_le_length)
  then have "(T ^^ (n + 2)) (drop_bit 16 q) =
      (T ^^ (n + 2)) (take_bit 8 (drop_bit 16 q)) XOR (T ^^ (n + 1)) (take_bit 8 (drop_bit 24 q))"
    using split_step [of "n + 1" "drop_bit 16 q"] n(1) by (simp add: drop_bit_drop_bit)
  moreover have "(T ^^ (n + 3)) (drop_bit 8 q) = (T ^^ (n + 3)) (take_bit 8 (drop_bit 8 q)) XOR (T ^^ (n + 2)) (drop_bit 16 q)"
    using split_step [of "n + 2" "drop_bit 8 q"] by (simp add: drop_bit_drop_bit numeral_3_eq_3)
  moreover have "(T ^^ (n + 4)) q = (T ^^ (n + 4)) (take_bit 8 q) XOR (T ^^ (n + 3)) (drop_bit 8 q)"
    using split_step [of "n + 3" q] unfolding n(3) .
  ultimately show ?thesis by (simp only: xor.assoc)
qed

lemma DO_CRC4_step: "DO_CRC4 tab q = (T ^^ 4) q"
  using split_word [of 0 q] unfolding DO_CRC4_def by (simp add: entry_byte eval_nat_numeral)

lemma DO_CRC8_step: "DO_CRC8 tab q = (T ^^ 8) q"
  using split_word [of 4 q] unfolding DO_CRC8_def by (simp add: entry_byte eval_nat_numeral)

lemma rest_bytes: "body_rest tab crc buf = crc_bytes T crc buf"
  by (induction buf arbitrary: crc) (simp_all add: DO_CRC_step)

lemma le_word_pack: "le_word b0 b1 b2 b3 = pack_bytes [b0, b1, b2, b3]"
proof (rule bit_word_eqI)
  fix n assume "n < LENGTH(32)"
  then have n: "n < 32" by simp
  have z: "\<not> bit b n" if "8 \<le> n" for b :: u8 and n using that bit_imp_le_length [of b n] by auto
  consider "n < 8" | "8 \<le> n" "n < 16" | "16 \<le> n" "n < 24" | "24 \<le> n" by linarith
  then show "bit (le_word b0 b1 b2 b3) n = bit (pack_bytes [b0, b1, b2, b3] :: u32) n"
    using n by cases (simp_all add: le_word_def bit_simps z)
qed

lemma words_step:
  "DO_CRC8 tab (crc XOR le_word b0 b1 b2 b3) XOR DO_CRC4 tab (le_word b4 b5 b6 b7) =
     crc_bytes T crc [b0, b1, b2, b3, b4, b5, b6, b7]"
proof -
  have four: "crc_bytes T c [x, y, z, w] = (T ^^ 4) (c XOR le_word x y z w)" for c x y z w
    using crc_bytes_pack [OF shift, of "[x, y, z, w]" c] unfolding le_word_pack by (simp add: eval_nat_numeral)
  have "(T ^^ 8) (crc XOR le_word b0 b1 b2 b3) = (T ^^ 4) (crc_bytes T crc [b0, b1, b2, b3])"
    unfolding four using funpow_add [of 4 4 T] by simp
  then have "DO_CRC8 tab (crc XOR le_word b0 b1 b2 b3) XOR DO_CRC4 tab (le_word b4 b5 b6 b7) =
      (T ^^ 4) (crc_bytes T crc [b0, b1, b2, b3] XOR le_word b4 b5 b6 b7)"
    by (simp only: DO_CRC8_step DO_CRC4_step linear)
  also have "\<dots> = crc_bytes T (crc_bytes T crc [b0, b1, b2, b3]) [b4, b5, b6, b7]" by (simp only: four)
  finally show ?thesis by simp
qed

lemma words_bytes: "t = tab \<Longrightarrow> body_words t crc buf = crc_bytes T crc buf"
proof (induction t crc buf rule: body_words.induct)
  case (1 t crc b0 b1 b2 b3 b4 b5 b6 b7 buf)
  then show ?case
    using words_step crc_bytes_append [of T crc "[b0, b1, b2, b3, b4, b5, b6, b7]" buf] by simp
qed (simp_all add: rest_bytes DO_CRC_step)

lemma align_bytes: "body_align tab addr crc buf = (crc', buf') \<Longrightarrow> crc_bytes T crc' buf' = crc_bytes T crc buf"
  by (induction buf arbitrary: addr crc) (auto simp: DO_CRC_step split: if_splits)

lemma body_bytes: "crc32_body addr tab crc buf = crc_bytes T crc buf"
  unfolding crc32_body_def by (cases "body_align tab addr crc buf") (simp add: words_bytes align_bytes)

end

section \<open>The low bit first\<close>

lemma le_bitwise_bytes: "crc32_le_bitwise polynomial crc p = crc_bytes (crc_bits polynomial 8) crc p"
proof -
  have "(\<lambda>crc. drop_bit 1 crc XOR (if crc AND 1 \<noteq> 0 then polynomial else 0)) = crc_bit polynomial"
    by (rule ext) (simp add: crc_bit_def and_one_eq bit_0 odd_iff_mod_2_eq_one)
  then show ?thesis by (induction p arbitrary: crc) (simp_all add: crc_bits_funpow)
qed

interpretation crc32c: crc_slices "crc_bits 0x82F63B78 8" crc32ctable_le
proof
  show "byte_shift (crc_bits (0x82F63B78 :: u32) 8)" by (rule crc_bits_byte_shift)
next
  fix k i :: nat
  assume "k < 8" "i < 256"
  then show "crc32ctable_le ! k ! i = (crc_bits 0x82F63B78 8 ^^ Suc k) (word_of_nat i)"
    using span_rows [OF crc_bits_linear _ powers_le_chain, of k i]
    by (simp add: crc32ctable_le_def crc32ctable_le_rows_span xor_linear_def powers_le_def del: funpow.simps)
qed

text \<open>C19. The CRC-32C by slices of eight bytes is the bitwise one that the same file has for
  \<open>CRC_LE_BITS == 1\<close>, for every start value and every length and address of the buffer.\<close>

theorem crc32c_bitwise: "ext2fs_crc32c_le addr crc p = crc32_le_bitwise 0x82F63B78 crc p"
  unfolding ext2fs_crc32c_le_def crc32_le_generic_def crc32c.body_bytes le_bitwise_bytes ..

lemma crc32c_burst:
  assumes "length xs = length ys" "length xs \<le> 4"
    and "ext2fs_crc32c_le addr crc (us @ xs @ vs) = ext2fs_crc32c_le addr crc (us @ ys @ vs)"
  shows "xs = ys"
proof -
  have "inj (crc_bits (0x82F63B78 :: u32) 8)" by (rule crc_bits_inj) (simp add: bit_numeral_rec)
  with assms show ?thesis
    using crc_bytes_burst [OF crc_bits_byte_shift, of "0x82F63B78 :: u32" xs ys]
    by (simp add: ext2fs_crc32c_le_def crc32_le_generic_def crc32c.body_bytes)
qed

text \<open>C21. Changing bytes of a buffer within four neighbouring bytes always changes its CRC-32C.\<close>

theorem crc32c_detects_burst:
  assumes "length xs = length ys" "length xs \<le> 4" "xs \<noteq> ys"
  shows "ext2fs_crc32c_le addr crc (us @ xs @ vs) \<noteq> ext2fs_crc32c_le addr crc (us @ ys @ vs)"
  using crc32c_burst assms by blast

theorem crc32c_detects_burst_witness:
  "ext2fs_crc32c_le 2 0xFFFFFFFF [1, 2, 3, 4, 5, 6] \<noteq> ext2fs_crc32c_le 2 0xFFFFFFFF [1, 7, 3, 4, 9, 6]"
  using crc32c_detects_burst [of "[2, 3, 4, 5]" "[7, 3, 4, 9]" 2 "0xFFFFFFFF" "[1]" "[6]"] by simp

section \<open>The high bit first\<close>

lemma byte_masks: "(0xFF :: u32) = mask 8" "(0xFF00 :: u32) = push_bit 8 (mask 8)" "(0xFF0000 :: u32) = push_bit 16 (mask 8)"
    "(0xFF000000 :: u32) = push_bit 24 (mask 8)"
  by (simp_all add: mask_eq_exp_minus_1)

lemma u32_eqI:
  fixes x y :: u32
  assumes "\<And>m. m < 8 \<Longrightarrow> bit x m = bit y m" "\<And>m. m < 8 \<Longrightarrow> bit x (8 + m) = bit y (8 + m)"
    and "\<And>m. m < 8 \<Longrightarrow> bit x (16 + m) = bit y (16 + m)" "\<And>m. m < 8 \<Longrightarrow> bit x (24 + m) = bit y (24 + m)"
  shows "x = y"
proof (rule bit_word_eqI)
  fix n assume "n < LENGTH(32)"
  then consider "n < 8" | "8 \<le> n" "n - 8 < 8" | "16 \<le> n" "n - 16 < 8" | "24 \<le> n" "n - 24 < 8" by fastforce
  then show "bit x n = bit y n"
    by cases (use assms(1) assms(2) [of "n - 8"] assms(3) [of "n - 16"] assms(4) [of "n - 24"] in auto)
qed

lemma no_bit_u32: "32 \<le> n \<Longrightarrow> \<not> bit (x :: u32) n"
  using bit_imp_le_length [of x n] by auto

lemma bit_swab32:
  assumes "m < 8"
  shows "bit (ext2fs_swab32 x) m = bit x (24 + m)" "bit (ext2fs_swab32 x) (8 + m) = bit x (16 + m)"
    and "bit (ext2fs_swab32 x) (16 + m) = bit x (8 + m)" "bit (ext2fs_swab32 x) (24 + m) = bit x m"
  unfolding ext2fs_swab32_def byte_masks using assms by (simp_all add: bit_simps no_bit_u32)

lemma tobe_swab: "tobe x = ext2fs_swab32 x"
  by (rule u32_eqI; simp add: bit_swab32; simp add: tobe_def byte_masks bit_simps no_bit_u32)

lemma swab32_swab32: "ext2fs_swab32 (ext2fs_swab32 x) = x"
  by (rule u32_eqI) (simp_all add: bit_swab32)

lemma swab32_linear: "xor_linear ext2fs_swab32"
  unfolding xor_linear_def by (intro allI u32_eqI) (simp_all add: bit_swab32 bit_xor_iff)

lemma swab32_byte:
  assumes "take_bit 8 x = x"
  shows "ext2fs_swab32 x = push_bit 24 x"
proof -
  have "\<not> bit x m" if "8 \<le> m" for m using assms that by (metis bit_take_bit_iff not_le)
  then show ?thesis by (intro u32_eqI) (simp_all add: bit_swab32 bit_simps)
qed

lemma be_bit_linear: "xor_linear (be_bit p)"
  unfolding xor_linear_def
proof (intro allI)
  fix x y :: u32
  have "(if bit (x XOR y) 31 then p else 0) = (if bit x 31 then p else 0) XOR (if bit y 31 then p else 0)"
    by (cases "bit x 31"; cases "bit y 31")
      (simp_all only: bit_xor_iff simp_thms if_True if_False xor.left_neutral xor.right_neutral xor_self_eq)
  moreover have "push_bit 1 (x XOR y) = push_bit 1 x XOR push_bit 1 y" by (rule push_bit_xor)
  ultimately show "be_bit p (x XOR y) = be_bit p x XOR be_bit p y"
    unfolding be_bit_def high_bit by (simp only: xor_assocs [of "push_bit 1 x"])
qed

lemma be_bits_funpow: "be_bits p n x = (be_bit p ^^ n) x"
  by (induction n arbitrary: x) (simp_all add: funpow_swap1)

lemma be_bits_linear: "xor_linear (be_bits p n)"
  using xor_linear_funpow [OF be_bit_linear, of n p] by (simp add: xor_linear_def be_bits_funpow)

lemma be_bits_shift: "n \<le> 32 \<Longrightarrow> (\<And>i. 32 - n \<le> i \<Longrightarrow> \<not> bit x i) \<Longrightarrow> be_bits p n x = push_bit n x"
proof (induction n arbitrary: x)
  case (Suc n)
  have "be_bit p x = push_bit 1 x" using Suc.prems(1) Suc.prems(2) [of 31] by (simp add: be_bit_def high_bit)
  moreover have "\<not> bit (push_bit 1 x) i" if "32 - n \<le> i" for i
    using Suc.prems(1) Suc.prems(2) [of "i - 1"] that by (simp only: bit_push_bit_iff) auto
  ultimately show ?case using Suc.IH [of "push_bit 1 x"] Suc.prems(1) by (simp add: push_bit_push_bit)
qed simp

text \<open>The register of the code is the one of the reference with its bytes swapped.\<close>

definition be_byte :: "u32 \<Rightarrow> u32" where
  "be_byte x = ext2fs_swab32 (be_bits 0x04C11DB7 8 (ext2fs_swab32 x))"

lemma be_byte_funpow: "(be_byte ^^ n) x = ext2fs_swab32 ((be_bits 0x04C11DB7 8 ^^ n) (ext2fs_swab32 x))"
  by (induction n) (simp_all add: be_byte_def swab32_swab32)

lemma be_byte_shift: "byte_shift be_byte"
proof -
  have "xor_linear be_byte"
    using xor_linear_comp [OF swab32_linear xor_linear_comp [OF be_bits_linear swab32_linear]]
    unfolding be_byte_def [abs_def] .
  moreover have "be_byte x = drop_bit 8 x" if x: "take_bit 8 x = 0" for x
  proof -
    have "\<not> bit (ext2fs_swab32 x) i" if "24 \<le> i" for i
    proof (cases "i < 32")
      case True
      then have "bit (ext2fs_swab32 x) i = bit x (i - 24)" using bit_swab32(4) [of "i - 24" x] that by simp
      then show ?thesis using take_bit_0_bits [OF x, of "i - 24"] True that by simp
    qed (simp add: no_bit_u32)
    then have "be_byte x = ext2fs_swab32 (push_bit 8 (ext2fs_swab32 x))"
      unfolding be_byte_def by (subst be_bits_shift) simp_all
    also have "\<dots> = drop_bit 8 x"
      by (rule u32_eqI) (simp_all add: bit_swab32 bit_push_bit_iff bit_drop_bit_eq no_bit_u32)
    finally show ?thesis .
  qed
  ultimately show ?thesis by (simp add: byte_shift_def)
qed

interpretation crc32: crc_slices be_byte crc32table_be
proof
  show "byte_shift be_byte" by (rule be_byte_shift)
next
  fix k i :: nat
  assume ki: "k < 8" "i < 256"
  have l: "length powers_be = 8" by (simp add: powers_be_def)
  have "xor_linear (push_bit 24 :: u32 \<Rightarrow> u32)" by (simp add: xor_linear_def push_bit_xor)
  from span_rows [OF be_bits_linear this powers_be_chain, of k i] ki l
  have r: "crc32table_be_rows ! k ! i = (be_bits 0x04C11DB7 8 ^^ Suc k) (push_bit 24 (word_of_nat i))"
    by (simp only: crc32table_be_rows_span)
  have "length (powers_be ! k) = 8" using row_chain_nth [OF powers_be_chain, of k] ki l by simp
  then have "crc32table_be ! k ! i = tobe (crc32table_be_rows ! k ! i)"
    using ki l by (simp add: crc32table_be_def crc32table_be_rows_span length_span)
  moreover have "take_bit 8 i = i" using ki(2) by (simp add: take_bit_nat_eq_self_iff)
  then have "bit i m \<Longrightarrow> m < 8" for m by (metis bit_take_bit_iff)
  then have "ext2fs_swab32 (word_of_nat i) = push_bit 24 (word_of_nat i)"
    by (intro swab32_byte bit_word_eqI) (auto simp: bit_simps)
  ultimately show "crc32table_be ! k ! i = (be_byte ^^ Suc k) (word_of_nat i)"
    by (simp only: be_byte_funpow tobe_swab r)
qed

lemma be_bitwise_bytes: "crc32_be_bitwise 0x04C11DB7 crc p = ext2fs_swab32 (crc_bytes be_byte (ext2fs_swab32 crc) p)"
proof (induction p arbitrary: crc)
  case (Cons b p)
  have "(\<lambda>crc. push_bit 1 crc XOR (if crc AND 0x80000000 \<noteq> 0 then 0x04C11DB7 else 0)) = be_bit 0x04C11DB7"
    by (rule ext) (simp only: be_bit_def)
  moreover have "ext2fs_swab32 (ucast b) = push_bit 24 (ucast b)"
    by (rule swab32_byte) (rule bit_word_eqI, auto simp: bit_simps dest: bit_imp_le_length)
  then have "be_byte (ext2fs_swab32 crc XOR ucast b) = ext2fs_swab32 (be_bits 0x04C11DB7 8 (crc XOR push_bit 24 (ucast b)))"
    by (simp add: be_byte_def xor_linearD [OF swab32_linear] swab32_swab32)
  ultimately show ?case using Cons by (simp only: crc32_be_bitwise.simps crc_bytes.simps be_bits_funpow)
qed (simp add: swab32_swab32)

text \<open>C20. The CRC-32 with the high bit first, which runs on swapped registers and tables, is the
  bitwise one of the same file for \<open>CRC_BE_BITS == 1\<close>.\<close>

theorem crc32_be_correct: "ext2fs_crc32_be addr crc p = crc32_be_bitwise 0x04C11DB7 crc p"
  unfolding ext2fs_crc32_be_def crc32_be_generic_def crc32.body_bytes be_bitwise_bytes ..

end
