(* ===== verification/Csum.thy ===== *)
theory Csum
  imports Crc16 Crc32c Bitmaps
begin

text \<open>
  \<open>lib/ext2fs/csum.c\<close>: the checksums of the on-disk structures, and the record lengths of
  directory entries from \<open>dir_iterate.c\<close>. A block is the list of its bytes, in the order of the
  disk. The address of a buffer has no influence on a check, as \<open>crc32c_bitwise\<close> shows, so that
  one address stands for all. Reading an inode from disk is the parameter \<open>read_inode\<close>, which
  returns its generation number.
\<close>

abbreviation crc32c :: "u32 \<Rightarrow> u8 list \<Rightarrow> u32" where
  "crc32c \<equiv> ext2fs_crc32c_le 0"

definition ext2fs_init_csum_seed :: "ext2_filsys \<Rightarrow> ext2_filsys" where
  "ext2fs_init_csum_seed fs =
     (if ext2fs_has_feature_csum_seed (fs_super fs) then fs\<lparr>fs_csum_seed := s_checksum_seed (fs_super fs)\<rparr>
      else if ext2fs_has_feature_metadata_csum (fs_super fs) \<or> ext2fs_has_feature_ea_inode (fs_super fs)
      then fs\<lparr>fs_csum_seed := crc32c (- 1) (s_uuid (fs_super fs))\<rparr>
      else fs)"

section \<open>Structures with a checksum at a fixed place\<close>

definition ext2fs_mmp_csum :: "ext2_filsys \<Rightarrow> u8 list \<Rightarrow> u32" where
  "ext2fs_mmp_csum fs mmp = crc32c (fs_csum_seed fs) (take 1020 mmp)"

definition ext2fs_mmp_csum_verify :: "ext2_filsys \<Rightarrow> u8 list \<Rightarrow> bool" where
  "ext2fs_mmp_csum_verify fs mmp \<longleftrightarrow>
     (if \<not> ext2fs_has_feature_metadata_csum (fs_super fs) then True else get32 mmp 1020 = ext2fs_mmp_csum fs mmp)"

definition ext2fs_mmp_csum_set :: "ext2_filsys \<Rightarrow> u8 list \<Rightarrow> errcode \<times> u8 list" where
  "ext2fs_mmp_csum_set fs mmp =
     (if \<not> ext2fs_has_feature_metadata_csum (fs_super fs) then (0, mmp)
      else (0, put32 mmp 1020 (ext2fs_mmp_csum fs mmp)))"

definition ext2fs_verify_csum_type :: "ext2_filsys \<Rightarrow> ext2_super_block \<Rightarrow> bool" where
  "ext2fs_verify_csum_type fs sb \<longleftrightarrow>
     (if \<not> ext2fs_has_feature_metadata_csum (fs_super fs) then True else s_checksum_type sb = 1)"

text \<open>The super block as it is on disk.\<close>

definition ext2fs_superblock_csum :: "u8 list \<Rightarrow> u32" where
  "ext2fs_superblock_csum sb = crc32c (- 1) (take 1020 sb)"

definition superblock_flag :: "ext2_filsys \<Rightarrow> u32" where
  "superblock_flag fs = (if fs_flags fs AND EXT2_FLAG_SWAP_BYTES \<noteq> 0 then 0x0400 else 0x0400)"

definition ext2fs_superblock_csum_verify :: "ext2_filsys \<Rightarrow> u8 list \<Rightarrow> bool" where
  "ext2fs_superblock_csum_verify fs sb \<longleftrightarrow>
     (if s_feature_ro_compat (fs_super fs) AND superblock_flag fs = 0 then True
      else get32 sb 1020 = ext2fs_superblock_csum sb)"

definition ext2fs_superblock_csum_set :: "ext2_filsys \<Rightarrow> u8 list \<Rightarrow> errcode \<times> u8 list" where
  "ext2fs_superblock_csum_set fs sb =
     (if s_feature_ro_compat (fs_super fs) AND superblock_flag fs = 0 then (0, sb)
      else (0, put32 sb 1020 (ext2fs_superblock_csum sb)))"

text \<open>The checksum field of an attribute block counts as zero.\<close>

definition ext2fs_ext_attr_block_csum :: "ext2_filsys \<Rightarrow> u64 \<Rightarrow> u8 list \<Rightarrow> u32" where
  "ext2fs_ext_attr_block_csum fs block hdr =
     crc32c (crc32c (fs_csum_seed fs) (le64 block)) (take (unat (fs_blocksize fs)) (put32 hdr 16 0))"

definition ext2fs_ext_attr_block_csum_verify :: "ext2_filsys \<Rightarrow> u64 \<Rightarrow> u8 list \<Rightarrow> bool" where
  "ext2fs_ext_attr_block_csum_verify fs block hdr \<longleftrightarrow>
     (if \<not> ext2fs_has_feature_metadata_csum (fs_super fs) then True
      else get32 hdr 16 = ext2fs_ext_attr_block_csum fs block hdr)"

definition ext2fs_ext_attr_block_csum_set :: "ext2_filsys \<Rightarrow> u64 \<Rightarrow> u8 list \<Rightarrow> errcode \<times> u8 list" where
  "ext2fs_ext_attr_block_csum_set fs block hdr =
     (if \<not> ext2fs_has_feature_metadata_csum (fs_super fs) then (0, hdr)
      else (0, put32 hdr 16 (ext2fs_ext_attr_block_csum fs block hdr)))"

section \<open>Directory blocks\<close>

definition ext2fs_get_rec_len :: "ext2_filsys \<Rightarrow> u8 list \<Rightarrow> nat \<Rightarrow> errcode + u32" where
  "ext2fs_get_rec_len fs buf dirent =
     (let len = ucast (get16 buf (dirent + 4))
      in if fs_blocksize fs < 65536 then Inr len
         else if len = 65535 \<or> len = 0 then Inr (fs_blocksize fs)
         else Inr ((len AND 65532) OR push_bit 16 (len AND 3)))"

definition ext2fs_set_rec_len :: "ext2_filsys \<Rightarrow> u32 \<Rightarrow> u8 list \<Rightarrow> nat \<Rightarrow> errcode \<times> u8 list" where
  "ext2fs_set_rec_len fs len buf dirent =
     (if len > fs_blocksize fs \<or> fs_blocksize fs > push_bit 18 1 \<or> len AND 3 \<noteq> 0 then (EINVAL, buf)
      else if len < 65536 then (0, put16 buf (dirent + 4) (ucast len))
      else if len = fs_blocksize fs
      then (0, put16 buf (dirent + 4) (if fs_blocksize fs = 65536 then 65535 else 0))
      else (0, put16 buf (dirent + 4) (ucast ((len AND 65532) OR (drop_bit 16 len AND 3)))))"

text \<open>The offset of the count and limit of an index block.\<close>

definition get_dx_countlimit :: "ext2_filsys \<Rightarrow> u8 list \<Rightarrow> errcode + nat" where
  "get_dx_countlimit fs dirent =
     (let rec_len = ucast (get16 dirent 4) :: u32;
          check = (\<lambda>count_offset.
            let max_sane_entries = unat (fs_blocksize fs - word_of_nat count_offset) div 8
            in if unat (get16 dirent count_offset) > max_sane_entries \<or>
                  unat (get16 dirent (count_offset + 2)) > max_sane_entries
               then Inl EXT2_ET_DIR_NO_SPACE_FOR_CSUM else Inr count_offset)
      in if rec_len = fs_blocksize fs \<and> get16 dirent 6 = 0 then check 8
         else if rec_len = 12
         then if ucast (get16 dirent 16) \<noteq> fs_blocksize fs - 12 then Inl EXT2_ET_DB_NOT_FOUND
              else if get32 dirent 24 \<noteq> 0 \<or> dirent ! 29 \<noteq> 8 then Inl EXT2_ET_DB_NOT_FOUND
              else check 32
         else Inl EXT2_ET_DB_NOT_FOUND)"

definition ext2fs_get_dx_countlimit :: "ext2_filsys \<Rightarrow> u8 list \<Rightarrow> errcode + nat" where
  "ext2fs_get_dx_countlimit fs dirent = get_dx_countlimit fs dirent"

definition ext2fs_initialize_dirent_tail :: "ext2_filsys \<Rightarrow> u8 list" where
  "ext2fs_initialize_dirent_tail fs = put16 (snd (ext2fs_set_rec_len fs 12 (replicate 12 0) 0)) 6 0xDE00"

text \<open>The walk over the entries up to \<open>top'\<close>.\<close>

function tail_walk :: "u8 list \<Rightarrow> nat \<Rightarrow> nat \<Rightarrow> errcode + nat" where
  "tail_walk dirent top' d =
     (if d < top'
      then let rec_len = get16 dirent (d + 4)
           in if rec_len < 8 \<or> rec_len AND 3 \<noteq> 0 then Inl EXT2_ET_DIR_CORRUPTED
              else tail_walk dirent top' (d + unat rec_len)
      else Inr d)"
  by pat_completeness auto
termination
proof (relation "measure (\<lambda>(dirent, top', d). top' - d)"; clarsimp)
  fix dirent top' d
  assume "(d :: nat) < top'" "\<not> get16 dirent (d + 4) < 8"
  then have "0 < unat (get16 dirent (d + 4))" by (simp add: word_less_nat_alt)
  with \<open>d < top'\<close> show "top' - (d + unat (get16 dirent (d + 4))) < top' - d" by linarith
qed

definition get_dirent_tail :: "ext2_filsys \<Rightarrow> u8 list \<Rightarrow> errcode + nat" where
  "get_dirent_tail fs dirent =
     (if fs_blocksize fs < 1024 then Inl EXT2_FILSYS_CORRUPTED
      else
        let bs = unat (fs_blocksize fs); top' = bs - 12
        in case tail_walk dirent top' 0 of
             Inl e \<Rightarrow> Inl e
           | Inr d \<Rightarrow>
               if d > bs then Inl EXT2_ET_DIR_CORRUPTED
               else if d \<noteq> top' then Inl EXT2_ET_DIR_NO_SPACE_FOR_CSUM
               else if get32 dirent d \<noteq> 0 \<or> get16 dirent (d + 4) \<noteq> 12 \<or> get16 dirent (d + 6) \<noteq> 0xDE00
               then Inl EXT2_ET_DIR_NO_SPACE_FOR_CSUM
               else Inr d)"

definition ext2fs_dirent_has_tail :: "ext2_filsys \<Rightarrow> u8 list \<Rightarrow> bool" where
  "ext2fs_dirent_has_tail fs dirent \<longleftrightarrow> get_dirent_tail fs dirent \<noteq> Inl EXT2_ET_DIR_NO_SPACE_FOR_CSUM"

definition ext2fs_dirent_csum ::
    "(u32 \<Rightarrow> errcode + u32) \<Rightarrow> ext2_filsys \<Rightarrow> u32 \<Rightarrow> u8 list \<Rightarrow> nat \<Rightarrow> errcode + u32" where
  "ext2fs_dirent_csum read_inode fs inum dirent sz =
     (case read_inode inum of
        Inl e \<Rightarrow> Inl e
      | Inr gen \<Rightarrow> Inr (crc32c (crc32c (crc32c (fs_csum_seed fs) (le32 inum)) (le32 gen)) (take sz dirent)))"

definition ext2fs_dirent_csum_verify :: "(u32 \<Rightarrow> errcode + u32) \<Rightarrow> ext2_filsys \<Rightarrow> u32 \<Rightarrow> u8 list \<Rightarrow> bool" where
  "ext2fs_dirent_csum_verify read_inode fs inum dirent \<longleftrightarrow>
     (case get_dirent_tail fs dirent of
        Inl e \<Rightarrow> True
      | Inr t \<Rightarrow>
          (case ext2fs_dirent_csum read_inode fs inum dirent t of
             Inl e \<Rightarrow> False
           | Inr calculated \<Rightarrow> get32 dirent (t + 8) = calculated))"

definition ext2fs_dirent_csum_set ::
    "(u32 \<Rightarrow> errcode + u32) \<Rightarrow> ext2_filsys \<Rightarrow> u32 \<Rightarrow> u8 list \<Rightarrow> errcode \<times> u8 list" where
  "ext2fs_dirent_csum_set read_inode fs inum dirent =
     (case get_dirent_tail fs dirent of
        Inl e \<Rightarrow> (e, dirent)
      | Inr t \<Rightarrow>
          (case ext2fs_dirent_csum read_inode fs inum dirent t of
             Inl e \<Rightarrow> (e, dirent)
           | Inr crc \<Rightarrow> (0, put32 dirent (t + 8) crc)))"

text \<open>The checksum of an index block, and the offset of its tail.\<close>

definition ext2fs_dx_csum ::
    "(u32 \<Rightarrow> errcode + u32) \<Rightarrow> ext2_filsys \<Rightarrow> u32 \<Rightarrow> u8 list \<Rightarrow> errcode + u32 \<times> nat" where
  "ext2fs_dx_csum read_inode fs inum dirent =
     (case get_dx_countlimit fs dirent of
        Inl e \<Rightarrow> Inl e
      | Inr count_offset \<Rightarrow>
          let limit = unat (get16 dirent count_offset); count = unat (get16 dirent (count_offset + 2))
          in if (word_of_nat (count_offset + limit * 8) :: u64) > ucast (fs_blocksize fs) - 8
             then Inl EXT2_ET_DIR_NO_SPACE_FOR_CSUM
             else
               let t = count_offset + limit * 8; sz = count_offset + count * 8
               in case read_inode inum of
                    Inl e \<Rightarrow> Inl e
                  | Inr gen \<Rightarrow>
                      let crc = crc32c (fs_csum_seed fs) (le32 inum); crc = crc32c crc (le32 gen);
                          crc = crc32c crc (take sz dirent); crc = crc32c crc (take 4 (drop t dirent));
                          crc = crc32c crc (le32 0)
                      in Inr (crc, t))"

definition ext2fs_dx_csum_verify :: "(u32 \<Rightarrow> errcode + u32) \<Rightarrow> ext2_filsys \<Rightarrow> u32 \<Rightarrow> u8 list \<Rightarrow> bool" where
  "ext2fs_dx_csum_verify read_inode fs inum dirent \<longleftrightarrow>
     (case ext2fs_dx_csum read_inode fs inum dirent of
        Inl e \<Rightarrow> False
      | Inr (calculated, t) \<Rightarrow> get32 dirent (t + 4) = calculated)"

definition ext2fs_dx_csum_set ::
    "(u32 \<Rightarrow> errcode + u32) \<Rightarrow> ext2_filsys \<Rightarrow> u32 \<Rightarrow> u8 list \<Rightarrow> errcode \<times> u8 list" where
  "ext2fs_dx_csum_set read_inode fs inum dirent =
     (case ext2fs_dx_csum read_inode fs inum dirent of
        Inl e \<Rightarrow> (e, dirent)
      | Inr (crc, t) \<Rightarrow> (0, put32 dirent (t + 4) crc))"

definition ext2fs_dir_block_csum_verify :: "(u32 \<Rightarrow> errcode + u32) \<Rightarrow> ext2_filsys \<Rightarrow> u32 \<Rightarrow> u8 list \<Rightarrow> bool" where
  "ext2fs_dir_block_csum_verify read_inode fs inum dirent \<longleftrightarrow>
     (if \<not> ext2fs_has_feature_metadata_csum (fs_super fs) then True
      else if \<not> isl (get_dirent_tail fs dirent) then ext2fs_dirent_csum_verify read_inode fs inum dirent
      else if \<not> isl (get_dx_countlimit fs dirent) then ext2fs_dx_csum_verify read_inode fs inum dirent
      else False)"

definition ext2fs_dir_block_csum_set ::
    "(u32 \<Rightarrow> errcode + u32) \<Rightarrow> ext2_filsys \<Rightarrow> u32 \<Rightarrow> u8 list \<Rightarrow> errcode \<times> u8 list" where
  "ext2fs_dir_block_csum_set read_inode fs inum dirent =
     (if \<not> ext2fs_has_feature_metadata_csum (fs_super fs) then (0, dirent)
      else if \<not> isl (get_dirent_tail fs dirent) then ext2fs_dirent_csum_set read_inode fs inum dirent
      else if \<not> isl (get_dx_countlimit fs dirent) then ext2fs_dx_csum_set read_inode fs inum dirent
      else if fs_flags fs AND EXT2_FLAG_IGNORE_CSUM_ERRORS \<noteq> 0 then (0, dirent)
      else (EXT2_ET_DIR_NO_SPACE_FOR_CSUM, dirent))"

section \<open>Blocks of an extent tree\<close>

text \<open>The place of the checksum follows from a field of the block; \<open>None\<close> is an access outside the
  block.\<close>

definition EXT3_EXTENT_TAIL_OFFSET :: "u8 list \<Rightarrow> nat" where
  "EXT3_EXTENT_TAIL_OFFSET eh = 12 + 12 * unat (get16 eh 4)"

definition ext2fs_extent_block_csum ::
    "(u32 \<Rightarrow> errcode + u32) \<Rightarrow> ext2_filsys \<Rightarrow> u32 \<Rightarrow> u8 list \<Rightarrow> (errcode + u32) option" where
  "ext2fs_extent_block_csum read_inode fs inum eh =
     (let sz = EXT3_EXTENT_TAIL_OFFSET eh
      in case read_inode inum of
           Inl e \<Rightarrow> Some (Inl e)
         | Inr gen \<Rightarrow>
             if sz > length eh then None
             else Some (Inr (crc32c (crc32c (crc32c (fs_csum_seed fs) (le32 inum)) (le32 gen)) (take sz eh))))"

definition ext2fs_extent_block_csum_verify ::
    "(u32 \<Rightarrow> errcode + u32) \<Rightarrow> ext2_filsys \<Rightarrow> u32 \<Rightarrow> u8 list \<Rightarrow> bool option" where
  "ext2fs_extent_block_csum_verify read_inode fs inum eh =
     (let t = EXT3_EXTENT_TAIL_OFFSET eh
      in if \<not> ext2fs_has_feature_metadata_csum (fs_super fs) then Some True
         else if t + 4 > length eh then None
         else
           case ext2fs_extent_block_csum read_inode fs inum eh of
             None \<Rightarrow> None
           | Some (Inl e) \<Rightarrow> Some False
           | Some (Inr calculated) \<Rightarrow> Some (get32 eh t = calculated))"

definition ext2fs_extent_block_csum_set ::
    "(u32 \<Rightarrow> errcode + u32) \<Rightarrow> ext2_filsys \<Rightarrow> u32 \<Rightarrow> u8 list \<Rightarrow> (errcode \<times> u8 list) option" where
  "ext2fs_extent_block_csum_set read_inode fs inum eh =
     (let t = EXT3_EXTENT_TAIL_OFFSET eh
      in if \<not> ext2fs_has_feature_metadata_csum (fs_super fs) then Some (0, eh)
         else
           case ext2fs_extent_block_csum read_inode fs inum eh of
             None \<Rightarrow> None
           | Some (Inl e) \<Rightarrow> Some (e, eh)
           | Some (Inr crc) \<Rightarrow> if t + 4 > length eh then None else Some (0, put32 eh t crc))"

section \<open>Bitmaps\<close>

text \<open>\<open>bitmap\<close> are the bytes that the size argument counts.\<close>

definition ext2fs_inode_bitmap_csum_verify :: "ext2_filsys \<Rightarrow> u32 \<Rightarrow> u8 list \<Rightarrow> bool" where
  "ext2fs_inode_bitmap_csum_verify fs grp bitmap \<longleftrightarrow>
     (let gdp = ext4fs_group_desc fs grp
      in if \<not> ext2fs_has_feature_metadata_csum (fs_super fs) then True
         else
           let provided = ucast (bg_inode_bitmap_csum_lo gdp); calculated = crc32c (fs_csum_seed fs) bitmap
           in if EXT2_DESC_SIZE (fs_super fs) \<ge> 0x3C
              then provided OR push_bit 16 (ucast (bg_inode_bitmap_csum_hi gdp)) = calculated
              else provided = calculated AND 0xFFFF)"

definition ext2fs_inode_bitmap_csum_set :: "ext2_filsys \<Rightarrow> u32 \<Rightarrow> u8 list \<Rightarrow> errcode \<times> ext2_filsys" where
  "ext2fs_inode_bitmap_csum_set fs grp bitmap =
     (if \<not> ext2fs_has_feature_metadata_csum (fs_super fs) then (0, fs)
      else
        let crc = crc32c (fs_csum_seed fs) bitmap;
            fs = gd_upd (\<lambda>gdp. gdp\<lparr>bg_inode_bitmap_csum_lo := ucast (crc AND 0xFFFF)\<rparr>) fs grp
        in (0, if EXT2_DESC_SIZE (fs_super fs) \<ge> 0x3C
               then gd_upd (\<lambda>gdp. gdp\<lparr>bg_inode_bitmap_csum_hi := ucast (drop_bit 16 crc)\<rparr>) fs grp else fs))"

definition ext2fs_block_bitmap_csum_verify :: "ext2_filsys \<Rightarrow> u32 \<Rightarrow> u8 list \<Rightarrow> bool" where
  "ext2fs_block_bitmap_csum_verify fs grp bitmap \<longleftrightarrow>
     (let gdp = ext4fs_group_desc fs grp
      in if \<not> ext2fs_has_feature_metadata_csum (fs_super fs) then True
         else
           let provided = ucast (bg_block_bitmap_csum_lo gdp); calculated = crc32c (fs_csum_seed fs) bitmap
           in if EXT2_DESC_SIZE (fs_super fs) \<ge> 0x3A
              then provided OR push_bit 16 (ucast (bg_block_bitmap_csum_hi gdp)) = calculated
              else provided = calculated AND 0xFFFF)"

definition ext2fs_block_bitmap_csum_set :: "ext2_filsys \<Rightarrow> u32 \<Rightarrow> u8 list \<Rightarrow> errcode \<times> ext2_filsys" where
  "ext2fs_block_bitmap_csum_set fs grp bitmap =
     (if \<not> ext2fs_has_feature_metadata_csum (fs_super fs) then (0, fs)
      else
        let crc = crc32c (fs_csum_seed fs) bitmap;
            fs = gd_upd (\<lambda>gdp. gdp\<lparr>bg_block_bitmap_csum_lo := ucast (crc AND 0xFFFF)\<rparr>) fs grp
        in (0, if EXT2_DESC_SIZE (fs_super fs) \<ge> 0x3A
               then gd_upd (\<lambda>gdp. gdp\<lparr>bg_block_bitmap_csum_hi := ucast (drop_bit 16 crc)\<rparr>) fs grp else fs))"

section \<open>Inodes\<close>

definition ext2fs_inode_csum :: "ext2_filsys \<Rightarrow> u32 \<Rightarrow> u8 list \<Rightarrow> bool \<Rightarrow> u32" where
  "ext2fs_inode_csum fs inum inode has_hi =
     (let inode0 = put16 inode 124 0; inode0 = (if has_hi then put16 inode0 130 0 else inode0);
          gen = get32 inode0 100; crc = crc32c (fs_csum_seed fs) (le32 inum); crc = crc32c crc (le32 gen)
      in crc32c crc (take (unat (EXT2_INODE_SIZE (fs_super fs))) inode0))"

definition inode_has_hi :: "ext2_filsys \<Rightarrow> u8 list \<Rightarrow> bool" where
  "inode_has_hi fs inode \<longleftrightarrow> EXT2_INODE_SIZE (fs_super fs) > 128 \<and> get16 inode 128 \<ge> 4"

definition ext2fs_inode_csum_verify :: "ext2_filsys \<Rightarrow> u32 \<Rightarrow> u8 list \<Rightarrow> bool" where
  "ext2fs_inode_csum_verify fs inum inode \<longleftrightarrow>
     (if \<not> ext2fs_has_feature_metadata_csum (fs_super fs) then True
      else
        let has_hi = inode_has_hi fs inode; provided = ucast (get16 inode 124);
            calculated = ext2fs_inode_csum fs inum inode has_hi;
            provided = (if has_hi then provided OR push_bit 16 (ucast (get16 inode 130)) else provided);
            calculated = (if has_hi then calculated else calculated AND 0xFFFF)
        in if provided = calculated then True else list_all (\<lambda>b. b = 0) (take 128 inode))"

definition ext2fs_inode_csum_set :: "ext2_filsys \<Rightarrow> u32 \<Rightarrow> u8 list \<Rightarrow> errcode \<times> u8 list" where
  "ext2fs_inode_csum_set fs inum inode =
     (if \<not> ext2fs_has_feature_metadata_csum (fs_super fs) then (0, inode)
      else
        let has_hi = inode_has_hi fs inode; crc = ext2fs_inode_csum fs inum inode has_hi;
            inode = put16 inode 124 (ucast (crc AND 0xFFFF))
        in (0, if has_hi then put16 inode 130 (ucast (drop_bit 16 crc)) else inode))"

section \<open>Group descriptors\<close>

text \<open>A descriptor in memory.\<close>

definition desc_bytes :: "ext4_group_desc \<Rightarrow> u8 list" where
  "desc_bytes gd =
     le32 (bg_block_bitmap gd) @ le32 (bg_inode_bitmap gd) @ le32 (bg_inode_table gd) @
     le16 (bg_free_blocks_count gd) @ le16 (bg_free_inodes_count gd) @ le16 (bg_used_dirs_count gd) @
     le16 (bg_flags gd) @ le32 (bg_exclude_bitmap_lo gd) @ le16 (bg_block_bitmap_csum_lo gd) @
     le16 (bg_inode_bitmap_csum_lo gd) @ le16 (bg_itable_unused gd) @ le16 (bg_checksum gd) @
     le32 (bg_block_bitmap_hi gd) @ le32 (bg_inode_bitmap_hi gd) @ le32 (bg_inode_table_hi gd) @
     le16 (bg_free_blocks_count_hi gd) @ le16 (bg_free_inodes_count_hi gd) @ le16 (bg_used_dirs_count_hi gd) @
     le16 (bg_itable_unused_hi gd) @ le32 (bg_exclude_bitmap_hi gd) @ le16 (bg_block_bitmap_csum_hi gd) @
     le16 (bg_inode_bitmap_csum_hi gd) @ le32 (bg_reserved gd) @ bg_rest gd"

definition ext2fs_group_desc_csum :: "ext2_filsys \<Rightarrow> u32 \<Rightarrow> u16" where
  "ext2fs_group_desc_csum fs grp =
     (let desc = ext4fs_group_desc fs grp; sz = EXT2_DESC_SIZE (fs_super fs)
      in if ext2fs_has_feature_metadata_csum (fs_super fs)
         then
           let crc32 = crc32c (fs_csum_seed fs) (le32 grp);
               crc32 = crc32c crc32 (take sz (desc_bytes (desc\<lparr>bg_checksum := 0\<rparr>)))
           in ucast (crc32 AND 0xFFFF)
         else
           let offset = 30;
               crc = ucast (ext2fs_crc16 (- 1) (s_uuid (fs_super fs))) :: u16;
               crc = ucast (ext2fs_crc16 (ucast crc) (le32 grp)) :: u16;
               crc = ucast (ext2fs_crc16 (ucast crc) (take offset (desc_bytes desc))) :: u16;
               offset = offset + 2
           in if offset < sz
              then ucast (ext2fs_crc16 (ucast crc) (take (sz - offset) (drop offset (desc_bytes desc))))
              else crc)"

definition ext2fs_group_desc_csum_verify :: "ext2_filsys \<Rightarrow> u32 \<Rightarrow> bool" where
  "ext2fs_group_desc_csum_verify fs grp \<longleftrightarrow>
     (if ext2fs_has_group_desc_csum fs \<and> ext2fs_bg_checksum fs grp \<noteq> ext2fs_group_desc_csum fs grp then False else True)"

definition ext2fs_group_desc_csum_set :: "ext2_filsys \<Rightarrow> u32 \<Rightarrow> ext2_filsys" where
  "ext2fs_group_desc_csum_set fs grp =
     (if \<not> ext2fs_has_group_desc_csum fs then fs
      else ext2fs_bg_checksum_set fs grp (ext2fs_group_desc_csum fs grp))"

partial_function (option) last_inode_loop :: "u32 \<Rightarrow> u32 \<Rightarrow> u32 \<Rightarrow> generic_bitmap option \<Rightarrow>
    (u32 \<times> generic_bitmap option) option" where
  "last_inode_loop start_ino inodes_per_grp i bitmap =
     (if i \<ge> start_ino
      then case ext2fs_fast_test_inode_bitmap2 bitmap i of
             (r, bitmap) \<Rightarrow>
               if r \<noteq> 0 then Some (i - start_ino + 1, bitmap)
               else last_inode_loop start_ino inodes_per_grp (i - 1) bitmap
      else Some (inodes_per_grp, bitmap))"

declare last_inode_loop.simps [code]

definition find_last_inode_ingrp :: "generic_bitmap option \<Rightarrow> u32 \<Rightarrow> u32 \<Rightarrow> (u32 \<times> generic_bitmap option) option" where
  "find_last_inode_ingrp bitmap inodes_per_grp grp_no =
     (let start_ino = grp_no * inodes_per_grp + 1; end_ino = start_ino + inodes_per_grp - 1
      in last_inode_loop start_ino inodes_per_grp end_ino bitmap)"

text \<open>One round of the loop of \<open>ext2fs_set_gdt_csum\<close> and the loop; \<open>n\<close> rounds are left.\<close>

definition gdt_csum_group :: "ext2_filsys \<Rightarrow> u32 \<Rightarrow> (bool \<times> ext2_filsys) option" where
  "gdt_csum_group fs i =
     (let sb = fs_super fs; old_csum = ext2fs_bg_checksum fs i; old_unused = ext2fs_bg_itable_unused fs i;
          old_flags = ext2fs_bg_flags fs i; old_free_inodes_count = ext2fs_bg_free_inodes_count fs i;
          old_free_blocks_count = ext2fs_bg_free_blocks_count fs i;
          fs = (if old_free_blocks_count = s_blocks_per_group sb \<and> i \<noteq> fs_group_desc_count fs - 1
                then ext2fs_bg_flags_set fs i EXT2_BG_BLOCK_UNINIT else fs)
      in map_option (\<lambda>fs.
           let fs = ext2fs_group_desc_csum_set fs i
           in (old_flags \<noteq> ext2fs_bg_flags fs i \<or> old_unused \<noteq> ext2fs_bg_itable_unused fs i \<or>
               old_csum \<noteq> ext2fs_bg_checksum fs i, fs))
         (if old_free_inodes_count = s_inodes_per_group sb
          then Some (ext2fs_bg_itable_unused_set (ext2fs_bg_flags_set fs i EXT2_BG_INODE_UNINIT) i (s_inodes_per_group sb))
          else map_option (\<lambda>(l, bitmap).
                 ext2fs_bg_itable_unused_set
                   (ext2fs_bg_flags_clear (fs\<lparr>fs_inode_map := bitmap\<rparr>) i EXT2_BG_INODE_UNINIT) i
                   (s_inodes_per_group sb - l))
               (find_last_inode_ingrp (fs_inode_map fs) (s_inodes_per_group sb) i)))"

fun gdt_csum_loop :: "nat \<Rightarrow> u32 \<Rightarrow> bool \<Rightarrow> ext2_filsys \<Rightarrow> (bool \<times> ext2_filsys) option" where
  "gdt_csum_loop 0 i dirty fs = Some (dirty, fs)"
| "gdt_csum_loop (Suc n) i dirty fs =
     Option.bind (gdt_csum_group fs i) (\<lambda>(d, fs). gdt_csum_loop n (i + 1) (dirty \<or> d) fs)"

definition ext2fs_set_gdt_csum :: "ext2_filsys \<Rightarrow> (errcode \<times> ext2_filsys) option" where
  "ext2fs_set_gdt_csum fs =
     (if fs_inode_map fs = None then Some (EXT2_ET_NO_INODE_BITMAP, fs)
      else if \<not> ext2fs_has_group_desc_csum fs then Some (0, fs)
      else map_option (\<lambda>(dirty, fs). (0, if dirty then ext2fs_mark_super_dirty fs else fs))
             (gdt_csum_loop (unat (fs_group_desc_count fs)) 0 False fs))"

end
