(* ===== verification/Alloc_Stats.thy ===== *)
theory Alloc_Stats
  imports Csum Bitmaps
begin

text \<open>
  \<open>lib/ext2fs/alloc_stats.c\<close>: marking a block or an inode as used or free in the bitmap together with
  the counters of its group and of the super block, the flags and the checksum of the descriptor.
  The callback pointers of the handle are a record of their own, \<open>alloc_hooks\<close>, because a callback
  takes the handle; a callback is a function that may change the handle but not the pointers. The
  messages about illegal numbers are output only; the check that goes with them is kept.
\<close>

section \<open>The callbacks of the handle\<close>

record 'c alloc_hooks =
  get_alloc_block :: "(ext2_filsys \<Rightarrow> u64 \<Rightarrow> (errcode + u64) \<times> ext2_filsys) option"
  block_alloc_stats :: "(ext2_filsys \<Rightarrow> u64 \<Rightarrow> int \<Rightarrow> ext2_filsys) option"
  get_alloc_block2 :: "(ext2_filsys \<Rightarrow> u64 \<Rightarrow> 'c option \<Rightarrow> (errcode + u64) \<times> ext2_filsys) option"
  block_alloc_stats_range :: "(ext2_filsys \<Rightarrow> u64 \<Rightarrow> u32 \<Rightarrow> int \<Rightarrow> ext2_filsys) option"
  new_range :: "(ext2_filsys \<Rightarrow> u32 \<Rightarrow> u64 \<Rightarrow> u64 \<Rightarrow> (errcode + u64 \<times> u64) \<times> ext2_filsys) option"

text \<open>The first component is what is stored in \<open>old\<close>, when the call stores it.\<close>

definition ext2fs_set_block_alloc_stats_callback :: "ext2_filsys option \<Rightarrow> 'c alloc_hooks \<Rightarrow>
    (ext2_filsys \<Rightarrow> u64 \<Rightarrow> int \<Rightarrow> ext2_filsys) option \<Rightarrow>
    (ext2_filsys \<Rightarrow> u64 \<Rightarrow> int \<Rightarrow> ext2_filsys) option option \<times> 'c alloc_hooks" where
  "ext2fs_set_block_alloc_stats_callback fs hooks func =
     (case fs of None \<Rightarrow> (None, hooks)
      | Some fs \<Rightarrow>
          if fs_magic fs \<noteq> EXT2_ET_MAGIC_EXT2FS_FILSYS then (None, hooks)
          else (Some (block_alloc_stats hooks), hooks\<lparr>block_alloc_stats := func\<rparr>))"

definition ext2fs_set_block_alloc_stats_range_callback :: "ext2_filsys option \<Rightarrow> 'c alloc_hooks \<Rightarrow>
    (ext2_filsys \<Rightarrow> u64 \<Rightarrow> u32 \<Rightarrow> int \<Rightarrow> ext2_filsys) option \<Rightarrow>
    (ext2_filsys \<Rightarrow> u64 \<Rightarrow> u32 \<Rightarrow> int \<Rightarrow> ext2_filsys) option option \<times> 'c alloc_hooks" where
  "ext2fs_set_block_alloc_stats_range_callback fs hooks func =
     (case fs of None \<Rightarrow> (None, hooks)
      | Some fs \<Rightarrow>
          if fs_magic fs \<noteq> EXT2_ET_MAGIC_EXT2FS_FILSYS then (None, hooks)
          else (Some (block_alloc_stats_range hooks), hooks\<lparr>block_alloc_stats_range := func\<rparr>))"

section \<open>Inodes\<close>

definition ext2fs_inode_alloc_stats2 :: "ext2_filsys \<Rightarrow> u32 \<Rightarrow> int \<Rightarrow> bool \<Rightarrow> ext2_filsys" where
  "ext2fs_inode_alloc_stats2 fs ino inuse isdir =
     (let grp = ext2fs_group_of_ino fs ino
      in if ino > s_inodes_count (fs_super fs) then fs
         else
           let fs = (if inuse > 0
                     then fs\<lparr>fs_inode_map := snd (ext2fs_mark_inode_bitmap2 (fs_inode_map fs) ino)\<rparr>
                     else fs\<lparr>fs_inode_map := snd (ext2fs_unmark_inode_bitmap2 (fs_inode_map fs) ino)\<rparr>);
               fs = ext2fs_bg_free_inodes_count_set fs grp (ext2fs_bg_free_inodes_count fs grp - word_of_int inuse);
               fs = (if isdir
                     then ext2fs_bg_used_dirs_count_set fs grp (ext2fs_bg_used_dirs_count fs grp + word_of_int inuse)
                     else fs);
               fs = ext2fs_bg_flags_clear fs grp EXT2_BG_INODE_UNINIT;
               fs = (if ext2fs_has_group_desc_csum fs
                     then
                       let ipg = s_inodes_per_group (fs_super fs);
                           first_unused_inode = ipg - ext2fs_bg_itable_unused fs grp + grp * ipg + 1;
                           fs = (if ino \<ge> first_unused_inode
                                 then ext2fs_bg_itable_unused_set fs grp (grp * ipg + ipg - ino) else fs)
                       in ext2fs_group_desc_csum_set fs grp
                     else fs);
               fs = fs\<lparr>fs_super := (fs_super fs)\<lparr>s_free_inodes_count := s_free_inodes_count (fs_super fs) - word_of_int inuse\<rparr>\<rparr>
           in ext2fs_mark_ib_dirty (ext2fs_mark_super_dirty fs))"

definition ext2fs_inode_alloc_stats :: "ext2_filsys \<Rightarrow> u32 \<Rightarrow> int \<Rightarrow> ext2_filsys" where
  "ext2fs_inode_alloc_stats fs ino inuse = ext2fs_inode_alloc_stats2 fs ino inuse False"

section \<open>Blocks\<close>

definition ext2fs_block_alloc_stats2 :: "'c alloc_hooks \<Rightarrow> ext2_filsys \<Rightarrow> u64 \<Rightarrow> int \<Rightarrow> ext2_filsys" where
  "ext2fs_block_alloc_stats2 hooks fs blk inuse =
     (let grp = ext2fs_group_of_blk2 fs blk
      in if blk \<ge> ext2fs_blocks_count (fs_super fs) then fs
         else
           let fs = (if inuse > 0
                     then fs\<lparr>fs_block_map := snd (ext2fs_mark_block_bitmap2 (fs_block_map fs) blk)\<rparr>
                     else fs\<lparr>fs_block_map := snd (ext2fs_unmark_block_bitmap2 (fs_block_map fs) blk)\<rparr>);
               fs = ext2fs_bg_free_blocks_count_set fs grp (ext2fs_bg_free_blocks_count fs grp - word_of_int inuse);
               fs = ext2fs_bg_flags_clear fs grp EXT2_BG_BLOCK_UNINIT;
               fs = ext2fs_group_desc_csum_set fs grp;
               fs = fs\<lparr>fs_super := ext2fs_free_blocks_count_add (fs_super fs) (word_of_int (- inuse) * EXT2FS_CLUSTER_RATIO fs)\<rparr>;
               fs = ext2fs_mark_bb_dirty (ext2fs_mark_super_dirty fs)
           in case block_alloc_stats hooks of Some f \<Rightarrow> f fs blk inuse | None \<Rightarrow> fs)"

definition ext2fs_block_alloc_stats :: "'c alloc_hooks \<Rightarrow> ext2_filsys \<Rightarrow> u32 \<Rightarrow> int \<Rightarrow> ext2_filsys" where
  "ext2fs_block_alloc_stats hooks fs blk inuse = ext2fs_block_alloc_stats2 hooks fs (ucast blk) inuse"

text \<open>The loop over the groups of a range; the result has the final values of \<open>blk\<close> and \<open>num\<close>,
  which the callback gets.\<close>

partial_function (option) stats_range_loop :: "int \<Rightarrow> ext2_filsys \<Rightarrow> u64 \<Rightarrow> u32 \<Rightarrow> (ext2_filsys \<times> u64 \<times> u32) option" where
  "stats_range_loop inuse fs blk num =
     (if num = 0 then Some (fs, blk, num)
      else
        let grp = ext2fs_group_of_blk2 fs blk; last_blk = ext2fs_group_last_block2 fs grp;
            n = (if blk + ucast num > last_blk then last_blk - blk + 1 else ucast num);
            fs = ext2fs_bg_free_blocks_count_set fs grp
                   (ucast (ucast (ext2fs_bg_free_blocks_count fs grp) - (word_of_int inuse * n) div EXT2FS_CLUSTER_RATIO fs));
            fs = ext2fs_bg_flags_clear fs grp EXT2_BG_BLOCK_UNINIT;
            fs = ext2fs_group_desc_csum_set fs grp;
            fs = fs\<lparr>fs_super := ext2fs_free_blocks_count_add (fs_super fs) (word_of_int (- inuse) * n)\<rparr>
        in stats_range_loop inuse fs (blk + n) (ucast (ucast num - n)))"

declare stats_range_loop.simps [code]

definition ext2fs_block_alloc_stats_range :: "'c alloc_hooks \<Rightarrow> ext2_filsys \<Rightarrow> u64 \<Rightarrow> u32 \<Rightarrow> int \<Rightarrow> ext2_filsys option" where
  "ext2fs_block_alloc_stats_range hooks fs blk num inuse =
     (if blk + ucast num > ext2fs_blocks_count (fs_super fs) then Some fs
      else if inuse = 0 then Some fs
      else
        let fs = (if inuse > 0
                  then fs\<lparr>fs_block_map := ext2fs_mark_block_bitmap_range2 (fs_block_map fs) blk num\<rparr>
                  else fs\<lparr>fs_block_map := ext2fs_unmark_block_bitmap_range2 (fs_block_map fs) blk num\<rparr>);
            inuse = (if inuse > 0 then 1 else - 1)
        in map_option (\<lambda>(fs, blk, num).
             let fs = ext2fs_mark_bb_dirty (ext2fs_mark_super_dirty fs)
             in case block_alloc_stats_range hooks of Some f \<Rightarrow> f fs blk num inuse | None \<Rightarrow> fs)
             (stats_range_loop inuse fs blk num))"

end
