(* ===== verification/Alloc.thy ===== *)
theory Alloc
  imports Alloc_Stats
begin

text \<open>
  \<open>lib/ext2fs/alloc.c\<close>: the search for a free inode, a free block or a run of free blocks, and the
  functions that allocate what was found. A search may not return, so the results are optional.
  Reading the block bitmap, writing a block and zeroing blocks are the fields of \<open>alloc_io\<close>.
\<close>

section \<open>Uninitialised groups\<close>

definition ext2fs_clear_block_uninit :: "ext2_filsys \<Rightarrow> u32 \<Rightarrow> ext2_filsys" where
  "ext2fs_clear_block_uninit fs grp =
     (if grp \<ge> fs_group_desc_count fs \<or> \<not> ext2fs_has_group_desc_csum fs \<or>
         ext2fs_bg_flags_test fs grp EXT2_BG_BLOCK_UNINIT = 0 then fs
      else ext2fs_mark_bb_dirty (ext2fs_mark_super_dirty
             (ext2fs_group_desc_csum_set (ext2fs_bg_flags_clear fs grp EXT2_BG_BLOCK_UNINIT) grp)))"

definition ext2fs_fast_unmark_inode_bitmap2 :: "generic_bitmap option \<Rightarrow> u32 \<Rightarrow> generic_bitmap option" where
  "ext2fs_fast_unmark_inode_bitmap2 bitmap inode = snd (ext2fs_unmark_generic_bmap bitmap (ucast inode))"

fun unmark_inodes :: "nat \<Rightarrow> u32 \<Rightarrow> generic_bitmap option \<Rightarrow> generic_bitmap option" where
  "unmark_inodes 0 ino map' = map'"
| "unmark_inodes (Suc n) ino map' = unmark_inodes n (ino + 1) (ext2fs_fast_unmark_inode_bitmap2 map' ino)"

text \<open>\<open>map'\<close> is the bitmap that the pointer \<open>map\<close> refers to.\<close>

definition check_inode_uninit :: "ext2_filsys \<Rightarrow> generic_bitmap option \<Rightarrow> u32 \<Rightarrow> ext2_filsys \<times> generic_bitmap option" where
  "check_inode_uninit fs map' grp =
     (if grp \<ge> fs_group_desc_count fs \<or> \<not> ext2fs_has_group_desc_csum fs \<or>
         ext2fs_bg_flags_test fs grp EXT2_BG_INODE_UNINIT = 0 then (fs, map')
      else
        let ino = grp * s_inodes_per_group (fs_super fs) + 1;
            map' = unmark_inodes (unat (s_inodes_per_group (fs_super fs))) ino map';
            fs = ext2fs_bg_flags_clear fs grp EXT2_BG_INODE_UNINIT;
            fs = ext2fs_bg_flags_clear fs grp EXT2_BG_BLOCK_UNINIT;
            fs = ext2fs_group_desc_csum_set fs grp
        in (ext2fs_mark_super_dirty (ext2fs_mark_ib_dirty fs), map'))"

section \<open>Inodes\<close>

text \<open>What a bitmap argument points to: nothing, the bitmap of the handle, or another one.\<close>

datatype map_arg = Null_map | Fs_map | Other_map generic_bitmap

definition map_of_arg :: "map_arg \<Rightarrow> generic_bitmap option \<Rightarrow> generic_bitmap option" where
  "map_of_arg arg own = (case arg of Other_map m \<Rightarrow> Some m | _ \<Rightarrow> own)"

definition arg_of_map :: "map_arg \<Rightarrow> generic_bitmap option \<Rightarrow> map_arg" where
  "arg_of_map arg m = (case arg of Other_map _ \<Rightarrow> (case m of Some m \<Rightarrow> Other_map m | None \<Rightarrow> arg) | _ \<Rightarrow> arg)"

text \<open>The end of the search in the group of \<open>i\<close>.\<close>

definition inode_upto :: "ext2_super_block \<Rightarrow> u32 \<Rightarrow> u32 \<Rightarrow> u32" where
  "inode_upto sb start_inode i =
     (let ino_in_group = (i - 1) mod s_inodes_per_group sb;
          upto' = i + (s_inodes_per_group sb - ino_in_group);
          upto' = (if i < start_inode \<and> upto' \<ge> start_inode then start_inode - 1 else upto')
      in if upto' > s_inodes_count sb then s_inodes_count sb else upto')"

partial_function (option) new_inode_loop :: "u32 \<Rightarrow> ext2_filsys \<Rightarrow> generic_bitmap option \<Rightarrow> u32 \<Rightarrow>
    ((errcode + u32) \<times> ext2_filsys \<times> generic_bitmap option) option" where
  "new_inode_loop start_inode fs map' i =
     (let sb = fs_super fs
      in case check_inode_uninit fs map' ((i - 1) div s_inodes_per_group sb) of (fs, map') \<Rightarrow>
        let upto' = inode_upto sb start_inode i
        in Option.bind (ext2fs_find_first_zero_inode_bitmap2 map' i upto') (\<lambda>r.
             case r of
               Inr first_zero \<Rightarrow> Some (Inr first_zero, fs, map')
             | Inl retval \<Rightarrow>
                 if retval \<noteq> ENOENT then Some (Inl EXT2_ET_INODE_ALLOC_FAIL, fs, map')
                 else
                   let i = (if upto' + 1 > s_inodes_count sb then EXT2_FIRST_INODE sb else upto' + 1)
                   in if i \<noteq> start_inode then new_inode_loop start_inode fs map' i
                      else Some (Inr i, fs, map')))"

declare new_inode_loop.simps [code]

definition ext2fs_new_inode :: "ext2_filsys \<Rightarrow> u32 \<Rightarrow> map_arg \<Rightarrow> ((errcode + u32) \<times> ext2_filsys \<times> map_arg) option" where
  "ext2fs_new_inode fs dir arg =
     (if fs_magic fs \<noteq> EXT2_ET_MAGIC_EXT2FS_FILSYS then Some (Inl EXT2_ET_MAGIC_EXT2FS_FILSYS, fs, arg)
      else if map_of_arg arg (fs_inode_map fs) = None then Some (Inl EXT2_ET_NO_INODE_BITMAP, fs, arg)
      else
        let sb = fs_super fs;
            start_inode = (if dir > 0 then (dir - 1) div s_inodes_per_group sb * s_inodes_per_group sb + 1 else 0);
            start_inode = (if start_inode < EXT2_FIRST_INODE sb then EXT2_FIRST_INODE sb else start_inode)
        in if start_inode > s_inodes_count sb then Some (Inl EXT2_ET_INODE_ALLOC_FAIL, fs, arg)
           else map_option (\<lambda>(r, fs, map').
                  case (case r of
                          Inl e \<Rightarrow> (Inl e, map')
                        | Inr i \<Rightarrow>
                            (case ext2fs_test_inode_bitmap2 map' i of
                               (t, map') \<Rightarrow> (if t \<noteq> 0 then Inl EXT2_ET_INODE_ALLOC_FAIL else Inr i, map'))) of
                    (r, map') \<Rightarrow>
                      (r, (case arg of Other_map _ \<Rightarrow> fs | _ \<Rightarrow> fs\<lparr>fs_inode_map := map'\<rparr>), arg_of_map arg map'))
                (new_inode_loop start_inode fs (map_of_arg arg (fs_inode_map fs)) start_inode))"

section \<open>Blocks\<close>

text \<open>The search for a block and the hooks that replace it; a hook is called with its own pointer
  cleared. The searched bitmap is not changed.\<close>

definition ext2fs_new_block3 :: "'c alloc_hooks \<Rightarrow> ext2_filsys \<Rightarrow> u64 \<Rightarrow> generic_bitmap option \<Rightarrow> 'c option \<Rightarrow>
    ((errcode + u64) \<times> ext2_filsys) option" where
  "ext2fs_new_block3 hooks fs goal map' ctx =
     (if fs_magic fs \<noteq> EXT2_ET_MAGIC_EXT2FS_FILSYS then Some (Inl EXT2_ET_MAGIC_EXT2FS_FILSYS, fs)
      else
        let allocated = (\<lambda>(r, fs).
              case r of
                Inl retval \<Rightarrow> (Inl (if retval = ENOENT then EXT2_ET_BLOCK_ALLOC_FAIL else retval), fs)
              | Inr b \<Rightarrow> (Inr b, ext2fs_clear_block_uninit fs (ext2fs_group_of_blk2 fs b)))
        in case (map', get_alloc_block2 hooks, get_alloc_block hooks) of
             (None, Some gab2, _) \<Rightarrow> Some (allocated (gab2 fs goal ctx))
           | (None, None, Some gab) \<Rightarrow> Some (allocated (gab fs goal))
           | _ \<Rightarrow>
             (case (case map' of None \<Rightarrow> fs_block_map fs | Some m \<Rightarrow> Some m) of
                None \<Rightarrow> Some (Inl EXT2_ET_NO_BLOCK_BITMAP, fs)
              | Some m \<Rightarrow>
                  let sb = fs_super fs; first = ucast (s_first_data_block sb);
                      goal = (if goal = 0 \<or> goal \<ge> ext2fs_blocks_count sb then first else goal);
                      goal = goal AND NOT (EXT2FS_CLUSTER_MASK fs)
                  in map_option (\<lambda>r. allocated (r, fs))
                       (Option.bind (ext2fs_find_first_zero_block_bitmap2 (Some m) goal (ext2fs_blocks_count sb - 1)) (\<lambda>r.
                          if r = Inl ENOENT \<and> goal \<noteq> first
                          then ext2fs_find_first_zero_block_bitmap2 (Some m) first (goal - 1)
                          else Some r))))"

definition ext2fs_new_block2 :: "'c alloc_hooks \<Rightarrow> ext2_filsys \<Rightarrow> u64 \<Rightarrow> generic_bitmap option \<Rightarrow>
    ((errcode + u64) \<times> ext2_filsys) option" where
  "ext2fs_new_block2 hooks fs goal map' = ext2fs_new_block3 hooks fs goal map' None"

definition ext2fs_new_block :: "'c alloc_hooks \<Rightarrow> ext2_filsys \<Rightarrow> u32 \<Rightarrow> generic_bitmap option \<Rightarrow>
    ((errcode + u32) \<times> ext2_filsys) option" where
  "ext2fs_new_block hooks fs goal map' =
     map_option (apfst (map_sum id ucast)) (ext2fs_new_block2 hooks fs (ucast goal) map')"

record alloc_io =
  read_block_bitmap :: "ext2_filsys \<Rightarrow> errcode \<times> ext2_filsys"
  write_blk64 :: "ext2_filsys \<Rightarrow> u64 \<Rightarrow> u8 list \<Rightarrow> errcode"
  zero_blocks2 :: "ext2_filsys \<Rightarrow> u64 \<Rightarrow> u32 \<Rightarrow> errcode"

text \<open>The block of \<open>ext2fs_alloc_block3\<close>, from a hook or from the bitmap.\<close>

definition alloc_block3_find :: "alloc_io \<Rightarrow> 'c alloc_hooks \<Rightarrow> ext2_filsys \<Rightarrow> u64 \<Rightarrow> 'c option \<Rightarrow>
    ((errcode + u64) \<times> ext2_filsys) option" where
  "alloc_block3_find io hooks fs goal ctx =
     (case (get_alloc_block2 hooks, get_alloc_block hooks) of
        (Some gab2, _) \<Rightarrow> Some (gab2 fs goal ctx)
      | (None, Some gab) \<Rightarrow> Some (gab fs goal)
      | (None, None) \<Rightarrow>
          (case (if fs_block_map fs = None then read_block_bitmap io fs else (0, fs)) of
             (retval, fs) \<Rightarrow>
               if retval \<noteq> 0 then Some (Inl retval, fs)
               else ext2fs_new_block3 hooks fs goal None ctx))"

definition ext2fs_alloc_block3 :: "alloc_io \<Rightarrow> 'c alloc_hooks \<Rightarrow> ext2_filsys \<Rightarrow> u64 \<Rightarrow> u8 list option \<Rightarrow> 'c option \<Rightarrow>
    ((errcode + u64) \<times> u8 list option \<times> ext2_filsys) option" where
  "ext2fs_alloc_block3 io hooks fs goal block_buf ctx =
     map_option (\<lambda>(r, fs).
       case r of
         Inl retval \<Rightarrow> (Inl retval, block_buf, fs)
       | Inr block \<Rightarrow>
           let block_buf = map_option (\<lambda>buf. memset buf 0 0 (unat (fs_blocksize fs))) block_buf;
               retval = (case block_buf of
                           Some buf \<Rightarrow> write_blk64 io fs block buf
                         | None \<Rightarrow> zero_blocks2 io fs block 1)
           in if retval \<noteq> 0 then (Inl retval, block_buf, fs)
              else (Inr block, block_buf, ext2fs_block_alloc_stats2 hooks fs block 1))
       (alloc_block3_find io hooks fs goal ctx)"

definition ext2fs_alloc_block2 :: "alloc_io \<Rightarrow> 'c alloc_hooks \<Rightarrow> ext2_filsys \<Rightarrow> u64 \<Rightarrow> u8 list option \<Rightarrow>
    ((errcode + u64) \<times> u8 list option \<times> ext2_filsys) option" where
  "ext2fs_alloc_block2 io hooks fs goal block_buf = ext2fs_alloc_block3 io hooks fs goal block_buf None"

definition ext2fs_alloc_block :: "alloc_io \<Rightarrow> 'c alloc_hooks \<Rightarrow> ext2_filsys \<Rightarrow> u32 \<Rightarrow> u8 list option \<Rightarrow>
    ((errcode + u32) \<times> u8 list option \<times> ext2_filsys) option" where
  "ext2fs_alloc_block io hooks fs goal block_buf =
     map_option (apfst (map_sum id ucast)) (ext2fs_alloc_block3 io hooks fs (ucast goal) block_buf None)"

text \<open>\<open>num\<close> and \<open>c_ratio\<close> are ints, widened with their sign where they meet a block number.\<close>

partial_function (option) get_free_blocks_loop :: "ext2_filsys \<Rightarrow> u64 \<Rightarrow> u64 \<Rightarrow> int \<Rightarrow> int \<Rightarrow> generic_bitmap option \<Rightarrow> u64 \<Rightarrow>
    ((errcode + u64) \<times> generic_bitmap option) option" where
  "get_free_blocks_loop fs start finish num c_ratio map' b =
     (if b + word_of_int num - 1 \<ge> ext2fs_blocks_count (fs_super fs) \<and> finish > start
      then Some (Inl EXT2_ET_BLOCK_ALLOC_FAIL, map')
      else
        let b = (if b + word_of_int num - 1 \<ge> ext2fs_blocks_count (fs_super fs)
                 then ucast (s_first_data_block (fs_super fs)) else b)
        in case ext2fs_fast_test_block_bitmap_range2 map' b (word_of_int num) of (t, map') \<Rightarrow>
             if t \<noteq> 0 then Some (Inr b, map')
             else
               let b = b + word_of_int c_ratio
               in if b \<noteq> finish then get_free_blocks_loop fs start finish num c_ratio map' b
                  else Some (Inl EXT2_ET_BLOCK_ALLOC_FAIL, map'))"

declare get_free_blocks_loop.simps [code]

definition ext2fs_get_free_blocks2 :: "ext2_filsys \<Rightarrow> u64 \<Rightarrow> u64 \<Rightarrow> int \<Rightarrow> map_arg \<Rightarrow>
    ((errcode + u64) \<times> ext2_filsys \<times> map_arg) option" where
  "ext2fs_get_free_blocks2 fs start finish num arg =
     (if fs_magic fs \<noteq> EXT2_ET_MAGIC_EXT2FS_FILSYS then Some (Inl EXT2_ET_MAGIC_EXT2FS_FILSYS, fs, arg)
      else case map_of_arg arg (fs_block_map fs) of
        None \<Rightarrow> Some (Inl EXT2_ET_NO_BLOCK_BITMAP, fs, arg)
      | Some m \<Rightarrow>
          let b = (if start = 0 then ucast (s_first_data_block (fs_super fs)) else start);
              finish = (if finish = 0 then start else finish);
              num = (if num = 0 then 1 else num);
              c_ratio = 2 ^ ext2fs_get_bitmap_granularity m;
              b = b AND NOT (word_of_int (c_ratio - 1));
              finish = finish AND NOT (word_of_int (c_ratio - 1))
          in map_option (\<lambda>(r, map').
               (r, (case arg of Other_map _ \<Rightarrow> fs | _ \<Rightarrow> fs\<lparr>fs_block_map := map'\<rparr>), arg_of_map arg map'))
             (get_free_blocks_loop fs start finish num c_ratio (Some m) b))"

definition ext2fs_get_free_blocks :: "ext2_filsys \<Rightarrow> u32 \<Rightarrow> u32 \<Rightarrow> int \<Rightarrow> map_arg \<Rightarrow>
    ((errcode + u32) \<times> ext2_filsys \<times> map_arg) option" where
  "ext2fs_get_free_blocks fs start finish num arg =
     map_option (apfst (map_sum id ucast)) (ext2fs_get_free_blocks2 fs (ucast start) (ucast finish) num arg)"

section \<open>Runs of blocks\<close>

abbreviation EXT2_NEWRANGE_FIXED_GOAL :: u32 where "EXT2_NEWRANGE_FIXED_GOAL \<equiv> 0x1"
abbreviation EXT2_NEWRANGE_MIN_LENGTH :: u32 where "EXT2_NEWRANGE_MIN_LENGTH \<equiv> 0x2"
abbreviation EXT2_NEWRANGE_ALL_FLAGS :: u32 where "EXT2_NEWRANGE_ALL_FLAGS \<equiv> 0x3"
abbreviation EXT2_ALLOCRANGE_FIXED_GOAL :: u32 where "EXT2_ALLOCRANGE_FIXED_GOAL \<equiv> 0x1"
abbreviation EXT2_ALLOCRANGE_ZERO_BLOCKS :: u32 where "EXT2_ALLOCRANGE_ZERO_BLOCKS \<equiv> 0x2"
abbreviation EXT2_ALLOCRANGE_ALL_FLAGS :: u32 where "EXT2_ALLOCRANGE_ALL_FLAGS \<equiv> 0x3"

text \<open>The search of \<open>ext2fs_new_range\<close>: the start and the end of the run.\<close>

partial_function (option) new_range_loop :: "ext2_super_block \<Rightarrow> u32 \<Rightarrow> u64 \<Rightarrow> u64 \<Rightarrow> generic_bitmap option \<Rightarrow> bool \<Rightarrow> u64 \<Rightarrow>
    (errcode + u64 \<times> u64) option" where
  "new_range_loop sb flags goal len map' looped start =
     (let max_blocks = ext2fs_blocks_count sb; first = ucast (s_first_data_block sb)
      in if \<not> (\<not> looped \<or> start \<le> goal) then Some (Inl EXT2_ET_BLOCK_ALLOC_FAIL)
         else Option.bind (ext2fs_find_first_zero_block_bitmap2 map' start (max_blocks - 1)) (\<lambda>r.
           case r of
             Inl retval \<Rightarrow>
               if retval = ENOENT
               then if flags AND EXT2_NEWRANGE_FIXED_GOAL \<noteq> 0 \<or> start = first
                    then Some (Inl EXT2_ET_BLOCK_ALLOC_FAIL)
                    else new_range_loop sb flags goal len map' looped first
               else Some (Inl retval)
           | Inr start \<Rightarrow>
               if flags AND EXT2_NEWRANGE_FIXED_GOAL \<noteq> 0 \<and> start \<noteq> goal then Some (Inl EXT2_ET_BLOCK_ALLOC_FAIL)
               else
                 let b = (if start + len - 1 < max_blocks - 1 then start + len - 1 else max_blocks - 1)
                 in Option.bind (ext2fs_find_first_set_block_bitmap2 map' start b) (\<lambda>r.
                      case (case r of Inr e \<Rightarrow> Inr e | Inl retval \<Rightarrow> if retval = ENOENT then Inr (b + 1) else Inl retval) of
                        Inl retval \<Rightarrow> Some (Inl retval)
                      | Inr end' \<Rightarrow>
                          if flags AND EXT2_NEWRANGE_MIN_LENGTH = 0 \<or> end' - start \<ge> len then Some (Inr (start, end'))
                          else if flags AND EXT2_NEWRANGE_FIXED_GOAL \<noteq> 0 then Some (Inl EXT2_ET_BLOCK_ALLOC_FAIL)
                          else if end' \<ge> max_blocks
                          then if looped then Some (Inl EXT2_ET_BLOCK_ALLOC_FAIL)
                               else new_range_loop sb flags goal len map' True first
                          else new_range_loop sb flags goal len map' looped end')))"

declare new_range_loop.simps [code]

partial_function (option) clear_uninit_loop :: "ext2_filsys \<Rightarrow> u64 \<Rightarrow> u64 \<Rightarrow> ext2_filsys option" where
  "clear_uninit_loop fs b end' =
     (if b < end'
      then clear_uninit_loop (ext2fs_clear_block_uninit fs (ext2fs_group_of_blk2 fs b))
             (b + ucast (s_blocks_per_group (fs_super fs))) end'
      else Some fs)"

declare clear_uninit_loop.simps [code]

definition ext2fs_new_range :: "'c alloc_hooks \<Rightarrow> ext2_filsys \<Rightarrow> u32 \<Rightarrow> u64 \<Rightarrow> u64 \<Rightarrow> generic_bitmap option \<Rightarrow>
    ((errcode + u64 \<times> u64) \<times> ext2_filsys) option" where
  "ext2fs_new_range hooks fs flags goal len map' =
     (if fs_magic fs \<noteq> EXT2_ET_MAGIC_EXT2FS_FILSYS then Some (Inl EXT2_ET_MAGIC_EXT2FS_FILSYS, fs)
      else if len = 0 \<or> flags AND NOT EXT2_NEWRANGE_ALL_FLAGS \<noteq> 0 then Some (Inl EXT2_ET_INVALID_ARGUMENT, fs)
      else case (map', new_range hooks) of
        (None, Some nrf) \<Rightarrow>
          (case nrf fs flags goal len of
             (Inl retval, fs) \<Rightarrow> Some (Inl retval, fs)
           | (Inr (pblk, plen), fs) \<Rightarrow>
               map_option (Pair (Inr (pblk, plen))) (clear_uninit_loop fs pblk (pblk + plen)))
      | _ \<Rightarrow>
          (case (case map' of None \<Rightarrow> fs_block_map fs | Some m \<Rightarrow> Some m) of
             None \<Rightarrow> Some (Inl EXT2_ET_NO_BLOCK_BITMAP, fs)
           | Some m \<Rightarrow>
               let sb = fs_super fs;
                   goal = (if goal = 0 \<or> goal \<ge> ext2fs_blocks_count sb then ucast (s_first_data_block sb) else goal)
               in Option.bind (new_range_loop sb flags goal len (Some m) False goal) (\<lambda>r.
                    case r of
                      Inl retval \<Rightarrow> Some (Inl retval, fs)
                    | Inr (start, end') \<Rightarrow>
                        map_option (Pair (Inr (start, end' - start))) (clear_uninit_loop fs start end'))))"

definition ext2fs_alloc_range :: "alloc_io \<Rightarrow> 'c alloc_hooks \<Rightarrow> ext2_filsys \<Rightarrow> u32 \<Rightarrow> u64 \<Rightarrow> u32 \<Rightarrow>
    ((errcode + u64) \<times> ext2_filsys) option" where
  "ext2fs_alloc_range io hooks fs flags goal len =
     (if fs_magic fs \<noteq> EXT2_ET_MAGIC_EXT2FS_FILSYS then Some (Inl EXT2_ET_MAGIC_EXT2FS_FILSYS, fs)
      else if len = 0 \<or> flags AND NOT EXT2_ALLOCRANGE_ALL_FLAGS \<noteq> 0 then Some (Inl EXT2_ET_INVALID_ARGUMENT, fs)
      else
        let newr_flags = (if flags AND EXT2_ALLOCRANGE_FIXED_GOAL \<noteq> 0
                          then EXT2_NEWRANGE_MIN_LENGTH OR EXT2_NEWRANGE_FIXED_GOAL else EXT2_NEWRANGE_MIN_LENGTH)
        in Option.bind (ext2fs_new_range hooks fs newr_flags goal (ucast len) None) (\<lambda>(r, fs).
             case r of
               Inl retval \<Rightarrow> Some (Inl retval, fs)
             | Inr (ret, plen) \<Rightarrow>
                 if plen < ucast len then Some (Inl EXT2_ET_BLOCK_ALLOC_FAIL, fs)
                 else
                   let retval = (if flags AND EXT2_ALLOCRANGE_ZERO_BLOCKS \<noteq> 0 then zero_blocks2 io fs ret len else 0)
                   in if retval \<noteq> 0 then Some (Inl retval, fs)
                      else map_option (Pair (Inr ret)) (ext2fs_block_alloc_stats_range hooks fs ret len 1)))"

section \<open>Installing callbacks\<close>

definition ext2fs_set_alloc_block_callback :: "ext2_filsys option \<Rightarrow> 'c alloc_hooks \<Rightarrow>
    (ext2_filsys \<Rightarrow> u64 \<Rightarrow> (errcode + u64) \<times> ext2_filsys) option \<Rightarrow>
    (ext2_filsys \<Rightarrow> u64 \<Rightarrow> (errcode + u64) \<times> ext2_filsys) option option \<times> 'c alloc_hooks" where
  "ext2fs_set_alloc_block_callback fs hooks func =
     (case fs of None \<Rightarrow> (None, hooks)
      | Some fs \<Rightarrow>
          if fs_magic fs \<noteq> EXT2_ET_MAGIC_EXT2FS_FILSYS then (None, hooks)
          else (Some (get_alloc_block hooks), hooks\<lparr>get_alloc_block := func\<rparr>))"

definition ext2fs_set_new_range_callback :: "ext2_filsys option \<Rightarrow> 'c alloc_hooks \<Rightarrow>
    (ext2_filsys \<Rightarrow> u32 \<Rightarrow> u64 \<Rightarrow> u64 \<Rightarrow> (errcode + u64 \<times> u64) \<times> ext2_filsys) option \<Rightarrow>
    (ext2_filsys \<Rightarrow> u32 \<Rightarrow> u64 \<Rightarrow> u64 \<Rightarrow> (errcode + u64 \<times> u64) \<times> ext2_filsys) option option \<times> 'c alloc_hooks" where
  "ext2fs_set_new_range_callback fs hooks func =
     (case fs of None \<Rightarrow> (None, hooks)
      | Some fs \<Rightarrow>
          if fs_magic fs \<noteq> EXT2_ET_MAGIC_EXT2FS_FILSYS then (None, hooks)
          else (Some (new_range hooks), hooks\<lparr>new_range := func\<rparr>))"

end
