(* ===== verification/Examples.thy ===== *)
theory Examples
  imports Gen_Bitmap_Run
begin

text \<open>
  Small bitmaps and a small file system on which the properties are applied: 40 blocks in three
  groups of 16 blocks and 16 inodes.
\<close>

definition ex_hdr :: bmap64 where
  "ex_hdr = \<lparr>bm_magic = 0, bm_start = 1, bm_end = 40, bm_real_end = 63, bm_cluster_bits = 0,
     bm_description = None, bm_private = BA_private [], bm_base_error_code = 0\<rparr>"

text \<open>Block maps of 16 bits in the three representations.\<close>

definition ex_ba :: "u8 list \<Rightarrow> generic_bitmap" where
  "ex_ba bs = Bitmap64 \<lparr>bm_magic = EXT2_ET_MAGIC_BLOCK_BITMAP64, bm_start = 0, bm_end = 15, bm_real_end = 15,
     bm_cluster_bits = 0, bm_description = None, bm_private = BA_private bs, bm_base_error_code = 0\<rparr>"

definition ex_rb :: generic_bitmap where
  "ex_rb = Bitmap64 \<lparr>bm_magic = EXT2_ET_MAGIC_BLOCK_BITMAP64, bm_start = 0, bm_end = 15, bm_real_end = 15,
     bm_cluster_bits = 0, bm_description = None,
     bm_private = RB_private \<lparr>rb_root = Leaf, wcursor = None, rcursor = None, rcursor_next = None, rb_brk = 0\<rparr>,
     bm_base_error_code = 0\<rparr>"

definition ex_32 :: "u8 list \<Rightarrow> generic_bitmap" where
  "ex_32 bs = Bitmap32 \<lparr>b32_magic = EXT2_ET_MAGIC_BLOCK_BITMAP, b32_start = 0, b32_end = 15, b32_real_end = 15,
     b32_description = None, b32_bitmap = bs, b32_base_error_code = 0\<rparr>"

lemma ex_ba_ok: "length bs = 2 \<Longrightarrow> block_map (ex_ba bs)"
  by (simp add: ex_ba_def block_map_def valid_64_def valid_ba_def header_ok_def ba_size_def EXT2FS_IS_64_BITMAP_def)

lemma ex_32_ok: "length bs = 8 \<Longrightarrow> block_map (ex_32 bs)"
  by (simp add: ex_32_def block_map_def valid_32_def b32_size_def EXT2FS_IS_32_BITMAP_def)

lemma ex_rb_ok: "block_map ex_rb" "gb_set ex_rb = {}"
proof -
  have "rb_new_bmap True (ex_hdr\<lparr>bm_start := 0, bm_end := 15, bm_real_end := 15, bm_magic := EXT2_ET_MAGIC_BLOCK_BITMAP64\<rparr>) =
      (0, (case ex_rb of Bitmap64 b \<Rightarrow> b | _ \<Rightarrow> ex_hdr))"
    by (simp add: rb_new_bmap_def rb_alloc_private_data_def ex_hdr_def ex_rb_def)
  from rb_new_valid [OF _ this] have "valid_rb (case ex_rb of Bitmap64 b \<Rightarrow> b | _ \<Rightarrow> ex_hdr)"
    "marked_rb (case ex_rb of Bitmap64 b \<Rightarrow> b | _ \<Rightarrow> ex_hdr) = {}"
    by (simp_all add: header_ok_def ex_hdr_def)
  then show "block_map ex_rb" "gb_set ex_rb = {}"
    by (simp_all add: ex_rb_def block_map_def valid_64_def EXT2FS_IS_64_BITMAP_def marked_64_def)
qed

text \<open>An inode bitmap of 48 inodes; the first eight and inode 20 are used.\<close>

definition ex_imap :: generic_bitmap where
  "ex_imap = Bitmap64 \<lparr>bm_magic = EXT2_ET_MAGIC_INODE_BITMAP64, bm_start = 1, bm_end = 48, bm_real_end = 48,
     bm_cluster_bits = 0, bm_description = None, bm_private = BA_private [0xFF, 0, 8, 0, 0, 0], bm_base_error_code = 0\<rparr>"

lemma ex_imap_ok: "gb_ok ex_imap" "gb_bits ex_imap = 0"
  by (simp_all add: ex_imap_def valid_64_def valid_ba_def header_ok_def ba_size_def EXT2FS_IS_64_BITMAP_def)

definition ex_sb :: ext2_super_block where
  "ex_sb = \<lparr>s_inodes_count = 32, s_blocks_count = 40, s_r_blocks_count = 0, s_free_blocks_count = 30,
     s_free_inodes_count = 20, s_first_data_block = 0, s_log_block_size = 0, s_log_cluster_size = 0,
     s_blocks_per_group = 16, s_clusters_per_group = 16, s_inodes_per_group = 16, s_rev_level = 1, s_first_ino = 11,
     s_inode_size = 128, s_feature_compat = 0, s_feature_incompat = 0, s_feature_ro_compat = 0, s_uuid = replicate 16 0, s_desc_size = 32,
     s_blocks_count_hi = 0, s_r_blocks_count_hi = 0, s_free_blocks_hi = 0,
     s_checksum_type = 1, s_checksum_seed = 0\<rparr>"

definition ex_gd :: ext4_group_desc where
  "ex_gd = \<lparr>bg_block_bitmap = 2, bg_inode_bitmap = 3, bg_inode_table = 4, bg_free_blocks_count = 10,
     bg_free_inodes_count = 10, bg_used_dirs_count = 1, bg_flags = 0, bg_exclude_bitmap_lo = 0,
     bg_block_bitmap_csum_lo = 0, bg_inode_bitmap_csum_lo = 0, bg_itable_unused = 0, bg_checksum = 0,
     bg_block_bitmap_hi = 0, bg_inode_bitmap_hi = 0, bg_inode_table_hi = 0, bg_free_blocks_count_hi = 0,
     bg_free_inodes_count_hi = 0, bg_used_dirs_count_hi = 0, bg_itable_unused_hi = 0, bg_exclude_bitmap_hi = 0,
     bg_block_bitmap_csum_hi = 0, bg_inode_bitmap_csum_hi = 0,
     bg_reserved = 0, bg_rest = []\<rparr>"

definition ex_fs :: ext2_filsys where
  "ex_fs = \<lparr>fs_magic = EXT2_ET_MAGIC_EXT2FS_FILSYS, fs_flags = 0x20000, fs_super = ex_sb, fs_blocksize = 1024,
     fs_group_desc_count = 3, fs_group_desc = [ex_gd, ex_gd, ex_gd], fs_inode_map = None, fs_block_map = Some (ex_ba [3, 0]),
     fs_cluster_ratio_bits = 0, fs_default_bitmap_type = 2, fs_csum_seed = 0\<rparr>"

end
