(* ===== verification/Csum_Correct.thy ===== *)
theory Csum_Correct
  imports Csum Bitmaps_Correct Examples
begin

text \<open>
  Correctness of \<open>csum.c\<close>: a checksum that was set is accepted, and a change of a few
  neighbouring bytes is noticed; the record lengths of directory entries are read back. A
  structure that holds its own checksum is the locale \<open>csum_field\<close>.
\<close>

section \<open>Structures that hold their own checksum\<close>

locale csum_field =
  fixes ok :: "'b \<Rightarrow> bool" and csum :: "'b \<Rightarrow> 'c" and get :: "'b \<Rightarrow> 'c" and put :: "'b \<Rightarrow> 'c \<Rightarrow> 'b"
  assumes get_put: "ok b \<Longrightarrow> get (put b c) = c"
    and csum_put: "ok b \<Longrightarrow> csum (put b c) = csum b"
    and put_put: "ok b \<Longrightarrow> put (put b c) d = put b d"
begin

lemma set_verify: "ok b \<Longrightarrow> get (put b (csum b)) = csum (put b (csum b))"
  by (simp add: get_put csum_put)

lemma set_again: "ok b \<Longrightarrow> put (put b (csum b)) (csum (put b (csum b))) = put b (csum b)"
  by (simp add: csum_put put_put)

end

lemma put32_put32 [simp]: "off + 4 \<le> length buf \<Longrightarrow> put32 (put32 buf off v) off w = put32 buf off w"
  by (simp add: put32_def)

lemma length_put32 [simp]: "off + 4 \<le> length buf \<Longrightarrow> length (put32 buf off v) = length buf"
  by (simp add: put32_def)

lemma length_put16 [simp]: "off + 2 \<le> length buf \<Longrightarrow> length (put16 buf off w) = length buf"
  by (simp add: put16_def)

lemma take_put [simp]:
  "n \<le> off \<Longrightarrow> off + 4 \<le> length buf \<Longrightarrow> take n (put32 buf off v) = take n buf"
  "n \<le> off \<Longrightarrow> off + 2 \<le> length buf \<Longrightarrow> take n (put16 buf off w) = take n buf"
  by (simp_all add: put32_def put16_def)

lemma get_put32_other [simp]:
  "off + 4 \<le> length buf \<Longrightarrow> i + 4 \<le> off \<Longrightarrow> get32 (put32 buf off v) i = get32 buf i"
  "off + 4 \<le> length buf \<Longrightarrow> i + 2 \<le> off \<Longrightarrow> get16 (put32 buf off v) i = get16 buf i"
  by (simp_all add: put32_def)

lemma get16_put16_other [simp]:
  "off + 2 \<le> length buf \<Longrightarrow> i + 2 \<le> length buf \<Longrightarrow> i + 2 \<le> off \<or> off + 2 \<le> i \<Longrightarrow> get16 (put16 buf off w) i = get16 buf i"
  by (simp add: put16_def)

lemma nth_put32_other [simp]: "off + 4 \<le> length buf \<Longrightarrow> i < off \<Longrightarrow> put32 buf off v ! i = buf ! i"
  by (simp add: put32_def nth_put_bytes)

interpretation mmp: csum_field "\<lambda>b. 1024 \<le> length b" "ext2fs_mmp_csum fs" "\<lambda>b. get32 b 1020" "\<lambda>b. put32 b 1020" for fs
  by unfold_locales (simp_all add: ext2fs_mmp_csum_def)

interpretation superblock: csum_field "\<lambda>b. 1024 \<le> length b" ext2fs_superblock_csum "\<lambda>b. get32 b 1020" "\<lambda>b. put32 b 1020"
  by unfold_locales (simp_all add: ext2fs_superblock_csum_def)

interpretation ext_attr: csum_field "\<lambda>b. 20 \<le> length b" "ext2fs_ext_attr_block_csum fs block" "\<lambda>b. get32 b 16" "\<lambda>b. put32 b 16"
  for fs block
  by unfold_locales (simp_all add: ext2fs_ext_attr_block_csum_def)

lemma mmp_set_verify: "1024 \<le> length mmp \<Longrightarrow> ext2fs_mmp_csum_verify fs (snd (ext2fs_mmp_csum_set fs mmp))"
  by (simp add: ext2fs_mmp_csum_verify_def ext2fs_mmp_csum_set_def mmp.set_verify del: get_put)

lemma superblock_set_verify: "1024 \<le> length sb \<Longrightarrow> ext2fs_superblock_csum_verify fs (snd (ext2fs_superblock_csum_set fs sb))"
  by (simp add: ext2fs_superblock_csum_verify_def ext2fs_superblock_csum_set_def superblock.set_verify del: get_put)

lemma ext_attr_set_verify:
  "20 \<le> length hdr \<Longrightarrow> ext2fs_ext_attr_block_csum_verify fs block (snd (ext2fs_ext_attr_block_csum_set fs block hdr))"
  by (simp add: ext2fs_ext_attr_block_csum_verify_def ext2fs_ext_attr_block_csum_set_def ext_attr.set_verify del: get_put)

section \<open>Directory blocks\<close>

declare tail_walk.simps [simp del]

lemma tail_walk_end: "top' \<le> d \<Longrightarrow> tail_walk buf top' d = Inr d"
  by (simp add: tail_walk.simps)

lemma tail_walk_step:
  "d < top' \<Longrightarrow> \<not> isl (tail_walk buf top' d) \<Longrightarrow>
    tail_walk buf top' d = tail_walk buf top' (d + unat (get16 buf (d + 4)))"
  by (subst tail_walk.simps) (auto simp: tail_walk.simps [of buf top' d] Let_def split: if_splits)

lemma tail_walk_put:
  "top' + 6 \<le> off \<Longrightarrow> off + 4 \<le> length buf \<Longrightarrow> tail_walk (put32 buf off v) top' d = tail_walk buf top' d"
proof (induction buf top' d rule: tail_walk.induct)
  case (1 buf top' d)
  show ?case
  proof (cases "d < top'")
    case True
    then have g: "get16 (put32 buf off v) (d + 4) = get16 buf (d + 4)" using 1(2,3) by simp
    show ?thesis
      unfolding tail_walk.simps [of "put32 buf off v" top' d] tail_walk.simps [of buf top' d] g
      using 1 True by (simp add: Let_def)
  next
    case False
    then show ?thesis by (simp add: tail_walk.simps)
  qed
qed

lemma get_dirent_tail_at:
  assumes "get_dirent_tail fs buf = Inr t"
  shows "t = unat (fs_blocksize fs) - 12" "1024 \<le> unat (fs_blocksize fs)"
  using assms
  by (auto simp: get_dirent_tail_def Let_def word_less_nat_alt split: if_splits sum.splits)

lemma get_dirent_tail_put:
  assumes "length buf = unat (fs_blocksize fs)" "get_dirent_tail fs buf = Inr t"
  shows "get_dirent_tail fs (put32 buf (t + 8) v) = Inr t"
proof -
  note t = get_dirent_tail_at [OF assms(2)]
  have w: "tail_walk (put32 buf (t + 8) v) (unat (fs_blocksize fs) - 12) 0 = tail_walk buf (unat (fs_blocksize fs) - 12) 0"
    using t assms(1) by (intro tail_walk_put) auto
  show ?thesis
    using assms t unfolding get_dirent_tail_def Let_def w
    by (auto split: if_splits sum.splits)
qed

lemma dirent_set_verify:
  assumes "length buf = unat (fs_blocksize fs)" "get_dirent_tail fs buf = Inr t"
    and "ext2fs_dirent_csum_set read_inode fs inum buf = (0, buf')"
  shows "get_dirent_tail fs buf' = Inr t \<and> ext2fs_dirent_csum_verify read_inode fs inum buf' \<or> read_inode inum = Inl 0"
proof (cases "read_inode inum")
  case (Inl e)
  with assms(2,3) show ?thesis by (simp add: ext2fs_dirent_csum_set_def ext2fs_dirent_csum_def)
next
  case (Inr gen)
  note t = get_dirent_tail_at [OF assms(2)]
  from assms(2,3) Inr have b: "buf' = put32 buf (t + 8)
      (crc32c (crc32c (crc32c (fs_csum_seed fs) (le32 inum)) (le32 gen)) (take t buf))"
    by (simp add: ext2fs_dirent_csum_set_def ext2fs_dirent_csum_def)
  have "get_dirent_tail fs buf' = Inr t" unfolding b by (rule get_dirent_tail_put [OF assms(1,2)])
  moreover from this have "ext2fs_dirent_csum_verify read_inode fs inum buf'"
    using t assms(1) Inr b by (simp add: ext2fs_dirent_csum_verify_def ext2fs_dirent_csum_def)
  ultimately show ?thesis by blast
qed

text \<open>An index block looks like one entry, or two, up to the end of the block.\<close>

definition dx_shape :: "ext2_filsys \<Rightarrow> u8 list \<Rightarrow> nat \<Rightarrow> bool" where
  "dx_shape fs buf off \<longleftrightarrow>
     off = 8 \<and> ucast (get16 buf 4) = fs_blocksize fs \<and> get16 buf 6 = 0 \<or>
     off = 32 \<and> \<not> (ucast (get16 buf 4) = fs_blocksize fs \<and> get16 buf 6 = 0) \<and> get16 buf 4 = 12 \<and>
       ucast (get16 buf 16) = fs_blocksize fs - 12 \<and> get32 buf 24 = 0 \<and> buf ! 29 = 8"

lemma unat_ucast_16 [simp]: "unat (ucast (n :: u16) :: u32) = unat n"
proof -
  have "unat n < 2 ^ 16" using unsigned_less [of n, where 'a = nat] by simp
  then have "unat n < 2 ^ 32" by simp
  then show ?thesis by (simp add: unsigned_ucast_eq take_bit_nat_eq_self)
qed

lemma get_dx_countlimit_shape:
  assumes "get_dx_countlimit fs buf = Inr off"
  shows "dx_shape fs buf off"
proof -
  have "ucast (get16 buf 4) = (12 :: u32) \<Longrightarrow> get16 buf 4 = 12" by (simp add: word_unat_eq_iff)
  then show ?thesis
    using assms by (auto simp: get_dx_countlimit_def dx_shape_def Let_def split: if_splits)
qed

lemma dx_no_tail:
  assumes "get_dx_countlimit fs buf = Inr off"
  shows "isl (get_dirent_tail fs buf)"
proof (rule ccontr)
  assume "\<not> isl (get_dirent_tail fs buf)"
  then obtain t where t: "get_dirent_tail fs buf = Inr t" by (cases "get_dirent_tail fs buf") auto
  note b = get_dirent_tail_at [OF t]
  let ?bs = "unat (fs_blocksize fs)"
  from t b have w: "tail_walk buf (?bs - 12) 0 = Inr (?bs - 12)"
    by (auto simp: get_dirent_tail_def Let_def split: if_splits sum.splits)
  from get_dx_countlimit_shape [OF assms] have "tail_walk buf (?bs - 12) 0 \<noteq> Inr (?bs - 12)"
    unfolding dx_shape_def
  proof (elim disjE conjE)
    assume "ucast (get16 buf 4) = fs_blocksize fs"
    then have "unat (get16 buf 4) = ?bs" by (metis unat_ucast_16)
    with w b(2) show ?thesis
      using tail_walk_step [of 0 "?bs - 12" buf] tail_walk_end [of "?bs - 12" ?bs buf] by simp
  next
    assume a: "get16 buf 4 = 12" "ucast (get16 buf 16) = fs_blocksize fs - 12"
    have "12 \<le> fs_blocksize fs" using b(2) by (simp add: word_le_nat_alt)
    then have "unat (fs_blocksize fs - 12) = ?bs - 12" by (simp add: unat_sub)
    then have r: "unat (get16 buf 16) = ?bs - 12" using a(2) by (metis unat_ucast_16)
    have "tail_walk buf (?bs - 12) 0 = tail_walk buf (?bs - 12) 12"
      using w b(2) a(1) tail_walk_step [of 0 "?bs - 12" buf] by simp
    moreover have "12 < ?bs - 12" using b(2) by linarith
    moreover have "\<not> isl (tail_walk buf (?bs - 12) 12)" using w calculation(1) by (metis sum.disc(2))
    ultimately show ?thesis
      using w r tail_walk_step [of 12 "?bs - 12" buf] tail_walk_end [of "?bs - 12" ?bs buf] b(2) by auto
  qed
  with w show False by simp
qed

text \<open>The tail of an index block lies in the block, behind its entries.\<close>

lemma dx_csum_bounds:
  assumes "get_dx_countlimit fs buf = Inr off" "1024 \<le> unat (fs_blocksize fs)"
    and "ext2fs_dx_csum read_inode fs inum buf = Inr (crc, t)"
  shows "t = off + unat (get16 buf off) * 8" "t + 8 \<le> unat (fs_blocksize fs)" "off \<in> {8, 32}"
proof -
  show o: "off \<in> {8, 32}" using get_dx_countlimit_shape [OF assms(1)] by (auto simp: dx_shape_def)
  from assms(1,3) show t: "t = off + unat (get16 buf off) * 8"
    by (auto simp: ext2fs_dx_csum_def Let_def split: if_splits sum.splits)
  from assms(1,3) have "\<not> (word_of_nat t :: u64) > ucast (fs_blocksize fs) - 8"
    unfolding t by (auto simp: ext2fs_dx_csum_def Let_def split: if_splits sum.splits)
  moreover have "(8 :: u64) \<le> ucast (fs_blocksize fs)" using assms(2) by (simp add: word_le_nat_alt)
  moreover have "unat (get16 buf off) < 2 ^ 16" using unsigned_less [of "get16 buf off", where 'a = nat] by simp
  then have "t < 2 ^ 64" using o unfolding t by auto
  ultimately have "t \<le> unat (fs_blocksize fs) - 8"
    by (simp add: word_less_nat_alt unat_sub unat_word_of_nat)
  with assms(2) show "t + 8 \<le> unat (fs_blocksize fs)" by simp
qed

lemma get_dx_countlimit_put:
  assumes "get_dx_countlimit fs buf = Inr off" "off + 4 \<le> i" "i + 4 \<le> length buf"
  shows "get_dx_countlimit fs (put32 buf i v) = Inr off"
proof -
  from get_dx_countlimit_shape [OF assms(1)] have "get_dx_countlimit fs (put32 buf i v) = get_dx_countlimit fs buf"
    using assms(2,3) unfolding dx_shape_def by (elim disjE conjE) (auto simp: get_dx_countlimit_def Let_def)
  with assms(1) show ?thesis by simp
qed

lemma dx_set_verify:
  assumes "length buf = unat (fs_blocksize fs)" "1024 \<le> unat (fs_blocksize fs)" "get_dx_countlimit fs buf = Inr off"
    and "unat (get16 buf (off + 2)) \<le> unat (get16 buf off)" "read_inode inum = Inr gen"
    and "ext2fs_dx_csum_set read_inode fs inum buf = (0, buf')" "ext2fs_dx_csum read_inode fs inum buf = Inr (crc, t)"
  shows "get_dx_countlimit fs buf' = Inr off \<and> ext2fs_dx_csum_verify read_inode fs inum buf'"
proof -
  note b = dx_csum_bounds [OF assms(3,2,7)]
  from assms(6,7) have b': "buf' = put32 buf (t + 4) crc" by (simp add: ext2fs_dx_csum_set_def)
  have dx: "get_dx_countlimit fs buf' = Inr off"
    unfolding b' using assms(1-3) b by (intro get_dx_countlimit_put) auto
  have l: "get16 buf' off = get16 buf off" "get16 buf' (off + 2) = get16 buf (off + 2)"
    unfolding b' using b assms(1) by auto
  have "take (off + unat (get16 buf (off + 2)) * 8) buf' = take (off + unat (get16 buf (off + 2)) * 8) buf"
    unfolding b' using b assms(1,4) by (intro take_put(1)) auto
  moreover have "take 4 (drop t buf') = take 4 (drop t buf)"
    unfolding b' take_drop using b(2) assms(1) by simp
  ultimately have "ext2fs_dx_csum read_inode fs inum buf' = ext2fs_dx_csum read_inode fs inum buf"
    unfolding ext2fs_dx_csum_def dx assms(3) using b(1) by (simp add: Let_def l assms(5) del: add_2_eq_Suc')
  then show ?thesis
    using dx assms(1,7) b(2) by (simp add: ext2fs_dx_csum_verify_def b')
qed

text \<open>C29. A directory block, be it a leaf or an index block, whose checksum was set is accepted by the
  verification: the value goes to a place that is not covered by it and that the search for the place does
  not look at. An index block must not claim more entries than it has room for.\<close>

theorem dir_block_set_verify:
  assumes "length buf = unat (fs_blocksize fs)" "1024 \<le> unat (fs_blocksize fs)"
    and "\<And>off. get_dx_countlimit fs buf = Inr off \<Longrightarrow> get16 buf (off + 2) \<le> get16 buf off"
    and "fs_flags fs AND EXT2_FLAG_IGNORE_CSUM_ERRORS = 0" "\<And>i. read_inode i \<noteq> Inl 0"
    and "ext2fs_dir_block_csum_set read_inode fs inum buf = (0, buf')"
  shows "ext2fs_dir_block_csum_verify read_inode fs inum buf'"
proof (cases "ext2fs_has_feature_metadata_csum (fs_super fs)")
  case True
  show ?thesis
  proof (cases "get_dirent_tail fs buf")
    case (Inr t)
    with assms(6) True have "ext2fs_dirent_csum_set read_inode fs inum buf = (0, buf')"
      by (simp add: ext2fs_dir_block_csum_set_def)
    from dirent_set_verify [OF assms(1) Inr this] assms(5) True show ?thesis
      by (simp add: ext2fs_dir_block_csum_verify_def)
  next
    case (Inl e)
    with assms(4,6) True obtain off where dx: "get_dx_countlimit fs buf = Inr off"
      and s: "ext2fs_dx_csum_set read_inode fs inum buf = (0, buf')"
      by (cases "get_dx_countlimit fs buf") (auto simp: ext2fs_dir_block_csum_set_def)
    obtain crc t where c: "ext2fs_dx_csum read_inode fs inum buf = Inr (crc, t)"
      using s dx assms(5) [of inum]
      by (auto simp: ext2fs_dx_csum_set_def ext2fs_dx_csum_def Let_def split: if_splits sum.splits)
    then obtain gen where g: "read_inode inum = Inr gen"
      using dx by (auto simp: ext2fs_dx_csum_def Let_def split: if_splits sum.splits)
    have "unat (get16 buf (off + 2)) \<le> unat (get16 buf off)" using assms(3) [OF dx] by (simp add: word_le_nat_alt)
    from dx_set_verify [OF assms(1,2) dx this g s c] have
      "get_dx_countlimit fs buf' = Inr off" "ext2fs_dx_csum_verify read_inode fs inum buf'" by simp_all
    moreover from this(1) have "isl (get_dirent_tail fs buf')" by (rule dx_no_tail)
    ultimately show ?thesis using True by (simp add: ext2fs_dir_block_csum_verify_def)
  qed
qed (simp add: ext2fs_dir_block_csum_verify_def)

section \<open>Record lengths\<close>

lemma high_bits_clear:
  fixes w :: "'a::len word"
  assumes "unat w < 2 ^ k" "k \<le> n"
  shows "\<not> bit w n"
proof -
  have "unat (drop_bit k w) = 0" using assms(1) by (simp add: unat_drop_bit)
  then have "drop_bit k w = 0" by (metis unsigned_eq_0_iff)
  then have "\<not> bit (drop_bit k w) (n - k)" by simp
  with assms(2) show ?thesis by (simp add: bit_drop_bit_eq)
qed

lemma low_bits_clear: "len AND 3 = 0 \<Longrightarrow> n < 2 \<Longrightarrow> \<not> bit (len :: u32) n"
  using take_bit_0_bits [of 2 len n] by (simp add: take_bit_eq_mask mask_eq_exp_minus_1)

lemma rec_len_masks: "(65532 :: u32) = push_bit 2 (mask 14)" "(3 :: u32) = mask 2"
  "(65535 :: u16) = mask 16" "(0x3FFFC :: u32) = push_bit 2 (mask 16)"
  by (simp_all add: mask_eq_exp_minus_1)

text \<open>The code of a length of 64 kilobytes or more.\<close>

definition long_rec :: "u32 \<Rightarrow> u16" where
  "long_rec len = ucast ((len AND 65532) OR (drop_bit 16 len AND 3))"

lemma bit_long_rec:
  assumes "n < 16"
  shows "bit (long_rec len) n \<longleftrightarrow> (if n < 2 then bit len (16 + n) else bit len n)"
  using assms unfolding long_rec_def rec_len_masks by (auto simp: bit_simps)

lemma long_rec_decode:
  assumes "unat len < 2 ^ 18" "len AND 3 = 0"
  shows "(ucast (long_rec len) AND 65532) OR push_bit 16 (ucast (long_rec len) AND 3) = len"
proof (rule bit_word_eqI)
  fix n assume "n < LENGTH(32)"
  then have n: "n < 32" by simp
  consider "n < 2" | "2 \<le> n" "n < 16" | "16 \<le> n" "n < 18" | "18 \<le> n" by linarith
  then show "bit ((ucast (long_rec len) AND 65532) OR push_bit 16 (ucast (long_rec len) AND 3) :: u32) n = bit len n"
    unfolding rec_len_masks
    using n low_bits_clear [OF assms(2), of n] high_bits_clear [OF assms(1), of n] bit_long_rec [of n len] bit_long_rec [of "n - 16" len]
    by cases (auto simp: bit_simps)
qed

lemma long_rec_reserved:
  assumes "unat len < 2 ^ 18" "len AND 3 = 0" "65536 \<le> unat len"
  shows "long_rec len \<noteq> 0" "long_rec len = 65535 \<longleftrightarrow> len = 0x3FFFC"
proof -
  show "long_rec len \<noteq> 0"
  proof
    assume "long_rec len = 0"
    then have "len = 0" using long_rec_decode [OF assms(1,2)] by simp
    with assms(3) show False by simp
  qed
  show "long_rec len = 65535 \<longleftrightarrow> len = 0x3FFFC"
  proof
    assume "long_rec len = 65535"
    then show "len = 0x3FFFC" using long_rec_decode [OF assms(1,2)] by simp
  qed (simp add: long_rec_def)
qed

lemma short_rec_decode:
  fixes len :: u32
  assumes "unat len < 2 ^ 16" "len AND 3 = 0"
  shows "ucast (ucast len :: u16) = len" "(len AND 65532) OR push_bit 16 (len AND 3) = len"
    "(ucast len :: u16) \<noteq> 65535" "(ucast len :: u16) = 0 \<longleftrightarrow> len = 0"
proof -
  show e: "ucast (ucast len :: u16) = len"
  proof (rule bit_word_eqI)
    fix n show "bit (ucast (ucast len :: u16) :: u32) n = bit len n"
      using high_bits_clear [OF assms(1), of n] bit_imp_le_length [of len n] by (cases "n < 16") (auto simp: bit_simps)
  qed
  have "bit (len AND 65532) n = bit len n" for n
  proof -
    consider "n < 2" | "2 \<le> n" "n < 16" | "16 \<le> n" by linarith
    then show ?thesis
      unfolding rec_len_masks
      using low_bits_clear [OF assms(2), of n] high_bits_clear [OF assms(1), of n] by cases (auto simp: bit_simps)
  qed
  then show "(len AND 65532) OR push_bit 16 (len AND 3) = len"
    using assms(2) by (simp add: bit_word_eqI)
  show "(ucast len :: u16) \<noteq> 65535"
  proof
    assume "(ucast len :: u16) = 65535"
    then have "len = ucast (65535 :: u16)" using e by simp
    with assms(2) show False by simp
  qed
  show "(ucast len :: u16) = 0 \<longleftrightarrow> len = 0" using e by (metis unsigned_0)
qed

text \<open>C40. A record length that is accepted is read back, with two exceptions for blocks of 64 kilobytes and
  more: an empty record is read back as the whole block, and so is the record of \<open>2 ^ 18 - 4\<close> bytes in the largest
  blocks, whose code is the one reserved for the whole block.\<close>

theorem rec_len_roundtrip:
  assumes "ext2fs_set_rec_len fs len buf d = (0, buf')" "d + 6 \<le> length buf"
  shows "ext2fs_get_rec_len fs buf' d =
    Inr (if fs_blocksize fs \<ge> 65536 \<and> (len = 0 \<or> len = 0x3FFFC) then fs_blocksize fs else len)"
proof -
  let ?bs = "fs_blocksize fs"
  from assms(1) have le: "len \<le> ?bs" "?bs \<le> 0x40000" and m: "len AND 3 = 0"
    by (auto simp: ext2fs_set_rec_len_def not_less split: if_splits)
  then have n: "unat len \<le> unat ?bs" "unat ?bs \<le> 2 ^ 18" by (simp_all add: word_le_nat_alt)
  have get: "ext2fs_get_rec_len fs (put16 buf (d + 4) w) d =
      (if ?bs < 65536 then Inr (ucast w) else if w = 65535 \<or> w = 0 then Inr ?bs
       else Inr ((ucast w AND 65532) OR push_bit 16 (ucast w AND 3)))" for w
  proof -
    have "ucast w = (65535 :: u32) \<longleftrightarrow> w = 65535" "ucast w = (0 :: u32) \<longleftrightarrow> w = 0"
      by (simp_all add: word_unat_eq_iff)
    then show ?thesis using assms(2) by (simp add: ext2fs_get_rec_len_def Let_def)
  qed
  show ?thesis
  proof (cases "len < 65536")
    case True
    then have "unat len < 2 ^ 16" by (simp add: word_less_nat_alt)
    note d = short_rec_decode [OF this m]
    have "len \<noteq> 0x3FFFC" using True by auto
    moreover have "buf' = put16 buf (d + 4) (ucast len)" using assms(1) True by (auto simp: ext2fs_set_rec_len_def split: if_splits)
    ultimately show ?thesis using d by (auto simp: get not_less)
  next
    case False
    then have l: "65536 \<le> unat len" by (simp add: word_less_nat_alt)
    then have bs: "\<not> ?bs < 65536" "65536 \<le> ?bs" using n by (simp_all add: word_less_nat_alt word_le_nat_alt)
    have z: "len \<noteq> 0" using l by auto
    show ?thesis
    proof (cases "len = ?bs")
      case True
      then have "buf' = put16 buf (d + 4) (if ?bs = 65536 then 65535 else 0)"
        using assms(1) False bs by (auto simp: ext2fs_set_rec_len_def split: if_splits)
      then show ?thesis using bs True by (simp add: get)
    next
      case ne: False
      then have "unat len \<noteq> unat ?bs" by (simp add: word_unat_eq_iff)
      then have u: "unat len < 2 ^ 18" using n by linarith
      have "buf' = put16 buf (d + 4) (long_rec len)"
        using assms(1) False ne by (auto simp: ext2fs_set_rec_len_def long_rec_def split: if_splits)
      then show ?thesis
        using bs z long_rec_reserved [OF u m l] long_rec_decode [OF u m] by (simp add: get)
    qed
  qed
qed

section \<open>Extent blocks and inodes\<close>

lemma extent_set_verify:
  assumes "6 \<le> length eh" "\<And>i. read_inode i \<noteq> Inl 0" "ext2fs_extent_block_csum_set read_inode fs inum eh = Some (0, eh')"
  shows "ext2fs_extent_block_csum_verify read_inode fs inum eh' = Some True"
proof (cases "ext2fs_has_feature_metadata_csum (fs_super fs)")
  case True
  let ?t = "EXT3_EXTENT_TAIL_OFFSET eh"
  from assms(2) [of inum] assms(3) True obtain gen where g: "read_inode inum = Inr gen" and l: "?t + 4 \<le> length eh"
    and e: "eh' = put32 eh ?t (crc32c (crc32c (crc32c (fs_csum_seed fs) (le32 inum)) (le32 gen)) (take ?t eh))"
    by (auto simp: ext2fs_extent_block_csum_set_def ext2fs_extent_block_csum_def Let_def split: if_splits sum.splits)
  have "12 \<le> ?t" by (simp add: EXT3_EXTENT_TAIL_OFFSET_def)
  with l have "get16 eh' 4 = get16 eh 4" unfolding e by simp
  then have "EXT3_EXTENT_TAIL_OFFSET eh' = ?t" by (simp add: EXT3_EXTENT_TAIL_OFFSET_def)
  with g l True show ?thesis
    by (simp add: ext2fs_extent_block_csum_verify_def ext2fs_extent_block_csum_def e)
qed (simp add: ext2fs_extent_block_csum_verify_def)

lemma ucast_mask_16: "(ucast (x AND 0xFFFF) :: u16) = ucast (x :: u32)"
  and mask_16_ucast: "(ucast (ucast x :: u16) :: u32) = x AND 0xFFFF"
proof -
  have m: "(0xFFFF :: u32) = mask 16" by (simp add: mask_eq_exp_minus_1)
  show "(ucast (x AND 0xFFFF) :: u16) = ucast x" "(ucast (ucast x :: u16) :: u32) = x AND 0xFFFF"
    unfolding m by (rule bit_word_eqI, auto simp: bit_simps)+
qed

lemma inode_clear_csum:
  assumes "132 \<le> length inode"
  shows "put16 (put16 (put16 (put16 inode 124 x) 130 y) 124 0) 130 0 = put16 (put16 inode 124 0) 130 0"
  using assms unfolding put16_def by (intro nth_equalityI) (auto simp: nth_put_bytes)

lemma inode_has_hi_put:
  assumes "128 \<le> length inode" "EXT2_INODE_SIZE (fs_super fs) > 128 \<Longrightarrow> 132 \<le> length inode"
  shows "inode_has_hi fs (put16 inode 124 x) = inode_has_hi fs inode"
    and "inode_has_hi fs inode \<Longrightarrow> inode_has_hi fs (put16 (put16 inode 124 x) 130 y)"
  using assms by (auto simp: inode_has_hi_def put16_def)

text \<open>C30. An inode whose checksum was set is accepted, both with the 16 bits of the small inode and with the
  32 bits of an inode that has the extra fields.\<close>

theorem inode_set_verify:
  assumes "length inode = unat (EXT2_INODE_SIZE (fs_super fs))" "128 \<le> length inode" "length inode = 128 \<or> 132 \<le> length inode"
    and "ext2fs_inode_csum_set fs inum inode = (0, inode')"
  shows "ext2fs_inode_csum_verify fs inum inode'"
proof (cases "ext2fs_has_feature_metadata_csum (fs_super fs)")
  case True
  have hi: "132 \<le> length inode" if "EXT2_INODE_SIZE (fs_super fs) > 128"
    using that assms(1,3) by (auto simp: word_less_nat_alt)
  note h = inode_has_hi_put [of inode fs, OF assms(2) hi]
  show ?thesis
  proof (cases "inode_has_hi fs inode")
    case hh: True
    let ?c = "ext2fs_inode_csum fs inum inode True"
    have l: "132 \<le> length inode" using hh hi by (simp add: inode_has_hi_def)
    have e: "inode' = put16 (put16 inode 124 (ucast (?c AND 0xFFFF))) 130 (ucast (drop_bit 16 ?c))"
      using assms(4) True hh by (simp add: ext2fs_inode_csum_set_def Let_def)
    have "ext2fs_inode_csum fs inum inode' True = ?c"
      unfolding e ext2fs_inode_csum_def using l by (simp add: inode_clear_csum Let_def)
    moreover have "get16 inode' 124 = ucast ?c" "get16 inode' 130 = ucast (drop_bit 16 ?c)"
      unfolding e using l by (simp_all add: ucast_mask_16)
    then have "ucast (get16 inode' 124) OR push_bit 16 (ucast (get16 inode' 130)) = ?c"
      by (simp add: join_split_32)
    moreover have "inode_has_hi fs inode'" unfolding e using h(2) hh by blast
    ultimately show ?thesis by (simp add: ext2fs_inode_csum_verify_def Let_def)
  next
    case nh: False
    let ?c = "ext2fs_inode_csum fs inum inode False"
    have e: "inode' = put16 inode 124 (ucast (?c AND 0xFFFF))"
      using assms(4) True nh by (simp add: ext2fs_inode_csum_set_def Let_def)
    have "ext2fs_inode_csum fs inum inode' False = ?c"
      unfolding e ext2fs_inode_csum_def using assms(2) by (simp add: put16_def Let_def)
    moreover have "ucast (get16 inode' 124) = ?c AND 0xFFFF"
      unfolding e using assms(2) by (simp add: mask_16_ucast)
    moreover have "\<not> inode_has_hi fs inode'" unfolding e using h(1) nh by simp
    ultimately show ?thesis by (simp add: ext2fs_inode_csum_verify_def Let_def)
  qed
qed (simp add: ext2fs_inode_csum_verify_def)

section \<open>Bitmaps\<close>

lemma same_fs_seed: "same_fs fs fs' \<Longrightarrow> fs_csum_seed fs' = fs_csum_seed fs"
  unfolding same_fs_def by (metis ext2_filsys.select_convs(11) ext2_filsys.surjective ext2_filsys.update_convs(6))

lemma block_bitmap_stored:
  assumes "groups_ok fs" "in_groups fs grp" "ext2fs_has_feature_metadata_csum (fs_super fs)"
    and "ext2fs_block_bitmap_csum_set fs grp bitmap = (0, fs')"
  shows "ext2fs_block_bitmap_csum_verify fs' grp bitmap' \<longleftrightarrow>
    (if 0x3A \<le> EXT2_DESC_SIZE (fs_super fs) then crc32c (fs_csum_seed fs) bitmap = crc32c (fs_csum_seed fs) bitmap'
     else crc32c (fs_csum_seed fs) bitmap AND 0xFFFF = crc32c (fs_csum_seed fs) bitmap' AND 0xFFFF)"
proof -
  let ?c = "crc32c (fs_csum_seed fs) bitmap" and ?lo = "\<lambda>fs c. gd_upd (\<lambda>gdp. gdp\<lparr>bg_block_bitmap_csum_lo := ucast (c AND 0xFFFF)\<rparr>) fs grp"
  have k: "groups_ok (gd_upd g fs grp)" "in_groups (gd_upd g fs grp) grp" for g
    using assms(1,2) same_fsD(10,11) [OF gd_upd_same] by blast+
  show ?thesis
  proof (cases "0x3A \<le> EXT2_DESC_SIZE (fs_super fs)")
    case True
    have f: "fs' = gd_upd (\<lambda>gdp. gdp\<lparr>bg_block_bitmap_csum_hi := ucast (drop_bit 16 ?c)\<rparr>) (?lo fs ?c) grp"
      using assms(3,4) True by (simp add: ext2fs_block_bitmap_csum_set_def Let_def same_fsD(3) [OF gd_upd_same])
    have s: "same_fs fs fs'" unfolding f by (rule same_fs_trans [OF gd_upd_same gd_upd_same])
    have "ext4fs_group_desc fs' grp = (ext4fs_group_desc fs grp)\<lparr>bg_block_bitmap_csum_lo := ucast (?c AND 0xFFFF),
        bg_block_bitmap_csum_hi := ucast (drop_bit 16 ?c)\<rparr>"
      unfolding f using assms(1,2) k by (simp add: gd_upd_nth)
    then show ?thesis using assms(3) True
      by (simp add: ext2fs_block_bitmap_csum_verify_def Let_def same_fsD(3) [OF s] same_fs_seed [OF s] ucast_mask_16 join_split_32)
  next
    case False
    have f: "fs' = ?lo fs ?c" using assms(3,4) False by (simp add: ext2fs_block_bitmap_csum_set_def Let_def same_fsD(3) [OF gd_upd_same])
    have s: "same_fs fs fs'" unfolding f by (rule gd_upd_same)
    have "ext4fs_group_desc fs' grp = (ext4fs_group_desc fs grp)\<lparr>bg_block_bitmap_csum_lo := ucast (?c AND 0xFFFF)\<rparr>"
      unfolding f using assms(1,2) by (simp add: gd_upd_nth)
    moreover have "ucast (ucast (?c AND 0xFFFF) :: u16) = ?c AND 0xFFFF" by (simp only: ucast_mask_16 mask_16_ucast)
    ultimately show ?thesis using assms(3) False
      by (simp add: ext2fs_block_bitmap_csum_verify_def Let_def same_fsD(3) [OF s] same_fs_seed [OF s])
  qed
qed

text \<open>C31. On a file system with metadata checksums the stored checksum of a block bitmap accepts the bitmap. When the
  group descriptors have at least 58 bytes, so that they hold all 32 bits of it, it accepts no bitmap that differs within four
  neighbouring bytes.\<close>

theorem block_bitmap_csum:
  assumes "groups_ok fs" "in_groups fs grp" "ext2fs_has_feature_metadata_csum (fs_super fs)"
    and "ext2fs_block_bitmap_csum_set fs grp (us @ xs @ vs) = (0, fs')" "length xs = length ys" "length xs \<le> 4"
  shows "ext2fs_block_bitmap_csum_verify fs' grp (us @ xs @ vs) \<and>
    (0x3A \<le> EXT2_DESC_SIZE (fs_super fs) \<longrightarrow> (ext2fs_block_bitmap_csum_verify fs' grp (us @ ys @ vs) \<longleftrightarrow> xs = ys))"
  using crc32c_burst [OF assms(5,6)] by (auto simp: block_bitmap_stored [OF assms(1-4)])

section \<open>Group descriptors\<close>

text \<open>The bytes of a descriptor that its checksum covers: all but the checksum.\<close>

definition desc_covered :: "nat \<Rightarrow> ext4_group_desc \<Rightarrow> u8 list" where
  "desc_covered sz gd = take 30 (desc_bytes gd) @ take (sz - 32) (drop 32 (desc_bytes gd))"

lemma desc_checksum_upd:
  "take 30 (desc_bytes (gd\<lparr>bg_checksum := c\<rparr>)) = take 30 (desc_bytes gd)"
  "drop 32 (desc_bytes (gd\<lparr>bg_checksum := c\<rparr>)) = drop 32 (desc_bytes gd)"
  by (simp_all add: desc_bytes_def le16_def le32_def)

lemma group_desc_csum_16:
  assumes "\<not> ext2fs_has_feature_metadata_csum (fs_super fs)"
  shows "ext2fs_group_desc_csum fs grp = ucast (ext2fs_crc16 (- 1) (s_uuid (fs_super fs) @ le32 grp @
    desc_covered (EXT2_DESC_SIZE (fs_super fs)) (ext4fs_group_desc fs grp)))"
proof -
  have u: "(ucast (ucast x :: u32) :: u16) = x" for x :: u16 by (rule bit_word_eqI) (auto simp: bit_simps)
  show ?thesis
    using assms by (simp add: ext2fs_group_desc_csum_def Let_def ext2fs_crc16_bytes u desc_covered_def crc_bytes_append)
qed

lemma group_desc_csum_upd:
  assumes "groups_ok fs" "in_groups fs grp"
  shows "ext2fs_group_desc_csum (ext2fs_bg_checksum_set fs grp c) grp = ext2fs_group_desc_csum fs grp"
  using assms desc_checksum_upd
  by (simp add: ext2fs_group_desc_csum_def ext2fs_bg_checksum_set_def Let_def gd_upd_nth same_fsD(3) [OF gd_upd_same]
      same_fs_seed [OF gd_upd_same])

lemma bg_checksum_get_set:
  "groups_ok fs \<Longrightarrow> in_groups fs grp \<Longrightarrow> ext2fs_bg_checksum (ext2fs_bg_checksum_set fs grp c) grp = c"
  by (simp add: ext2fs_bg_checksum_def ext2fs_bg_checksum_set_def gd_upd_nth)

lemma bg_checksum_set_set:
  "groups_ok fs \<Longrightarrow> in_groups fs grp \<Longrightarrow>
    ext2fs_bg_checksum_set (ext2fs_bg_checksum_set fs grp c) grp d = ext2fs_bg_checksum_set fs grp d"
  by (simp add: ext2fs_bg_checksum_set_def gd_upd_def ext2fs_group_desc_def in_groups_def groups_ok_def word_less_nat_alt)

interpretation group_desc: csum_field "\<lambda>fs. groups_ok fs \<and> in_groups fs grp" "\<lambda>fs. ext2fs_group_desc_csum fs grp"
  "\<lambda>fs. ext2fs_bg_checksum fs grp" "\<lambda>fs. ext2fs_bg_checksum_set fs grp" for grp
  by unfold_locales (simp_all add: group_desc_csum_upd bg_checksum_get_set bg_checksum_set_set)

lemma group_desc_set_ok:
  "groups_ok fs \<Longrightarrow> in_groups fs grp \<Longrightarrow> ext2fs_group_desc_csum_verify (ext2fs_group_desc_csum_set fs grp) grp"
  using group_desc.set_verify [of fs grp]
  by (auto simp: ext2fs_group_desc_csum_verify_def ext2fs_group_desc_csum_set_def)

text \<open>C32. On a file system whose group descriptors have a CRC-16, that is with the feature \<open>gdt_csum\<close> and without
  \<open>metadata_csum\<close>, a descriptor that was accepted is rejected after any change of the other fields within two neighbouring bytes, such
  as a changed counter.\<close>

theorem group_desc_detects:
  assumes "groups_ok fs" "in_groups fs grp" "ext2fs_has_feature_gdt_csum (fs_super fs)"
    and "\<not> ext2fs_has_feature_metadata_csum (fs_super fs)" "ext2fs_group_desc_csum_verify fs grp"
    and "bg_checksum gd = bg_checksum (ext4fs_group_desc fs grp)"
    and "desc_covered (EXT2_DESC_SIZE (fs_super fs)) (ext4fs_group_desc fs grp) = us @ xs @ vs"
    and "desc_covered (EXT2_DESC_SIZE (fs_super fs)) gd = us @ ys @ vs"
    and "length xs = length ys" "length xs \<le> 2" "xs \<noteq> ys"
  shows "\<not> ext2fs_group_desc_csum_verify (gd_upd (\<lambda>_. gd) fs grp) grp"
proof
  let ?fs' = "gd_upd (\<lambda>_. gd) fs grp"
  assume v: "ext2fs_group_desc_csum_verify ?fs' grp"
  have h: "ext2fs_has_group_desc_csum fs" "ext2fs_has_group_desc_csum ?fs'"
    using assms(3) by (simp_all add: ext2fs_has_group_desc_csum_def same_fsD(3) [OF gd_upd_same])
  have "ext2fs_bg_checksum ?fs' grp = ext2fs_bg_checksum fs grp"
    using assms(1,2,6) by (simp add: ext2fs_bg_checksum_def gd_upd_nth)
  then have "ext2fs_group_desc_csum ?fs' grp = ext2fs_group_desc_csum fs grp"
    using v assms(5) h by (auto simp: ext2fs_group_desc_csum_verify_def split: if_splits)
  then show False
    using assms crc16_burst [of xs ys "- 1" "s_uuid (fs_super fs) @ le32 grp @ us" vs]
    by (simp add: group_desc_csum_16 same_fsD(3) [OF gd_upd_same] gd_upd_nth)
qed

text \<open>The small file system with checksums.\<close>

definition ex_md_fs :: ext2_filsys where
  "ex_md_fs = ex_fs\<lparr>fs_super := ex_sb\<lparr>s_feature_ro_compat := 0x400\<rparr>\<rparr>"

definition ex_gdt_fs :: ext2_filsys where
  "ex_gdt_fs = ex_fs\<lparr>fs_super := ex_sb\<lparr>s_feature_ro_compat := 0x10\<rparr>\<rparr>"

definition ex_leaf :: "u8 list" where
  "ex_leaf = [0, 0, 0, 0, 0xF4, 3] @ replicate 1006 0 @ [0, 0, 0, 0, 12, 0, 0, 0xDE, 0, 0, 0, 0]"

lemma ex_leaf_tail: "get_dirent_tail ex_md_fs ex_leaf = Inr 1012" "isl (get_dx_countlimit ex_md_fs ex_leaf)"
proof -
  have g: "get16 ex_leaf 4 = 1012" "get32 ex_leaf 1012 = 0" "get16 ex_leaf 1016 = 12" "get16 ex_leaf 1018 = 0xDE00"
    by (simp_all add: ex_leaf_def get16_def get32_def le_word_def nth_append)
  then have "tail_walk ex_leaf 1012 0 = Inr 1012" by (simp add: tail_walk.simps Let_def)
  with g show "get_dirent_tail ex_md_fs ex_leaf = Inr 1012"
    by (simp add: get_dirent_tail_def ex_md_fs_def ex_fs_def Let_def)
  from g show "isl (get_dx_countlimit ex_md_fs ex_leaf)"
    by (simp add: get_dx_countlimit_def ex_md_fs_def ex_fs_def Let_def)
qed

theorem dir_block_set_verify_witness:
  "\<exists>buf'. ext2fs_dir_block_csum_set (\<lambda>_. Inr 7) ex_md_fs 12 ex_leaf = (0, buf') \<and>
    ext2fs_dir_block_csum_verify (\<lambda>_. Inr 7) ex_md_fs 12 buf'"
proof -
  obtain buf' where s: "ext2fs_dir_block_csum_set (\<lambda>_. Inr 7) ex_md_fs 12 ex_leaf = (0, buf')"
    using ex_leaf_tail(1)
    by (simp add: ext2fs_dir_block_csum_set_def ext2fs_dirent_csum_set_def ext2fs_dirent_csum_def ex_md_fs_def
        ext2fs_has_feature_metadata_csum_def)
  have "ext2fs_dir_block_csum_verify (\<lambda>_. Inr 7) ex_md_fs 12 buf'"
  proof (rule dir_block_set_verify [OF _ _ _ _ _ s])
    show "\<And>off. get_dx_countlimit ex_md_fs ex_leaf = Inr off \<Longrightarrow> get16 ex_leaf (off + 2) \<le> get16 ex_leaf off"
      using ex_leaf_tail(2) by simp
  qed (simp_all add: ex_leaf_def ex_md_fs_def ex_fs_def)
  with s show ?thesis by blast
qed

theorem rec_len_roundtrip_witness:
  "ext2fs_get_rec_len ex_fs (snd (ext2fs_set_rec_len ex_fs 1012 (replicate 12 0) 0)) 0 = Inr 1012"
proof -
  have "ext2fs_set_rec_len ex_fs 1012 (replicate 12 0) 0 = (0, snd (ext2fs_set_rec_len ex_fs 1012 (replicate 12 0) 0))"
    by (simp add: ext2fs_set_rec_len_def ex_fs_def)
  from rec_len_roundtrip [OF this] show ?thesis by (simp add: ex_fs_def)
qed

theorem inode_set_verify_witness:
  "ext2fs_inode_csum_verify ex_md_fs 12 (snd (ext2fs_inode_csum_set ex_md_fs 12 (1 # replicate 127 0)))"
proof -
  have "ext2fs_inode_csum_set ex_md_fs 12 (1 # replicate 127 0) = (0, snd (ext2fs_inode_csum_set ex_md_fs 12 (1 # replicate 127 0)))"
    by (simp add: ext2fs_inode_csum_set_def Let_def)
  from inode_set_verify [OF _ _ _ this] show ?thesis
    by (simp add: ex_md_fs_def ex_fs_def ex_sb_def EXT2_INODE_SIZE_def)
qed

theorem block_bitmap_csum_witness:
  "\<exists>fs'. ext2fs_block_bitmap_csum_set (ex_md_fs\<lparr>fs_super := (fs_super ex_md_fs)\<lparr>s_feature_incompat := 0x80, s_desc_size := 64\<rparr>\<rparr>) 1
      ([0xFF] @ [3, 4] @ [0]) = (0, fs') \<and> \<not> ext2fs_block_bitmap_csum_verify fs' 1 ([0xFF] @ [3, 5] @ [0])"
proof -
  let ?fs = "ex_md_fs\<lparr>fs_super := (fs_super ex_md_fs)\<lparr>s_feature_incompat := 0x80, s_desc_size := 64\<rparr>\<rparr>"
  have e: "ext2fs_block_bitmap_csum_set ?fs 1 ([0xFF] @ [3, 4] @ [0]) =
      (0, snd (ext2fs_block_bitmap_csum_set ?fs 1 ([0xFF] @ [3, 4] @ [0])))"
    by (simp add: ext2fs_block_bitmap_csum_set_def Let_def)
  have "\<not> ext2fs_block_bitmap_csum_verify (snd (ext2fs_block_bitmap_csum_set ?fs 1 ([0xFF] @ [3, 4] @ [0]))) 1 ([0xFF] @ [3, 5] @ [0])"
    using block_bitmap_csum [OF _ _ _ e, of "[3, 5]"]
    by (simp add: ex_md_fs_def ex_fs_def ex_sb_def groups_ok_def in_groups_def ext2fs_has_feature_metadata_csum_def
        EXT2_DESC_SIZE_def ext2fs_has_feature_64bit_def)
  with e show ?thesis by blast
qed

theorem group_desc_detects_witness:
  "\<exists>fs. ext2fs_group_desc_csum_verify fs 1 \<and>
    \<not> ext2fs_group_desc_csum_verify (gd_upd (\<lambda>_. (ext4fs_group_desc fs 1)\<lparr>bg_free_blocks_count := 11\<rparr>) fs 1) 1"
proof -
  let ?fs = "ext2fs_group_desc_csum_set ex_gdt_fs 1"
  have k: "groups_ok ex_gdt_fs" "in_groups ex_gdt_fs 1"
    by (simp_all add: ex_gdt_fs_def ex_fs_def groups_ok_def in_groups_def)
  have m: "same_fs ex_gdt_fs ?fs" by (simp add: ext2fs_group_desc_csum_set_def ext2fs_bg_checksum_set_def)
  have f: "\<not> ext2fs_has_feature_metadata_csum (fs_super ?fs)" "ext2fs_has_feature_gdt_csum (fs_super ?fs)"
    "EXT2_DESC_SIZE (fs_super ?fs) = 32" "groups_ok ?fs" "in_groups ?fs 1"
    using k same_fsD(3,10,11) [OF m]
    by (simp_all add: ex_gdt_fs_def ex_sb_def ext2fs_has_feature_metadata_csum_def ext2fs_has_feature_gdt_csum_def
        EXT2_DESC_SIZE_def ext2fs_has_feature_64bit_def)
  have e: "ext4fs_group_desc ?fs 1 = ex_gd\<lparr>bg_checksum := bg_checksum (ext4fs_group_desc ?fs 1)\<rparr>"
    using k by (simp add: ext2fs_group_desc_csum_set_def ext2fs_bg_checksum_set_def gd_upd_nth)
      (simp add: ex_gdt_fs_def ex_fs_def ext2fs_group_desc_def)
  let ?us = "[2, 0, 0, 0, 3, 0, 0, 0, 4, 0, 0, 0] :: u8 list" and ?vs = "[10, 0, 1, 0, 0, 0, 0, 0, 0, 0, 0, 0, 0, 0, 0, 0] :: u8 list"
  have d: "desc_covered 32 (ext4fs_group_desc ?fs 1) = ?us @ [10, 0] @ ?vs"
    "desc_covered 32 ((ext4fs_group_desc ?fs 1)\<lparr>bg_free_blocks_count := 11\<rparr>) = ?us @ [11, 0] @ ?vs"
    by (subst e, simp add: ex_gd_def desc_covered_def desc_bytes_def le16_def le32_def)+
  have v: "ext2fs_group_desc_csum_verify ?fs 1" by (rule group_desc_set_ok [OF k])
  have "\<not> ext2fs_group_desc_csum_verify
      (gd_upd (\<lambda>_. (ext4fs_group_desc ?fs 1)\<lparr>bg_free_blocks_count := 11\<rparr>) ?fs 1) 1"
    by (rule group_desc_detects [OF f(4,5,2,1) v, where us = ?us and vs = ?vs and xs = "[10, 0]" and ys = "[11, 0]"])
      (simp_all add: f(3) d)
  with v show ?thesis by blast
qed

end
