(* ===== verification/Gdt_Csum_Correct.thy ===== *)
theory Gdt_Csum_Correct
  imports Csum_Correct
begin

text \<open>Correctness of \<open>ext2fs_set_gdt_csum\<close> (csum.c): the search for the last used inode of a group returns,
  each round touches only its own descriptor, and after the loop every descriptor verifies.\<close>

section \<open>What a round may change\<close>

text \<open>A step that only writes flags, the unused count and the checksum of descriptor \<open>i\<close>.\<close>

definition touches :: "u32 \<Rightarrow> ext2_filsys \<Rightarrow> ext2_filsys \<Rightarrow> bool" where
  "touches i fs fs' \<longleftrightarrow>
     same_fs (fs\<lparr>fs_inode_map := fs_inode_map fs'\<rparr>) fs' \<and>
     (\<forall>h. in_groups fs h \<longrightarrow> h \<noteq> i \<longrightarrow> ext4fs_group_desc fs' h = ext4fs_group_desc fs h) \<and>
     (\<forall>h. in_groups fs h \<longrightarrow> ext2fs_bg_free_blocks_count fs' h = ext2fs_bg_free_blocks_count fs h \<and>
        ext2fs_bg_free_inodes_count fs' h = ext2fs_bg_free_inodes_count fs h \<and>
        ext2fs_bg_used_dirs_count fs' h = ext2fs_bg_used_dirs_count fs h)"

lemma touchesD:
  assumes "touches i fs fs'"
  shows "fs_super fs' = fs_super fs" "fs_csum_seed fs' = fs_csum_seed fs" "fs_group_desc_count fs' = fs_group_desc_count fs"
    "groups_ok fs' = groups_ok fs" "in_groups fs' h = in_groups fs h" "fs_block_map fs' = fs_block_map fs"
    "fs_cluster_ratio_bits fs' = fs_cluster_ratio_bits fs" "fs_magic fs' = fs_magic fs"
proof -
  have s: "same_fs (fs\<lparr>fs_inode_map := fs_inode_map fs'\<rparr>) fs'" using assms by (simp add: touches_def)
  show "fs_super fs' = fs_super fs" "fs_csum_seed fs' = fs_csum_seed fs" "fs_group_desc_count fs' = fs_group_desc_count fs"
    "groups_ok fs' = groups_ok fs" "in_groups fs' h = in_groups fs h" "fs_block_map fs' = fs_block_map fs"
    "fs_cluster_ratio_bits fs' = fs_cluster_ratio_bits fs" "fs_magic fs' = fs_magic fs"
    using same_fsD [OF s] same_fs_seed [OF s] by (simp_all add: groups_ok_def in_groups_def)
qed

lemma touches_desc: "touches i fs fs' \<Longrightarrow> in_groups fs h \<Longrightarrow> h \<noteq> i \<Longrightarrow> ext4fs_group_desc fs' h = ext4fs_group_desc fs h"
  by (simp add: touches_def)

lemma touches_refl [simp]: "touches i fs fs"
  by (simp add: touches_def)

lemma touches_map [simp]: "touches i fs (fs\<lparr>fs_inode_map := m\<rparr>)"
  by (simp add: touches_def same_fs_def ext2fs_group_desc_def ext2fs_bg_free_blocks_count_def
      ext2fs_bg_free_inodes_count_def ext2fs_bg_used_dirs_count_def)

lemma touches_trans:
  assumes a: "touches i fs fs1" and b: "touches i fs1 fs2"
  shows "touches i fs fs2"
proof -
  have s: "fs1 = fs\<lparr>fs_inode_map := fs_inode_map fs1, fs_group_desc := fs_group_desc fs1\<rparr>"
      "fs2 = fs1\<lparr>fs_inode_map := fs_inode_map fs2, fs_group_desc := fs_group_desc fs2\<rparr>"
      "length (fs_group_desc fs1) = length (fs_group_desc fs)" "length (fs_group_desc fs2) = length (fs_group_desc fs1)"
    using a b by (auto simp: touches_def same_fs_def)
  have "fs2 = fs\<lparr>fs_inode_map := fs_inode_map fs2, fs_group_desc := fs_group_desc fs2\<rparr>"
    by (subst s(2), subst s(1)) simp
  then have "same_fs (fs\<lparr>fs_inode_map := fs_inode_map fs2\<rparr>) fs2" using s(3,4) by (simp add: same_fs_def)
  with a b touchesD(5) [OF a] show ?thesis by (simp add: touches_def)
qed

lemma touches_upd:
  assumes ok: "groups_ok fs" "in_groups fs i"
    and f: "\<And>gd. bg_free_blocks_count (f gd) = bg_free_blocks_count gd" "\<And>gd. bg_free_blocks_count_hi (f gd) = bg_free_blocks_count_hi gd"
      "\<And>gd. bg_free_inodes_count (f gd) = bg_free_inodes_count gd" "\<And>gd. bg_free_inodes_count_hi (f gd) = bg_free_inodes_count_hi gd"
      "\<And>gd. bg_used_dirs_count (f gd) = bg_used_dirs_count gd" "\<And>gd. bg_used_dirs_count_hi (f gd) = bg_used_dirs_count_hi gd"
  shows "touches i fs (gd_upd f fs i)"
proof -
  have [simp]: "fs\<lparr>fs_inode_map := fs_inode_map fs\<rparr> = fs" by simp
  show ?thesis
    using ok unfolding touches_def
    by (simp add: gd_upd_nth same_fsD(3,6) [OF gd_upd_same] ext2fs_bg_free_blocks_count_def
      ext2fs_bg_free_inodes_count_def ext2fs_bg_used_dirs_count_def f Let_def)
qed

lemma touches_ops:
  assumes "groups_ok fs" "in_groups fs i"
  shows "touches i fs (ext2fs_bg_flags_set fs i fl)" "touches i fs (ext2fs_bg_flags_clear fs i fl)"
    "touches i fs (ext2fs_bg_itable_unused_set fs i n)" "touches i fs (ext2fs_group_desc_csum_set fs i)"
  using assms
  by (auto simp: ext2fs_bg_flags_set_def ext2fs_bg_flags_clear_def ext2fs_bg_itable_unused_set_def
      ext2fs_group_desc_csum_set_def ext2fs_bg_checksum_set_def Let_def intro!: touches_upd)

lemma desc_cong:
  assumes "ext4fs_group_desc fs' h = ext4fs_group_desc fs h" "fs_super fs' = fs_super fs" "fs_csum_seed fs' = fs_csum_seed fs"
  shows "ext2fs_group_desc_csum_verify fs' h = ext2fs_group_desc_csum_verify fs h"
    "ext2fs_bg_itable_unused fs' h = ext2fs_bg_itable_unused fs h"
    "ext2fs_bg_free_blocks_count fs' h = ext2fs_bg_free_blocks_count fs h"
    "ext2fs_bg_free_inodes_count fs' h = ext2fs_bg_free_inodes_count fs h"
    "ext2fs_bg_flags fs' h = ext2fs_bg_flags fs h"
  using assms
  by (simp_all add: ext2fs_bg_flags_def ext2fs_group_desc_csum_verify_def ext2fs_group_desc_csum_def ext2fs_bg_checksum_def
      ext2fs_has_group_desc_csum_def ext2fs_bg_itable_unused_def ext2fs_bg_free_blocks_count_def
      ext2fs_bg_free_inodes_count_def Let_def)

lemma verify_untouched:
  assumes "touches i fs fs'" "in_groups fs h" "h \<noteq> i"
  shows "ext2fs_group_desc_csum_verify fs' h = ext2fs_group_desc_csum_verify fs h"
    "ext2fs_bg_itable_unused fs' h = ext2fs_bg_itable_unused fs h" "ext2fs_bg_flags fs' h = ext2fs_bg_flags fs h"
  by (rule desc_cong [OF touches_desc [OF assms] touchesD(1,2) [OF assms(1)]])+

section \<open>The last used inode\<close>

definition inode_used :: "generic_bitmap \<Rightarrow> u32 \<Rightarrow> bool" where
  "inode_used g ino \<longleftrightarrow> gb_in g (ucast ino) \<and> ucast ino \<in> gb_set g"

definition same_map :: "generic_bitmap \<Rightarrow> generic_bitmap \<Rightarrow> bool" where
  "same_map g g' \<longleftrightarrow> gb_ok g' \<and> gb_same g g' \<and> gb_set g' = gb_set g"

lemma same_mapD:
  assumes "same_map g g'"
  shows "gb_ok g'" "gb_bits g' = gb_bits g" "inode_used g' ino = inode_used g ino" "gb_set g' = gb_set g"
  using assms gb_sameD [of g g'] by (simp_all add: same_map_def inode_used_def)

lemma same_map_trans: "same_map g g1 \<Longrightarrow> same_map g1 g2 \<Longrightarrow> same_map g g2"
  by (metis same_map_def gb_same_trans)

lemma fast_test_inode:
  assumes "gb_ok g" "gb_bits g = 0"
  obtains r g' where "ext2fs_fast_test_inode_bitmap2 (Some g) i = (r, Some g')"
    "same_map g g'" "r \<noteq> 0 \<longleftrightarrow> inode_used g i"
proof -
  obtain r g2 where e: "ext2fs_test_generic_bmap (Some g) (ucast i) = (r, g2)" by fastforce
  from test_generic [OF assms(1) e refl] assms(2) that e show ?thesis
    by (auto simp: ext2fs_fast_test_inode_bitmap2_def same_map_def inode_used_def)
qed

lemma last_inode_loop_spec:
  assumes "gb_ok g" "gb_bits g = 0" "1 \<le> unat start"
  shows "\<exists>l g'. last_inode_loop start ipg i (Some g) = Some (l, Some g') \<and> same_map g g' \<and>
    (\<forall>ino. inode_used g ino \<longrightarrow> unat start \<le> unat ino \<longrightarrow> unat ino \<le> unat i \<longrightarrow> unat ino < unat start + unat l) \<and>
    (l = ipg \<or> unat start \<le> unat i \<and> unat l \<le> unat i - unat start + 1)"
  using assms
proof (induction "unat i" arbitrary: i g rule: less_induct)
  case less
  note g = less.prems(1,2)
  show ?case
  proof (cases "start \<le> i")
    case False
    then show ?thesis using g by (subst last_inode_loop.simps) (auto simp: same_map_def word_le_nat_alt)
  next
    case True
    then have n: "unat start \<le> unat i" by (simp add: word_le_nat_alt)
    obtain r g1 where t: "ext2fs_fast_test_inode_bitmap2 (Some g) i = (r, Some g1)"
        "same_map g g1" "r \<noteq> 0 \<longleftrightarrow> inode_used g i"
      by (rule fast_test_inode [OF g])
    show ?thesis
    proof (cases "inode_used g i")
      case used: True
      have e: "last_inode_loop start ipg i (Some g) = Some (i - start + 1, Some g1)"
        using True t(1,3) used by (subst last_inode_loop.simps) simp
      have "unat (i - start + 1) = unat i - unat start + 1"
        using n less.prems(3) unsigned_less [of i, where 'a = nat] by (simp add: unat_word_ariths unat_sub_if')
      with e t(2) n show ?thesis by auto
    next
      case unused: False
      have e: "last_inode_loop start ipg i (Some g) = last_inode_loop start ipg (i - 1) (Some g1)"
        using True t(1,3) unused by (subst last_inode_loop.simps) simp
      have i1: "unat (i - 1) = unat i - 1" using n less.prems(3) by (simp add: unat_sub_if')
      note u = same_mapD [OF t(2)]
      obtain l g' where r: "last_inode_loop start ipg (i - 1) (Some g1) = Some (l, Some g')" "same_map g1 g'"
          "\<And>ino. inode_used g1 ino \<Longrightarrow> unat start \<le> unat ino \<Longrightarrow> unat ino \<le> unat i - 1 \<Longrightarrow> unat ino < unat start + unat l"
          "l = ipg \<or> unat start \<le> unat i - 1 \<and> unat l \<le> unat i - 1 - unat start + 1"
        using less.hyps [of "i - 1" g1] u(1,2) g(2) less.prems(3) n unfolding i1 by auto
      have "unat ino < unat start + unat l" if "inode_used g ino" "unat start \<le> unat ino" "unat ino \<le> unat i" for ino
      proof -
        have "ino \<noteq> i" using that(1) unused by auto
        then have "unat ino \<le> unat i - 1" using that(3) by (simp add: word_unat_eq_iff)
        with r(3) [of ino] that u(3) show ?thesis by simp
      qed
      moreover have "l = ipg \<or> unat start \<le> unat i \<and> unat l \<le> unat i - unat start + 1" using r(4) by auto
      ultimately show ?thesis using e r(1) same_map_trans [OF t(2) r(2)] by auto
    qed
  qed
qed

text \<open>The inodes of group \<open>grp\<close>, as numbers.\<close>

definition group_inodes :: "ext2_filsys \<Rightarrow> u32 \<Rightarrow> u32 set" where
  "group_inodes fs grp = {ino. unat grp * unat (s_inodes_per_group (fs_super fs)) < unat ino \<and>
     unat ino \<le> (unat grp + 1) * unat (s_inodes_per_group (fs_super fs))}"

definition inodes_fit :: "ext2_filsys \<Rightarrow> bool" where
  "inodes_fit fs \<longleftrightarrow> unat (fs_group_desc_count fs) * unat (s_inodes_per_group (fs_super fs)) < 2 ^ 32"

text \<open>The inodes that the unused count of group \<open>grp\<close> leaves to be scanned.\<close>

definition scanned_inodes :: "ext2_filsys \<Rightarrow> u32 \<Rightarrow> u32 set" where
  "scanned_inodes fs grp = {ino \<in> group_inodes fs grp.
     unat ino + unat (ext2fs_bg_itable_unused fs grp) \<le> (unat grp + 1) * unat (s_inodes_per_group (fs_super fs))}"

lemma find_last_inode_spec:
  assumes g: "gb_ok g" "gb_bits g = 0" and fit: "inodes_fit fs" "in_groups fs i"
    and ipg: "ipg = s_inodes_per_group (fs_super fs)"
  shows "\<exists>l g'. find_last_inode_ingrp (Some g) ipg i = Some (l, Some g') \<and> same_map g g' \<and> unat l \<le> unat ipg \<and>
    (\<forall>ino \<in> group_inodes fs i. inode_used g ino \<longrightarrow> unat ino \<le> unat i * unat ipg + unat l)"
proof -
  have "(unat i + 1) * unat ipg \<le> unat (fs_group_desc_count fs) * unat ipg"
    using fit(2) by (intro mult_le_mono1) (simp add: in_groups_def word_less_nat_alt)
  then have b: "(unat i + 1) * unat ipg < 2 ^ 32" using fit(1) by (simp add: inodes_fit_def ipg)
  then have m: "unat (i * ipg) = unat i * unat ipg" by (simp add: unat_word_ariths)
  have s: "unat (i * ipg + 1) = unat i * unat ipg + 1"
    using b m by (cases "unat ipg") (simp_all add: unat_word_ariths)
  have e: "unat (i * ipg + 1 + ipg - 1) = (unat i + 1) * unat ipg"
    using b m by (simp add: unat_word_ariths)
  obtain l g' where r: "last_inode_loop (i * ipg + 1) ipg (i * ipg + 1 + ipg - 1) (Some g) = Some (l, Some g')" "same_map g g'"
      "\<And>ino. inode_used g ino \<Longrightarrow> unat i * unat ipg + 1 \<le> unat ino \<Longrightarrow> unat ino \<le> (unat i + 1) * unat ipg \<Longrightarrow>
        unat ino < unat i * unat ipg + 1 + unat l"
      "l = ipg \<or> unat i * unat ipg + 1 \<le> (unat i + 1) * unat ipg \<and>
        unat l \<le> (unat i + 1) * unat ipg - (unat i * unat ipg + 1) + 1"
    using last_inode_loop_spec [OF g, of "i * ipg + 1" ipg "i * ipg + 1 + ipg - 1"] unfolding s e by auto
  have "unat l \<le> unat ipg" using r(4) by auto
  moreover have "unat ino \<le> unat i * unat ipg + unat l" if "ino \<in> group_inodes fs i" "inode_used g ino" for ino
    using r(3) [of ino] that by (simp add: group_inodes_def ipg)
  ultimately show ?thesis using r(1,2) by (auto simp: find_last_inode_ingrp_def Let_def)
qed

section \<open>One round\<close>

lemma low_32_le: "unat (low_32 sb n) \<le> unat n"
  by (simp add: unat_low_32)

lemma unused_csum_set:
  assumes "groups_ok fs" "in_groups fs i"
  shows "ext2fs_bg_itable_unused (ext2fs_group_desc_csum_set (ext2fs_bg_itable_unused_set fs i n) i) i = low_32 (fs_super fs) n"
proof -
  let ?fs = "ext2fs_bg_itable_unused_set fs i n"
  note t = touchesD [OF touches_ops(3) [OF assms, of n]]
  have "ext2fs_bg_itable_unused (ext2fs_group_desc_csum_set ?fs i) i = ext2fs_bg_itable_unused ?fs i"
    using assms t(4,5) by (simp add: ext2fs_group_desc_csum_set_def ext2fs_bg_checksum_set_def
        ext2fs_bg_itable_unused_def gd_upd_nth same_fsD(3) [OF gd_upd_same] Let_def)
  with itable_unused.get_set [OF assms assms(2), of n] show ?thesis by simp
qed

lemma gdt_csum_finish:
  assumes t: "touches i fs fs1" and ok: "groups_ok fs" "in_groups fs i" "fs_inode_map fs1 = Some g'"
    and fs3: "fs3 = ext2fs_group_desc_csum_set (ext2fs_bg_itable_unused_set fs1 i n) i"
  shows "touches i fs fs3" "fs_inode_map fs3 = Some g'" "ext2fs_group_desc_csum_verify fs3 i"
    "unat (ext2fs_bg_itable_unused fs3 i) \<le> unat n" "ext2fs_bg_flags fs3 i = ext2fs_bg_flags fs1 i"
proof -
  let ?fs2 = "ext2fs_bg_itable_unused_set fs1 i n"
  have ok1: "groups_ok fs1" "in_groups fs1 i" using ok touchesD [OF t] by simp_all
  have t2: "touches i fs1 ?fs2" by (rule touches_ops(3) [OF ok1])
  have ok2: "groups_ok ?fs2" "in_groups ?fs2 i" using ok1 touchesD [OF t2] by simp_all
  have t3: "touches i ?fs2 fs3" unfolding fs3 by (rule touches_ops(4) [OF ok2])
  show "touches i fs fs3" by (rule touches_trans [OF touches_trans [OF t t2] t3])
  show "ext2fs_group_desc_csum_verify fs3 i" unfolding fs3 by (rule group_desc_set_ok [OF ok2])
  show "fs_inode_map fs3 = Some g'"
    using ok(3) by (simp add: fs3 ext2fs_group_desc_csum_set_def ext2fs_bg_checksum_set_def ext2fs_bg_itable_unused_set_def gd_upd_def)
  show "unat (ext2fs_bg_itable_unused fs3 i) \<le> unat n"
    unfolding fs3 unused_csum_set [OF ok1] by (rule low_32_le)
  show "ext2fs_bg_flags fs3 i = ext2fs_bg_flags fs1 i"
    unfolding fs3 using ok1 ok2 by (simp add: ext2fs_group_desc_csum_set_def ext2fs_bg_checksum_set_def
        ext2fs_bg_itable_unused_set_def ext2fs_bg_flags_def gd_upd_nth Let_def)
qed

lemma gdt_csum_group_spec:
  assumes ok: "groups_ok fs" "in_groups fs i" "inodes_fit fs" and g: "fs_inode_map fs = Some g" "gb_ok g" "gb_bits g = 0"
  shows "\<exists>d fs' g'. gdt_csum_group fs i = Some (d, fs') \<and> touches i fs fs' \<and> fs_inode_map fs' = Some g' \<and> same_map g g' \<and>
    ext2fs_group_desc_csum_verify fs' i \<and>
    (ext2fs_bg_free_inodes_count fs i \<noteq> s_inodes_per_group (fs_super fs) \<longrightarrow>
      {ino \<in> group_inodes fs i. inode_used g ino} \<subseteq> scanned_inodes fs' i) \<and>
    (ext2fs_bg_flags fs' i AND EXT2_BG_INODE_UNINIT \<noteq> 0 \<longrightarrow>
      ext2fs_bg_free_inodes_count fs i = s_inodes_per_group (fs_super fs)) \<and>
    unat (ext2fs_bg_itable_unused fs' i) \<le> unat (s_inodes_per_group (fs_super fs))"
proof -
  let ?ipg = "s_inodes_per_group (fs_super fs)"
  define fs1 where "fs1 = (if ext2fs_bg_free_blocks_count fs i = s_blocks_per_group (fs_super fs) \<and> i \<noteq> fs_group_desc_count fs - 1
    then ext2fs_bg_flags_set fs i EXT2_BG_BLOCK_UNINIT else fs)"
  have t1: "touches i fs fs1" by (simp add: fs1_def touches_ops ok)
  have m1: "fs_inode_map fs1 = Some g" using g by (simp add: fs1_def ext2fs_bg_flags_set_def gd_upd_def)
  have ok1: "groups_ok fs1" "in_groups fs1 i" using ok touchesD [OF t1] by simp_all
  show ?thesis
  proof (cases "ext2fs_bg_free_inodes_count fs i = ?ipg")
    case True
    let ?fs2 = "ext2fs_bg_flags_set fs1 i EXT2_BG_INODE_UNINIT"
    have t2: "touches i fs ?fs2" by (rule touches_trans [OF t1 touches_ops(1) [OF ok1]])
    have m2: "fs_inode_map ?fs2 = Some g" using m1 by (simp add: ext2fs_bg_flags_set_def gd_upd_def)
    have "same_map g g" using g by (simp add: same_map_def)
    with gdt_csum_finish [OF t2 ok(1,2) m2 refl, of ?ipg] True show ?thesis
      by (simp add: gdt_csum_group_def Let_def fs1_def [symmetric])
  next
    case False
    obtain l g' where f: "find_last_inode_ingrp (Some g) ?ipg i = Some (l, Some g')" "same_map g g'" "unat l \<le> unat ?ipg"
        "\<And>ino. ino \<in> group_inodes fs i \<Longrightarrow> inode_used g ino \<Longrightarrow> unat ino \<le> unat i * unat ?ipg + unat l"
      using find_last_inode_spec [OF g(2,3) ok(3,2) refl] by blast
    let ?fs2 = "ext2fs_bg_flags_clear (fs1\<lparr>fs_inode_map := Some g'\<rparr>) i EXT2_BG_INODE_UNINIT"
    let ?fs3 = "ext2fs_group_desc_csum_set (ext2fs_bg_itable_unused_set ?fs2 i (?ipg - l)) i"
    have "groups_ok (fs1\<lparr>fs_inode_map := Some g'\<rparr>)" "in_groups (fs1\<lparr>fs_inode_map := Some g'\<rparr>) i"
      using ok1 by (simp_all add: groups_ok_def in_groups_def)
    then have t2: "touches i fs ?fs2" and fl: "ext2fs_bg_flags ?fs2 i AND EXT2_BG_INODE_UNINIT = 0"
      using bg_flags_upd(2) [of "fs1\<lparr>fs_inode_map := Some g'\<rparr>" i i]
      by (simp_all add: and.assoc) (intro touches_trans [OF t1 touches_trans [OF touches_map touches_ops(2)]])
    have m2: "fs_inode_map ?fs2 = Some g'" by (simp add: ext2fs_bg_flags_clear_def gd_upd_def)
    note fin = gdt_csum_finish [OF t2 ok(1,2) m2 refl, of "?ipg - l"]
    have "unat (?ipg - l) = unat ?ipg - unat l" using f(3) by (simp add: unat_sub_if')
    then have u: "unat (ext2fs_bg_itable_unused ?fs3 i) + unat l \<le> unat ?ipg" using fin(4) f(3) by simp
    have "{ino \<in> group_inodes fs i. inode_used g ino} \<subseteq> scanned_inodes ?fs3 i"
      using f(4) u touchesD(1) [OF fin(1)] by (fastforce simp: scanned_inodes_def group_inodes_def)
    then show ?thesis using False f(1,2) fin(1-3,5) m1 fl u
      by (simp add: gdt_csum_group_def Let_def fs1_def [symmetric])
  qed
qed

section \<open>All groups\<close>

definition gdt_done :: "ext2_filsys \<Rightarrow> generic_bitmap \<Rightarrow> ext2_filsys \<Rightarrow> nat \<Rightarrow> bool" where
  "gdt_done fs g fs' k \<longleftrightarrow>
     (\<exists>g'. fs_inode_map fs' = Some g' \<and> same_map g g') \<and> fs_super fs' = fs_super fs \<and> fs_csum_seed fs' = fs_csum_seed fs \<and>
     fs_group_desc_count fs' = fs_group_desc_count fs \<and> groups_ok fs' \<and> fs_block_map fs' = fs_block_map fs \<and>
     fs_cluster_ratio_bits fs' = fs_cluster_ratio_bits fs \<and> fs_magic fs' = fs_magic fs \<and>
     (\<forall>h. in_groups fs h \<longrightarrow> ext2fs_bg_free_blocks_count fs' h = ext2fs_bg_free_blocks_count fs h \<and>
        ext2fs_bg_free_inodes_count fs' h = ext2fs_bg_free_inodes_count fs h \<and>
        ext2fs_bg_used_dirs_count fs' h = ext2fs_bg_used_dirs_count fs h) \<and>
     (\<forall>h. in_groups fs h \<longrightarrow> unat h < k \<longrightarrow> ext2fs_group_desc_csum_verify fs' h \<and>
        (ext2fs_bg_free_inodes_count fs h \<noteq> s_inodes_per_group (fs_super fs) \<longrightarrow>
          {ino \<in> group_inodes fs h. inode_used g ino} \<subseteq> scanned_inodes fs' h) \<and>
        (ext2fs_bg_flags fs' h AND EXT2_BG_INODE_UNINIT \<noteq> 0 \<longrightarrow>
          ext2fs_bg_free_inodes_count fs h = s_inodes_per_group (fs_super fs)) \<and>
        unat (ext2fs_bg_itable_unused fs' h) \<le> unat (s_inodes_per_group (fs_super fs)))"

lemma gdt_done_step:
  assumes d: "gdt_done fs g fs1 (unat i)" and i: "in_groups fs i" "inodes_fit fs" and g: "gb_bits g = 0"
  shows "\<exists>d fs2. gdt_csum_group fs1 i = Some (d, fs2) \<and> gdt_done fs g fs2 (Suc (unat i))"
proof -
  obtain g1 where g1: "fs_inode_map fs1 = Some g1" "same_map g g1" using d by (auto simp: gdt_done_def)
  have e: "fs_super fs1 = fs_super fs" "fs_group_desc_count fs1 = fs_group_desc_count fs" "groups_ok fs1"
    using d by (simp_all add: gdt_done_def)
  have n: "in_groups fs1 h = in_groups fs h" "group_inodes fs1 h = group_inodes fs h" for h
    using e by (simp_all add: in_groups_def group_inodes_def)
  have f: "inodes_fit fs1" "in_groups fs1 i" using i n e by (simp_all add: inodes_fit_def)
  have b: "gb_bits g1 = 0" using same_mapD(2) [OF g1(2)] g by simp
  obtain d' fs2 g2 where s: "gdt_csum_group fs1 i = Some (d', fs2)" "touches i fs1 fs2" "fs_inode_map fs2 = Some g2"
      "same_map g1 g2" "ext2fs_group_desc_csum_verify fs2 i"
      "ext2fs_bg_free_inodes_count fs1 i \<noteq> s_inodes_per_group (fs_super fs) \<Longrightarrow>
        {ino \<in> group_inodes fs i. inode_used g1 ino} \<subseteq> scanned_inodes fs2 i"
      "ext2fs_bg_flags fs2 i AND EXT2_BG_INODE_UNINIT \<noteq> 0 \<Longrightarrow> ext2fs_bg_free_inodes_count fs1 i = s_inodes_per_group (fs_super fs)"
      "unat (ext2fs_bg_itable_unused fs2 i) \<le> unat (s_inodes_per_group (fs_super fs))"
    using gdt_csum_group_spec [OF e(3) f(2,1) g1(1) same_mapD(1) [OF g1(2)] b] unfolding e(1) n by blast
  have sc: "scanned_inodes fs2 h = scanned_inodes fs1 h" if "in_groups fs h" "h \<noteq> i" for h
    using verify_untouched(2) [OF s(2)] that n touchesD(1) [OF s(2)] by (simp add: scanned_inodes_def group_inodes_def)
  have "ext2fs_group_desc_csum_verify fs2 h \<and> (ext2fs_bg_free_inodes_count fs h \<noteq> s_inodes_per_group (fs_super fs) \<longrightarrow>
          {ino \<in> group_inodes fs h. inode_used g ino} \<subseteq> scanned_inodes fs2 h) \<and>
        (ext2fs_bg_flags fs2 h AND EXT2_BG_INODE_UNINIT \<noteq> 0 \<longrightarrow>
          ext2fs_bg_free_inodes_count fs h = s_inodes_per_group (fs_super fs)) \<and>
        unat (ext2fs_bg_itable_unused fs2 h) \<le> unat (s_inodes_per_group (fs_super fs))"
    if h: "in_groups fs h" "unat h < Suc (unat i)" for h
  proof (cases "h = i")
    case True
    with s(5-8) d h(1) same_mapD(3) [OF g1(2)] show ?thesis by (simp add: gdt_done_def)
  next
    case False
    with h have "unat h < unat i" by (simp add: word_unat_eq_iff)
    with False h(1) sc verify_untouched [OF s(2)] d n show ?thesis by (simp add: gdt_done_def)
  qed
  moreover have "ext2fs_bg_free_blocks_count fs2 h = ext2fs_bg_free_blocks_count fs h \<and>
      ext2fs_bg_free_inodes_count fs2 h = ext2fs_bg_free_inodes_count fs h \<and>
      ext2fs_bg_used_dirs_count fs2 h = ext2fs_bg_used_dirs_count fs h" if "in_groups fs h" for h
    using d s(2) that n by (simp add: gdt_done_def touches_def)
  moreover have "same_map g g2" by (rule same_map_trans [OF g1(2) s(4)])
  moreover have "fs_super fs2 = fs_super fs" "fs_csum_seed fs2 = fs_csum_seed fs" "fs_group_desc_count fs2 = fs_group_desc_count fs"
      "groups_ok fs2" "fs_block_map fs2 = fs_block_map fs" "fs_cluster_ratio_bits fs2 = fs_cluster_ratio_bits fs" "fs_magic fs2 = fs_magic fs"
    using d touchesD(1-4,6-8) [OF s(2)] by (simp_all add: gdt_done_def)
  ultimately have "gdt_done fs g fs2 (Suc (unat i))" using s(3) by (simp add: gdt_done_def)
  with s(1) show ?thesis by blast
qed

lemma gdt_csum_loop_spec:
  assumes "gdt_done fs g fs1 (unat i)" "inodes_fit fs" "gb_bits g = 0" "unat i + n = unat (fs_group_desc_count fs)"
  shows "\<exists>d fs2. gdt_csum_loop n i dirty fs1 = Some (d, fs2) \<and> gdt_done fs g fs2 (unat (fs_group_desc_count fs))"
  using assms
proof (induction n arbitrary: i dirty fs1)
  case (Suc n)
  have i: "in_groups fs i" using Suc.prems(4) by (simp add: in_groups_def word_less_nat_alt)
  have n: "unat (i + 1) = Suc (unat i)"
    using Suc.prems(4) unsigned_less [of "fs_group_desc_count fs", where 'a = nat] by (simp add: unat_word_ariths)
  from gdt_done_step [OF Suc.prems(1) i Suc.prems(2,3)] obtain d fs2
    where s: "gdt_csum_group fs1 i = Some (d, fs2)" "gdt_done fs g fs2 (unat (i + 1))" unfolding n by blast
  from Suc.IH [OF s(2) Suc.prems(2,3), of "dirty \<or> d"] Suc.prems(4) n s(1) show ?case by simp
qed simp

lemma set_gdt_csum_done:
  assumes "groups_ok fs" "inodes_fit fs" "fs_inode_map fs = Some g" "gb_ok g" "gb_bits g = 0" "ext2fs_has_group_desc_csum fs"
  obtains d fs2 where "ext2fs_set_gdt_csum fs = Some (0, if d then ext2fs_mark_super_dirty fs2 else fs2)"
    "gdt_done fs g fs2 (unat (fs_group_desc_count fs))"
proof -
  have "gdt_done fs g fs (unat 0)" using assms by (auto simp: gdt_done_def same_map_def)
  from gdt_csum_loop_spec [OF this assms(2,5), of "unat (fs_group_desc_count fs)" False]
  obtain d fs2 where l: "gdt_csum_loop (unat (fs_group_desc_count fs)) 0 False fs = Some (d, fs2)"
      "gdt_done fs g fs2 (unat (fs_group_desc_count fs))" by auto
  have "ext2fs_set_gdt_csum fs = Some (0, if d then ext2fs_mark_super_dirty fs2 else fs2)"
    using assms(3,6) l(1) by (simp add: ext2fs_set_gdt_csum_def)
  with l(2) that show thesis by blast
qed

lemma mark_super_dirty_desc:
  "ext2fs_group_desc_csum_verify (ext2fs_mark_super_dirty fs) h = ext2fs_group_desc_csum_verify fs h"
  "scanned_inodes (ext2fs_mark_super_dirty fs) h = scanned_inodes fs h"
  "ext2fs_bg_free_blocks_count (ext2fs_mark_super_dirty fs) h = ext2fs_bg_free_blocks_count fs h"
  "ext2fs_bg_free_inodes_count (ext2fs_mark_super_dirty fs) h = ext2fs_bg_free_inodes_count fs h"
proof -
  have e: "ext4fs_group_desc (ext2fs_mark_super_dirty fs) h = ext4fs_group_desc fs h"
      "fs_super (ext2fs_mark_super_dirty fs) = fs_super fs" "fs_csum_seed (ext2fs_mark_super_dirty fs) = fs_csum_seed fs"
    by (simp_all add: ext2fs_mark_super_dirty_def ext2fs_group_desc_def)
  note c = desc_cong [OF e]
  show "ext2fs_group_desc_csum_verify (ext2fs_mark_super_dirty fs) h = ext2fs_group_desc_csum_verify fs h"
    "ext2fs_bg_free_blocks_count (ext2fs_mark_super_dirty fs) h = ext2fs_bg_free_blocks_count fs h"
    "ext2fs_bg_free_inodes_count (ext2fs_mark_super_dirty fs) h = ext2fs_bg_free_inodes_count fs h"
    by (rule c)+
  show "scanned_inodes (ext2fs_mark_super_dirty fs) h = scanned_inodes fs h"
    using c(2) e(2) by (simp add: scanned_inodes_def group_inodes_def)
qed

text \<open>C28. \<open>ext2fs_set_gdt_csum\<close> returns whatever the inode bitmap holds, succeeds, leaves the contents of the
  bitmaps and the counters alone, and afterwards every group descriptor verifies; the count of never used inodes that it
  writes never hides a used inode of a group whose counter admits one.\<close>

theorem gdt_csum_set_all:
  assumes "groups_ok fs" "inodes_fit fs" "fs_inode_map fs = Some g" "gb_ok g" "gb_bits g = 0"
  shows "\<exists>fs' g'. ext2fs_set_gdt_csum fs = Some (0, fs') \<and> fs_inode_map fs' = Some g' \<and> gb_set g' = gb_set g \<and>
    (\<forall>grp. in_groups fs grp \<longrightarrow> ext2fs_group_desc_csum_verify fs' grp \<and>
      ext2fs_bg_free_blocks_count fs' grp = ext2fs_bg_free_blocks_count fs grp \<and>
      ext2fs_bg_free_inodes_count fs' grp = ext2fs_bg_free_inodes_count fs grp \<and>
      (ext2fs_has_group_desc_csum fs \<longrightarrow> ext2fs_bg_free_inodes_count fs grp \<noteq> s_inodes_per_group (fs_super fs) \<longrightarrow>
        {ino \<in> group_inodes fs grp. inode_used g ino} \<subseteq> scanned_inodes fs' grp))"
proof (cases "ext2fs_has_group_desc_csum fs")
  case True
  obtain d fs2 where l: "ext2fs_set_gdt_csum fs = Some (0, if d then ext2fs_mark_super_dirty fs2 else fs2)"
      "gdt_done fs g fs2 (unat (fs_group_desc_count fs))"
    by (rule set_gdt_csum_done [OF assms True])
  define fs' where "fs' = (if d then ext2fs_mark_super_dirty fs2 else fs2)"
  have f: "fs_inode_map fs' = fs_inode_map fs2" by (simp add: fs'_def ext2fs_mark_super_dirty_def)
  have c: "ext2fs_group_desc_csum_verify fs' h = ext2fs_group_desc_csum_verify fs2 h" "scanned_inodes fs' h = scanned_inodes fs2 h"
      "ext2fs_bg_free_blocks_count fs' h = ext2fs_bg_free_blocks_count fs2 h"
      "ext2fs_bg_free_inodes_count fs' h = ext2fs_bg_free_inodes_count fs2 h" for h
    by (simp_all add: fs'_def mark_super_dirty_desc)
  obtain g' where m: "fs_inode_map fs' = Some g'" "gb_set g' = gb_set g"
    using l(2) f same_mapD(4) by (auto simp: gdt_done_def)
  have n: "unat h < unat (fs_group_desc_count fs)" if "in_groups fs h" for h
    using that by (simp add: in_groups_def word_less_nat_alt)
  have r: "ext2fs_set_gdt_csum fs = Some (0, fs')" using l(1) by (simp add: fs'_def)
  show ?thesis
    by (rule exI [of _ fs'], rule exI [of _ g']) (use r m l(2) n in \<open>simp add: c gdt_done_def\<close>)
next
  case False
  then show ?thesis using assms(3)
    by (simp add: ext2fs_set_gdt_csum_def ext2fs_group_desc_csum_verify_def)
qed

theorem gdt_csum_set_all_witness:
  "\<exists>fs'. ext2fs_set_gdt_csum (ex_gdt_fs\<lparr>fs_inode_map := Some ex_imap\<rparr>) = Some (0, fs') \<and> ext2fs_group_desc_csum_verify fs' 2"
proof -
  let ?fs = "ex_gdt_fs\<lparr>fs_inode_map := Some ex_imap\<rparr>"
  have "groups_ok ?fs" "inodes_fit ?fs" "fs_inode_map ?fs = Some ex_imap" "in_groups ?fs 2"
    by (simp_all add: ex_gdt_fs_def ex_fs_def ex_sb_def groups_ok_def inodes_fit_def in_groups_def)
  with gdt_csum_set_all [OF this(1-3) ex_imap_ok] show ?thesis by blast
qed

end
