(* ===== verification/Alloc_Stats_Correct.thy ===== *)
theory Alloc_Stats_Correct
  imports Alloc_Stats Gdt_Csum_Correct
begin

text \<open>
  The invariant of the allocation state and its preservation by \<open>alloc_stats.c\<close>: the counters of every group
  and of the super block agree with the bitmaps, the descriptors verify, and the inodes that are declared never
  used are free.
\<close>

section \<open>Counting free cells\<close>

lemma card_mark:
  assumes "finite A" "c \<in> A" "c \<notin> S"
  shows "Suc (card {x \<in> A. x \<notin> insert c S}) = card {x \<in> A. x \<notin> S}"
proof -
  have "{x \<in> A. x \<notin> S} = insert c {x \<in> A. x \<notin> insert c S}" using assms(2,3) by auto
  then show ?thesis using assms(1) by simp
qed

lemma card_unmark:
  assumes "finite A" "c \<in> A" "c \<in> S"
  shows "card {x \<in> A. x \<notin> S - {c}} = Suc (card {x \<in> A. x \<notin> S})"
proof -
  have "{x \<in> A. x \<notin> S - {c}} = insert c {x \<in> A. x \<notin> S}" using assms(2,3) by auto
  then show ?thesis using assms(1,3) by simp
qed

lemma free_other: "c \<notin> A \<Longrightarrow> {x \<in> A. x \<notin> insert c S} = {x \<in> A. x \<notin> S}" "c \<notin> A \<Longrightarrow> {x \<in> A. x \<notin> S - {c}} = {x \<in> A. x \<notin> S}"
  by auto

section \<open>The blocks of the file system\<close>

text \<open>The geometry of a file system whose clusters do not cross the bounds of the groups.\<close>

abbreviation fs_ratio :: "ext2_filsys \<Rightarrow> nat" where
  "fs_ratio fs \<equiv> 2 ^ fs_cluster_ratio_bits fs"

definition alloc_clusters_ok :: "ext2_filsys \<Rightarrow> bool" where
  "alloc_clusters_ok fs \<longleftrightarrow> geometry_ok fs \<and> groups_ok fs \<and> fs_cluster_ratio_bits fs < 31 \<and>
     fs_ratio fs dvd fs_fdb fs \<and> fs_ratio fs dvd fs_bpg fs \<and> fs_bpg fs div fs_ratio fs < 2 ^ 16"

definition fs_block :: "ext2_filsys \<Rightarrow> u64 \<Rightarrow> bool" where
  "fs_block fs b \<longleftrightarrow> fs_fdb fs \<le> unat b \<and> unat b < fs_blocks fs"

definition group_clusters :: "ext2_filsys \<Rightarrow> u32 \<Rightarrow> u64 set" where
  "group_clusters fs grp = {c. fs_fdb fs \<le> unat c * fs_ratio fs \<and> unat c * fs_ratio fs < fs_blocks fs \<and>
     (unat c * fs_ratio fs - fs_fdb fs) div fs_bpg fs = unat grp}"

lemma cluster_of_block:
  assumes ok: "alloc_clusters_ok fs" and b: "fs_block fs b"
  shows "EXT2FS_B2C fs b \<in> group_clusters fs grp \<longleftrightarrow> ext2fs_group_of_blk2 fs b = grp"
proof -
  let ?R = "fs_ratio fs"
  have g: "geometry_ok fs" using ok by (simp add: alloc_clusters_ok_def)
  obtain f p where fp: "fs_fdb fs = ?R * f" "fs_bpg fs = ?R * p" using ok by (auto simp: alloc_clusters_ok_def dvd_def)
  have b': "?R * f \<le> unat b" "unat b < fs_blocks fs" using b fp by (simp_all add: fs_block_def)
  have c: "unat (EXT2FS_B2C fs b) = unat b div ?R" by (simp add: EXT2FS_B2C_def unat_drop_bit)
  have le: "f \<le> unat b div ?R" using b'(1) by (simp add: less_eq_div_iff_mult_less_eq mult.commute)
  obtain d where d: "unat b = ?R * f + d" using b'(1) by (metis le_add_diff_inverse)
  have "?R * (unat b div ?R) < fs_blocks fs" using b'(2) by (rule le_less_trans [OF times_div_less_eq_dividend])
  moreover have "?R * f \<le> ?R * (unat b div ?R)" using le by simp
  moreover have "(unat b div ?R * ?R - ?R * f) div (?R * p) = (unat b - ?R * f) div (?R * p)"
    by (simp add: d div_mult2_eq add_mult_distrib mult.commute [of f])
  ultimately show ?thesis
    using unat_group_of_blk(1) [OF g] b' by (auto simp: group_clusters_def fp c word_unat_eq_iff mult.commute)
qed

lemma card_group_clusters:
  assumes "alloc_clusters_ok fs"
  shows "card (group_clusters fs grp) < 2 ^ 16"
proof -
  let ?R = "fs_ratio fs"
  obtain f p where fp: "fs_fdb fs = ?R * f" "fs_bpg fs = ?R * p" using assms by (auto simp: alloc_clusters_ok_def dvd_def)
  have p: "0 < p" using geometry_okD(1) [of fs] assms fp by (auto simp: alloc_clusters_ok_def)
  have "unat c \<in> {f + p * unat grp ..< f + p * unat grp + p}" if "c \<in> group_clusters fs grp" for c
  proof -
    have m: "?R * f \<le> unat c * ?R" "(unat c * ?R - ?R * f) div (?R * p) = unat grp"
      using that by (simp_all add: group_clusters_def fp)
    then have "f \<le> unat c" "(unat c - f) div p = unat grp"
      by (simp_all add: mult.commute [of "unat c"] diff_mult_distrib2 [symmetric])
    with div_eq_range [OF p, of "unat c - f" "unat grp"] show ?thesis by auto
  qed
  then have "unat ` group_clusters fs grp \<subseteq> {f + p * unat grp ..< f + p * unat grp + p}" by blast
  then have "card (unat ` group_clusters fs grp) \<le> p" using card_mono [of "{f + p * unat grp ..< f + p * unat grp + p}"] by force
  moreover have "card (unat ` group_clusters fs grp) = card (group_clusters fs grp)"
    by (rule card_image) (simp add: inj_on_def word_unat_eq_iff)
  moreover have "p < 2 ^ 16" using assms by (simp add: alloc_clusters_ok_def fp)
  ultimately show ?thesis by linarith
qed

definition free_clusters :: "ext2_filsys \<Rightarrow> u64 set \<Rightarrow> u32 \<Rightarrow> u64 set" where
  "free_clusters fs S grp = {c \<in> group_clusters fs grp. c \<notin> S}"

lemma card_free_clusters:
  assumes "alloc_clusters_ok fs"
  shows "card (free_clusters fs S grp) < 2 ^ 16"
proof -
  have "card (free_clusters fs S grp) \<le> card (group_clusters fs grp)" by (rule card_mono) (auto simp: free_clusters_def)
  with card_group_clusters [OF assms, of grp] show ?thesis by linarith
qed

text \<open>The block side of the invariant.\<close>

definition block_map_ok :: "ext2_filsys \<Rightarrow> generic_bitmap \<Rightarrow> bool" where
  "block_map_ok fs g \<longleftrightarrow> gb_ok g \<and> gb_bits g = fs_cluster_ratio_bits fs \<and> (\<forall>b. fs_block fs b \<longrightarrow> gb_in g (EXT2FS_B2C fs b))"

definition blocks_inv :: "ext2_filsys \<Rightarrow> bool" where
  "blocks_inv fs \<longleftrightarrow> alloc_clusters_ok fs \<and>
     (\<exists>g. fs_block_map fs = Some g \<and> block_map_ok fs g \<and>
       (\<forall>grp. in_groups fs grp \<longrightarrow> unat (ext2fs_bg_free_blocks_count fs grp) = card (free_clusters fs (gb_set g) grp))) \<and>
     ext2fs_free_blocks_count (fs_super fs) =
       low_64 (fs_super fs) (word_of_nat (fs_ratio fs * group_total ext2fs_bg_free_blocks_count fs))"

definition block_used :: "ext2_filsys \<Rightarrow> u64 \<Rightarrow> bool" where
  "block_used fs b \<longleftrightarrow> (\<exists>g. fs_block_map fs = Some g \<and> EXT2FS_B2C fs b \<in> gb_set g)"

section \<open>Writing one descriptor\<close>

lemma gd_upd_upd:
  assumes "groups_ok fs" "in_groups fs grp"
  shows "gd_upd f (gd_upd h fs grp) grp = gd_upd (\<lambda>gd. f (h gd)) fs grp"
  using assms by (simp add: gd_upd_def ext2fs_group_desc_def in_groups_def groups_ok_def word_less_nat_alt)

lemma csum_set_upd:
  "ext2fs_group_desc_csum_set fs grp = gd_upd (\<lambda>gd. if ext2fs_has_group_desc_csum fs
      then gd\<lparr>bg_checksum := ext2fs_group_desc_csum fs grp\<rparr> else gd) fs grp"
  by (simp add: ext2fs_group_desc_csum_set_def ext2fs_bg_checksum_set_def gd_upd_def)

text \<open>The writers as updates of one descriptor; a composition of them is one update.\<close>

lemmas writers = ext2fs_bg_free_blocks_count_set_def ext2fs_bg_free_inodes_count_set_def ext2fs_bg_used_dirs_count_set_def
  ext2fs_bg_itable_unused_set_def ext2fs_bg_flags_clear_def csum_set_upd

lemmas readers = ext2fs_bg_free_blocks_count_def ext2fs_bg_free_inodes_count_def ext2fs_bg_used_dirs_count_def
  ext2fs_bg_itable_unused_def ext2fs_bg_flags_def

lemma upd_ok: "groups_ok fs \<Longrightarrow> groups_ok (gd_upd f fs grp)" "in_groups fs h \<Longrightarrow> in_groups (gd_upd f fs grp) h"
  using same_fsD(10,11) [OF gd_upd_same] by blast+

section \<open>What a block call changes\<close>

text \<open>The state after the counter, the flag and the checksum of group \<open>grp\<close> were written.\<close>

definition block_step :: "ext2_filsys \<Rightarrow> u32 \<Rightarrow> u32 \<Rightarrow> ext2_filsys" where
  "block_step fs grp n =
     ext2fs_group_desc_csum_set (ext2fs_bg_flags_clear (ext2fs_bg_free_blocks_count_set fs grp n) grp EXT2_BG_BLOCK_UNINIT) grp"

lemma block_step_effect:
  assumes ok: "groups_ok fs" "in_groups fs grp"
  shows "same_fs fs (block_step fs grp n)" "ext2fs_group_desc_csum_verify (block_step fs grp n) grp"
    and "in_groups fs h \<Longrightarrow> ext2fs_bg_free_blocks_count (block_step fs grp n) h =
      (if h = grp then low_32 (fs_super fs) n else ext2fs_bg_free_blocks_count fs h)"
    and "in_groups fs h \<Longrightarrow> ext2fs_bg_free_inodes_count (block_step fs grp n) h = ext2fs_bg_free_inodes_count fs h"
    and "in_groups fs h \<Longrightarrow> h \<noteq> grp \<Longrightarrow> ext4fs_group_desc (block_step fs grp n) h = ext4fs_group_desc fs h"
    and "in_groups fs h \<Longrightarrow> ext2fs_bg_itable_unused (block_step fs grp n) h = ext2fs_bg_itable_unused fs h"
    and "in_groups fs h \<Longrightarrow> ext2fs_bg_flags (block_step fs grp n) h AND EXT2_BG_INODE_UNINIT = ext2fs_bg_flags fs h AND EXT2_BG_INODE_UNINIT"
proof -
  define c where "c = ext2fs_group_desc_csum (ext2fs_bg_flags_clear (ext2fs_bg_free_blocks_count_set fs grp n) grp EXT2_BG_BLOCK_UNINIT) grp"
  define F :: "ext4_group_desc \<Rightarrow> ext4_group_desc" where
    "F = (\<lambda>gd. let gd = gd\<lparr>bg_free_blocks_count := ucast n, bg_flags := bg_flags gd AND NOT EXT2_BG_BLOCK_UNINIT\<rparr>;
      gd = (if ext2fs_has_feature_64bit (fs_super fs) then gd\<lparr>bg_free_blocks_count_hi := ucast (drop_bit 16 n)\<rparr> else gd)
      in if ext2fs_has_group_desc_csum fs then gd\<lparr>bg_checksum := c\<rparr> else gd)"
  have e: "block_step fs grp n = gd_upd F fs grp"
    unfolding block_step_def csum_set_upd c_def [symmetric]
    using ok by (auto simp: writers gd_upd_upd F_def Let_def ext2fs_has_group_desc_csum_def same_fsD(3) [OF gd_upd_same]
        intro!: arg_cong [where f = "\<lambda>f. gd_upd f fs grp"])
  have F: "bg_free_blocks_count (F gd) = ucast n"
    "bg_free_blocks_count_hi (F gd) = (if ext2fs_has_feature_64bit (fs_super fs) then ucast (drop_bit 16 n) else bg_free_blocks_count_hi gd)"
    "bg_free_inodes_count (F gd) = bg_free_inodes_count gd" "bg_free_inodes_count_hi (F gd) = bg_free_inodes_count_hi gd"
    "bg_itable_unused (F gd) = bg_itable_unused gd" "bg_itable_unused_hi (F gd) = bg_itable_unused_hi gd"
    "bg_flags (F gd) = bg_flags gd AND NOT EXT2_BG_BLOCK_UNINIT" for gd
    by (simp_all add: F_def Let_def)
  note u = gd_upd_nth [OF ok] same_fsD(3) [OF gd_upd_same] F join_split_32
  show "same_fs fs (block_step fs grp n)" by (simp add: e)
  show "ext2fs_group_desc_csum_verify (block_step fs grp n) grp"
    unfolding block_step_def writers(1) writers(5) using ok by (intro group_desc_set_ok upd_ok)
  show "ext2fs_bg_free_blocks_count (block_step fs grp n) h = (if h = grp then low_32 (fs_super fs) n else ext2fs_bg_free_blocks_count fs h)"
    if "in_groups fs h"
    using that by (simp add: e readers u low_32_def Let_def)
  show "ext2fs_bg_free_inodes_count (block_step fs grp n) h = ext2fs_bg_free_inodes_count fs h"
    "ext2fs_bg_itable_unused (block_step fs grp n) h = ext2fs_bg_itable_unused fs h" if "in_groups fs h"
    using that by (simp_all add: e readers u Let_def)
  show "ext4fs_group_desc (block_step fs grp n) h = ext4fs_group_desc fs h" if "in_groups fs h" "h \<noteq> grp"
    using that by (simp add: e u)
  have "(w AND NOT EXT2_BG_BLOCK_UNINIT) AND EXT2_BG_INODE_UNINIT = w AND EXT2_BG_INODE_UNINIT" for w
    by (simp add: and.assoc)
  then show "ext2fs_bg_flags (block_step fs grp n) h AND EXT2_BG_INODE_UNINIT = ext2fs_bg_flags fs h AND EXT2_BG_INODE_UNINIT" if "in_groups fs h"
    using that by (simp add: e readers u)
qed

section \<open>The counters of the super block and the flags\<close>

definition stats_fs :: "ext2_filsys \<Rightarrow> u32 \<Rightarrow> u32 \<Rightarrow> u32 \<Rightarrow> u32 \<Rightarrow> ext2_filsys" where
  "stats_fs fs a hi c fl = fs\<lparr>fs_super := (fs_super fs)\<lparr>s_free_blocks_count := a, s_free_blocks_hi := hi, s_free_inodes_count := c\<rparr>,
     fs_flags := fl\<rparr>"

lemma stats_sb:
  "fs_super (stats_fs fs a hi c fl) = (fs_super fs)\<lparr>s_free_blocks_count := a, s_free_blocks_hi := hi, s_free_inodes_count := c\<rparr>"
  "ext2fs_has_feature_64bit (fs_super (stats_fs fs a hi c fl)) = ext2fs_has_feature_64bit (fs_super fs)"
  "ext2fs_has_feature_metadata_csum (fs_super (stats_fs fs a hi c fl)) = ext2fs_has_feature_metadata_csum (fs_super fs)"
  "ext2fs_has_feature_gdt_csum (fs_super (stats_fs fs a hi c fl)) = ext2fs_has_feature_gdt_csum (fs_super fs)"
  "ext2fs_blocks_count (fs_super (stats_fs fs a hi c fl)) = ext2fs_blocks_count (fs_super fs)"
  "EXT2_DESC_SIZE (fs_super (stats_fs fs a hi c fl)) = EXT2_DESC_SIZE (fs_super fs)"
  by (simp_all add: stats_fs_def ext2fs_has_feature_64bit_def ext2fs_has_feature_metadata_csum_def ext2fs_blocks_count_def
      ext2fs_has_feature_gdt_csum_def EXT2_DESC_SIZE_def)

lemma stats_desc: "ext4fs_group_desc (stats_fs fs a hi c fl) h = ext4fs_group_desc fs h"
  by (simp add: stats_fs_def ext2fs_group_desc_def)

lemma stats_fields [simp]:
  "fs_block_map (stats_fs fs a hi c fl) = fs_block_map fs" "fs_inode_map (stats_fs fs a hi c fl) = fs_inode_map fs"
  "fs_group_desc_count (stats_fs fs a hi c fl) = fs_group_desc_count fs" "fs_csum_seed (stats_fs fs a hi c fl) = fs_csum_seed fs"
  "fs_cluster_ratio_bits (stats_fs fs a hi c fl) = fs_cluster_ratio_bits fs" "fs_magic (stats_fs fs a hi c fl) = fs_magic fs"
  "s_blocks_per_group (fs_super (stats_fs fs a hi c fl)) = s_blocks_per_group (fs_super fs)"
  "s_first_data_block (fs_super (stats_fs fs a hi c fl)) = s_first_data_block (fs_super fs)"
  "s_inodes_per_group (fs_super (stats_fs fs a hi c fl)) = s_inodes_per_group (fs_super fs)"
  "s_inodes_count (fs_super (stats_fs fs a hi c fl)) = s_inodes_count (fs_super fs)"
  "s_uuid (fs_super (stats_fs fs a hi c fl)) = s_uuid (fs_super fs)"
  "length (fs_group_desc (stats_fs fs a hi c fl)) = length (fs_group_desc fs)"
  by (simp_all add: stats_fs_def)

lemma stats_readers [simp]:
  "ext2fs_bg_free_blocks_count (stats_fs fs a hi c fl) h = ext2fs_bg_free_blocks_count fs h"
  "ext2fs_bg_free_inodes_count (stats_fs fs a hi c fl) h = ext2fs_bg_free_inodes_count fs h"
  "ext2fs_bg_used_dirs_count (stats_fs fs a hi c fl) h = ext2fs_bg_used_dirs_count fs h"
  "ext2fs_bg_itable_unused (stats_fs fs a hi c fl) h = ext2fs_bg_itable_unused fs h"
  "ext2fs_bg_flags (stats_fs fs a hi c fl) h = ext2fs_bg_flags fs h"
  "groups_ok (stats_fs fs a hi c fl) = groups_ok fs" "in_groups (stats_fs fs a hi c fl) h = in_groups fs h"
  "ext2fs_has_group_desc_csum (stats_fs fs a hi c fl) = ext2fs_has_group_desc_csum fs"
  "ext2fs_group_desc_csum_verify (stats_fs fs a hi c fl) h = ext2fs_group_desc_csum_verify fs h"
  "fs_block (stats_fs fs a hi c fl) b = fs_block fs b" "alloc_clusters_ok (stats_fs fs a hi c fl) = alloc_clusters_ok fs"
  "group_clusters (stats_fs fs a hi c fl) h = group_clusters fs h" "block_map_ok (stats_fs fs a hi c fl) g = block_map_ok fs g"
  "free_clusters (stats_fs fs a hi c fl) S h = free_clusters fs S h"
  "low_64 (fs_super (stats_fs fs a hi c fl)) x = low_64 (fs_super fs) x"
proof -
  show "groups_ok (stats_fs fs a hi c fl) = groups_ok fs" "in_groups (stats_fs fs a hi c fl) h = in_groups fs h"
    by (simp_all add: groups_ok_def in_groups_def)
  show b: "fs_block (stats_fs fs a hi c fl) b = fs_block fs b" for b by (simp add: fs_block_def stats_sb(5))
  show "alloc_clusters_ok (stats_fs fs a hi c fl) = alloc_clusters_ok fs"
    by (simp add: alloc_clusters_ok_def geometry_ok_def groups_ok_def stats_sb(5))
  show g: "group_clusters (stats_fs fs a hi c fl) h = group_clusters fs h" by (simp add: group_clusters_def stats_sb(5))
  show "block_map_ok (stats_fs fs a hi c fl) g = block_map_ok fs g" by (simp add: block_map_ok_def b EXT2FS_B2C_def)
  show "free_clusters (stats_fs fs a hi c fl) S h = free_clusters fs S h" by (simp add: free_clusters_def g)
  show "low_64 (fs_super (stats_fs fs a hi c fl)) x = low_64 (fs_super fs) x" by (simp add: low_64_def stats_sb(2))
qed (simp_all add: readers stats_desc stats_sb(2-4,6) ext2fs_has_group_desc_csum_def ext2fs_group_desc_csum_verify_def
    ext2fs_group_desc_csum_def ext2fs_bg_checksum_def Let_def)

lemma group_total_upd:
  assumes i: "in_groups fs grp" and c: "fs_group_desc_count fs' = fs_group_desc_count fs"
    and get: "\<And>h. in_groups fs h \<Longrightarrow> get fs' h = (if h = grp then n else get fs h)"
  shows "group_total get fs' + unat (get fs grp) = group_total get fs + unat n"
proof -
  let ?N = "unat (fs_group_desc_count fs)" and ?i = "unat grp"
  have i: "?i \<in> {..<?N}" using i by (simp add: in_groups_def word_less_nat_alt)
  have "unat (get fs' (word_of_nat k)) = unat (get fs (word_of_nat k))" if "k \<in> {..<?N} - {?i}" for k
  proof -
    have "word_of_nat k \<noteq> grp" using that in_groups_nat [of k fs] by auto
    then show ?thesis using that get in_groups_nat [of k fs] by simp
  qed
  then have "(\<Sum>k\<in>{..<?N} - {?i}. unat (get fs' (word_of_nat k))) = (\<Sum>k\<in>{..<?N} - {?i}. unat (get fs (word_of_nat k)))"
    by (rule sum.cong [OF refl])
  moreover have "get fs' grp = n" using get assms(1) by simp
  ultimately show ?thesis
    unfolding group_total_def c sum.remove [OF finite_lessThan i] by simp
qed

lemma low_64_add: "low_64 sb (low_64 sb x + y) = low_64 sb (x + y)"
proof -
  have "(n mod 2 ^ 64) mod 2 ^ 32 = (n :: nat) mod 2 ^ 32" for n by (rule mod_mod_cancel) (simp add: le_imp_power_dvd)
  then show ?thesis by (simp add: word_unat_eq_iff unat_low_64 unat_word_ariths mod_simps)
qed

section \<open>The block side\<close>

lemma blocks_inv_step:
  assumes inv: "blocks_inv fs" and g: "fs_block_map fs = Some g" "gb_ok g'" "gb_same g g'" and grp: "in_groups fs grp"
    and n: "unat n = card (free_clusters fs (gb_set g') grp)"
    and other: "\<And>h. h \<noteq> grp \<Longrightarrow> free_clusters fs (gb_set g') h = free_clusters fs (gb_set g) h"
    and d: "word_of_nat (fs_ratio fs * unat (ext2fs_bg_free_blocks_count fs grp)) + d = (word_of_nat (fs_ratio fs * unat n) :: u64)"
    and fs': "fs' = stats_fs (block_step (fs\<lparr>fs_block_map := Some g'\<rparr>) grp n) a hi c fl"
    and cnt: "ext2fs_free_blocks_count (fs_super fs') = low_64 (fs_super fs) (ext2fs_free_blocks_count (fs_super fs) + d)"
  shows "blocks_inv fs'"
proof -
  let ?fs0 = "fs\<lparr>fs_block_map := Some g'\<rparr>" and ?get = ext2fs_bg_free_blocks_count and ?R = "fs_ratio fs"
  have c: "alloc_clusters_ok fs" and cnts: "\<And>h. in_groups fs h \<Longrightarrow> unat (?get fs h) = card (free_clusters fs (gb_set g) h)"
    and sb: "ext2fs_free_blocks_count (fs_super fs) = low_64 (fs_super fs) (word_of_nat (?R * group_total ?get fs))"
    and m: "block_map_ok fs g"
    using inv g(1) by (auto simp: blocks_inv_def)
  have ok0: "groups_ok ?fs0" "in_groups ?fs0 h = in_groups fs h" for h
    using c by (simp_all add: alloc_clusters_ok_def groups_ok_def in_groups_def)
  note e = block_step_effect [OF ok0(1), of grp, unfolded ok0(2), OF grp, where n = n]
  have get0: "?get ?fs0 h = ?get fs h" for h by (simp add: ext2fs_bg_free_blocks_count_def ext2fs_group_desc_def)
  have n': "low_32 (fs_super fs) n = n"
    using n card_free_clusters [OF c, of "gb_set g'" grp] by (simp add: word_unat_eq_iff unat_low_32)
  have get: "?get fs' h = (if h = grp then n else ?get fs h)" if "in_groups fs h" for h
    using e(3) [OF that] n' by (simp add: fs' get0)
  have s0: "fs_super (block_step ?fs0 grp n) = fs_super fs" using same_fsD(3) [OF e(1)] by simp
  have f: "fs_block_map fs' = Some g'" "fs_group_desc_count fs' = fs_group_desc_count fs"
      "fs_cluster_ratio_bits fs' = fs_cluster_ratio_bits fs"
    using same_fsD(5,7,8) [OF e(1)] by (simp_all add: fs')
  have b: "fs_block fs' = fs_block fs" "group_clusters fs' = group_clusters fs"
    using f s0 by (auto simp: fs_block_def group_clusters_def fs' stats_sb(5))
  have "alloc_clusters_ok fs'" using c f s0 same_fsD(10) [OF e(1)] ok0
    by (simp add: alloc_clusters_ok_def geometry_ok_def fs' stats_sb(5))
  moreover have "block_map_ok fs' g'"
    using m g(2) gb_sameD [OF g(3)] f by (simp add: block_map_ok_def b EXT2FS_B2C_def)
  moreover have "unat (?get fs' h) = card (free_clusters fs' (gb_set g') h)" if "in_groups fs' h" for h
  proof -
    have "in_groups fs h" using that f(2) by (simp add: in_groups_def)
    with get [OF this] cnts n other [of h] show ?thesis by (auto simp: free_clusters_def b)
  qed
  moreover have "ext2fs_free_blocks_count (fs_super fs') = low_64 (fs_super fs') (word_of_nat (fs_ratio fs' * group_total ?get fs'))"
  proof -
    have t: "group_total ?get fs' + unat (?get fs grp) = group_total ?get fs + unat n"
      by (rule group_total_upd [OF grp f(2) get])
    have "?R * group_total ?get fs' + ?R * unat (?get fs grp) = ?R * group_total ?get fs + ?R * unat n"
      unfolding distrib_left [symmetric] t ..
    then have "word_of_nat (?R * group_total ?get fs' + ?R * unat (?get fs grp)) =
        (word_of_nat (?R * group_total ?get fs + ?R * unat n) :: u64)" by simp
    then have "word_of_nat (?R * group_total ?get fs') = word_of_nat (?R * group_total ?get fs) + d"
      unfolding of_nat_add d [symmetric] by simp
    with cnt sb low_64_add s0 show ?thesis by (simp add: f(3)) (simp add: fs' s0)
  qed
  ultimately show ?thesis unfolding blocks_inv_def using f(1) by blast
qed

lemma free_count_add_fields:
  "ext2fs_free_blocks_count_add sb d = sb\<lparr>s_free_blocks_count := s_free_blocks_count (ext2fs_free_blocks_count_add sb d),
     s_free_blocks_hi := s_free_blocks_hi (ext2fs_free_blocks_count_add sb d), s_free_inodes_count := s_free_inodes_count sb\<rparr>"
  by (rule ext2_super_block.equality) (simp_all add: ext2fs_free_blocks_count_add_def ext2fs_free_blocks_count_set_def Let_def)

lemma stats_finish:
  assumes "fs_super fs1 = sb"
  obtains a hi c fl where
    "ext2fs_mark_bb_dirty (ext2fs_mark_super_dirty (fs1\<lparr>fs_super := ext2fs_free_blocks_count_add sb d\<rparr>)) = stats_fs fs1 a hi c fl"
    "ext2fs_free_blocks_count (fs_super (stats_fs fs1 a hi c fl)) = low_64 sb (ext2fs_free_blocks_count sb + d)"
    "s_free_inodes_count (fs_super (stats_fs fs1 a hi c fl)) = s_free_inodes_count sb"
proof -
  let ?sb = "ext2fs_free_blocks_count_add sb d"
  let ?x = "stats_fs fs1 (s_free_blocks_count ?sb) (s_free_blocks_hi ?sb) (s_free_inodes_count sb)
    (fs_flags (ext2fs_mark_bb_dirty (ext2fs_mark_super_dirty fs1)))"
  have sb: "fs_super ?x = ?sb" unfolding stats_sb(1) assms free_count_add_fields [symmetric] ..
  have "ext2fs_mark_bb_dirty (ext2fs_mark_super_dirty (fs1\<lparr>fs_super := ?sb\<rparr>)) = ?x"
    by (rule ext2_filsys.equality)
      (use sb in \<open>simp_all add: ext2fs_mark_bb_dirty_def ext2fs_mark_super_dirty_def\<close>, simp_all add: stats_fs_def)
  moreover have "ext2fs_free_blocks_count ?sb = low_64 sb (ext2fs_free_blocks_count sb + d)"
    by (simp add: ext2fs_free_blocks_count_add_def blocks_count_set)
  moreover have "s_free_inodes_count (fs_super ?x) = s_free_inodes_count sb" by (simp add: stats_fs_def)
  ultimately show thesis using that sb by metis
qed

lemma block_stats_step:
  fixes inuse :: int
  assumes h: "block_alloc_stats hooks = None" and b: "unat b < fs_blocks fs" and grp: "grp = ext2fs_group_of_blk2 fs b"
    and m: "snd ((if inuse > 0 then ext2fs_mark_block_bitmap2 else ext2fs_unmark_block_bitmap2) (fs_block_map fs) b) = Some g'"
  obtains a hi c fl where
    "ext2fs_block_alloc_stats2 hooks fs b inuse = stats_fs (block_step (fs\<lparr>fs_block_map := Some g'\<rparr>) grp
        (ext2fs_bg_free_blocks_count fs grp - word_of_int inuse)) a hi c fl"
    "ext2fs_free_blocks_count (fs_super (ext2fs_block_alloc_stats2 hooks fs b inuse)) =
      low_64 (fs_super fs) (ext2fs_free_blocks_count (fs_super fs) + word_of_int (- inuse) * EXT2FS_CLUSTER_RATIO fs)"
    "s_free_inodes_count (fs_super (ext2fs_block_alloc_stats2 hooks fs b inuse)) = s_free_inodes_count (fs_super fs)"
proof -
  let ?fs0 = "fs\<lparr>fs_block_map := Some g'\<rparr>" and ?d = "word_of_int (- inuse) * EXT2FS_CLUSTER_RATIO fs"
  define fs1 where "fs1 = block_step ?fs0 grp (ext2fs_bg_free_blocks_count fs grp - word_of_int inuse)"
  have s: "same_fs ?fs0 fs1"
    unfolding fs1_def block_step_def writers(1,5,6) by (rule same_fs_trans [OF same_fs_trans [OF gd_upd_same gd_upd_same] gd_upd_same])
  have get0: "ext2fs_bg_free_blocks_count ?fs0 h = ext2fs_bg_free_blocks_count fs h" for h
    by (simp add: ext2fs_bg_free_blocks_count_def ext2fs_group_desc_def)
  have r: "EXT2FS_CLUSTER_RATIO fs1 = EXT2FS_CLUSTER_RATIO fs" "fs_super fs1 = fs_super fs"
    using same_fsD(3,8) [OF s] by (simp_all add: EXT2FS_CLUSTER_RATIO_def)
  have m': "(if inuse > 0 then fs\<lparr>fs_block_map := snd (ext2fs_mark_block_bitmap2 (fs_block_map fs) b)\<rparr>
      else fs\<lparr>fs_block_map := snd (ext2fs_unmark_block_bitmap2 (fs_block_map fs) b)\<rparr>) = ?fs0"
    using m by (cases "inuse > 0") simp_all
  have nb: "\<not> ext2fs_blocks_count (fs_super fs) \<le> b" using b by (simp add: word_le_nat_alt)
  have e: "ext2fs_block_alloc_stats2 hooks fs b inuse =
      ext2fs_mark_bb_dirty (ext2fs_mark_super_dirty (fs1\<lparr>fs_super := ext2fs_free_blocks_count_add (fs_super fs) ?d\<rparr>))"
    unfolding ext2fs_block_alloc_stats2_def Let_def grp [symmetric] m' get0 block_step_def [symmetric] fs1_def [symmetric] r
    using nb h by simp
  obtain a hi c fl where f:
    "ext2fs_mark_bb_dirty (ext2fs_mark_super_dirty (fs1\<lparr>fs_super := ext2fs_free_blocks_count_add (fs_super fs) ?d\<rparr>)) = stats_fs fs1 a hi c fl"
    "ext2fs_free_blocks_count (fs_super (stats_fs fs1 a hi c fl)) = low_64 (fs_super fs) (ext2fs_free_blocks_count (fs_super fs) + ?d)"
    "s_free_inodes_count (fs_super (stats_fs fs1 a hi c fl)) = s_free_inodes_count (fs_super fs)"
    by (rule stats_finish [OF r(2)])
  show thesis using that [of a hi c fl] f unfolding e fs1_def by simp
qed

lemma block_cell:
  assumes inv: "blocks_inv fs" and b: "fs_block fs b"
  obtains g where "fs_block_map fs = Some g" "gb_ok g" "gb_in g (EXT2FS_B2C fs b)" "EXT2FS_B2C fs b = drop_bit (gb_bits g) b"
    "in_groups fs (ext2fs_group_of_blk2 fs b)"
    "\<And>h. EXT2FS_B2C fs b \<in> group_clusters fs h \<longleftrightarrow> h = ext2fs_group_of_blk2 fs b"
proof -
  have c: "alloc_clusters_ok fs" using inv by (simp add: blocks_inv_def)
  obtain g where g: "fs_block_map fs = Some g" "block_map_ok fs g" using inv by (auto simp: blocks_inv_def)
  have m: "gb_ok g" "gb_in g (EXT2FS_B2C fs b)" "EXT2FS_B2C fs b = drop_bit (gb_bits g) b"
    using g(2) b by (simp_all add: block_map_ok_def EXT2FS_B2C_def)
  have i: "in_groups fs (ext2fs_group_of_blk2 fs b)"
    using unat_group_of_blk(2) [of fs b] b c by (simp add: fs_block_def alloc_clusters_ok_def)
  show thesis by (rule that [OF g(1) m i]) (use cluster_of_block [OF c b] in auto)
qed

lemma block_use:
  assumes inv: "blocks_inv fs" and h: "block_alloc_stats hooks = None" and b: "fs_block fs b" "\<not> block_used fs b"
  shows "blocks_inv (ext2fs_block_alloc_stats2 hooks fs b 1)"
proof -
  let ?grp = "ext2fs_group_of_blk2 fs b" and ?c = "EXT2FS_B2C fs b" and ?cnt = "ext2fs_bg_free_blocks_count fs (ext2fs_group_of_blk2 fs b)"
  obtain g where g: "fs_block_map fs = Some g" "gb_ok g" "gb_in g ?c" "?c = drop_bit (gb_bits g) b" and i: "in_groups fs ?grp"
    and cell: "\<And>h. ?c \<in> group_clusters fs h \<longleftrightarrow> h = ?grp" by (rule block_cell [OF inv b(1)]) blast
  obtain r g2 where m: "ext2fs_mark_generic_bmap (Some g) b = (r, g2)" by fastforce
  with mark_generic [OF g(2) m g(4)] g(3) obtain g' where g': "g2 = Some g'" "gb_ok g'" "gb_same g g'" "gb_set g' = insert ?c (gb_set g)" by auto
  have nu: "?c \<notin> gb_set g" using b(2) g(1) by (simp add: block_used_def)
  have cnt: "unat ?cnt = card (free_clusters fs (gb_set g) ?grp)" using inv g(1) i by (auto simp: blocks_inv_def)
  with card_mark [OF _ _ nu, of "group_clusters fs ?grp"] cell [of ?grp]
  have n: "unat ?cnt = Suc (card (free_clusters fs (gb_set g') ?grp))" by (simp add: free_clusters_def g'(4))
  then have n': "unat (?cnt - 1) = card (free_clusters fs (gb_set g') ?grp)" by (subst unat_minus_one) auto
  have bb: "unat b < fs_blocks fs" using b(1) by (simp add: fs_block_def)
  have mm: "snd ((if 1 > (0 :: int) then ext2fs_mark_block_bitmap2 else ext2fs_unmark_block_bitmap2) (fs_block_map fs) b) = Some g'"
    using g(1) m g'(1) by (simp add: bitmap_inlines)
  obtain a hi c fl where e0: "ext2fs_block_alloc_stats2 hooks fs b 1 =
        stats_fs (block_step (fs\<lparr>fs_block_map := Some g'\<rparr>) ?grp (?cnt - word_of_int 1)) a hi c fl"
      "ext2fs_free_blocks_count (fs_super (ext2fs_block_alloc_stats2 hooks fs b 1)) =
        low_64 (fs_super fs) (ext2fs_free_blocks_count (fs_super fs) + word_of_int (- 1) * EXT2FS_CLUSTER_RATIO fs)"
    by (rule block_stats_step [OF h bb refl mm])
  have w: "?cnt - word_of_int 1 = ?cnt - 1" "(word_of_int (- 1) * EXT2FS_CLUSTER_RATIO fs :: u64) = - EXT2FS_CLUSTER_RATIO fs" by simp_all
  note e = e0 [unfolded w]
  show ?thesis
  proof (rule blocks_inv_step [OF inv g(1) g'(2,3) i n' _ _ e])
    show "free_clusters fs (gb_set g') h = free_clusters fs (gb_set g) h" if "h \<noteq> ?grp" for h
      using cell [of h] that free_other(1) [of ?c "group_clusters fs h"] by (simp add: free_clusters_def g'(4))
    show "word_of_nat (fs_ratio fs * unat ?cnt) + - EXT2FS_CLUSTER_RATIO fs = word_of_nat (fs_ratio fs * unat (?cnt - 1))"
      unfolding n n' by (simp add: EXT2FS_CLUSTER_RATIO_def push_bit_eq_mult)
  qed
qed

lemma block_release:
  assumes inv: "blocks_inv fs" and h: "block_alloc_stats hooks = None" and b: "fs_block fs b" "block_used fs b"
  shows "blocks_inv (ext2fs_block_alloc_stats2 hooks fs b (- 1))"
proof -
  let ?grp = "ext2fs_group_of_blk2 fs b" and ?c = "EXT2FS_B2C fs b" and ?cnt = "ext2fs_bg_free_blocks_count fs (ext2fs_group_of_blk2 fs b)"
  obtain g where g: "fs_block_map fs = Some g" "gb_ok g" "gb_in g ?c" "?c = drop_bit (gb_bits g) b" and i: "in_groups fs ?grp"
    and cell: "\<And>h. ?c \<in> group_clusters fs h \<longleftrightarrow> h = ?grp" by (rule block_cell [OF inv b(1)]) blast
  obtain r g2 where m: "ext2fs_unmark_generic_bmap (Some g) b = (r, g2)" by fastforce
  with unmark_generic [OF g(2) m g(4)] g(3) obtain g' where g': "g2 = Some g'" "gb_ok g'" "gb_same g g'" "gb_set g' = gb_set g - {?c}" by auto
  have u: "?c \<in> gb_set g" using b(2) g(1) by (auto simp: block_used_def)
  have cnt: "unat ?cnt = card (free_clusters fs (gb_set g) ?grp)" using inv g(1) i by (auto simp: blocks_inv_def)
  with card_unmark [OF _ _ u, of "group_clusters fs ?grp"] cell [of ?grp]
  have n: "card (free_clusters fs (gb_set g') ?grp) = Suc (unat ?cnt)" by (simp add: free_clusters_def g'(4))
  have "alloc_clusters_ok fs" using inv by (simp add: blocks_inv_def)
  with card_free_clusters [of fs "gb_set g'" ?grp] n have n': "unat (?cnt + 1) = card (free_clusters fs (gb_set g') ?grp)"
    by (simp add: unat_word_ariths)
  have bb: "unat b < fs_blocks fs" using b(1) by (simp add: fs_block_def)
  have mm: "snd ((if (- 1) > (0 :: int) then ext2fs_mark_block_bitmap2 else ext2fs_unmark_block_bitmap2) (fs_block_map fs) b) = Some g'"
    using g(1) m g'(1) by (simp add: bitmap_inlines)
  obtain a hi c fl where e0: "ext2fs_block_alloc_stats2 hooks fs b (- 1) =
        stats_fs (block_step (fs\<lparr>fs_block_map := Some g'\<rparr>) ?grp (?cnt - word_of_int (- 1))) a hi c fl"
      "ext2fs_free_blocks_count (fs_super (ext2fs_block_alloc_stats2 hooks fs b (- 1))) =
        low_64 (fs_super fs) (ext2fs_free_blocks_count (fs_super fs) + word_of_int (- (- 1)) * EXT2FS_CLUSTER_RATIO fs)"
    by (rule block_stats_step [OF h bb refl mm])
  have w: "?cnt - word_of_int (- 1) = ?cnt + 1" "(word_of_int (- (- 1)) * EXT2FS_CLUSTER_RATIO fs :: u64) = EXT2FS_CLUSTER_RATIO fs" by simp_all
  note e = e0 [unfolded w]
  show ?thesis
  proof (rule blocks_inv_step [OF inv g(1) g'(2,3) i n' _ _ e])
    show "free_clusters fs (gb_set g') h = free_clusters fs (gb_set g) h" if "h \<noteq> ?grp" for h
      using cell [of h] that free_other(2) [of ?c "group_clusters fs h"] by (simp add: free_clusters_def g'(4))
    show "word_of_nat (fs_ratio fs * unat ?cnt) + EXT2FS_CLUSTER_RATIO fs = word_of_nat (fs_ratio fs * unat (?cnt + 1))"
      unfolding n n' by (simp add: EXT2FS_CLUSTER_RATIO_def push_bit_eq_mult algebra_simps)
  qed
qed

end
