(* ===== verification/Alloc_Inode_Correct.thy ===== *)
theory Alloc_Inode_Correct
  imports Alloc_Stats_Correct
begin

text \<open>
  The inode side of the allocation state and its preservation by \<open>ext2fs_inode_alloc_stats2\<close> (alloc_stats.c):
  counters, descriptors, the flag for an uninitialised inode bitmap and the count of never used inodes.
\<close>

section \<open>The inode side of the invariant\<close>

definition inode_map_ok :: "ext2_filsys \<Rightarrow> generic_bitmap \<Rightarrow> bool" where
  "inode_map_ok fs g \<longleftrightarrow> gb_ok g \<and> gb_bits g = 0 \<and>
     (\<forall>ino. 1 \<le> ino \<longrightarrow> ino \<le> s_inodes_count (fs_super fs) \<longrightarrow> gb_in g (ucast ino))"

definition inodes_ok :: "ext2_filsys \<Rightarrow> bool" where
  "inodes_ok fs \<longleftrightarrow> groups_ok fs \<and> inodes_fit fs \<and> 0 < unat (s_inodes_per_group (fs_super fs)) \<and>
     unat (s_inodes_per_group (fs_super fs)) < 2 ^ 16 \<and> Suc (unat (s_inodes_count (fs_super fs))) < 2 ^ 32 \<and>
     unat (s_inodes_count (fs_super fs)) = unat (fs_group_desc_count fs) * unat (s_inodes_per_group (fs_super fs))"

definition free_inodes_of :: "ext2_filsys \<Rightarrow> u64 set \<Rightarrow> u32 \<Rightarrow> u32 set" where
  "free_inodes_of fs S grp = {ino \<in> group_inodes fs grp. ino \<notin> ucast -` S}"

text \<open>What the flags and the count of never used inodes of a group with checksums promise.\<close>

definition inode_desc_ok :: "ext2_filsys \<Rightarrow> u64 set \<Rightarrow> u32 \<Rightarrow> bool" where
  "inode_desc_ok fs S grp \<longleftrightarrow>
     unat (ext2fs_bg_itable_unused fs grp) \<le> unat (s_inodes_per_group (fs_super fs)) \<and>
     {ino \<in> group_inodes fs grp. ino \<in> ucast -` S} \<subseteq> scanned_inodes fs grp \<and>
     (ext2fs_bg_flags fs grp AND EXT2_BG_INODE_UNINIT \<noteq> 0 \<longrightarrow> {ino \<in> group_inodes fs grp. ino \<in> ucast -` S} = {})"

definition inodes_inv :: "ext2_filsys \<Rightarrow> bool" where
  "inodes_inv fs \<longleftrightarrow> inodes_ok fs \<and>
     (\<exists>g. fs_inode_map fs = Some g \<and> inode_map_ok fs g \<and>
       (\<forall>grp. in_groups fs grp \<longrightarrow> unat (ext2fs_bg_free_inodes_count fs grp) = card (free_inodes_of fs (gb_set g) grp) \<and>
         (ext2fs_has_group_desc_csum fs \<longrightarrow> inode_desc_ok fs (gb_set g) grp))) \<and>
     s_free_inodes_count (fs_super fs) = word_of_nat (group_total ext2fs_bg_free_inodes_count fs)"

lemma group_of_ino:
  assumes ok: "inodes_ok fs" and i: "1 \<le> ino" "ino \<le> s_inodes_count (fs_super fs)"
  shows "in_groups fs (ext2fs_group_of_ino fs ino)" "ino \<in> group_inodes fs h \<longleftrightarrow> h = ext2fs_group_of_ino fs ino"
proof -
  let ?ipg = "unat (s_inodes_per_group (fs_super fs))"
  have n: "1 \<le> unat ino" "unat ino \<le> unat (fs_group_desc_count fs) * ?ipg" "0 < ?ipg"
    using ok i by (simp_all add: inodes_ok_def word_le_nat_alt)
  have u: "unat (ext2fs_group_of_ino fs ino) = (unat ino - 1) div ?ipg"
    using n(1) by (simp add: ext2fs_group_of_ino_def unat_div unat_sub_if')
  have "(unat ino - 1) div ?ipg < unat (fs_group_desc_count fs)"
    using n by (simp add: less_mult_imp_div_less)
  then show "in_groups fs (ext2fs_group_of_ino fs ino)" by (simp add: in_groups_def word_less_nat_alt u)
  have "ino \<in> group_inodes fs h \<longleftrightarrow> (unat ino - 1) div ?ipg = unat h"
    unfolding div_eq_range [OF n(3)] using n(1) by (auto simp: group_inodes_def algebra_simps)
  then show "ino \<in> group_inodes fs h \<longleftrightarrow> h = ext2fs_group_of_ino fs ino" by (auto simp: word_unat_eq_iff u)
qed

lemma card_group_inodes: "card (group_inodes fs grp) \<le> unat (s_inodes_per_group (fs_super fs))"
proof -
  let ?ipg = "unat (s_inodes_per_group (fs_super fs))"
  have "unat ` group_inodes fs grp \<subseteq> {Suc (unat grp * ?ipg) ..< Suc (unat grp * ?ipg) + ?ipg}"
    by (auto simp: group_inodes_def)
  then have "card (unat ` group_inodes fs grp) \<le> ?ipg"
    using card_mono [of "{Suc (unat grp * ?ipg) ..< Suc (unat grp * ?ipg) + ?ipg}"] by force
  moreover have "card (unat ` group_inodes fs grp) = card (group_inodes fs grp)"
    by (rule card_image) (simp add: inj_on_def word_unat_eq_iff)
  ultimately show ?thesis by simp
qed

lemma card_free_inodes:
  assumes "inodes_ok fs"
  shows "card (free_inodes_of fs S grp) < 2 ^ 16"
proof -
  have "card (free_inodes_of fs S grp) \<le> card (group_inodes fs grp)" by (rule card_mono) (auto simp: free_inodes_of_def)
  with card_group_inodes [of fs grp] assms show ?thesis unfolding inodes_ok_def by linarith
qed

lemma all_free:
  assumes "card (free_inodes_of fs S grp) = unat (s_inodes_per_group (fs_super fs))"
  shows "{ino \<in> group_inodes fs grp. ino \<in> ucast -` S} = {}"
proof -
  have "free_inodes_of fs S grp = group_inodes fs grp"
    by (rule card_seteq) (use assms card_group_inodes [of fs grp] in \<open>auto simp: free_inodes_of_def\<close>)
  then show ?thesis by (auto simp: free_inodes_of_def)
qed

section \<open>What an inode call changes\<close>

definition inode_step :: "ext2_filsys \<Rightarrow> u32 \<Rightarrow> u32 \<Rightarrow> u32 option \<Rightarrow> u32 option \<Rightarrow> ext2_filsys" where
  "inode_step fs grp n dn w =
     (let fs = ext2fs_bg_free_inodes_count_set fs grp n;
          fs = (case dn of Some d \<Rightarrow> ext2fs_bg_used_dirs_count_set fs grp d | None \<Rightarrow> fs);
          fs = ext2fs_bg_flags_clear fs grp EXT2_BG_INODE_UNINIT;
          fs = (case w of Some u \<Rightarrow> ext2fs_bg_itable_unused_set fs grp u | None \<Rightarrow> fs)
      in ext2fs_group_desc_csum_set fs grp)"

lemma inode_step_effect:
  assumes ok: "groups_ok fs" "in_groups fs grp"
  shows "same_fs fs (inode_step fs grp n dn w)" "ext2fs_group_desc_csum_verify (inode_step fs grp n dn w) grp"
    and "in_groups fs h \<Longrightarrow> ext2fs_bg_free_inodes_count (inode_step fs grp n dn w) h =
      (if h = grp then low_32 (fs_super fs) n else ext2fs_bg_free_inodes_count fs h)"
    and "in_groups fs h \<Longrightarrow> ext2fs_bg_free_blocks_count (inode_step fs grp n dn w) h = ext2fs_bg_free_blocks_count fs h"
    and "in_groups fs h \<Longrightarrow> h \<noteq> grp \<Longrightarrow> ext4fs_group_desc (inode_step fs grp n dn w) h = ext4fs_group_desc fs h"
    and "ext2fs_bg_itable_unused (inode_step fs grp n dn w) grp =
      (case w of Some u \<Rightarrow> low_32 (fs_super fs) u | None \<Rightarrow> ext2fs_bg_itable_unused fs grp)"
    and "ext2fs_bg_flags (inode_step fs grp n dn w) grp AND EXT2_BG_INODE_UNINIT = 0"
proof -
  define fs1 where "fs1 = ext2fs_bg_free_inodes_count_set fs grp n"
  define fs2 where "fs2 = (case dn of Some d \<Rightarrow> ext2fs_bg_used_dirs_count_set fs1 grp d | None \<Rightarrow> fs1)"
  define fs3 where "fs3 = ext2fs_bg_flags_clear fs2 grp EXT2_BG_INODE_UNINIT"
  define fs4 where "fs4 = (case w of Some u \<Rightarrow> ext2fs_bg_itable_unused_set fs3 grp u | None \<Rightarrow> fs3)"
  have e: "inode_step fs grp n dn w = ext2fs_group_desc_csum_set fs4 grp"
    unfolding inode_step_def Let_def fs4_def fs3_def fs2_def fs1_def ..
  let ?b = "ext2fs_has_feature_64bit (fs_super fs)"
  define F :: "ext4_group_desc \<Rightarrow> ext4_group_desc" where "F gd =
    (let gd = gd\<lparr>bg_free_inodes_count := ucast n, bg_flags := bg_flags gd AND NOT EXT2_BG_INODE_UNINIT\<rparr>;
       gd = (if ?b then gd\<lparr>bg_free_inodes_count_hi := ucast (drop_bit 16 n)\<rparr> else gd);
       gd = (case dn of Some d \<Rightarrow> (if ?b then gd\<lparr>bg_used_dirs_count := ucast d, bg_used_dirs_count_hi := ucast (drop_bit 16 d)\<rparr>
               else gd\<lparr>bg_used_dirs_count := ucast d\<rparr>) | None \<Rightarrow> gd)
     in (case w of Some u \<Rightarrow> (if ?b then gd\<lparr>bg_itable_unused := ucast u, bg_itable_unused_hi := ucast (drop_bit 16 u)\<rparr>
               else gd\<lparr>bg_itable_unused := ucast u\<rparr>) | None \<Rightarrow> gd))" for gd
  have f4: "fs4 = gd_upd F fs grp"
    using ok by (cases dn; cases w) (auto simp: fs4_def fs3_def fs2_def fs1_def writers gd_upd_upd F_def Let_def
        same_fsD(3) [OF gd_upd_same] intro!: arg_cong [where f = "\<lambda>f. gd_upd f fs grp"])
  have ok4: "groups_ok fs4" "in_groups fs4 grp" using ok by (simp_all add: f4 upd_ok)
  show v: "ext2fs_group_desc_csum_verify (inode_step fs grp n dn w) grp" unfolding e by (rule group_desc_set_ok [OF ok4])
  define G :: "ext4_group_desc \<Rightarrow> ext4_group_desc" where
    "G gd = (if ext2fs_has_group_desc_csum fs4 then gd\<lparr>bg_checksum := ext2fs_group_desc_csum fs4 grp\<rparr> else gd)" for gd
  have eG: "inode_step fs grp n dn w = gd_upd (\<lambda>gd. G (F gd)) fs grp"
    unfolding e csum_set_upd G_def [symmetric] by (subst f4) (simp add: gd_upd_upd [OF ok])
  show "same_fs fs (inode_step fs grp n dn w)" unfolding eG by simp
  have G: "bg_free_inodes_count (G gd) = bg_free_inodes_count gd" "bg_free_inodes_count_hi (G gd) = bg_free_inodes_count_hi gd"
    "bg_free_blocks_count (G gd) = bg_free_blocks_count gd" "bg_free_blocks_count_hi (G gd) = bg_free_blocks_count_hi gd"
    "bg_itable_unused (G gd) = bg_itable_unused gd" "bg_itable_unused_hi (G gd) = bg_itable_unused_hi gd" "bg_flags (G gd) = bg_flags gd" for gd
    by (simp_all add: G_def)
  have F: "bg_free_inodes_count (F gd) = ucast n"
    "bg_free_inodes_count_hi (F gd) = (if ?b then ucast (drop_bit 16 n) else bg_free_inodes_count_hi gd)"
    "bg_free_blocks_count (F gd) = bg_free_blocks_count gd" "bg_free_blocks_count_hi (F gd) = bg_free_blocks_count_hi gd"
    "bg_itable_unused (F gd) = (case w of Some u \<Rightarrow> ucast u | None \<Rightarrow> bg_itable_unused gd)"
    "bg_itable_unused_hi (F gd) = (case w of Some u \<Rightarrow> if ?b then ucast (drop_bit 16 u) else bg_itable_unused_hi gd | None \<Rightarrow> bg_itable_unused_hi gd)"
    "bg_flags (F gd) = bg_flags gd AND NOT EXT2_BG_INODE_UNINIT" for gd
    by (simp_all add: F_def Let_def split: option.splits)
  note u = eG gd_upd_nth [OF ok] same_fsD(3) [OF gd_upd_same] F G join_split_32
  show "ext2fs_bg_free_inodes_count (inode_step fs grp n dn w) h =
      (if h = grp then low_32 (fs_super fs) n else ext2fs_bg_free_inodes_count fs h)"
    "ext2fs_bg_free_blocks_count (inode_step fs grp n dn w) h = ext2fs_bg_free_blocks_count fs h" if "in_groups fs h"
    using that by (simp_all add: readers u low_32_def Let_def)
  show "ext4fs_group_desc (inode_step fs grp n dn w) h = ext4fs_group_desc fs h" if "in_groups fs h" "h \<noteq> grp"
    using that by (simp add: u)
  show "ext2fs_bg_itable_unused (inode_step fs grp n dn w) grp =
      (case w of Some u \<Rightarrow> low_32 (fs_super fs) u | None \<Rightarrow> ext2fs_bg_itable_unused fs grp)"
    using ok(2) by (simp add: readers u low_32_def Let_def split: option.splits)
  show "ext2fs_bg_flags (inode_step fs grp n dn w) grp AND EXT2_BG_INODE_UNINIT = 0"
    using ok(2) by (simp add: readers u and.assoc)
qed

text \<open>The count of never used inodes that the call writes, when it writes one.\<close>

definition new_unused :: "ext2_filsys \<Rightarrow> u32 \<Rightarrow> u32 \<Rightarrow> u32 option" where
  "new_unused fs grp ino =
     (let ipg = s_inodes_per_group (fs_super fs)
      in if ext2fs_has_group_desc_csum fs \<and> ino \<ge> ipg - ext2fs_bg_itable_unused fs grp + grp * ipg + 1
         then Some (grp * ipg + ipg - ino) else None)"

lemma csum_after: "same_fs fs fs' \<Longrightarrow> ext2fs_has_group_desc_csum fs' = ext2fs_has_group_desc_csum fs"
  by (simp add: ext2fs_has_group_desc_csum_def same_fsD(3))

lemma no_csum_set: "\<not> ext2fs_has_group_desc_csum fs \<Longrightarrow> ext2fs_group_desc_csum_set fs grp = fs"
  by (simp add: ext2fs_group_desc_csum_set_def)

lemma inode_stats_step:
  fixes inuse :: int
  assumes ok: "groups_ok fs" "in_groups fs grp" and grp: "grp = ext2fs_group_of_ino fs ino" and i: "ino \<le> s_inodes_count (fs_super fs)"
    and m: "snd ((if inuse > 0 then ext2fs_mark_inode_bitmap2 else ext2fs_unmark_inode_bitmap2) (fs_inode_map fs) ino) = Some g'"
  obtains a hi c fl where
    "ext2fs_inode_alloc_stats2 fs ino inuse isdir = stats_fs (inode_step (fs\<lparr>fs_inode_map := Some g'\<rparr>) grp
        (ext2fs_bg_free_inodes_count fs grp - word_of_int inuse)
        (if isdir then Some (ext2fs_bg_used_dirs_count fs grp + word_of_int inuse) else None) (new_unused fs grp ino)) a hi c fl"
    "ext2fs_free_blocks_count (fs_super (ext2fs_inode_alloc_stats2 fs ino inuse isdir)) = ext2fs_free_blocks_count (fs_super fs)"
    "s_free_inodes_count (fs_super (ext2fs_inode_alloc_stats2 fs ino inuse isdir)) = s_free_inodes_count (fs_super fs) - word_of_int inuse"
proof -
  define fs0 where "fs0 = fs\<lparr>fs_inode_map := Some g'\<rparr>"
  have ok0: "groups_ok fs0" "in_groups fs0 grp" using ok by (simp_all add: fs0_def groups_ok_def in_groups_def)
  have r0: "ext2fs_bg_free_inodes_count fs0 h = ext2fs_bg_free_inodes_count fs h" "ext2fs_bg_used_dirs_count fs0 h = ext2fs_bg_used_dirs_count fs h"
      "ext2fs_bg_itable_unused fs0 h = ext2fs_bg_itable_unused fs h" "fs_super fs0 = fs_super fs"
      "ext2fs_has_group_desc_csum fs0 = ext2fs_has_group_desc_csum fs" for h
    by (simp_all add: fs0_def readers ext2fs_group_desc_def ext2fs_has_group_desc_csum_def)
  define n where "n = ext2fs_bg_free_inodes_count fs grp - word_of_int inuse"
  define dn where "dn = (if isdir then Some (ext2fs_bg_used_dirs_count fs grp + word_of_int inuse) else None)"
  define fs1 where "fs1 = ext2fs_bg_free_inodes_count_set fs0 grp n"
  define fs2 where "fs2 = (case dn of Some d \<Rightarrow> ext2fs_bg_used_dirs_count_set fs1 grp d | None \<Rightarrow> fs1)"
  define fs3 where "fs3 = ext2fs_bg_flags_clear fs2 grp EXT2_BG_INODE_UNINIT"
  have s3: "same_fs fs0 fs3" unfolding fs3_def fs2_def fs1_def writers
    by (cases dn) (simp_all add: same_fs_trans [OF gd_upd_same gd_upd_same] same_fs_trans [OF same_fs_trans [OF gd_upd_same gd_upd_same] gd_upd_same])
  have d1: "ext2fs_bg_used_dirs_count fs1 grp = ext2fs_bg_used_dirs_count fs grp"
    unfolding fs1_def r0(2) [symmetric] using ok0 by (simp add: readers writers gd_upd_nth same_fsD(3) [OF gd_upd_same] Let_def)
  have u3: "ext2fs_bg_itable_unused fs3 grp = ext2fs_bg_itable_unused fs grp"
    unfolding r0(3) [symmetric] fs3_def fs2_def fs1_def using ok0
    by (cases dn) (simp_all add: readers writers gd_upd_upd gd_upd_nth same_fsD(3) [OF gd_upd_same] Let_def)
  have sb3: "fs_super fs3 = fs_super fs" "ext2fs_has_group_desc_csum fs3 = ext2fs_has_group_desc_csum fs"
    using same_fsD(3) [OF s3] csum_after [OF s3] r0 by simp_all
  define fs4 where "fs4 = inode_step fs0 grp n dn (new_unused fs grp ino)"
  have e4: "fs4 = (if ext2fs_has_group_desc_csum fs3
      then ext2fs_group_desc_csum_set (if ino \<ge> s_inodes_per_group (fs_super fs3) - ext2fs_bg_itable_unused fs3 grp + grp * s_inodes_per_group (fs_super fs3) + 1
        then ext2fs_bg_itable_unused_set fs3 grp (grp * s_inodes_per_group (fs_super fs3) + s_inodes_per_group (fs_super fs3) - ino) else fs3) grp
      else fs3)"
    unfolding fs4_def inode_step_def Let_def fs1_def [symmetric] fs2_def [symmetric] fs3_def [symmetric] u3 sb3
    by (simp add: new_unused_def Let_def no_csum_set sb3)
  have m': "(if inuse > 0 then fs\<lparr>fs_inode_map := snd (ext2fs_mark_inode_bitmap2 (fs_inode_map fs) ino)\<rparr>
      else fs\<lparr>fs_inode_map := snd (ext2fs_unmark_inode_bitmap2 (fs_inode_map fs) ino)\<rparr>) = fs0"
    using m by (cases "inuse > 0") (simp_all add: fs0_def)
  have d2: "(if isdir then ext2fs_bg_used_dirs_count_set fs1 grp (ext2fs_bg_used_dirs_count fs grp + word_of_int inuse) else fs1) = fs2"
    by (simp add: fs2_def dn_def)
  have "inode_step fs0 grp n dn w = ext2fs_group_desc_csum_set (case w of Some u \<Rightarrow> ext2fs_bg_itable_unused_set fs3 grp u | None \<Rightarrow> fs3) grp" for w
    unfolding inode_step_def Let_def fs1_def [symmetric] fs2_def [symmetric] fs3_def [symmetric] ..
  then have "same_fs fs0 fs4" unfolding fs4_def using s3
    by (cases "new_unused fs grp ino") (auto simp: writers intro: same_fs_trans [OF _ gd_upd_same] same_fs_trans [OF same_fs_trans [OF _ gd_upd_same] gd_upd_same])
  then have sb4: "fs_super fs4 = fs_super fs" using same_fsD(3) r0(4) by metis
  let ?c = "s_free_inodes_count (fs_super fs) - word_of_int inuse"
  have e: "ext2fs_inode_alloc_stats2 fs ino inuse isdir =
      ext2fs_mark_ib_dirty (ext2fs_mark_super_dirty (fs4\<lparr>fs_super := (fs_super fs4)\<lparr>s_free_inodes_count := ?c\<rparr>\<rparr>))"
    unfolding ext2fs_inode_alloc_stats2_def Let_def grp [symmetric] m' r0(1) n_def [symmetric] fs1_def [symmetric] d1 d2
      fs3_def [symmetric] e4 [symmetric] sb4
    using i by (simp add: not_less)
  have "ext2fs_inode_alloc_stats2 fs ino inuse isdir = stats_fs fs4 (s_free_blocks_count (fs_super fs)) (s_free_blocks_hi (fs_super fs)) ?c
      (fs_flags (ext2fs_mark_ib_dirty (ext2fs_mark_super_dirty fs4)))"
    unfolding e by (rule ext2_filsys.equality)
      (simp_all add: ext2fs_mark_ib_dirty_def ext2fs_mark_super_dirty_def stats_fs_def sb4)
  then show thesis
    using that unfolding fs4_def fs0_def n_def dn_def
    by (simp add: stats_sb(1) ext2fs_free_blocks_count_def ext2fs_has_feature_64bit_def sb4 [unfolded fs4_def fs0_def n_def dn_def])
qed

section \<open>The inode side\<close>

lemma stats_inodes [simp]:
  "group_inodes (stats_fs fs a hi c fl) h = group_inodes fs h" "scanned_inodes (stats_fs fs a hi c fl) h = scanned_inodes fs h"
  "inodes_fit (stats_fs fs a hi c fl) = inodes_fit fs" "inodes_ok (stats_fs fs a hi c fl) = inodes_ok fs"
  "inode_map_ok (stats_fs fs a hi c fl) g = inode_map_ok fs g" "free_inodes_of (stats_fs fs a hi c fl) S h = free_inodes_of fs S h"
  "inode_desc_ok (stats_fs fs a hi c fl) S h = inode_desc_ok fs S h"
proof -
  show a: "group_inodes (stats_fs fs a hi c fl) h = group_inodes fs h" "inodes_fit (stats_fs fs a hi c fl) = inodes_fit fs"
    by (simp_all add: group_inodes_def inodes_fit_def)
  then show b: "scanned_inodes (stats_fs fs a hi c fl) h = scanned_inodes fs h" by (simp add: scanned_inodes_def)
  show "inodes_ok (stats_fs fs a hi c fl) = inodes_ok fs" "inode_map_ok (stats_fs fs a hi c fl) g = inode_map_ok fs g"
    "free_inodes_of (stats_fs fs a hi c fl) S h = free_inodes_of fs S h" "inode_desc_ok (stats_fs fs a hi c fl) S h = inode_desc_ok fs S h"
    using a b by (simp_all add: inodes_ok_def inode_map_ok_def free_inodes_of_def inode_desc_ok_def)
qed

lemma same_fs_inodes:
  assumes "same_fs fs fs'"
  shows "group_inodes fs' h = group_inodes fs h" "inodes_ok fs' = inodes_ok fs" "inode_map_ok fs' g = inode_map_ok fs g"
    "free_inodes_of fs' S h = free_inodes_of fs S h"
  using same_fsD [OF assms]
  by (simp_all add: group_inodes_def inodes_ok_def inodes_fit_def inode_map_ok_def free_inodes_of_def)

lemma map_upd_inodes [simp]:
  "group_inodes (fs\<lparr>fs_inode_map := m\<rparr>) h = group_inodes fs h" "inodes_ok (fs\<lparr>fs_inode_map := m\<rparr>) = inodes_ok fs"
  "inode_map_ok (fs\<lparr>fs_inode_map := m\<rparr>) g = inode_map_ok fs g" "free_inodes_of (fs\<lparr>fs_inode_map := m\<rparr>) S h = free_inodes_of fs S h"
  "groups_ok (fs\<lparr>fs_inode_map := m\<rparr>) = groups_ok fs" "in_groups (fs\<lparr>fs_inode_map := m\<rparr>) h = in_groups fs h"
  "ext2fs_bg_free_inodes_count (fs\<lparr>fs_inode_map := m\<rparr>) h = ext2fs_bg_free_inodes_count fs h"
  "ext2fs_bg_free_blocks_count (fs\<lparr>fs_inode_map := m\<rparr>) h = ext2fs_bg_free_blocks_count fs h"
  "ext2fs_bg_itable_unused (fs\<lparr>fs_inode_map := m\<rparr>) h = ext2fs_bg_itable_unused fs h"
  "ext2fs_bg_flags (fs\<lparr>fs_inode_map := m\<rparr>) h = ext2fs_bg_flags fs h"
  "ext4fs_group_desc (fs\<lparr>fs_inode_map := m\<rparr>) h = ext4fs_group_desc fs h"
  "ext2fs_has_group_desc_csum (fs\<lparr>fs_inode_map := m\<rparr>) = ext2fs_has_group_desc_csum fs"
  by (simp_all add: group_inodes_def inodes_ok_def inodes_fit_def inode_map_ok_def free_inodes_of_def groups_ok_def in_groups_def
      readers ext2fs_group_desc_def ext2fs_has_group_desc_csum_def)

lemma inodes_inv_step:
  assumes inv: "inodes_inv fs" and g: "fs_inode_map fs = Some g" "gb_ok g'" "gb_same g g'" and grp: "in_groups fs grp"
    and n: "unat n = card (free_inodes_of fs (gb_set g') grp)"
    and other: "\<And>h ino. h \<noteq> grp \<Longrightarrow> ino \<in> group_inodes fs h \<Longrightarrow> ucast ino \<in> gb_set g' \<longleftrightarrow> ucast ino \<in> gb_set g"
    and d: "word_of_nat (unat (ext2fs_bg_free_inodes_count fs grp)) + d = (word_of_nat (unat n) :: u32)"
    and fs1: "fs1 = inode_step (fs\<lparr>fs_inode_map := Some g'\<rparr>) grp n dn w"
    and desc: "ext2fs_has_group_desc_csum fs \<Longrightarrow> inode_desc_ok fs1 (gb_set g') grp"
    and fs': "fs' = stats_fs fs1 a hi c fl"
    and cnt: "s_free_inodes_count (fs_super fs') = s_free_inodes_count (fs_super fs) + d"
  shows "inodes_inv fs'"
proof -
  let ?fs0 = "fs\<lparr>fs_inode_map := Some g'\<rparr>" and ?get = ext2fs_bg_free_inodes_count
  have c: "inodes_ok fs" and cnts: "\<And>h. in_groups fs h \<Longrightarrow> unat (?get fs h) = card (free_inodes_of fs (gb_set g) h)"
    and sb: "s_free_inodes_count (fs_super fs) = word_of_nat (group_total ?get fs)" and m: "inode_map_ok fs g"
    and desc0: "\<And>h. in_groups fs h \<Longrightarrow> ext2fs_has_group_desc_csum fs \<Longrightarrow> inode_desc_ok fs (gb_set g) h"
    using inv g(1) by (auto simp: inodes_inv_def)
  have ok0: "groups_ok ?fs0" "in_groups ?fs0 grp" using c grp by (simp_all add: inodes_ok_def)
  note e = inode_step_effect [OF ok0, where n = n and dn = dn and w = w, folded fs1]
  have n': "low_32 (fs_super fs) n = n"
    using n card_free_inodes [OF c, of "gb_set g'" grp] by (simp add: word_unat_eq_iff unat_low_32)
  note si = same_fs_inodes [OF e(1)] same_fsD [OF e(1)]
  have get: "?get fs' h = (if h = grp then n else ?get fs h)" if "in_groups fs h" for h
    using e(3) [of h] that n' by (simp add: fs')
  have f: "fs_inode_map fs' = Some g'" "fs_group_desc_count fs' = fs_group_desc_count fs" "ext2fs_has_group_desc_csum fs' = ext2fs_has_group_desc_csum fs"
    using si csum_after [OF e(1)] by (simp_all add: fs')
  have o: "{x \<in> group_inodes fs h. x \<in> ucast -` gb_set g'} = {x \<in> group_inodes fs h. x \<in> ucast -` gb_set g}"
    "free_inodes_of fs (gb_set g') h = free_inodes_of fs (gb_set g) h" if "h \<noteq> grp" for h
    using other [OF that] by (auto simp: free_inodes_of_def)
  have "unat (?get fs' h) = card (free_inodes_of fs' (gb_set g') h) \<and> (ext2fs_has_group_desc_csum fs' \<longrightarrow> inode_desc_ok fs' (gb_set g') h)"
    if h: "in_groups fs' h" for h
  proof -
    have i: "in_groups fs h" using h f(2) by (simp add: in_groups_def)
    have "inode_desc_ok fs1 (gb_set g') h" if "h \<noteq> grp" "ext2fs_has_group_desc_csum fs"
    proof -
      have q: "ext4fs_group_desc fs1 h = ext4fs_group_desc fs h" using e(5) [of h] i that(1) by (simp add: ext2fs_group_desc_def)
      show ?thesis using desc0 [OF i that(2)] o(1) [OF that(1)] si desc_cong(2,5) [OF q]
        by (simp add: inode_desc_ok_def scanned_inodes_def same_fs_seed [OF e(1)])
    qed
    with get [OF i] n cnts [OF i] o(2) [of h] desc f(3) si show ?thesis by (auto simp: fs')
  qed
  moreover have "inodes_ok fs'" "inode_map_ok fs' g'"
    using c m g(2) gb_sameD [OF g(3)] si by (simp_all add: fs', simp add: inode_map_ok_def)
  moreover have "s_free_inodes_count (fs_super fs') = word_of_nat (group_total ?get fs')"
  proof -
    have t: "group_total ?get fs' + unat (?get fs grp) = group_total ?get fs + unat n"
      by (rule group_total_upd [OF grp f(2) get])
    have "word_of_nat (group_total ?get fs' + unat (?get fs grp)) = (word_of_nat (group_total ?get fs + unat n) :: u32)"
      unfolding t ..
    then have "word_of_nat (group_total ?get fs') = word_of_nat (group_total ?get fs) + d"
      unfolding of_nat_add d [symmetric] by simp
    then show ?thesis using cnt sb by simp
  qed
  ultimately show ?thesis unfolding inodes_inv_def using f(1) by blast
qed

text \<open>The inode of the call and every inode that was to be scanned are to be scanned afterwards.\<close>

lemma new_unused_scans:
  assumes ok: "inodes_ok fs" and grp: "in_groups fs grp" and ino: "ino \<in> group_inodes fs grp" and cs: "ext2fs_has_group_desc_csum fs"
    and u: "unat (ext2fs_bg_itable_unused fs grp) \<le> unat (s_inodes_per_group (fs_super fs))"
    and fs1: "ext2fs_bg_itable_unused fs1 grp =
      (case new_unused fs grp ino of Some u \<Rightarrow> low_32 (fs_super fs) u | None \<Rightarrow> ext2fs_bg_itable_unused fs grp)"
    and sb: "fs_super fs1 = fs_super fs"
  shows "unat (ext2fs_bg_itable_unused fs1 grp) \<le> unat (s_inodes_per_group (fs_super fs))"
    "insert ino (scanned_inodes fs grp) \<subseteq> scanned_inodes fs1 grp"
proof -
  let ?ipg = "s_inodes_per_group (fs_super fs)" and ?u = "ext2fs_bg_itable_unused fs grp"
  let ?top = "unat grp * unat ?ipg + unat ?ipg"
  have i: "unat grp * unat ?ipg < unat ino" "unat ino \<le> ?top" using ino by (simp_all add: group_inodes_def add.commute)
  have "(unat grp + 1) * unat ?ipg \<le> unat (fs_group_desc_count fs) * unat ?ipg"
    using grp by (intro mult_le_mono1) (simp add: in_groups_def word_less_nat_alt)
  then have b: "Suc ?top < 2 ^ 32" using ok by (simp add: inodes_ok_def)
  then have m: "unat (grp * ?ipg) = unat grp * unat ?ipg" by (simp add: unat_word_ariths)
  have fu: "unat (?ipg - ?u + grp * ?ipg + 1) = ?top - unat ?u + 1"
    using b m u by (simp add: unat_word_ariths unat_sub_if')
  have tp: "unat (grp * ?ipg + ?ipg) = ?top" using b m by (simp add: unat_word_ariths)
  have nu: "unat (grp * ?ipg + ?ipg - ino) = ?top - unat ino" using i(2) unfolding tp [symmetric] by (simp add: unat_sub_if')
  have "?top - unat ino < 2 ^ 16" using i ok unfolding inodes_ok_def by linarith
  then have l: "low_32 (fs_super fs) (grp * ?ipg + ?ipg - ino) = grp * ?ipg + ?ipg - ino"
    by (simp add: word_unat_eq_iff unat_low_32 nu)
  have w: "unat (ext2fs_bg_itable_unused fs1 grp) = (if ?top - unat ?u + 1 \<le> unat ino then ?top - unat ino else unat ?u)"
    using cs l nu unfolding fs1 new_unused_def Let_def by (simp add: word_le_nat_alt fu)
  show "unat (ext2fs_bg_itable_unused fs1 grp) \<le> unat ?ipg" unfolding w using u i by auto
  show "insert ino (scanned_inodes fs grp) \<subseteq> scanned_inodes fs1 grp"
    using i u unfolding scanned_inodes_def group_inodes_def sb w by auto
qed

lemma inode_cell:
  assumes inv: "inodes_inv fs" and i: "1 \<le> ino" "ino \<le> s_inodes_count (fs_super fs)" and g: "fs_inode_map fs = Some g"
  shows "gb_ok g" "gb_in g (ucast ino)" "ucast ino = drop_bit (gb_bits g) (ucast ino :: u64)"
    "unat (ext2fs_bg_free_inodes_count fs (ext2fs_group_of_ino fs ino)) = card (free_inodes_of fs (gb_set g) (ext2fs_group_of_ino fs ino))"
  using inv i g group_of_ino(1) [of fs ino] by (auto simp: inodes_inv_def inode_map_ok_def)

text \<open>The common part of using and releasing an inode; \<open>g'\<close> is the bitmap afterwards.\<close>

lemma inode_toggle:
  fixes inuse :: int
  assumes inv: "inodes_inv fs" and i: "1 \<le> ino" "ino \<le> s_inodes_count (fs_super fs)" and grp: "grp = ext2fs_group_of_ino fs ino"
    and g: "fs_inode_map fs = Some g" "gb_ok g'" "gb_same g g'" "gb_set g' = insert (ucast ino) (gb_set g) \<or> gb_set g' = gb_set g - {ucast ino}"
    and m: "snd ((if inuse > 0 then ext2fs_mark_inode_bitmap2 else ext2fs_unmark_inode_bitmap2) (fs_inode_map fs) ino) = Some g'"
    and n: "unat (ext2fs_bg_free_inodes_count fs grp - word_of_int inuse) = card (free_inodes_of fs (gb_set g') grp)"
  shows "inodes_inv (ext2fs_inode_alloc_stats2 fs ino inuse isdir)"
proof -
  let ?n = "ext2fs_bg_free_inodes_count fs grp - word_of_int inuse"
  have ok: "inodes_ok fs" "groups_ok fs" using inv by (simp_all add: inodes_inv_def inodes_ok_def)
  have ig: "in_groups fs grp" and cell: "\<And>h. ino \<in> group_inodes fs h \<longleftrightarrow> h = grp"
    using group_of_ino [OF ok(1) i] grp by simp_all
  obtain a hi c fl where e: "ext2fs_inode_alloc_stats2 fs ino inuse isdir = stats_fs (inode_step (fs\<lparr>fs_inode_map := Some g'\<rparr>) grp ?n
        (if isdir then Some (ext2fs_bg_used_dirs_count fs grp + word_of_int inuse) else None) (new_unused fs grp ino)) a hi c fl"
    "s_free_inodes_count (fs_super (ext2fs_inode_alloc_stats2 fs ino inuse isdir)) = s_free_inodes_count (fs_super fs) - word_of_int inuse"
    by (rule inode_stats_step [OF ok(2) ig grp i(2) m])
  define fs1 where "fs1 = inode_step (fs\<lparr>fs_inode_map := Some g'\<rparr>) grp ?n
    (if isdir then Some (ext2fs_bg_used_dirs_count fs grp + word_of_int inuse) else None) (new_unused fs grp ino)"
  have ok0: "groups_ok (fs\<lparr>fs_inode_map := Some g'\<rparr>)" "in_groups (fs\<lparr>fs_inode_map := Some g'\<rparr>) grp" using ok ig by simp_all
  note st = inode_step_effect [OF ok0, where n = ?n and dn = "if isdir then Some (ext2fs_bg_used_dirs_count fs grp + word_of_int inuse) else None"
      and w = "new_unused fs grp ino", folded fs1_def]
  have inj: "(ucast x :: u64) = ucast ino \<longleftrightarrow> x = ino" for x :: u32 by (simp add: ucast_inj_32)
  show ?thesis
  proof (rule inodes_inv_step [OF inv g(1-3) ig n _ _ fs1_def _ e(1) [folded fs1_def], of "- word_of_int inuse"])
    show "ucast x \<in> gb_set g' \<longleftrightarrow> ucast x \<in> gb_set g" if "h \<noteq> grp" "x \<in> group_inodes fs h" for h x
    proof -
      have "x \<noteq> ino" using that cell by auto
      then show ?thesis using g(4) inj by auto
    qed
    show "word_of_nat (unat (ext2fs_bg_free_inodes_count fs grp)) + - word_of_int inuse = (word_of_nat (unat ?n) :: u32)" by simp
    show "s_free_inodes_count (fs_super (ext2fs_inode_alloc_stats2 fs ino inuse isdir)) = s_free_inodes_count (fs_super fs) + - word_of_int inuse"
      using e(2) by simp
    show "inode_desc_ok fs1 (gb_set g') grp" if cs: "ext2fs_has_group_desc_csum fs"
    proof -
      have d: "inode_desc_ok fs (gb_set g) grp" using inv ig cs g(1) by (auto simp: inodes_inv_def)
      have sb: "fs_super fs1 = fs_super fs" using same_fsD(3) [OF st(1)] by simp
      have u1: "ext2fs_bg_itable_unused fs1 grp =
          (case new_unused fs grp ino of Some u \<Rightarrow> low_32 (fs_super fs) u | None \<Rightarrow> ext2fs_bg_itable_unused fs grp)"
        using st(6) by (simp cong: option.case_cong)
      have iu: "ino \<in> group_inodes fs grp" "unat (ext2fs_bg_itable_unused fs grp) \<le> unat (s_inodes_per_group (fs_super fs))"
        using cell d by (simp_all add: inode_desc_ok_def)
      note sc = new_unused_scans [OF ok(1) ig iu(1) cs iu(2) u1 sb]
      have "{x \<in> group_inodes fs grp. x \<in> ucast -` gb_set g'} \<subseteq> insert ino {x \<in> group_inodes fs grp. x \<in> ucast -` gb_set g}"
        using g(4) inj by auto
      then show ?thesis using sc d cell st(7) sb same_fs_inodes(1) [OF st(1)] by (auto simp: inode_desc_ok_def)
    qed
  qed
qed

lemma inode_use:
  assumes inv: "inodes_inv fs" and i: "1 \<le> ino" "ino \<le> s_inodes_count (fs_super fs)"
    and g: "fs_inode_map fs = Some g" "ucast ino \<notin> gb_set g"
  shows "inodes_inv (ext2fs_inode_alloc_stats2 fs ino 1 isdir)"
proof -
  let ?grp = "ext2fs_group_of_ino fs ino"
  note g0 = inode_cell [OF inv i g(1)]
  obtain r g2 where m: "ext2fs_mark_generic_bmap (Some g) (ucast ino) = (r, g2)" by fastforce
  with mark_generic [OF g0(1) m g0(3)] g0(2) obtain g' where g': "g2 = Some g'" "gb_ok g'" "gb_same g g'" "gb_set g' = insert (ucast ino) (gb_set g)" by auto
  have c: "ino \<in> group_inodes fs ?grp" using group_of_ino(2) [of fs ino] inv i by (simp add: inodes_inv_def)
  have "ucast -` gb_set g' = insert ino (ucast -` gb_set g)" using g'(4) by (auto simp: ucast_inj_32)
  with card_mark [OF _ c, of "ucast -` gb_set g"] g(2) g0(4)
  have n: "unat (ext2fs_bg_free_inodes_count fs ?grp) = Suc (card (free_inodes_of fs (gb_set g') ?grp))" by (simp add: free_inodes_of_def)
  show ?thesis
  proof (rule inode_toggle [OF inv i refl g(1) g'(2,3)])
    show "unat (ext2fs_bg_free_inodes_count fs ?grp - word_of_int 1) = card (free_inodes_of fs (gb_set g') ?grp)"
      using n by (simp, subst unat_minus_one) auto
  qed (use g'(1,4) m g(1) in \<open>simp_all add: bitmap_inlines\<close>)
qed

lemma inode_release:
  assumes inv: "inodes_inv fs" and i: "1 \<le> ino" "ino \<le> s_inodes_count (fs_super fs)"
    and g: "fs_inode_map fs = Some g" "ucast ino \<in> gb_set g"
  shows "inodes_inv (ext2fs_inode_alloc_stats2 fs ino (- 1) isdir)"
proof -
  let ?grp = "ext2fs_group_of_ino fs ino"
  note g0 = inode_cell [OF inv i g(1)]
  obtain r g2 where m: "ext2fs_unmark_generic_bmap (Some g) (ucast ino) = (r, g2)" by fastforce
  with unmark_generic [OF g0(1) m g0(3)] g0(2) obtain g' where g': "g2 = Some g'" "gb_ok g'" "gb_same g g'" "gb_set g' = gb_set g - {ucast ino}" by auto
  have ok: "inodes_ok fs" using inv by (simp add: inodes_inv_def)
  have c: "ino \<in> group_inodes fs ?grp" using group_of_ino(2) [OF ok i] by simp
  have v: "ucast -` gb_set g' = ucast -` gb_set g - {ino}" unfolding g'(4) by (auto simp: ucast_inj_32)
  have n: "card (free_inodes_of fs (gb_set g') ?grp) = Suc (unat (ext2fs_bg_free_inodes_count fs ?grp))"
    unfolding free_inodes_of_def v g0(4) by (rule card_unmark) (use c g(2) in simp_all)
  show ?thesis
  proof (rule inode_toggle [OF inv i refl g(1) g'(2,3)])
    show "unat (ext2fs_bg_free_inodes_count fs ?grp - word_of_int (- 1)) = card (free_inodes_of fs (gb_set g') ?grp)"
    proof -
      have "Suc (unat (ext2fs_bg_free_inodes_count fs ?grp)) < 2 ^ 16" using n card_free_inodes [OF ok, of "gb_set g'" ?grp] by simp
      then have "unat (ext2fs_bg_free_inodes_count fs ?grp + 1) = Suc (unat (ext2fs_bg_free_inodes_count fs ?grp))"
        by (simp add: unat_word_ariths)
      then show ?thesis unfolding n by simp
    qed
  qed (use g'(1,4) m g(1) in \<open>simp_all add: bitmap_inlines\<close>)
qed

section \<open>What the two sides have in common\<close>

definition csums_ok :: "ext2_filsys \<Rightarrow> bool" where
  "csums_ok fs \<longleftrightarrow> (\<forall>grp. in_groups fs grp \<longrightarrow> ext2fs_group_desc_csum_verify fs grp)"

text \<open>The fields of the handle and the super block that an allocation never changes.\<close>

definition frame :: "ext2_filsys \<Rightarrow> ext2_filsys \<Rightarrow> bool" where
  "frame fs fs' \<longleftrightarrow> fs_group_desc_count fs' = fs_group_desc_count fs \<and> groups_ok fs' = groups_ok fs \<and> fs_magic fs' = fs_magic fs \<and>
     fs_cluster_ratio_bits fs' = fs_cluster_ratio_bits fs \<and> ext2fs_has_group_desc_csum fs' = ext2fs_has_group_desc_csum fs \<and>
     ext2fs_has_feature_64bit (fs_super fs') = ext2fs_has_feature_64bit (fs_super fs) \<and>
     ext2fs_blocks_count (fs_super fs') = ext2fs_blocks_count (fs_super fs) \<and>
     s_blocks_per_group (fs_super fs') = s_blocks_per_group (fs_super fs) \<and>
     s_first_data_block (fs_super fs') = s_first_data_block (fs_super fs) \<and>
     s_inodes_per_group (fs_super fs') = s_inodes_per_group (fs_super fs) \<and>
     s_inodes_count (fs_super fs') = s_inodes_count (fs_super fs)"

lemma frame_same: "same_fs fs fs' \<Longrightarrow> frame fs fs'"
  by (simp add: frame_def same_fsD csum_after)

lemma frame_stats: "frame fs (stats_fs fs a hi c fl)"
  by (simp add: frame_def stats_sb(2,5))

lemma frame_maps: "frame fs (fs\<lparr>fs_inode_map := m\<rparr>)" "frame fs (fs\<lparr>fs_block_map := m\<rparr>)"
  by (simp_all add: frame_def groups_ok_def ext2fs_has_group_desc_csum_def)

lemma frame_trans: "frame a b \<Longrightarrow> frame b c \<Longrightarrow> frame a c"
  by (simp add: frame_def)

lemma blocks_inv_frame:
  assumes inv: "blocks_inv fs" and fr: "frame fs fs'" and f: "fs_block_map fs' = Some g'" "fs_block_map fs = Some g" "block_map_ok fs g'" "gb_set g' = gb_set g"
    "ext2fs_free_blocks_count (fs_super fs') = ext2fs_free_blocks_count (fs_super fs)"
    and get: "\<And>h. in_groups fs h \<Longrightarrow> ext2fs_bg_free_blocks_count fs' h = ext2fs_bg_free_blocks_count fs h"
  shows "blocks_inv fs'"
proof -
  have i: "in_groups fs' h = in_groups fs h" for h using fr by (simp add: in_groups_def frame_def)
  have b: "fs_block fs' = fs_block fs" "group_clusters fs' = group_clusters fs" "alloc_clusters_ok fs' = alloc_clusters_ok fs"
    using fr by (auto simp: fs_block_def group_clusters_def alloc_clusters_ok_def geometry_ok_def frame_def)
  have "group_total ext2fs_bg_free_blocks_count fs' = group_total ext2fs_bg_free_blocks_count fs"
    unfolding group_total_def using fr in_groups_nat get by (auto simp: frame_def intro!: sum.cong)
  then show ?thesis using inv f fr get
    by (auto simp: blocks_inv_def b i block_map_ok_def EXT2FS_B2C_def free_clusters_def frame_def low_64_def)
qed

lemma inodes_inv_frame:
  assumes inv: "inodes_inv fs" and fr: "frame fs fs'" and f: "fs_inode_map fs' = Some g'" "fs_inode_map fs = Some g" "inode_map_ok fs g'" "gb_set g' = gb_set g"
    "s_free_inodes_count (fs_super fs') = s_free_inodes_count (fs_super fs)"
    and get: "\<And>h. in_groups fs h \<Longrightarrow> ext2fs_bg_free_inodes_count fs' h = ext2fs_bg_free_inodes_count fs h"
    and desc: "\<And>h. in_groups fs h \<Longrightarrow> ext2fs_has_group_desc_csum fs \<Longrightarrow> inode_desc_ok fs (gb_set g) h \<Longrightarrow> inode_desc_ok fs' (gb_set g) h"
  shows "inodes_inv fs'"
proof -
  have i: "in_groups fs' h = in_groups fs h" for h using fr by (simp add: in_groups_def frame_def)
  have b: "inodes_ok fs' = inodes_ok fs" "free_inodes_of fs' = free_inodes_of fs" "inode_map_ok fs' = inode_map_ok fs"
    using fr by (auto simp: inodes_ok_def inodes_fit_def free_inodes_of_def group_inodes_def inode_map_ok_def frame_def fun_eq_iff)
  have "group_total ext2fs_bg_free_inodes_count fs' = group_total ext2fs_bg_free_inodes_count fs"
    unfolding group_total_def using fr in_groups_nat get by (auto simp: frame_def intro!: sum.cong)
  moreover have "ext2fs_has_group_desc_csum fs' = ext2fs_has_group_desc_csum fs" using fr by (simp add: frame_def)
  ultimately show ?thesis using inv f get desc by (simp add: inodes_inv_def b i)
qed

lemma inode_desc_frame:
  assumes "frame fs fs'" "ext2fs_bg_itable_unused fs' h = ext2fs_bg_itable_unused fs h"
    "ext2fs_bg_flags fs' h AND EXT2_BG_INODE_UNINIT \<noteq> 0 \<Longrightarrow> ext2fs_bg_flags fs h AND EXT2_BG_INODE_UNINIT \<noteq> 0"
    "inode_desc_ok fs S h"
  shows "inode_desc_ok fs' S h"
  using assms by (auto simp: inode_desc_ok_def scanned_inodes_def group_inodes_def frame_def)

end
