(* ===== verification/Alloc_Examples.thy ===== *)
theory Alloc_Examples
  imports Alloc_Inode_Correct
begin

text \<open>
  A small consistent file system on which the properties of the allocator are applied: 40 blocks and 48 inodes in three groups.
  The blocks 12 to 15 and 33 to 38 are free; the inodes 1 to 8 and 20 are in use.
\<close>

definition ex_bmap :: generic_bitmap where
  "ex_bmap = Bitmap64 \<lparr>bm_magic = EXT2_ET_MAGIC_BLOCK_BITMAP64, bm_start = 0, bm_end = 39, bm_real_end = 39,
     bm_cluster_bits = 0, bm_description = None, bm_private = BA_private [0xFF, 0x0F, 0xFF, 0xFF, 0x81], bm_base_error_code = 0\<rparr>"

definition ex_alloc_fs :: ext2_filsys where
  "ex_alloc_fs = ex_fs\<lparr>fs_super := ex_sb\<lparr>s_inodes_count := 48, s_free_blocks_count := 10, s_free_inodes_count := 39\<rparr>,
     fs_group_desc := [ex_gd\<lparr>bg_free_blocks_count := 4, bg_free_inodes_count := 8\<rparr>,
       ex_gd\<lparr>bg_free_blocks_count := 0, bg_free_inodes_count := 15\<rparr>,
       ex_gd\<lparr>bg_free_blocks_count := 6, bg_free_inodes_count := 16\<rparr>],
     fs_block_map := Some ex_bmap, fs_inode_map := Some ex_imap\<rparr>"

lemma card_words:
  assumes "hi \<le> 2 ^ LENGTH('a)"
  shows "card {c :: 'a::len word. lo \<le> unat c \<and> unat c < hi \<and> P (unat c)} = length (filter P [lo..<hi])"
proof -
  have "{c :: 'a word. lo \<le> unat c \<and> unat c < hi \<and> P (unat c)} = word_of_nat ` set (filter P [lo..<hi])" (is "?A = _ ` ?B")
  proof (rule set_eqI, rule iffI)
    fix c :: "'a word" assume "c \<in> ?A"
    then have "c = word_of_nat (unat c)" "unat c \<in> ?B" by simp_all
    then show "c \<in> word_of_nat ` ?B" by blast
  next
    fix c :: "'a word" assume "c \<in> word_of_nat ` ?B"
    then show "c \<in> ?A" using assms by (auto simp: unat_of_nat)
  qed
  moreover have "inj_on (word_of_nat :: nat \<Rightarrow> 'a word) ?B"
  proof (rule inj_onI)
    fix x y assume "x \<in> ?B" "y \<in> ?B" "word_of_nat x = (word_of_nat y :: 'a word)"
    then show "x = y" using assms by (auto simp: word_unat_eq_iff unat_of_nat)
  qed
  moreover have "card ?B = length (filter P [lo..<hi])" by (rule distinct_card) simp
  ultimately show ?thesis by (simp only: card_image)
qed

lemma ex_alloc_fields [simp]:
  "s_first_data_block (fs_super ex_alloc_fs) = 0" "s_blocks_per_group (fs_super ex_alloc_fs) = 16" "fs_cluster_ratio_bits ex_alloc_fs = 0"
  "fs_group_desc_count ex_alloc_fs = 3" "s_inodes_per_group (fs_super ex_alloc_fs) = 16" "s_inodes_count (fs_super ex_alloc_fs) = 48"
  "s_free_inodes_count (fs_super ex_alloc_fs) = 39" "fs_block_map ex_alloc_fs = Some ex_bmap" "fs_inode_map ex_alloc_fs = Some ex_imap"
  "length (fs_group_desc ex_alloc_fs) = 3" "fs_magic ex_alloc_fs = EXT2_ET_MAGIC_EXT2FS_FILSYS"
  "EXT2_FIRST_INODE (fs_super ex_alloc_fs) = 11"
  by (simp_all add: ex_alloc_fs_def ex_fs_def ex_sb_def EXT2_FIRST_INODE_def)

lemma ex_alloc_counts [simp]:
  "ext2fs_blocks_count (fs_super ex_alloc_fs) = 40" "ext2fs_free_blocks_count (fs_super ex_alloc_fs) = 10"
  "\<not> ext2fs_has_group_desc_csum ex_alloc_fs" "\<not> ext2fs_has_feature_64bit (fs_super ex_alloc_fs)"
  by (simp_all add: ex_alloc_fs_def ex_fs_def ex_sb_def ext2fs_blocks_count_def ext2fs_free_blocks_count_def ext2fs_has_group_desc_csum_def
      ext2fs_has_feature_64bit_def ext2fs_has_feature_metadata_csum_def ext2fs_has_feature_gdt_csum_def)

lemma ex_groups: "in_groups ex_alloc_fs grp \<longleftrightarrow> grp = 0 \<or> grp = 1 \<or> grp = 2"
proof -
  have "unat grp < 3 \<longleftrightarrow> unat grp = 0 \<or> unat grp = 1 \<or> unat grp = 2" by linarith
  then show ?thesis by (simp add: in_groups_def word_less_nat_alt word_unat_eq_iff)
qed

lemma ex_desc:
  "ext2fs_bg_free_blocks_count ex_alloc_fs 0 = 4" "ext2fs_bg_free_blocks_count ex_alloc_fs 1 = 0" "ext2fs_bg_free_blocks_count ex_alloc_fs 2 = 6"
  "ext2fs_bg_free_inodes_count ex_alloc_fs 0 = 8" "ext2fs_bg_free_inodes_count ex_alloc_fs 1 = 15" "ext2fs_bg_free_inodes_count ex_alloc_fs 2 = 16"
  by (simp_all add: ex_alloc_fs_def ex_fs_def ex_gd_def ex_sb_def ext2fs_bg_free_blocks_count_def ext2fs_bg_free_inodes_count_def
      ext2fs_group_desc_def ext2fs_has_feature_64bit_def)

lemma ex_bmap_ok: "gb_ok ex_bmap" "gb_bits ex_bmap = 0" "gb_in ex_bmap c \<longleftrightarrow> unat c < 40"
  "c \<in> gb_set ex_bmap \<longleftrightarrow> unat c < 40 \<and> bit_at [0xFF, 0x0F, 0xFF, 0xFF, 0x81] (unat c)"
  by (auto simp: ex_bmap_def valid_64_def valid_ba_def header_ok_def ba_size_def EXT2FS_IS_64_BITMAP_def gb_in_def marked_64_def
      marked_ba_def ba_priv_def in_range_def word_le_nat_alt)

lemma ex_imap_set: "gb_in ex_imap (ucast ino) \<longleftrightarrow> 1 \<le> unat (ino :: u32) \<and> unat ino \<le> 48"
  "ucast ino \<in> gb_set ex_imap \<longleftrightarrow> 1 \<le> unat ino \<and> unat ino \<le> 48 \<and> bit_at [0xFF, 0, 8, 0, 0, 0] (unat ino - 1)"
  by (auto simp: ex_imap_def gb_in_def marked_64_def marked_ba_def ba_priv_def in_range_def word_le_nat_alt)

lemma ex_card_clusters:
  assumes "unat grp < 3"
  shows "card (free_clusters ex_alloc_fs (gb_set ex_bmap) grp) =
    length (filter (\<lambda>n. \<not> bit_at [0xFF, 0x0F, 0xFF, 0xFF, 0x81] n) [16 * unat grp..<min 40 (16 * unat grp + 16)])"
proof -
  have "x div 16 = unat grp \<longleftrightarrow> 16 * unat grp \<le> x \<and> x < 16 * unat grp + 16" for x
    by (intro iffI conjI; (elim conjE)?; linarith)
  then have "free_clusters ex_alloc_fs (gb_set ex_bmap) grp =
     {c. 16 * unat grp \<le> unat c \<and> unat c < min 40 (16 * unat grp + 16) \<and> \<not> bit_at [0xFF, 0x0F, 0xFF, 0xFF, 0x81] (unat c)}"
    by (auto simp: free_clusters_def group_clusters_def ex_bmap_ok)
  then show ?thesis by (simp only:) (rule card_words, simp)
qed

lemma ex_card_inodes:
  assumes "unat grp < 3"
  shows "card (free_inodes_of ex_alloc_fs (gb_set ex_imap) grp) =
    length (filter (\<lambda>n. \<not> bit_at [0xFF, 0, 8, 0, 0, 0] (n - 1)) [16 * unat grp + 1..<16 * unat grp + 17])"
proof -
  have "free_inodes_of ex_alloc_fs (gb_set ex_imap) grp =
     {ino. 16 * unat grp + 1 \<le> unat ino \<and> unat ino < 16 * unat grp + 17 \<and> \<not> bit_at [0xFF, 0, 8, 0, 0, 0] (unat ino - 1)}"
    using assms by (auto simp: free_inodes_of_def group_inodes_def ex_imap_set)
  then show ?thesis using assms by (simp only:) (rule card_words, simp)
qed

lemma ex_free_numbers:
  "length (filter (\<lambda>n. \<not> bit_at [0xFF, 0x0F, 0xFF, 0xFF, 0x81] n) [0..<16]) = 4"
  "length (filter (\<lambda>n. \<not> bit_at [0xFF, 0x0F, 0xFF, 0xFF, 0x81] n) [16..<32]) = 0"
  "length (filter (\<lambda>n. \<not> bit_at [0xFF, 0x0F, 0xFF, 0xFF, 0x81] n) [32..<40]) = 6"
  "length (filter (\<lambda>n. \<not> bit_at [0xFF, 0, 8, 0, 0, 0] (n - 1)) [1..<17]) = 8"
  "length (filter (\<lambda>n. \<not> bit_at [0xFF, 0, 8, 0, 0, 0] (n - 1)) [17..<33]) = 15"
  "length (filter (\<lambda>n. \<not> bit_at [0xFF, 0, 8, 0, 0, 0] (n - 1)) [33..<49]) = 16"
  by code_simp+

lemma ex_counts:
  assumes "in_groups ex_alloc_fs grp"
  shows "card (free_clusters ex_alloc_fs (gb_set ex_bmap) grp) = unat (ext2fs_bg_free_blocks_count ex_alloc_fs grp)"
    "card (free_inodes_of ex_alloc_fs (gb_set ex_imap) grp) = unat (ext2fs_bg_free_inodes_count ex_alloc_fs grp)"
proof -
  have u: "unat grp < 3" using assms by (simp add: in_groups_def word_less_nat_alt)
  have g: "grp = 0 \<or> grp = 1 \<or> grp = 2" using assms by (simp only: ex_groups)
  show "card (free_clusters ex_alloc_fs (gb_set ex_bmap) grp) = unat (ext2fs_bg_free_blocks_count ex_alloc_fs grp)"
    using g unfolding ex_card_clusters [OF u] by (elim disjE) (simp_all add: ex_desc ex_free_numbers [simplified])
  show "card (free_inodes_of ex_alloc_fs (gb_set ex_imap) grp) = unat (ext2fs_bg_free_inodes_count ex_alloc_fs grp)"
    using g unfolding ex_card_inodes [OF u] by (elim disjE) (simp_all add: ex_desc ex_free_numbers [simplified])
qed

lemma ex_total: "group_total get ex_alloc_fs = unat (get ex_alloc_fs 0) + unat (get ex_alloc_fs 1) + unat (get ex_alloc_fs 2)"
proof -
  have "{..<3 :: nat} = {0, 1, 2}" by auto
  then show ?thesis by (simp add: group_total_def)
qed

lemma ex_blocks_inv: "blocks_inv ex_alloc_fs"
proof -
  have "alloc_clusters_ok ex_alloc_fs" by (simp add: alloc_clusters_ok_def geometry_ok_def groups_ok_def)
  moreover have "block_map_ok ex_alloc_fs ex_bmap" by (simp add: block_map_ok_def ex_bmap_ok fs_block_def EXT2FS_B2C_def)
  moreover have "group_total ext2fs_bg_free_blocks_count ex_alloc_fs = 10" by (simp add: ex_total ex_desc)
  ultimately show ?thesis by (auto simp: blocks_inv_def ex_counts low_64_def)
qed

lemma ex_inodes_inv: "inodes_inv ex_alloc_fs"
proof -
  have "inodes_ok ex_alloc_fs" by (simp add: inodes_ok_def inodes_fit_def groups_ok_def)
  moreover have "inode_map_ok ex_alloc_fs ex_imap" by (simp add: inode_map_ok_def ex_imap_ok ex_imap_set word_le_nat_alt)
  moreover have "group_total ext2fs_bg_free_inodes_count ex_alloc_fs = 39" by (simp add: ex_total ex_desc)
  ultimately show ?thesis by (auto simp: inodes_inv_def ex_counts)
qed

lemma ex_csums: "csums_ok ex_alloc_fs"
  by (simp add: csums_ok_def ext2fs_group_desc_csum_verify_def)

definition ex_hooks :: "unit alloc_hooks" where
  "ex_hooks = \<lparr>get_alloc_block = None, block_alloc_stats = None, get_alloc_block2 = None, block_alloc_stats_range = None, new_range = None\<rparr>"

lemma ex_block: "fs_block ex_alloc_fs b \<longleftrightarrow> unat b < 40" "EXT2FS_B2C ex_alloc_fs b = b"
  by (simp_all add: fs_block_def EXT2FS_B2C_def)

lemma ex_block_used: "block_used ex_alloc_fs b \<longleftrightarrow> unat b < 40 \<and> bit_at [0xFF, 0x0F, 0xFF, 0xFF, 0x81] (unat b)"
  by (simp add: block_used_def ex_bmap_ok EXT2FS_B2C_def)

end
