(* ===== verification/Alloc_Inv.thy ===== *)
theory Alloc_Inv
  imports Alloc Alloc_Examples
begin

text \<open>
  The invariant of the allocation state and the steps that keep it: using and releasing blocks and inodes, the
  search for a block, and writing the checksums of all descriptors. The reachable states satisfy it.
\<close>

definition fs_inv :: "ext2_filsys \<Rightarrow> bool" where
  "fs_inv fs \<longleftrightarrow> blocks_inv fs \<and> inodes_inv fs \<and> csums_ok fs"

section \<open>Checksums\<close>

lemma csums_ok_step:
  assumes "csums_ok fs" "same_fs fs fs1" "ext2fs_group_desc_csum_verify fs1 grp"
    and "\<And>h. in_groups fs h \<Longrightarrow> h \<noteq> grp \<Longrightarrow> ext4fs_group_desc fs1 h = ext4fs_group_desc fs h"
  shows "csums_ok fs1"
  unfolding csums_ok_def
proof (intro allI impI)
  fix h assume "in_groups fs1 h"
  then have h: "in_groups fs h" using same_fsD(11) [OF assms(2)] by simp
  show "ext2fs_group_desc_csum_verify fs1 h"
  proof (cases "h = grp")
    case False
    with desc_cong(1) [OF assms(4) [OF h] same_fsD(3) [OF assms(2)] same_fs_seed [OF assms(2)]] assms(1) h
    show ?thesis by (simp add: csums_ok_def)
  qed (use assms(3) in simp)
qed

lemma csums_ok_frame [simp]:
  "csums_ok (stats_fs fs a hi c fl) = csums_ok fs" "csums_ok (fs\<lparr>fs_inode_map := m\<rparr>) = csums_ok fs"
  "csums_ok (fs\<lparr>fs_block_map := m\<rparr>) = csums_ok fs"
proof -
  have "ext2fs_group_desc_csum_verify (fs\<lparr>fs_inode_map := m\<rparr>) h = ext2fs_group_desc_csum_verify fs h"
    "ext2fs_group_desc_csum_verify (fs\<lparr>fs_block_map := m\<rparr>) h = ext2fs_group_desc_csum_verify fs h" for h
    by (rule desc_cong; simp add: ext2fs_group_desc_def)+
  then show "csums_ok (fs\<lparr>fs_inode_map := m\<rparr>) = csums_ok fs" "csums_ok (fs\<lparr>fs_block_map := m\<rparr>) = csums_ok fs"
    by (simp_all add: csums_ok_def in_groups_def)
qed (simp add: csums_ok_def)

section \<open>A block call and the inode side, an inode call and the block side\<close>

lemma block_stats_rest:
  fixes inuse :: int
  assumes inv: "fs_inv fs" and h: "block_alloc_stats hooks = None" and b: "fs_block fs b"
    and m: "snd ((if inuse > 0 then ext2fs_mark_block_bitmap2 else ext2fs_unmark_block_bitmap2) (fs_block_map fs) b) = Some g'"
  shows "inodes_inv (ext2fs_block_alloc_stats2 hooks fs b inuse)" "csums_ok (ext2fs_block_alloc_stats2 hooks fs b inuse)"
    "frame fs (ext2fs_block_alloc_stats2 hooks fs b inuse)" "fs_inode_map (ext2fs_block_alloc_stats2 hooks fs b inuse) = fs_inode_map fs"
    "fs_block_map (ext2fs_block_alloc_stats2 hooks fs b inuse) = Some g'"
proof -
  let ?grp = "ext2fs_group_of_blk2 fs b" and ?fs0 = "fs\<lparr>fs_block_map := Some g'\<rparr>"
  let ?n = "ext2fs_bg_free_blocks_count fs (ext2fs_group_of_blk2 fs b) - word_of_int inuse"
  have inv': "blocks_inv fs" "inodes_inv fs" "csums_ok fs" using inv by (simp_all add: fs_inv_def)
  have bb: "unat b < fs_blocks fs" using b by (simp add: fs_block_def)
  obtain a hi c fl where e: "ext2fs_block_alloc_stats2 hooks fs b inuse = stats_fs (block_step ?fs0 ?grp ?n) a hi c fl"
    "s_free_inodes_count (fs_super (ext2fs_block_alloc_stats2 hooks fs b inuse)) = s_free_inodes_count (fs_super fs)"
    by (rule block_stats_step [OF h bb refl m])
  have ok0: "groups_ok ?fs0" using inv'(1) by (simp add: blocks_inv_def alloc_clusters_ok_def groups_ok_def)
  have i0: "in_groups ?fs0 ?grp" using block_cell [OF inv'(1) b] by (metis in_groups_def ext2_filsys.select_convs(5) ext2_filsys.surjective ext2_filsys.update_convs(8))
  note st = block_step_effect [OF ok0 i0, where n = ?n]
  have fr: "frame fs (block_step ?fs0 ?grp ?n)" by (rule frame_trans [OF frame_maps(2) frame_same [OF st(1)]])
  show fr': "frame fs (ext2fs_block_alloc_stats2 hooks fs b inuse)" unfolding e by (rule frame_trans [OF fr frame_stats])
  show im: "fs_inode_map (ext2fs_block_alloc_stats2 hooks fs b inuse) = fs_inode_map fs"
    and "fs_block_map (ext2fs_block_alloc_stats2 hooks fs b inuse) = Some g'"
    using same_fsD(6,7) [OF st(1)] by (simp_all add: e)
  show "csums_ok (ext2fs_block_alloc_stats2 hooks fs b inuse)"
    unfolding e csums_ok_frame by (rule csums_ok_step [OF _ st(1,2,5)]) (simp_all add: inv')
  obtain g where g: "fs_inode_map fs = Some g" "inode_map_ok fs g" using inv'(2) by (auto simp: inodes_inv_def)
  have r0: "in_groups ?fs0 k = in_groups fs k" "ext2fs_bg_free_inodes_count ?fs0 k = ext2fs_bg_free_inodes_count fs k"
      "ext2fs_bg_itable_unused ?fs0 k = ext2fs_bg_itable_unused fs k" "ext2fs_bg_flags ?fs0 k = ext2fs_bg_flags fs k" for k
    by (simp_all add: in_groups_def readers ext2fs_group_desc_def)
  show "inodes_inv (ext2fs_block_alloc_stats2 hooks fs b inuse)"
  proof (rule inodes_inv_frame [OF inv'(2) fr' _ g refl e(2)])
    show "fs_inode_map (ext2fs_block_alloc_stats2 hooks fs b inuse) = Some g" using im g by simp
    fix k assume k: "in_groups fs k"
    then show "ext2fs_bg_free_inodes_count (ext2fs_block_alloc_stats2 hooks fs b inuse) k = ext2fs_bg_free_inodes_count fs k"
      using st(4) [of k] by (simp add: e r0)
    assume d: "inode_desc_ok fs (gb_set g) k"
    have "inode_desc_ok (block_step ?fs0 ?grp ?n) (gb_set g) k"
      by (rule inode_desc_frame [OF fr _ _ d]) (use st(6,7) [of k] k in \<open>simp_all add: r0\<close>)
    then show "inode_desc_ok (ext2fs_block_alloc_stats2 hooks fs b inuse) (gb_set g) k" by (simp add: e)
  qed
qed

lemma inode_stats_rest:
  fixes inuse :: int
  assumes inv: "fs_inv fs" and i: "1 \<le> ino" "ino \<le> s_inodes_count (fs_super fs)"
    and m: "snd ((if inuse > 0 then ext2fs_mark_inode_bitmap2 else ext2fs_unmark_inode_bitmap2) (fs_inode_map fs) ino) = Some g'"
  shows "blocks_inv (ext2fs_inode_alloc_stats2 fs ino inuse isdir)" "csums_ok (ext2fs_inode_alloc_stats2 fs ino inuse isdir)"
    "frame fs (ext2fs_inode_alloc_stats2 fs ino inuse isdir)"
proof -
  let ?fs0 = "fs\<lparr>fs_inode_map := Some g'\<rparr>"
  define grp where "grp = ext2fs_group_of_ino fs ino"
  have inv': "blocks_inv fs" "inodes_inv fs" "csums_ok fs" using inv by (simp_all add: fs_inv_def)
  have ok: "inodes_ok fs" "groups_ok fs" using inv'(2) by (simp_all add: inodes_inv_def inodes_ok_def)
  have ig: "in_groups fs grp" unfolding grp_def by (rule group_of_ino(1) [OF ok(1) i])
  obtain n dn w a hi c fl where e: "ext2fs_inode_alloc_stats2 fs ino inuse isdir = stats_fs (inode_step ?fs0 grp n dn w) a hi c fl"
    "ext2fs_free_blocks_count (fs_super (ext2fs_inode_alloc_stats2 fs ino inuse isdir)) = ext2fs_free_blocks_count (fs_super fs)"
    by (rule inode_stats_step [OF ok(2) ig grp_def i(2) m, of isdir]) blast
  have ok0: "groups_ok ?fs0" "in_groups ?fs0 grp" using ok ig by simp_all
  note st = inode_step_effect [OF ok0, where n = n and dn = dn and w = w]
  show fr: "frame fs (ext2fs_inode_alloc_stats2 fs ino inuse isdir)"
    unfolding e by (rule frame_trans [OF frame_trans [OF frame_maps(1) frame_same [OF st(1)]] frame_stats])
  show "csums_ok (ext2fs_inode_alloc_stats2 fs ino inuse isdir)"
    unfolding e csums_ok_frame by (rule csums_ok_step [OF _ st(1,2,5)]) (simp_all add: inv')
  obtain g where g: "fs_block_map fs = Some g" "block_map_ok fs g" using inv'(1) by (auto simp: blocks_inv_def)
  show "blocks_inv (ext2fs_inode_alloc_stats2 fs ino inuse isdir)"
  proof (rule blocks_inv_frame [OF inv'(1) fr _ g refl e(2)])
    show "fs_block_map (ext2fs_inode_alloc_stats2 fs ino inuse isdir) = Some g" using same_fsD(7) [OF st(1)] g(1) by (simp add: e)
    show "ext2fs_bg_free_blocks_count (ext2fs_inode_alloc_stats2 fs ino inuse isdir) h = ext2fs_bg_free_blocks_count fs h"
      if "in_groups fs h" for h
      using st(4) [of h] that by (simp add: e)
  qed
qed

section \<open>Clearing a flag\<close>

text \<open>A step that writes one descriptor, keeps its counters and sets its checksum.\<close>

lemma desc_step_inv:
  assumes inv: "fs_inv fs" and s1: "same_fs fs fs1" and v: "ext2fs_group_desc_csum_verify fs1 grp"
    and rd: "\<And>h. in_groups fs h \<Longrightarrow> ext2fs_bg_free_blocks_count fs1 h = ext2fs_bg_free_blocks_count fs h"
      "\<And>h. in_groups fs h \<Longrightarrow> ext2fs_bg_free_inodes_count fs1 h = ext2fs_bg_free_inodes_count fs h"
      "\<And>h. in_groups fs h \<Longrightarrow> ext2fs_bg_itable_unused fs1 h = ext2fs_bg_itable_unused fs h"
      "\<And>h. in_groups fs h \<Longrightarrow> ext2fs_bg_flags fs1 h AND EXT2_BG_INODE_UNINIT \<noteq> 0 \<Longrightarrow> ext2fs_bg_flags fs h AND EXT2_BG_INODE_UNINIT \<noteq> 0"
      "\<And>h. in_groups fs h \<Longrightarrow> h \<noteq> grp \<Longrightarrow> ext4fs_group_desc fs1 h = ext4fs_group_desc fs h"
    and e: "fs' = stats_fs fs1 (s_free_blocks_count (fs_super fs)) (s_free_blocks_hi (fs_super fs)) (s_free_inodes_count (fs_super fs)) fl"
  shows "fs_inv fs'" "frame fs fs'" "fs_block_map fs' = fs_block_map fs" "fs_inode_map fs' = fs_inode_map fs"
proof -
  have inv': "blocks_inv fs" "inodes_inv fs" "csums_ok fs" using inv by (simp_all add: fs_inv_def)
  have fr1: "frame fs fs1" by (rule frame_same [OF s1])
  show fr: "frame fs fs'" unfolding e by (rule frame_trans [OF fr1 frame_stats])
  show m: "fs_block_map fs' = fs_block_map fs" "fs_inode_map fs' = fs_inode_map fs" using same_fsD(6,7) [OF s1] by (simp_all add: e)
  have cnt: "ext2fs_free_blocks_count (fs_super fs') = ext2fs_free_blocks_count (fs_super fs)"
      "s_free_inodes_count (fs_super fs') = s_free_inodes_count (fs_super fs)"
    unfolding e stats_sb(1) same_fsD(3) [OF s1] by (simp_all add: ext2fs_free_blocks_count_def ext2fs_has_feature_64bit_def)
  obtain g where g: "fs_block_map fs = Some g" "block_map_ok fs g" using inv'(1) by (auto simp: blocks_inv_def)
  obtain gi where gi: "fs_inode_map fs = Some gi" "inode_map_ok fs gi" using inv'(2) by (auto simp: inodes_inv_def)
  have "blocks_inv fs'"
    by (rule blocks_inv_frame [OF inv'(1) fr m(1) [unfolded g(1)] g refl cnt(1)]) (simp add: e rd)
  moreover have "inodes_inv fs'"
    by (rule inodes_inv_frame [OF inv'(2) fr m(2) [unfolded gi(1)] gi refl cnt(2)])
      (simp_all add: e rd inode_desc_frame [OF fr1 rd(3) rd(4)])
  moreover have "csums_ok fs'" unfolding e csums_ok_frame by (rule csums_ok_step [OF inv'(3) s1 v rd(5)])
  ultimately show "fs_inv fs'" by (simp add: fs_inv_def)
qed

lemma clear_flags_inv:
  assumes inv: "fs_inv fs" and ig: "in_groups fs grp"
    and fs1: "fs1 = ext2fs_group_desc_csum_set (gd_upd (\<lambda>gdp. gdp\<lparr>bg_flags := bg_flags gdp AND m\<rparr>) fs grp) grp"
    and e: "fs' = stats_fs fs1 (s_free_blocks_count (fs_super fs)) (s_free_blocks_hi (fs_super fs)) (s_free_inodes_count (fs_super fs)) fl"
  shows "fs_inv fs'" "frame fs fs'" "fs_block_map fs' = fs_block_map fs" "fs_inode_map fs' = fs_inode_map fs"
proof -
  have ok: "groups_ok fs" using inv by (simp add: fs_inv_def inodes_inv_def inodes_ok_def)
  have v: "ext2fs_group_desc_csum_verify fs1 grp"
    unfolding fs1 using ok ig by (intro group_desc_set_ok upd_ok)
  have s1: "same_fs fs fs1" unfolding fs1 writers(6) by (rule same_fs_trans [OF gd_upd_same gd_upd_same])
  have w: "(x AND m) AND EXT2_BG_INODE_UNINIT \<noteq> 0 \<Longrightarrow> x AND EXT2_BG_INODE_UNINIT \<noteq> 0" for x :: u16
    by (metis and.assoc and.commute and_zero_eq)
  have rd: "ext2fs_bg_free_blocks_count fs1 h = ext2fs_bg_free_blocks_count fs h" "ext2fs_bg_free_inodes_count fs1 h = ext2fs_bg_free_inodes_count fs h"
      "ext2fs_bg_itable_unused fs1 h = ext2fs_bg_itable_unused fs h"
      "ext2fs_bg_flags fs1 h AND EXT2_BG_INODE_UNINIT \<noteq> 0 \<Longrightarrow> ext2fs_bg_flags fs h AND EXT2_BG_INODE_UNINIT \<noteq> 0"
      "h \<noteq> grp \<Longrightarrow> ext4fs_group_desc fs1 h = ext4fs_group_desc fs h" if "in_groups fs h" for h
    using ok ig that w by (auto simp: fs1 readers writers gd_upd_upd gd_upd_nth same_fsD(3) [OF gd_upd_same] Let_def split: if_splits)
  show "fs_inv fs'" "frame fs fs'" "fs_block_map fs' = fs_block_map fs" "fs_inode_map fs' = fs_inode_map fs"
    by (rule desc_step_inv [OF inv s1 v rd e]; assumption)+
qed

lemma clear_uninit_inv:
  assumes inv: "fs_inv fs"
  shows "fs_inv (ext2fs_clear_block_uninit fs grp) \<and> frame fs (ext2fs_clear_block_uninit fs grp) \<and>
    fs_block_map (ext2fs_clear_block_uninit fs grp) = fs_block_map fs \<and> fs_inode_map (ext2fs_clear_block_uninit fs grp) = fs_inode_map fs"
    (is "fs_inv ?fs' \<and> _")
proof (cases "grp \<ge> fs_group_desc_count fs \<or> \<not> ext2fs_has_group_desc_csum fs \<or> ext2fs_bg_flags_test fs grp EXT2_BG_BLOCK_UNINIT = 0")
  case True
  then show ?thesis using inv by (simp add: ext2fs_clear_block_uninit_def frame_def)
next
  case False
  then have ig: "in_groups fs grp" by (simp add: in_groups_def not_le)
  define fs1 where "fs1 = ext2fs_group_desc_csum_set (ext2fs_bg_flags_clear fs grp EXT2_BG_BLOCK_UNINIT) grp"
  have "same_fs fs fs1" unfolding fs1_def writers(5,6) by (rule same_fs_trans [OF gd_upd_same gd_upd_same])
  then have "?fs' = stats_fs fs1 (s_free_blocks_count (fs_super fs)) (s_free_blocks_hi (fs_super fs)) (s_free_inodes_count (fs_super fs)) (fs_flags ?fs')"
    using False same_fsD(3) by (intro ext2_filsys.equality)
      (simp_all add: ext2fs_clear_block_uninit_def fs1_def [symmetric] ext2fs_mark_bb_dirty_def ext2fs_mark_super_dirty_def stats_fs_def)
  from clear_flags_inv [OF inv ig fs1_def [unfolded ext2fs_bg_flags_clear_def] this] show ?thesis by blast
qed

lemma flags_inv:
  assumes inv: "fs_inv fs"
  shows "fs_inv (stats_fs fs (s_free_blocks_count (fs_super fs)) (s_free_blocks_hi (fs_super fs)) (s_free_inodes_count (fs_super fs)) fl)"
    (is "fs_inv ?fs'")
proof -
  have inv': "blocks_inv fs" "inodes_inv fs" "csums_ok fs" using inv by (simp_all add: fs_inv_def)
  obtain g where g: "fs_block_map fs = Some g" "block_map_ok fs g" using inv'(1) by (auto simp: blocks_inv_def)
  obtain gi where gi: "fs_inode_map fs = Some gi" "inode_map_ok fs gi" using inv'(2) by (auto simp: inodes_inv_def)
  have "blocks_inv ?fs'"
    by (rule blocks_inv_frame [OF inv'(1) frame_stats _ g refl])
      (simp_all add: g stats_sb(1) ext2fs_free_blocks_count_def ext2fs_has_feature_64bit_def)
  moreover have "inodes_inv ?fs'" by (rule inodes_inv_frame [OF inv'(2) frame_stats _ gi refl]) (simp_all add: gi stats_sb(1))
  ultimately show ?thesis using inv'(3) by (simp add: fs_inv_def)
qed

section \<open>Writing all checksums\<close>

lemma group_inode_in:
  assumes "inodes_ok fs" "inode_map_ok fs g" "in_groups fs h" "ino \<in> group_inodes fs h"
  shows "gb_in g (ucast ino)"
proof -
  have "(unat h + 1) * unat (s_inodes_per_group (fs_super fs)) \<le> unat (fs_group_desc_count fs) * unat (s_inodes_per_group (fs_super fs))"
    using assms(3) by (intro mult_le_mono1) (simp add: in_groups_def word_less_nat_alt)
  then have "1 \<le> unat ino" "unat ino \<le> unat (s_inodes_count (fs_super fs))"
    using assms(1,4) by (auto simp: inodes_ok_def group_inodes_def)
  then show ?thesis using assms(2) by (simp add: inode_map_ok_def word_le_nat_alt)
qed

lemma set_gdt_csum_inv:
  assumes inv: "fs_inv fs" and r: "ext2fs_set_gdt_csum fs = Some (e, fs')"
  shows "fs_inv fs' \<and> e = 0 \<and> fs_block_map fs' = fs_block_map fs"
proof (cases "ext2fs_has_group_desc_csum fs")
  case False
  obtain g where "fs_inode_map fs = Some g" using inv by (auto simp: fs_inv_def inodes_inv_def)
  with False r inv show ?thesis by (simp add: ext2fs_set_gdt_csum_def)
next
  case cs: True
  have inv': "blocks_inv fs" "inodes_inv fs" using inv by (simp_all add: fs_inv_def)
  obtain g where g: "fs_inode_map fs = Some g" "inode_map_ok fs g" using inv'(2) by (auto simp: inodes_inv_def)
  have cnt: "unat (ext2fs_bg_free_inodes_count fs h) = card (free_inodes_of fs (gb_set g) h)" if "in_groups fs h" for h
    using inv'(2) g(1) that by (auto simp: inodes_inv_def)
  have ok: "inodes_ok fs" "groups_ok fs" "inodes_fit fs" using inv'(2) by (simp_all add: inodes_inv_def inodes_ok_def)
  have gb: "gb_ok g" "gb_bits g = 0" using g(2) by (simp_all add: inode_map_ok_def)
  obtain d fs2 where d: "ext2fs_set_gdt_csum fs = Some (0, if d then ext2fs_mark_super_dirty fs2 else fs2)"
      "gdt_done fs g fs2 (unat (fs_group_desc_count fs))"
    by (rule set_gdt_csum_done [OF ok(2,3) g(1) gb cs])
  note D = d(2) [unfolded gdt_done_def]
  obtain g' where g': "fs_inode_map fs2 = Some g'" "same_map g g'" using D by blast
  have lt: "unat h < unat (fs_group_desc_count fs)" if "in_groups fs h" for h using that by (simp add: in_groups_def word_less_nat_alt)
  have fr: "frame fs fs2" using D ok(2) by (simp add: frame_def ext2fs_has_group_desc_csum_def)
  have "inode_desc_ok fs2 (gb_set g) h" if h: "in_groups fs h" for h
  proof -
    have gi: "group_inodes fs2 h = group_inodes fs h" using D by (simp add: group_inodes_def)
    have none: "{ino \<in> group_inodes fs h. ino \<in> ucast -` gb_set g} = {}" if "ext2fs_bg_free_inodes_count fs h = s_inodes_per_group (fs_super fs)"
      by (rule all_free) (use cnt [OF h] that in simp)
    have u: "{ino \<in> group_inodes fs h. ino \<in> ucast -` gb_set g} = {ino \<in> group_inodes fs h. inode_used g ino}"
      using group_inode_in [OF ok(1) g(2) h] by (auto simp: inode_used_def)
    have "fs_super fs2 = fs_super fs" "unat (ext2fs_bg_itable_unused fs2 h) \<le> unat (s_inodes_per_group (fs_super fs))"
      "ext2fs_bg_free_inodes_count fs h \<noteq> s_inodes_per_group (fs_super fs) \<Longrightarrow> {ino \<in> group_inodes fs h. inode_used g ino} \<subseteq> scanned_inodes fs2 h"
      "ext2fs_bg_flags fs2 h AND EXT2_BG_INODE_UNINIT \<noteq> 0 \<Longrightarrow> ext2fs_bg_free_inodes_count fs h = s_inodes_per_group (fs_super fs)"
      using D h lt [OF h] by simp_all
    then show ?thesis unfolding inode_desc_ok_def gi u using none [unfolded u]
      by (cases "ext2fs_bg_free_inodes_count fs h = s_inodes_per_group (fs_super fs)") auto
  qed
  moreover have "inode_map_ok fs g'" using g(2) same_mapD [OF g'(2)] gb_sameD(4) g'(2) by (auto simp: inode_map_ok_def same_map_def)
  ultimately have "inodes_inv fs2"
    using D by (intro inodes_inv_frame [OF inv'(2) fr g'(1) g(1) _ same_mapD(4) [OF g'(2)]]) simp_all
  moreover obtain gb where "fs_block_map fs = Some gb" "block_map_ok fs gb" using inv'(1) by (auto simp: blocks_inv_def)
  then have "blocks_inv fs2"
    using D by (intro blocks_inv_frame [OF inv'(1) fr _ _ _ refl]) simp_all
  moreover have "csums_ok fs2" using D lt by (simp add: csums_ok_def in_groups_def)
  ultimately have i2: "fs_inv fs2" by (simp add: fs_inv_def)
  have "ext2fs_mark_super_dirty fs2 = stats_fs fs2 (s_free_blocks_count (fs_super fs2)) (s_free_blocks_hi (fs_super fs2))
      (s_free_inodes_count (fs_super fs2)) (fs_flags (ext2fs_mark_super_dirty fs2))"
    by (rule ext2_filsys.equality) (simp_all add: ext2fs_mark_super_dirty_def stats_fs_def)
  then have "fs_inv (ext2fs_mark_super_dirty fs2)" using flags_inv [OF i2] by metis
  with i2 r d(1) D show ?thesis by (auto simp: ext2fs_mark_super_dirty_def)
qed

section \<open>Steps and reachable states\<close>

text \<open>A handle without callbacks.\<close>

definition no_hooks :: "'c alloc_hooks \<Rightarrow> bool" where
  "no_hooks hooks \<longleftrightarrow> get_alloc_block hooks = None \<and> get_alloc_block2 hooks = None \<and> block_alloc_stats hooks = None \<and>
     block_alloc_stats_range hooks = None \<and> new_range hooks = None"

definition inode_in_use :: "ext2_filsys \<Rightarrow> u32 \<Rightarrow> bool" where
  "inode_in_use fs ino \<longleftrightarrow> (\<exists>g. fs_inode_map fs = Some g \<and> ucast ino \<in> gb_set g)"

text \<open>The calls of a client that only uses what is free and only releases what is in use.\<close>

inductive alloc_step :: "'c alloc_hooks \<Rightarrow> ext2_filsys \<Rightarrow> ext2_filsys \<Rightarrow> bool" for hooks where
  use_block: "fs_block fs b \<Longrightarrow> \<not> block_used fs b \<Longrightarrow> alloc_step hooks fs (ext2fs_block_alloc_stats2 hooks fs b 1)"
| release_block: "fs_block fs b \<Longrightarrow> block_used fs b \<Longrightarrow> alloc_step hooks fs (ext2fs_block_alloc_stats2 hooks fs b (- 1))"
| use_inode: "1 \<le> ino \<Longrightarrow> ino \<le> s_inodes_count (fs_super fs) \<Longrightarrow> \<not> inode_in_use fs ino \<Longrightarrow>
    alloc_step hooks fs (ext2fs_inode_alloc_stats2 fs ino 1 isdir)"
| release_inode: "1 \<le> ino \<Longrightarrow> ino \<le> s_inodes_count (fs_super fs) \<Longrightarrow> inode_in_use fs ino \<Longrightarrow>
    alloc_step hooks fs (ext2fs_inode_alloc_stats2 fs ino (- 1) isdir)"
| clear_uninit: "alloc_step hooks fs (ext2fs_clear_block_uninit fs grp)"
| search_block: "ext2fs_new_block3 hooks fs goal None ctx = Some (r, fs') \<Longrightarrow> alloc_step hooks fs fs'"
| write_csums: "ext2fs_set_gdt_csum fs = Some (e, fs') \<Longrightarrow> alloc_step hooks fs fs'"

inductive_cases alloc_stepE: "alloc_step hooks fs fs'"

lemma map_after_block_call:
  assumes "fs_inv fs" "fs_block fs b"
  obtains g' where "snd ((if (inuse :: int) > 0 then ext2fs_mark_block_bitmap2 else ext2fs_unmark_block_bitmap2) (fs_block_map fs) b) = Some g'"
proof -
  have "blocks_inv fs" using assms(1) by (simp add: fs_inv_def)
  then obtain g where g: "fs_block_map fs = Some g" "gb_ok g" "EXT2FS_B2C fs b = drop_bit (gb_bits g) b"
    by (rule block_cell [OF _ assms(2)])
  obtain r g2 r' g2' where "ext2fs_mark_generic_bmap (Some g) b = (r, g2)" "ext2fs_unmark_generic_bmap (Some g) b = (r', g2')" by fastforce
  with mark_generic [OF g(2) this(1) g(3)] unmark_generic [OF g(2) this(2) g(3)] that g(1) show thesis
    by (cases "inuse > 0") (auto simp: bitmap_inlines)
qed

lemma map_after_inode_call:
  assumes "fs_inv fs" "1 \<le> ino" "ino \<le> s_inodes_count (fs_super fs)"
  obtains g' where "snd ((if (inuse :: int) > 0 then ext2fs_mark_inode_bitmap2 else ext2fs_unmark_inode_bitmap2) (fs_inode_map fs) ino) = Some g'"
proof -
  have i: "inodes_inv fs" using assms(1) by (simp add: fs_inv_def)
  then obtain g where g: "fs_inode_map fs = Some g" by (auto simp: inodes_inv_def)
  note c = inode_cell [OF i assms(2,3) g]
  obtain r g2 r' g2' where "ext2fs_mark_generic_bmap (Some g) (ucast ino) = (r, g2)" "ext2fs_unmark_generic_bmap (Some g) (ucast ino) = (r', g2')" by fastforce
  with mark_generic [OF c(1) this(1) c(3)] unmark_generic [OF c(1) this(2) c(3)] that g show thesis
    by (cases "inuse > 0") (auto simp: bitmap_inlines)
qed

lemma block_call_inv:
  assumes inv: "fs_inv fs" and h: "no_hooks hooks" and b: "fs_block fs b" and u: "inuse = (if block_used fs b then - 1 else 1)"
  shows "fs_inv (ext2fs_block_alloc_stats2 hooks fs b inuse)"
proof -
  have h': "block_alloc_stats hooks = None" using h by (simp add: no_hooks_def)
  obtain g' where m: "snd ((if inuse > 0 then ext2fs_mark_block_bitmap2 else ext2fs_unmark_block_bitmap2) (fs_block_map fs) b) = Some g'"
    by (rule map_after_block_call [OF inv b])
  have "blocks_inv fs" using inv by (simp add: fs_inv_def)
  then have "blocks_inv (ext2fs_block_alloc_stats2 hooks fs b inuse)"
    using block_use [OF _ h' b] block_release [OF _ h' b] u by simp
  with block_stats_rest(1,2) [OF inv h' b m] show ?thesis by (simp add: fs_inv_def)
qed

lemma inode_call_inv:
  assumes inv: "fs_inv fs" and i: "1 \<le> ino" "ino \<le> s_inodes_count (fs_super fs)" and u: "inuse = (if inode_in_use fs ino then - 1 else 1)"
  shows "fs_inv (ext2fs_inode_alloc_stats2 fs ino inuse isdir)"
proof -
  obtain g' where m: "snd ((if inuse > 0 then ext2fs_mark_inode_bitmap2 else ext2fs_unmark_inode_bitmap2) (fs_inode_map fs) ino) = Some g'"
    by (rule map_after_inode_call [OF inv i])
  have iv: "inodes_inv fs" using inv by (simp add: fs_inv_def)
  then obtain g where g: "fs_inode_map fs = Some g" by (auto simp: inodes_inv_def)
  have "inodes_inv (ext2fs_inode_alloc_stats2 fs ino inuse isdir)"
    using inode_use [OF iv i g] inode_release [OF iv i g] u g by (simp add: inode_in_use_def)
  with inode_stats_rest(1,2) [OF inv i m] show ?thesis by (simp add: fs_inv_def)
qed

text \<open>The search for a block without callbacks.\<close>

definition new_block_goal :: "ext2_filsys \<Rightarrow> u64 \<Rightarrow> u64" where
  "new_block_goal fs goal =
     (if goal = 0 \<or> goal \<ge> ext2fs_blocks_count (fs_super fs) then ucast (s_first_data_block (fs_super fs)) else goal)
       AND NOT (EXT2FS_CLUSTER_MASK fs)"

definition new_block_search :: "ext2_filsys \<Rightarrow> u64 \<Rightarrow> generic_bitmap \<Rightarrow> (errcode + u64) option" where
  "new_block_search fs goal m =
     Option.bind (ext2fs_find_first_zero_block_bitmap2 (Some m) goal (ext2fs_blocks_count (fs_super fs) - 1)) (\<lambda>r.
       if r = Inl ENOENT \<and> goal \<noteq> ucast (s_first_data_block (fs_super fs))
       then ext2fs_find_first_zero_block_bitmap2 (Some m) (ucast (s_first_data_block (fs_super fs))) (goal - 1)
       else Some r)"

lemma new_block3_eq:
  assumes "no_hooks hooks"
  shows "ext2fs_new_block3 hooks fs goal None ctx =
    (if fs_magic fs \<noteq> EXT2_ET_MAGIC_EXT2FS_FILSYS then Some (Inl EXT2_ET_MAGIC_EXT2FS_FILSYS, fs)
     else case fs_block_map fs of
       None \<Rightarrow> Some (Inl EXT2_ET_NO_BLOCK_BITMAP, fs)
     | Some m \<Rightarrow> map_option (\<lambda>r. case r of
           Inl e \<Rightarrow> (Inl (if e = ENOENT then EXT2_ET_BLOCK_ALLOC_FAIL else e), fs)
         | Inr b \<Rightarrow> (Inr b, ext2fs_clear_block_uninit fs (ext2fs_group_of_blk2 fs b)))
         (new_block_search fs (new_block_goal fs goal) m))"
  using assms unfolding ext2fs_new_block3_def no_hooks_def new_block_search_def new_block_goal_def Let_def
  by (simp split: option.splits)

lemma new_block_state:
  assumes "no_hooks hooks" "ext2fs_new_block3 hooks fs goal None ctx = Some (r, fs')"
  shows "fs' = fs \<or> (\<exists>grp. fs' = ext2fs_clear_block_uninit fs grp)"
  using assms(2) unfolding new_block3_eq [OF assms(1)] by (cases "fs_block_map fs"; cases "the (new_block_search fs (new_block_goal fs goal) (the (fs_block_map fs)))") (auto split: if_splits)

lemma alloc_step_inv:
  assumes "alloc_step hooks fs fs'" "no_hooks hooks" "fs_inv fs"
  shows "fs_inv fs'"
  using assms
proof cases
  case (search_block goal ctx r)
  with new_block_state [OF assms(2) search_block] clear_uninit_inv [OF assms(3)] assms(3) show ?thesis by auto
next
  case (write_csums e)
  then show ?thesis using set_gdt_csum_inv [OF assms(3)] by blast
next
  case (use_block b)
  then show ?thesis using block_call_inv [OF assms(3,2), of b 1] by simp
next
  case (release_block b)
  then show ?thesis using block_call_inv [OF assms(3,2), of b "- 1"] by simp
next
  case (use_inode ino isdir)
  then show ?thesis using inode_call_inv [OF assms(3), of ino 1 isdir] by simp
next
  case (release_inode ino isdir)
  then show ?thesis using inode_call_inv [OF assms(3), of ino "- 1" isdir] by simp
next
  case (clear_uninit grp)
  then show ?thesis using clear_uninit_inv [OF assms(3)] by simp
qed

text \<open>C33. In every state that is reached from a consistent one by using free blocks and inodes, releasing used ones,
  searching for blocks and rewriting checksums, the counters of all groups and of the super block agree with the bitmaps, all
  descriptors verify, and no inode that is declared never used is in use.\<close>

theorem alloc_reachable:
  assumes "(alloc_step hooks)\<^sup>*\<^sup>* fs fs'" "no_hooks hooks" "fs_inv fs"
  shows "fs_inv fs'"
  using assms(1,3) by (induction rule: rtranclp_induct) (auto intro: alloc_step_inv [OF _ assms(2)])

lemma ex_fs_inv: "fs_inv ex_alloc_fs" "no_hooks ex_hooks"
  by (simp_all add: fs_inv_def ex_blocks_inv ex_inodes_inv ex_csums no_hooks_def ex_hooks_def)

theorem alloc_reachable_witness:
  "fs_inv (ext2fs_clear_block_uninit (ext2fs_block_alloc_stats2 ex_hooks ex_alloc_fs 12 1) 0)"
proof -
  let ?fs = "ext2fs_block_alloc_stats2 ex_hooks ex_alloc_fs 12 1"
  have "alloc_step ex_hooks ex_alloc_fs ?fs" by (rule use_block) (simp_all add: ex_block ex_block_used bit_at_def)
  moreover have "alloc_step ex_hooks ?fs (ext2fs_clear_block_uninit ?fs 0)" by (rule clear_uninit)
  ultimately have "(alloc_step ex_hooks)\<^sup>*\<^sup>* ex_alloc_fs (ext2fs_clear_block_uninit ?fs 0)"
    by (meson converse_rtranclp_into_rtranclp rtranclp.rtrancl_refl)
  from alloc_reachable [OF this ex_fs_inv(2,1)] show ?thesis .
qed

end
