(* ===== verification/Alloc_Correct.thy ===== *)
theory Alloc_Correct
  imports Alloc_Inv
begin

text \<open>
  Correctness of the searches of \<open>alloc.c\<close>: which block, run of blocks or inode is found, that the calls return,
  and what is left when they fail.
\<close>

section \<open>Searching a block bitmap of a file system\<close>

text \<open>A bitmap on which the search for a zero is right: not an extent tree without extents, and a 32-bit map
  only for a smaller file system.\<close>

definition zero_search_ok :: "ext2_filsys \<Rightarrow> generic_bitmap \<Rightarrow> bool" where
  "zero_search_ok fs g \<longleftrightarrow> gb_set g \<noteq> {} \<and> (\<forall>b. g = Bitmap32 b \<longrightarrow> fs_blocks fs < 2 ^ 32)"

abbreviation fs_first :: "ext2_filsys \<Rightarrow> u64" where
  "fs_first fs \<equiv> ucast (s_first_data_block (fs_super fs))"

abbreviation fs_last :: "ext2_filsys \<Rightarrow> u64" where
  "fs_last fs \<equiv> ext2fs_blocks_count (fs_super fs) - 1"

lemma fs_block_bounds:
  assumes "alloc_clusters_ok fs"
  shows "unat (fs_last fs) = fs_blocks fs - 1" "fs_block fs x \<longleftrightarrow> fs_first fs \<le> x \<and> x \<le> fs_last fs"
    "fs_block fs (fs_first fs)" "fs_block fs (fs_last fs)"
proof -
  have fb: "fs_fdb fs < fs_blocks fs" using geometry_okD(2) assms by (simp add: alloc_clusters_ok_def)
  then show ul: "unat (fs_last fs) = fs_blocks fs - 1" by (intro unat_minus_one) auto
  show "fs_block fs x \<longleftrightarrow> fs_first fs \<le> x \<and> x \<le> fs_last fs" "fs_block fs (fs_first fs)" "fs_block fs (fs_last fs)"
    using fb by (auto simp: fs_block_def word_le_nat_alt ul)
qed

lemma find_zero_fs:
  assumes g: "block_map_ok fs g" "zero_search_ok fs g" and s: "fs_block fs start" "fs_block fs end'" "start \<le> end'"
  shows "\<exists>r. ext2fs_find_first_zero_block_bitmap2 (Some g) start end' = Some r \<and>
    search_result (\<lambda>x. EXT2FS_B2C fs x \<notin> gb_set g) start end' r"
proof -
  have k: "gb_ok g" "gb_bits g = fs_cluster_ratio_bits fs" using g(1) by (simp_all add: block_map_ok_def)
  have i: "gb_in g (drop_bit (gb_bits g) start)" "gb_in g (drop_bit (gb_bits g) end')"
    using g(1) s by (simp_all add: block_map_ok_def EXT2FS_B2C_def)
  have e: "end' \<noteq> 0xFFFFFFFF" if "g = Bitmap32 b" for b
    using g(2) s(2) that by (auto simp: zero_search_ok_def fs_block_def)
  have ne: "rb_root (rb_priv b) \<noteq> Leaf" if "g = Bitmap64 b" "valid_rb b" for b
    using g(2) that root_not_empty [of b] by (simp add: zero_search_ok_def)
  from find_first_zero_generic [OF k(1) i s(3) e ne] show ?thesis
    by (simp add: bitmap_inlines EXT2FS_B2C_def k(2))
qed

lemma find_set_fs:
  assumes g: "block_map_ok fs g" "zero_search_ok fs g" and s: "fs_block fs start" "fs_block fs end'" "start \<le> end'"
  shows "\<exists>r. ext2fs_find_first_set_block_bitmap2 (Some g) start end' = Some r \<and>
    search_result (\<lambda>x. EXT2FS_B2C fs x \<in> gb_set g) start end' r"
proof -
  have k: "gb_ok g" "gb_bits g = fs_cluster_ratio_bits fs" using g(1) by (simp_all add: block_map_ok_def)
  have i: "gb_in g (drop_bit (gb_bits g) start)" "gb_in g (drop_bit (gb_bits g) end')"
    using g(1) s by (simp_all add: block_map_ok_def EXT2FS_B2C_def)
  have e: "end' \<noteq> 0xFFFFFFFF" if "g = Bitmap32 b" for b
    using g(2) s(2) that by (auto simp: zero_search_ok_def fs_block_def)
  from find_first_set_generic [OF k(1) i s(3) e] show ?thesis
    by (simp add: bitmap_inlines EXT2FS_B2C_def k(2))
qed

section \<open>A single block\<close>

lemma align_down:
  "unat (x AND NOT (EXT2FS_CLUSTER_MASK fs)) = unat x div fs_ratio fs * fs_ratio fs"
proof -
  let ?k = "fs_cluster_ratio_bits fs"
  have "EXT2FS_CLUSTER_MASK fs = mask ?k" by (simp add: EXT2FS_CLUSTER_MASK_def EXT2FS_CLUSTER_RATIO_def mask_eq_exp_minus_1 push_bit_eq_mult)
  then have e: "x AND NOT (EXT2FS_CLUSTER_MASK fs) = push_bit ?k (drop_bit ?k x)"
    by (simp only:) (rule bit_word_eqI, auto simp: bit_simps)
  have "unat (drop_bit ?k x) * 2 ^ ?k \<le> unat x" by (simp add: unat_drop_bit)
  then have "unat (drop_bit ?k x) * 2 ^ ?k < 2 ^ 64" using unat_u64_less [of x] by linarith
  then show ?thesis unfolding e by (simp add: unat_push_bit unat_drop_bit)
qed

lemma new_block_goal_in:
  assumes ok: "alloc_clusters_ok fs" and goal: "goal = 0 \<or> fs_fdb fs \<le> unat goal"
  shows "fs_block fs (new_block_goal fs goal)" "unat (new_block_goal fs goal) mod fs_ratio fs = 0"
proof -
  let ?x = "if goal = 0 \<or> goal \<ge> ext2fs_blocks_count (fs_super fs) then ucast (s_first_data_block (fs_super fs)) else goal"
  have x: "fs_fdb fs \<le> unat ?x" "unat ?x < fs_blocks fs"
    using goal geometry_okD(2) [of fs] ok by (auto simp: alloc_clusters_ok_def word_le_nat_alt)
  obtain f where f: "fs_fdb fs = fs_ratio fs * f" using ok by (auto simp: alloc_clusters_ok_def dvd_def)
  have "f \<le> unat ?x div fs_ratio fs" using x(1) f by (simp add: less_eq_div_iff_mult_less_eq mult.commute)
  then have "fs_fdb fs \<le> unat ?x div fs_ratio fs * fs_ratio fs" by (simp add: f mult.commute)
  moreover have "unat ?x div fs_ratio fs * fs_ratio fs < fs_blocks fs" by (rule le_less_trans [OF div_times_less_eq_dividend x(2)])
  ultimately show "fs_block fs (new_block_goal fs goal)" "unat (new_block_goal fs goal) mod fs_ratio fs = 0"
    by (simp_all add: new_block_goal_def fs_block_def align_down)
qed

text \<open>What the search for a block near \<open>q\<close> may return: the first free block from \<open>q\<close> on, and only if there is none the first
  free one before it.\<close>

definition nearest_free :: "ext2_filsys \<Rightarrow> u64 set \<Rightarrow> u64 \<Rightarrow> u64 \<Rightarrow> bool" where
  "nearest_free fs S q b \<longleftrightarrow> fs_block fs b \<and> EXT2FS_B2C fs b \<notin> S \<and>
     (q \<le> b \<longrightarrow> (\<forall>x. q \<le> x \<longrightarrow> x < b \<longrightarrow> EXT2FS_B2C fs x \<in> S)) \<and>
     (b < q \<longrightarrow> (\<forall>x. fs_block fs x \<longrightarrow> q \<le> x \<or> x < b \<longrightarrow> EXT2FS_B2C fs x \<in> S))"

lemma new_block_search_spec:
  assumes ok: "alloc_clusters_ok fs" and g: "block_map_ok fs g" "zero_search_ok fs g" and q: "fs_block fs q"
  shows "\<exists>r. new_block_search fs q g = Some r \<and> (case r of
      Inr b \<Rightarrow> nearest_free fs (gb_set g) q b
    | Inl e \<Rightarrow> e = ENOENT \<and> (\<forall>x. fs_block fs x \<longrightarrow> EXT2FS_B2C fs x \<in> gb_set g))"
proof -
  let ?last = "fs_last fs" and ?first = "fs_first fs"
  note l = fs_block_bounds(4,3) [OF ok] and fsb = fs_block_bounds(2) [OF ok]
  have ql: "q \<le> ?last" using q by (simp add: fsb)
  obtain r where r: "ext2fs_find_first_zero_block_bitmap2 (Some g) q ?last = Some r"
      "search_result (\<lambda>x. EXT2FS_B2C fs x \<notin> gb_set g) q ?last r"
    using find_zero_fs [OF g q l(1) ql] by blast
  show ?thesis
  proof (cases r)
    case (Inr b)
    with r(2) have b: "q \<le> b" "b \<le> ?last" "EXT2FS_B2C fs b \<notin> gb_set g" "\<And>x. q \<le> x \<Longrightarrow> x < b \<Longrightarrow> EXT2FS_B2C fs x \<in> gb_set g"
      by (auto simp: search_result_def)
    then have "nearest_free fs (gb_set g) q b" using q by (auto simp: nearest_free_def fsb)
    with r(1) Inr show ?thesis by (simp add: new_block_search_def)
  next
    case (Inl e)
    with r(2) have e: "e = ENOENT" "\<And>x. q \<le> x \<Longrightarrow> x \<le> ?last \<Longrightarrow> EXT2FS_B2C fs x \<in> gb_set g" by (auto simp: search_result_def)
    show ?thesis
    proof (cases "q = ?first")
      case True
      with r(1) Inl e show ?thesis by (auto simp: new_block_search_def fsb)
    next
      case False
      then have lt: "?first < q" using q by (simp add: fsb order.strict_iff_order)
      then have uq: "unat (q - 1) = unat q - 1" by (intro unat_minus_one) auto
      have q1: "fs_block fs (q - 1)" "?first \<le> q - 1" using q lt by (auto simp: fs_block_def uq word_less_nat_alt word_le_nat_alt)
      have q1': "x \<le> q - 1 \<longleftrightarrow> x < q" for x using lt by (auto simp: word_le_nat_alt word_less_nat_alt uq)
      obtain r' where r': "ext2fs_find_first_zero_block_bitmap2 (Some g) ?first (q - 1) = Some r'"
          "search_result (\<lambda>x. EXT2FS_B2C fs x \<notin> gb_set g) ?first (q - 1) r'"
        using find_zero_fs [OF g l(2) q1] by blast
      have "new_block_search fs q g = Some r'" using r(1) Inl e(1) False r'(1) by (simp add: new_block_search_def)
      moreover have "case r' of Inr b \<Rightarrow> nearest_free fs (gb_set g) q b
          | Inl e \<Rightarrow> e = ENOENT \<and> (\<forall>x. fs_block fs x \<longrightarrow> EXT2FS_B2C fs x \<in> gb_set g)"
      proof -
        have cov: "EXT2FS_B2C fs x \<in> gb_set g" if "\<forall>y. ?first \<le> y \<and> y < q \<longrightarrow> EXT2FS_B2C fs y \<in> gb_set g" "fs_block fs x" for x
          using that e(2) [of x] by (cases "q \<le> x") (auto simp: fsb not_le)
        show ?thesis using r'(2) e(2) q1' ql lt cov
          by (cases r') (auto simp: search_result_def nearest_free_def fsb not_le)
      qed
      ultimately show ?thesis by blast
    qed
  qed
qed

lemma new_block_result:
  assumes "fs_inv fs" "no_hooks hooks" "fs_magic fs = EXT2_ET_MAGIC_EXT2FS_FILSYS" "fs_block_map fs = Some g" "zero_search_ok fs g"
    and "goal = 0 \<or> fs_fdb fs \<le> unat goal"
  shows "\<exists>r fs'. ext2fs_new_block3 hooks fs goal None ctx = Some (r, fs') \<and> fs_inv fs' \<and> frame fs fs' \<and> fs_block_map fs' = Some g \<and>
    (case r of
       Inr b \<Rightarrow> nearest_free fs (gb_set g) (new_block_goal fs goal) b
     | Inl e \<Rightarrow> e = EXT2_ET_BLOCK_ALLOC_FAIL \<and> (\<forall>b. fs_block fs b \<longrightarrow> block_used fs b))"
proof -
  have ok: "alloc_clusters_ok fs" "block_map_ok fs g" using assms(1,4) by (auto simp: fs_inv_def blocks_inv_def)
  obtain r where r: "new_block_search fs (new_block_goal fs goal) g = Some r"
      "case r of Inr b \<Rightarrow> nearest_free fs (gb_set g) (new_block_goal fs goal) b
        | Inl e \<Rightarrow> e = ENOENT \<and> (\<forall>x. fs_block fs x \<longrightarrow> EXT2FS_B2C fs x \<in> gb_set g)"
    using new_block_search_spec [OF ok assms(5) new_block_goal_in(1) [OF ok(1) assms(6)]] by blast
  have "frame fs fs" by (simp add: frame_def)
  with r show ?thesis
    using assms(1,3,4) clear_uninit_inv [OF assms(1)] unfolding new_block3_eq [OF assms(2)]
    by (cases r) (auto simp: block_used_def)
qed

text \<open>C34. In a consistent file system without callbacks \<open>ext2fs_new_block3\<close> returns, finds the nearest free block from the
  goal on, or before it when there is none, and fails with the allocation error only when every block is in use; the consistent
  state and the bitmap are kept.\<close>

theorem new_block_correct:
  assumes "fs_inv fs" "no_hooks hooks" "fs_magic fs = EXT2_ET_MAGIC_EXT2FS_FILSYS" "fs_block_map fs = Some g" "zero_search_ok fs g"
    and "goal = 0 \<or> fs_fdb fs \<le> unat goal"
  shows "\<exists>r fs'. ext2fs_new_block3 hooks fs goal None ctx = Some (r, fs') \<and> fs_inv fs' \<and> fs_block_map fs' = Some g \<and>
    (case r of
       Inr b \<Rightarrow> nearest_free fs (gb_set g) (new_block_goal fs goal) b
     | Inl e \<Rightarrow> e = EXT2_ET_BLOCK_ALLOC_FAIL \<and> (\<forall>b. fs_block fs b \<longrightarrow> block_used fs b))"
  using new_block_result [OF assms] by blast

lemma ex_zero_search_ok: "zero_search_ok ex_alloc_fs ex_bmap"
proof -
  have "0 \<in> gb_set ex_bmap" by (simp add: ex_bmap_ok bit_at_def)
  then show ?thesis by (auto simp: zero_search_ok_def ex_bmap_def)
qed

theorem new_block_correct_witness:
  "\<exists>r fs'. ext2fs_new_block3 ex_hooks ex_alloc_fs 5 None None = Some (r, fs') \<and> fs_inv fs' \<and> fs_block_map fs' = Some ex_bmap"
proof -
  have "5 = (0 :: u64) \<or> fs_fdb ex_alloc_fs \<le> unat (5 :: u64)" by simp
  from new_block_correct [OF ex_fs_inv _ _ ex_zero_search_ok this, of None] show ?thesis by auto
qed

lemma used_after_mark:
  assumes inv: "fs_inv fs" and h: "no_hooks hooks" and b: "fs_block fs b"
  shows "block_used (ext2fs_block_alloc_stats2 hooks fs b 1) x \<longleftrightarrow> EXT2FS_B2C fs x = EXT2FS_B2C fs b \<or> block_used fs x"
proof -
  have bi: "blocks_inv fs" and h': "block_alloc_stats hooks = None" using inv h by (simp_all add: fs_inv_def no_hooks_def)
  obtain g where g: "fs_block_map fs = Some g" "gb_ok g" "gb_in g (EXT2FS_B2C fs b)" "EXT2FS_B2C fs b = drop_bit (gb_bits g) b"
    by (rule block_cell [OF bi b])
  obtain r g2 where m: "ext2fs_mark_generic_bmap (Some g) b = (r, g2)" by fastforce
  with mark_generic [OF g(2) m g(4)] g(3) obtain g' where g': "g2 = Some g'" "gb_set g' = insert (EXT2FS_B2C fs b) (gb_set g)" by auto
  have mm: "snd ((if 1 > (0 :: int) then ext2fs_mark_block_bitmap2 else ext2fs_unmark_block_bitmap2) (fs_block_map fs) b) = Some g'"
    using g(1) m g'(1) by (simp add: bitmap_inlines)
  note s = block_stats_rest(3,5) [OF inv h' b mm]
  have "EXT2FS_B2C (ext2fs_block_alloc_stats2 hooks fs b 1) x = EXT2FS_B2C fs x" using s(1) by (simp add: frame_def EXT2FS_B2C_def)
  then show ?thesis using s(2) g(1) g'(2) by (auto simp: block_used_def)
qed

lemma frame_blocks:
  assumes "frame fs fs'" "fs_block_map fs' = fs_block_map fs"
  shows "fs_block fs' b = fs_block fs b" "block_used fs' b = block_used fs b" "EXT2FS_B2C fs' b = EXT2FS_B2C fs b"
  using assms by (simp_all add: frame_def fs_block_def block_used_def EXT2FS_B2C_def)

text \<open>With the bitmap in memory.\<close>

lemma alloc_block_loaded:
  assumes "fs_inv fs" "no_hooks hooks" "fs_magic fs = EXT2_ET_MAGIC_EXT2FS_FILSYS" "fs_block_map fs = Some g" "zero_search_ok fs g"
    and "goal = 0 \<or> fs_fdb fs \<le> unat goal"
  shows "\<exists>r buf' fs'. ext2fs_alloc_block3 io hooks fs goal buf ctx = Some (r, buf', fs') \<and> fs_inv fs' \<and>
    (case r of
       Inr b \<Rightarrow> fs_block fs b \<and> \<not> block_used fs b \<and>
         (\<forall>x. block_used fs' x \<longleftrightarrow> EXT2FS_B2C fs x = EXT2FS_B2C fs b \<or> block_used fs x)
     | Inl e \<Rightarrow> \<forall>x. block_used fs' x \<longleftrightarrow> block_used fs x)"
proof -
  obtain r fs1 where n: "ext2fs_new_block3 hooks fs goal None ctx = Some (r, fs1)" "fs_inv fs1" "frame fs fs1" "fs_block_map fs1 = Some g"
      "case r of Inr b \<Rightarrow> nearest_free fs (gb_set g) (new_block_goal fs goal) b
       | Inl e \<Rightarrow> e = EXT2_ET_BLOCK_ALLOC_FAIL \<and> (\<forall>b. fs_block fs b \<longrightarrow> block_used fs b)"
    using new_block_result [OF assms] by blast
  have f: "alloc_block3_find io hooks fs goal ctx = Some (r, fs1)"
    using assms(2,4) n(1) by (simp add: alloc_block3_find_def no_hooks_def)
  note fb = frame_blocks [OF n(3) n(4) [folded assms(4)]]
  show ?thesis
  proof (cases r)
    case (Inl e)
    then show ?thesis using n(2) f fb by (simp add: ext2fs_alloc_block3_def)
  next
    case (Inr b)
    have b: "fs_block fs b" "\<not> block_used fs b" using n(5) Inr assms(4) by (auto simp: nearest_free_def block_used_def)
    have i: "fs_inv (ext2fs_block_alloc_stats2 hooks fs1 b 1)" using block_call_inv [OF n(2) assms(2), of b 1] b fb by simp
    note u = used_after_mark [OF n(2) assms(2), of b, unfolded fb, OF b(1)]
    show ?thesis using f Inr i u b n(2) fb unfolding ext2fs_alloc_block3_def
      by (auto simp: Let_def split: if_splits)
  qed
qed

text \<open>C35. \<open>ext2fs_alloc_block3\<close> without callbacks returns whatever the device does. When the block bitmap is not in
  memory and cannot be read, the result is the error of the read, and buffer and handle are left as the read left them. Otherwise,
  on a file system that is consistent once the bitmap is there, it never hands out a block that is in use; afterwards the clusters in
  use are the ones before and the one of the new block, and the state is consistent. When the search or the write fails, which clusters
  are in use has not changed, and the state is consistent as well.\<close>

theorem alloc_block_correct:
  assumes load: "(if fs_block_map fs = None then read_block_bitmap io fs else (0, fs)) = (e, fs1)" and h: "no_hooks hooks"
    and loaded: "e = 0 \<Longrightarrow> fs_inv fs1 \<and> fs_magic fs1 = EXT2_ET_MAGIC_EXT2FS_FILSYS \<and> fs_block_map fs1 = Some g \<and> zero_search_ok fs1 g"
    and goal: "goal = 0 \<or> fs_fdb fs1 \<le> unat goal"
  shows "\<exists>r buf' fs'. ext2fs_alloc_block3 io hooks fs goal buf ctx = Some (r, buf', fs') \<and>
    (if e \<noteq> 0 then r = Inl e \<and> buf' = buf \<and> fs' = fs1
     else fs_inv fs' \<and>
       (case r of
          Inr b \<Rightarrow> fs_block fs1 b \<and> \<not> block_used fs1 b \<and>
            (\<forall>x. block_used fs' x \<longleftrightarrow> EXT2FS_B2C fs1 x = EXT2FS_B2C fs1 b \<or> block_used fs1 x)
        | Inl err \<Rightarrow> \<forall>x. block_used fs' x \<longleftrightarrow> block_used fs1 x))"
proof (cases "e = 0")
  case False
  with load h have "alloc_block3_find io hooks fs goal ctx = Some (Inl e, fs1)" by (simp add: alloc_block3_find_def no_hooks_def)
  with False show ?thesis by (simp add: ext2fs_alloc_block3_def)
next
  case True
  note l = loaded [OF True]
  have "alloc_block3_find io hooks fs goal ctx = alloc_block3_find io hooks fs1 goal ctx"
    using load True h l by (simp add: alloc_block3_find_def no_hooks_def)
  then have "ext2fs_alloc_block3 io hooks fs goal buf ctx = ext2fs_alloc_block3 io hooks fs1 goal buf ctx"
    by (simp add: ext2fs_alloc_block3_def)
  with alloc_block_loaded [of fs1 hooks g goal io buf ctx] l h goal True show ?thesis by simp
qed

definition ex_io :: alloc_io where
  "ex_io = \<lparr>read_block_bitmap = \<lambda>fs. (0, fs\<lparr>fs_block_map := Some ex_bmap\<rparr>), write_blk64 = \<lambda>fs b buf. 0, zero_blocks2 = \<lambda>fs b n. 0\<rparr>"

theorem alloc_block_correct_witness:
  "\<exists>r buf' fs'. ext2fs_alloc_block3 ex_io ex_hooks (ex_alloc_fs\<lparr>fs_block_map := None\<rparr>) 20 None None = Some (r, buf', fs') \<and> fs_inv fs'"
proof -
  let ?fs = "ex_alloc_fs\<lparr>fs_block_map := None\<rparr>"
  have l: "(if fs_block_map ?fs = None then read_block_bitmap ex_io ?fs else (0, ?fs)) = (0, ex_alloc_fs)"
    by (simp add: ex_io_def)
  have "20 = (0 :: u64) \<or> fs_fdb ex_alloc_fs \<le> unat (20 :: u64)" by simp
  from alloc_block_correct [OF l ex_fs_inv(2) _ this, of ex_bmap None None] ex_fs_inv(1) ex_zero_search_ok show ?thesis by auto
qed

end
