(* ===== verification/Alloc_Range_Correct.thy ===== *)
theory Alloc_Range_Correct
  imports Alloc_Correct
begin

text \<open>
  Correctness of \<open>ext2fs_new_range\<close> (alloc.c): a run that meets the request is found when there is one, and the
  search ends when the request is for any length or for a fixed start. A search for a minimal length that cannot be
  met need not end.
\<close>

abbreviation fixed_goal :: "u32 \<Rightarrow> bool" where
  "fixed_goal flags \<equiv> flags AND EXT2_NEWRANGE_FIXED_GOAL \<noteq> 0"

abbreviation min_length :: "u32 \<Rightarrow> bool" where
  "min_length flags \<equiv> flags AND EXT2_NEWRANGE_MIN_LENGTH \<noteq> 0"

text \<open>The blocks from \<open>p\<close> up to, not including, \<open>e\<close> are free.\<close>

definition free_run :: "ext2_filsys \<Rightarrow> u64 set \<Rightarrow> nat \<Rightarrow> nat \<Rightarrow> bool" where
  "free_run fs S p e \<longleftrightarrow> fs_fdb fs \<le> p \<and> p < e \<and> e \<le> fs_blocks fs \<and>
     (\<forall>x. p \<le> unat x \<longrightarrow> unat x < e \<longrightarrow> EXT2FS_B2C fs x \<notin> S)"

lemma run_start:
  assumes "free_run fs S p e"
  obtains x :: u64 where "unat x = p" "fs_block fs x" "EXT2FS_B2C fs x \<notin> S"
proof -
  have "p < 2 ^ 64" using assms unat_u64_less [of "ext2fs_blocks_count (fs_super fs)"] by (simp add: free_run_def)
  then obtain x :: u64 where "unat x = p" using nat_u64_ex by blast
  with assms that show thesis by (auto simp: free_run_def fs_block_def)
qed

section \<open>One round\<close>

text \<open>The last block that a run from \<open>z\<close> is searched up to.\<close>

abbreviation range_end :: "ext2_filsys \<Rightarrow> u64 \<Rightarrow> u64 \<Rightarrow> u64" where
  "range_end fs z len \<equiv> (if z + len - 1 < fs_last fs then z + len - 1 else fs_last fs)"

lemma run_end:
  assumes ok: "alloc_clusters_ok fs" and g: "block_map_ok fs g" "zero_search_ok fs g" and z: "fs_block fs z" "EXT2FS_B2C fs z \<notin> gb_set g"
    and len: "0 < unat len" "fs_blocks fs + unat len \<le> 2 ^ 64"
  obtains r e where "ext2fs_find_first_set_block_bitmap2 (Some g) z (range_end fs z len) = Some r"
    "(case r of Inr e \<Rightarrow> Inr e | Inl retval \<Rightarrow> if retval = ENOENT then Inr (range_end fs z len + 1) else Inl retval) = Inr e"
    "free_run fs (gb_set g) (unat z) (unat e)" "unat e \<le> unat z + unat len"
    "unat e = unat z + unat len \<or> unat e = fs_blocks fs \<or> EXT2FS_B2C fs e \<in> gb_set g"
proof -
  let ?b = "range_end fs z len"
  note fsb = fs_block_bounds [OF ok]
  have zb: "fs_fdb fs \<le> unat z" "unat z < fs_blocks fs" using z(1) by (simp_all add: fs_block_def)
  have "unat (z + len) = unat z + unat len" using zb len by (simp add: unat_word_ariths)
  then have zl: "unat (z + len - 1) = unat z + unat len - 1" using len(1) by (subst unat_minus_one) auto
  have ub: "unat ?b = min (unat z + unat len) (fs_blocks fs) - 1"
    using zb len(1) by (simp add: word_less_nat_alt zl fsb(1))
  have bb: "fs_block fs ?b" "z \<le> ?b" using zb len(1) by (auto simp: fs_block_def word_le_nat_alt ub simp del: if_split)
  obtain r where r: "ext2fs_find_first_set_block_bitmap2 (Some g) z ?b = Some r"
      "search_result (\<lambda>x. EXT2FS_B2C fs x \<in> gb_set g) z ?b r"
    using find_set_fs [OF g z(1) bb] by blast
  show thesis
  proof (cases r)
    case (Inr e)
    with r(2) have e: "z \<le> e" "e \<le> ?b" "EXT2FS_B2C fs e \<in> gb_set g" "\<And>x. z \<le> x \<Longrightarrow> x < e \<Longrightarrow> EXT2FS_B2C fs x \<notin> gb_set g"
      by (auto simp: search_result_def)
    have "z \<noteq> e" using e(3) z(2) by auto
    then have n: "unat z < unat e" "unat e \<le> min (unat z + unat len) (fs_blocks fs) - 1"
      using e(1,2) unfolding ub [symmetric] by (simp_all add: word_le_nat_alt word_unat_eq_iff)
    have "free_run fs (gb_set g) (unat z) (unat e)"
      using zb n e(4) by (auto simp: free_run_def word_le_nat_alt word_less_nat_alt)
    then show thesis using that [OF r(1), of e] Inr n e(3) by simp
  next
    case (Inl x)
    with r(2) have x: "x = ENOENT" "\<And>y. z \<le> y \<Longrightarrow> y \<le> ?b \<Longrightarrow> EXT2FS_B2C fs y \<notin> gb_set g" by (auto simp: search_result_def)
    have p: "0 < min (unat z + unat len) (fs_blocks fs)" using zb len(1) by simp
    then have "Suc (unat ?b) = min (unat z + unat len) (fs_blocks fs)" unfolding ub by simp
    moreover from this have u: "unat (?b + 1) = min (unat z + unat len) (fs_blocks fs)"
      using unat_u64_less [of "ext2fs_blocks_count (fs_super fs)"] by (simp add: unat_word_ariths del: if_split)
    ultimately have "free_run fs (gb_set g) (unat z) (unat (?b + 1))"
      using zb len(1) x(2) by (auto simp: free_run_def word_le_nat_alt simp del: if_split)
    moreover have "min (unat z + unat len) (fs_blocks fs) = unat z + unat len \<or> min (unat z + unat len) (fs_blocks fs) = fs_blocks fs"
      by (simp add: min_def)
    ultimately show thesis using that [OF r(1), of "?b + 1"] Inl x(1) u by (auto simp del: if_split)
  qed
qed

text \<open>The body of the search, with \<open>f\<close> for the rounds that follow.\<close>

definition range_body :: "(bool \<Rightarrow> u64 \<Rightarrow> (errcode + u64 \<times> u64) option) \<Rightarrow> ext2_super_block \<Rightarrow> u32 \<Rightarrow> u64 \<Rightarrow> u64 \<Rightarrow>
    generic_bitmap option \<Rightarrow> bool \<Rightarrow> u64 \<Rightarrow> (errcode + u64 \<times> u64) option" where
  "range_body f sb flags goal len map' looped start =
     (let max_blocks = ext2fs_blocks_count sb; first = ucast (s_first_data_block sb)
      in if \<not> (\<not> looped \<or> start \<le> goal) then Some (Inl EXT2_ET_BLOCK_ALLOC_FAIL)
         else Option.bind (ext2fs_find_first_zero_block_bitmap2 map' start (max_blocks - 1)) (\<lambda>r.
           case r of
             Inl retval \<Rightarrow>
               if retval = ENOENT
               then if flags AND EXT2_NEWRANGE_FIXED_GOAL \<noteq> 0 \<or> start = first
                    then Some (Inl EXT2_ET_BLOCK_ALLOC_FAIL)
                    else f looped first
               else Some (Inl retval)
           | Inr start \<Rightarrow>
               if flags AND EXT2_NEWRANGE_FIXED_GOAL \<noteq> 0 \<and> start \<noteq> goal then Some (Inl EXT2_ET_BLOCK_ALLOC_FAIL)
               else
                 let b = (if start + len - 1 < max_blocks - 1 then start + len - 1 else max_blocks - 1)
                 in Option.bind (ext2fs_find_first_set_block_bitmap2 map' start b) (\<lambda>r.
                      case (case r of Inr e \<Rightarrow> Inr e | Inl retval \<Rightarrow> if retval = ENOENT then Inr (b + 1) else Inl retval) of
                        Inl retval \<Rightarrow> Some (Inl retval)
                      | Inr end' \<Rightarrow>
                          if flags AND EXT2_NEWRANGE_MIN_LENGTH = 0 \<or> end' - start \<ge> len then Some (Inr (start, end'))
                          else if flags AND EXT2_NEWRANGE_FIXED_GOAL \<noteq> 0 then Some (Inl EXT2_ET_BLOCK_ALLOC_FAIL)
                          else if end' \<ge> max_blocks
                          then if looped then Some (Inl EXT2_ET_BLOCK_ALLOC_FAIL)
                               else f True first
                          else f looped end')))"

lemma range_loop_body: "new_range_loop sb flags goal len map' = range_body (new_range_loop sb flags goal len map') sb flags goal len map'"
  by (intro ext, subst new_range_loop.simps) (simp add: range_body_def)

lemma range_body_round:
  assumes ok: "alloc_clusters_ok fs" and g: "block_map_ok fs g" "zero_search_ok fs g" and s: "fs_block fs start" "\<not> looped \<or> start \<le> goal"
    and len: "0 < unat len" "fs_blocks fs + unat len \<le> 2 ^ 64"
  obtains (none) "\<And>x. fs_block fs x \<Longrightarrow> start \<le> x \<Longrightarrow> EXT2FS_B2C fs x \<in> gb_set g"
      "range_body f (fs_super fs) flags goal len (Some g) looped start =
        (if fixed_goal flags \<or> start = fs_first fs then Some (Inl EXT2_ET_BLOCK_ALLOC_FAIL)
         else f looped (fs_first fs))"
  | (some) z e where "start \<le> z" "free_run fs (gb_set g) (unat z) (unat e)" "unat e \<le> unat z + unat len"
      "\<And>x. start \<le> x \<Longrightarrow> x < z \<Longrightarrow> EXT2FS_B2C fs x \<in> gb_set g"
      "unat e = unat z + unat len \<or> unat e = fs_blocks fs \<or> EXT2FS_B2C fs e \<in> gb_set g"
      "range_body f (fs_super fs) flags goal len (Some g) looped start =
        (if fixed_goal flags \<and> z \<noteq> goal then Some (Inl EXT2_ET_BLOCK_ALLOC_FAIL)
         else if \<not> min_length flags \<or> unat e - unat z \<ge> unat len then Some (Inr (z, e))
         else if fixed_goal flags then Some (Inl EXT2_ET_BLOCK_ALLOC_FAIL)
         else if unat e = fs_blocks fs
         then if looped then Some (Inl EXT2_ET_BLOCK_ALLOC_FAIL)
              else f True (fs_first fs)
         else f looped e)"
proof -
  let ?L = "range_body f (fs_super fs) flags goal len (Some g)" and ?max = "ext2fs_blocks_count (fs_super fs)"
  note fsb = fs_block_bounds [OF ok]
  obtain r where r: "ext2fs_find_first_zero_block_bitmap2 (Some g) start (fs_last fs) = Some r"
      "search_result (\<lambda>x. EXT2FS_B2C fs x \<notin> gb_set g) start (fs_last fs) r"
    using find_zero_fs [OF g s(1) fsb(4)] s(1) fsb(2) by blast
  show thesis
  proof (cases r)
    case (Inl e)
    with r(2) have e: "e = ENOENT" "\<And>x. start \<le> x \<Longrightarrow> x \<le> fs_last fs \<Longrightarrow> EXT2FS_B2C fs x \<in> gb_set g" by (auto simp: search_result_def)
    have "?L looped start = (if fixed_goal flags \<or> start = fs_first fs then Some (Inl EXT2_ET_BLOCK_ALLOC_FAIL) else f looped (fs_first fs))"
      using s(2) r(1) Inl e(1) by (simp add: range_body_def Let_def)
    with e(2) fsb(2) none show thesis by blast
  next
    case (Inr z)
    with r(2) have z: "start \<le> z" "z \<le> fs_last fs" "EXT2FS_B2C fs z \<notin> gb_set g" "\<And>x. start \<le> x \<Longrightarrow> x < z \<Longrightarrow> EXT2FS_B2C fs x \<in> gb_set g"
      by (auto simp: search_result_def)
    have zb: "fs_block fs z" using z(1,2) s(1) fsb(2) by (meson order_trans)
    obtain r2 e where r2: "ext2fs_find_first_set_block_bitmap2 (Some g) z (range_end fs z len) = Some r2"
      "(case r2 of Inr e \<Rightarrow> Inr e | Inl retval \<Rightarrow> if retval = ENOENT then Inr (range_end fs z len + 1) else Inl retval) = Inr e"
      "free_run fs (gb_set g) (unat z) (unat e)" "unat e \<le> unat z + unat len"
      "unat e = unat z + unat len \<or> unat e = fs_blocks fs \<or> EXT2FS_B2C fs e \<in> gb_set g"
      by (rule run_end [OF ok g zb z(3) len])
    have m: "?max \<le> e \<longleftrightarrow> unat e = fs_blocks fs" "len \<le> e - z \<longleftrightarrow> unat e - unat z \<ge> unat len"
      using r2(3) by (auto simp: free_run_def word_le_nat_alt unat_sub_if')
    have "?L looped start =
        (if fixed_goal flags \<and> z \<noteq> goal then Some (Inl EXT2_ET_BLOCK_ALLOC_FAIL)
         else if \<not> min_length flags \<or> unat e - unat z \<ge> unat len then Some (Inr (z, e))
         else if fixed_goal flags then Some (Inl EXT2_ET_BLOCK_ALLOC_FAIL)
         else if unat e = fs_blocks fs then if looped then Some (Inl EXT2_ET_BLOCK_ALLOC_FAIL) else f True (fs_first fs)
         else f looped e)"
      using s(2) r(1) Inr r2(1) unfolding m [symmetric]
      by (simp add: range_body_def Let_def r2(2) del: if_split cong: if_cong)
    with r2(3-5) z some show thesis by blast
  qed
qed

section \<open>The search\<close>

definition wanted :: "u32 \<Rightarrow> u64 \<Rightarrow> nat" where
  "wanted flags len = (if min_length flags then unat len else 1)"

text \<open>The run from \<open>z\<close> up to \<open>e\<close> is as long as requested, or it ends before a block in use or with the file system.\<close>

definition full_run :: "ext2_filsys \<Rightarrow> u64 set \<Rightarrow> u64 \<Rightarrow> nat \<Rightarrow> nat \<Rightarrow> bool" where
  "full_run fs S len z e \<longleftrightarrow> z + unat len \<le> e \<or> e = fs_blocks fs \<or> (\<exists>x. unat x = e \<and> EXT2FS_B2C fs x \<in> S)"

text \<open>The run that the search stops at.\<close>

definition good_run :: "ext2_filsys \<Rightarrow> u64 set \<Rightarrow> u32 \<Rightarrow> u64 \<Rightarrow> nat \<Rightarrow> nat \<Rightarrow> bool" where
  "good_run fs S flags len z e \<longleftrightarrow> free_run fs S z e \<and> e \<le> z + unat len \<and> wanted flags len \<le> e - z \<and> full_run fs S len z e"

lemma range_found_after:
  assumes ok: "alloc_clusters_ok fs" and g: "block_map_ok fs g" "zero_search_ok fs g" and len: "0 < unat len" "fs_blocks fs + unat len \<le> 2 ^ 64"
    and nf: "\<not> fixed_goal flags" and run: "free_run fs (gb_set g) p (p + wanted flags len)"
    and s: "fs_block fs start" "unat start \<le> p" and lp: "looped \<Longrightarrow> p \<le> unat goal"
  shows "\<exists>z e. new_range_loop (fs_super fs) flags goal len (Some g) looped start = Some (Inr (z, e)) \<and>
    good_run fs (gb_set g) flags len (unat z) (unat e)"
  using s
proof (induction "p - unat start" arbitrary: start rule: less_induct)
  case less
  obtain x :: u64 where x: "unat x = p" and xf: "fs_block fs x" "EXT2FS_B2C fs x \<notin> gb_set g" by (rule run_start [OF run])
  then have xs: "start \<le> x" using less.prems(2) by (simp add: word_le_nat_alt)
  have gd: "\<not> looped \<or> start \<le> goal" using lp less.prems(2) by (auto simp: word_le_nat_alt)
  show ?case
  proof (cases rule: range_body_round [OF ok g less.prems(1) gd len, where flags = flags and f = "new_range_loop (fs_super fs) flags goal len (Some g)",
        folded range_loop_body, case_names none some])
    case none
    with xf xs show ?thesis by blast
  next
    case r: (some z e)
    show ?thesis
    proof (cases "\<not> min_length flags \<or> unat e - unat z \<ge> unat len")
      case True
      then have "good_run fs (gb_set g) flags len (unat z) (unat e)" using r(2,3,5) by (auto simp: good_run_def full_run_def wanted_def free_run_def)
      with True r(6) nf show ?thesis by auto
    next
      case False
      then have w: "wanted flags len = unat len" "unat e < unat z + unat len" by (auto simp: wanted_def)
      have "z \<le> x" using r(4) xf xs by (meson not_le)
      then have zp: "unat z \<le> p" using x by (simp add: word_le_nat_alt)
      have fr: "p + unat len \<le> fs_blocks fs" using run w by (simp add: free_run_def)
      then have eb: "unat e \<noteq> fs_blocks fs" using w zp by linarith
      then have eu: "EXT2FS_B2C fs e \<in> gb_set g" using r(5) w by linarith
      have "\<not> (p \<le> unat e \<and> unat e < p + unat len)" using run eu w by (auto simp: free_run_def)
      then have ep: "unat e < p" using w zp by linarith
      have ze: "unat start \<le> unat z" "unat z < unat e" "fs_block fs e"
        using r(1,2) ep fr by (auto simp: free_run_def fs_block_def word_le_nat_alt)
      have "new_range_loop (fs_super fs) flags goal len (Some g) looped start = new_range_loop (fs_super fs) flags goal len (Some g) looped e"
        using r(6) False eb nf by simp
      with less.hyps [of e] ze ep show ?thesis by simp
    qed
  qed
qed

lemma range_found:
  assumes ok: "alloc_clusters_ok fs" and g: "block_map_ok fs g" "zero_search_ok fs g" and len: "0 < unat len" "fs_blocks fs + unat len \<le> 2 ^ 64"
    and nf: "\<not> fixed_goal flags" and run: "free_run fs (gb_set g) p (p + wanted flags len)" "p \<le> unat goal"
    and s: "fs_block fs start"
  shows "\<exists>z e. new_range_loop (fs_super fs) flags goal len (Some g) False start = Some (Inr (z, e)) \<and>
    good_run fs (gb_set g) flags len (unat z) (unat e)"
  using s
proof (induction "fs_blocks fs - unat start" arbitrary: start rule: less_induct)
  case less
  have p: "unat (fs_first fs) \<le> p" using run(1) by (simp add: free_run_def)
  note again = range_found_after [OF ok g len nf run(1) fs_block_bounds(3) [OF ok] p]
  obtain x :: u64 where x: "unat x = p" and xf: "fs_block fs x" "EXT2FS_B2C fs x \<notin> gb_set g" by (rule run_start [OF run(1)])
  then have "fs_first fs \<le> x" using p by (simp add: word_le_nat_alt)
  note xf = xf this
  have gd: "\<not> False \<or> start \<le> goal" by simp
  show ?case
  proof (cases rule: range_body_round [OF ok g less.prems gd len, where flags = flags and f = "new_range_loop (fs_super fs) flags goal len (Some g)",
        folded range_loop_body, case_names none some])
    case none
    then have "start \<noteq> fs_first fs" using xf by blast
    with none(2) nf again [of False] show ?thesis by simp
  next
    case r: (some z e)
    show ?thesis
    proof (cases "\<not> min_length flags \<or> unat e - unat z \<ge> unat len")
      case True
      then have "good_run fs (gb_set g) flags len (unat z) (unat e)" using r(2,3,5) by (auto simp: good_run_def full_run_def wanted_def free_run_def)
      with True r(6) nf show ?thesis by auto
    next
      case F: False
      show ?thesis
      proof (cases "unat e = fs_blocks fs")
        case True
        with F r(6) nf again [of True] run(2) show ?thesis by simp
      next
        case False
        have e: "unat start < unat e" "fs_block fs e" "unat e < fs_blocks fs"
          using r(1,2) False by (auto simp: free_run_def fs_block_def word_le_nat_alt)
        then have "fs_blocks fs - unat e < fs_blocks fs - unat start" by linarith
        with less.hyps [OF this e(2)] r(6) F False nf show ?thesis by simp
      qed
    qed
  qed
qed

lemma range_fixed:
  assumes ok: "alloc_clusters_ok fs" and g: "block_map_ok fs g" "zero_search_ok fs g" and len: "0 < unat len" "fs_blocks fs + unat len \<le> 2 ^ 64"
    and f: "fixed_goal flags" and q: "fs_block fs q"
  shows "if free_run fs (gb_set g) (unat q) (unat q + wanted flags len)
    then \<exists>e. new_range_loop (fs_super fs) flags q len (Some g) False q = Some (Inr (q, e)) \<and> good_run fs (gb_set g) flags len (unat q) (unat e)
    else new_range_loop (fs_super fs) flags q len (Some g) False q = Some (Inl EXT2_ET_BLOCK_ALLOC_FAIL)"
proof -
  have gd: "\<not> False \<or> q \<le> q" by simp
  have used: "\<not> free_run fs (gb_set g) (unat q) n" if "EXT2FS_B2C fs q \<in> gb_set g" for n
    using that by (auto simp: free_run_def)
  show ?thesis
  proof (cases rule: range_body_round [OF ok g q gd len, where flags = flags and f = "new_range_loop (fs_super fs) flags q len (Some g)",
        folded range_loop_body, case_names none some])
    case none
    with used q f show ?thesis by simp
  next
    case r: (some z e)
    show ?thesis
    proof (cases "z = q")
      case False
      with r(1) have "EXT2FS_B2C fs q \<in> gb_set g" by (intro r(4)) auto
      with used r(6) f False show ?thesis by simp
    next
      case z: True
      show ?thesis
      proof (cases "\<not> min_length flags \<or> unat e - unat z \<ge> unat len")
        case True
        then have "good_run fs (gb_set g) flags len (unat z) (unat e)" using r(2,3,5) by (auto simp: good_run_def full_run_def wanted_def free_run_def)
        moreover from this have "free_run fs (gb_set g) (unat z) (unat z + wanted flags len)"
          using len(1) by (auto simp: good_run_def free_run_def wanted_def)
        ultimately show ?thesis using True r(6) z by auto
      next
        case False
        then have w: "wanted flags len = unat len" "unat e < unat z + unat len" by (auto simp: wanted_def)
        have "\<not> free_run fs (gb_set g) (unat z) (unat z + unat len)"
          using r(2,5) w(2) by (auto simp: free_run_def intro!: exI [of _ e])
        with False r(6) f z w show ?thesis by simp
      qed
    qed
  qed
qed

lemma range_none:
  assumes ok: "alloc_clusters_ok fs" and g: "block_map_ok fs g" "zero_search_ok fs g" and len: "0 < unat len" "fs_blocks fs + unat len \<le> 2 ^ 64"
    and f: "\<not> fixed_goal flags" and used: "\<And>x. fs_block fs x \<Longrightarrow> EXT2FS_B2C fs x \<in> gb_set g" and s: "fs_block fs start"
  shows "new_range_loop (fs_super fs) flags goal len (Some g) False start = Some (Inl EXT2_ET_BLOCK_ALLOC_FAIL)"
proof -
  have one: "new_range_loop (fs_super fs) flags goal len (Some g) False x =
      (if x = fs_first fs then Some (Inl EXT2_ET_BLOCK_ALLOC_FAIL) else new_range_loop (fs_super fs) flags goal len (Some g) False (fs_first fs))"
    if x: "fs_block fs x" for x
  proof -
    have gd: "\<not> False \<or> x \<le> goal" by simp
    show ?thesis
    proof (cases rule: range_body_round [OF ok g x gd len, where flags = flags and f = "new_range_loop (fs_super fs) flags goal len (Some g)",
        folded range_loop_body, case_names none some])
      case none
      with f show ?thesis by simp
    next
      case r: (some z e)
      show ?thesis using run_start [OF r(2)] used by blast
    qed
  qed
  show ?thesis using one [OF s] one [OF fs_block_bounds(3) [OF ok]] by simp
qed

section \<open>Clearing the flags of the groups of a run\<close>

lemma clear_loop:
  assumes "fs_inv fs" "fs_blocks fs + fs_bpg fs \<le> 2 ^ 64" "unat end' \<le> fs_blocks fs"
  shows "\<exists>fs'. clear_uninit_loop fs b end' = Some fs' \<and> fs_inv fs' \<and> fs_block_map fs' = fs_block_map fs"
  using assms
proof (induction "unat end' - unat b" arbitrary: fs b rule: less_induct)
  case less
  show ?case
  proof (cases "b < end'")
    case False
    then show ?thesis using less.prems by (subst clear_uninit_loop.simps) simp
  next
    case True
    let ?fs1 = "ext2fs_clear_block_uninit fs (ext2fs_group_of_blk2 fs b)" and ?b1 = "b + ucast (s_blocks_per_group (fs_super fs))"
    have c: "fs_inv ?fs1" "frame fs ?fs1" "fs_block_map ?fs1 = fs_block_map fs" using clear_uninit_inv [OF less.prems(1)] by blast+
    have p: "0 < fs_bpg fs" using less.prems(1) geometry_okD(1) by (auto simp: fs_inv_def blocks_inv_def alloc_clusters_ok_def)
    have "unat ?b1 = unat b + fs_bpg fs" using True less.prems(2,3) by (simp add: word_less_nat_alt unat_word_ariths)
    then have lt: "unat end' - unat ?b1 < unat end' - unat b" using True p by (simp add: word_less_nat_alt)
    have pr: "fs_blocks ?fs1 + fs_bpg ?fs1 \<le> 2 ^ 64" "unat end' \<le> fs_blocks ?fs1" using c(2) less.prems(2,3) by (simp_all add: frame_def)
    from less.hyps [OF lt c(1) pr] True c(3) show ?thesis by (subst clear_uninit_loop.simps) simp
  qed
qed

section \<open>The call\<close>

definition new_range_goal :: "ext2_filsys \<Rightarrow> u64 \<Rightarrow> u64" where
  "new_range_goal fs goal = (if goal = 0 \<or> goal \<ge> ext2fs_blocks_count (fs_super fs) then fs_first fs else goal)"

lemma new_range_eq:
  assumes "no_hooks hooks" "fs_magic fs = EXT2_ET_MAGIC_EXT2FS_FILSYS" "fs_block_map fs = Some g" "0 < unat len" "flags AND NOT EXT2_NEWRANGE_ALL_FLAGS = 0"
  shows "ext2fs_new_range hooks fs flags goal len None =
    Option.bind (new_range_loop (fs_super fs) flags (new_range_goal fs goal) len (Some g) False (new_range_goal fs goal)) (\<lambda>r.
      case r of Inl retval \<Rightarrow> Some (Inl retval, fs)
      | Inr (start, end') \<Rightarrow> map_option (Pair (Inr (start, end' - start))) (clear_uninit_loop fs start end'))"
proof -
  have "len \<noteq> 0" using assms(4) by auto
  then show ?thesis using assms unfolding ext2fs_new_range_def no_hooks_def new_range_goal_def Let_def by simp
qed

lemma new_range_finish:
  assumes inv: "fs_inv fs" and big: "fs_blocks fs + fs_bpg fs \<le> 2 ^ 64" and g: "good_run fs (gb_set g) flags len (unat z) (unat e)"
  shows "\<exists>n fs'. map_option (Pair (Inr (z, e - z))) (clear_uninit_loop fs z e) = Some (Inr (z, n), fs') \<and> fs_inv fs' \<and>
    fs_block_map fs' = fs_block_map fs \<and> good_run fs (gb_set g) flags len (unat z) (unat z + unat n)"
proof -
  have e: "unat z < unat e" "unat e \<le> fs_blocks fs" using g by (auto simp: good_run_def free_run_def)
  then have "unat z + unat (e - z) = unat e" by (simp add: unat_sub_if')
  with clear_loop [OF inv big e(2), of z] g show ?thesis by auto
qed

lemma new_range_run:
  assumes inv: "fs_inv fs" and h: "no_hooks hooks" "fs_magic fs = EXT2_ET_MAGIC_EXT2FS_FILSYS" "fs_block_map fs = Some g" and s: "zero_search_ok fs g"
    and goal: "goal = 0 \<or> fs_fdb fs \<le> unat goal" and q: "q = new_range_goal fs goal"
    and len: "0 < unat len" "fs_blocks fs + unat len \<le> 2 ^ 64" and flags: "flags AND NOT EXT2_NEWRANGE_ALL_FLAGS = 0"
    and big: "fs_blocks fs + fs_bpg fs \<le> 2 ^ 64"
  shows "if \<exists>p. free_run fs (gb_set g) p (p + wanted flags len) \<and> (fixed_goal flags \<longrightarrow> p = unat q)
    then \<exists>z n fs'. ext2fs_new_range hooks fs flags goal len None = Some (Inr (z, n), fs') \<and> fs_inv fs' \<and> fs_block_map fs' = Some g \<and>
      good_run fs (gb_set g) flags len (unat z) (unat z + unat n) \<and> (fixed_goal flags \<longrightarrow> z = q)
    else fixed_goal flags \<or> \<not> min_length flags \<longrightarrow> ext2fs_new_range hooks fs flags goal len None = Some (Inl EXT2_ET_BLOCK_ALLOC_FAIL, fs)"
proof -
  have ok: "alloc_clusters_ok fs" "block_map_ok fs g" using inv h(3) by (auto simp: fs_inv_def blocks_inv_def)
  have qb: "fs_block fs q"
    using goal geometry_okD(2) [of fs] ok(1) by (auto simp: q new_range_goal_def fs_block_def alloc_clusters_ok_def word_le_nat_alt)
  note eq = new_range_eq [OF h len(1) flags, of goal, folded q]
  note fin = new_range_finish [OF inv big, where g = g and flags = flags and len = len, unfolded h(3)]
  let ?L = "new_range_loop (fs_super fs) flags q len (Some g) False q"
  have found: "\<exists>n fs'. ext2fs_new_range hooks fs flags goal len None = Some (Inr (z, n), fs') \<and> fs_inv fs' \<and> fs_block_map fs' = Some g \<and>
      good_run fs (gb_set g) flags len (unat z) (unat z + unat n)"
    if "?L = Some (Inr (z, e))" "good_run fs (gb_set g) flags len (unat z) (unat e)" for z e
    using fin [OF that(2)] that(1) eq by auto
  show ?thesis
  proof (cases "fixed_goal flags")
    case f: True
    show ?thesis using range_fixed [OF ok s len f qb] found eq f by (auto split: if_splits)
  next
    case nf: False
    show ?thesis
    proof (cases "\<exists>p. free_run fs (gb_set g) p (p + wanted flags len)")
      case True
      then obtain p where p: "free_run fs (gb_set g) p (p + wanted flags len)" by blast
      have "\<exists>z e. ?L = Some (Inr (z, e)) \<and> good_run fs (gb_set g) flags len (unat z) (unat e)"
      proof (cases "unat q \<le> p")
        case True
        show ?thesis by (rule range_found_after [OF ok s len nf p qb True]) simp
      next
        case False
        show ?thesis by (rule range_found [OF ok s len nf p _ qb]) (use False in simp)
      qed
      with True nf found show ?thesis by meson
    next
      case False
      have "?L = Some (Inl EXT2_ET_BLOCK_ALLOC_FAIL)" if m: "\<not> min_length flags"
      proof (rule range_none [OF ok s len nf _ qb])
        fix x assume x: "fs_block fs x"
        show "EXT2FS_B2C fs x \<in> gb_set g"
        proof (rule ccontr)
          assume "EXT2FS_B2C fs x \<notin> gb_set g"
          then have "free_run fs (gb_set g) (unat x) (unat x + wanted flags len)"
            using x m by (auto simp: free_run_def fs_block_def wanted_def less_Suc_eq_le word_unat_eq_iff [symmetric] dest: le_antisym)
          with False show False by blast
        qed
      qed
      with False nf eq show ?thesis by auto
    qed
  qed
qed

text \<open>Contrary to the comment above the function, the run is never longer than requested.\<close>

lemma new_range_not_longer:
  assumes "fs_inv fs" "no_hooks hooks" "fs_magic fs = EXT2_ET_MAGIC_EXT2FS_FILSYS" "fs_block_map fs = Some g" "zero_search_ok fs g"
    and "goal = 0 \<or> fs_fdb fs \<le> unat goal" "0 < unat len" "fs_blocks fs + unat len \<le> 2 ^ 64" "flags AND NOT EXT2_NEWRANGE_ALL_FLAGS = 0"
    and "fs_blocks fs + fs_bpg fs \<le> 2 ^ 64" "free_run fs (gb_set g) (unat (new_range_goal fs goal)) (unat (new_range_goal fs goal) + wanted flags len)"
  shows "\<exists>z n fs'. ext2fs_new_range hooks fs flags goal len None = Some (Inr (z, n), fs') \<and> n \<le> len"
proof -
  have "\<exists>p. free_run fs (gb_set g) p (p + wanted flags len) \<and> (fixed_goal flags \<longrightarrow> p = unat (new_range_goal fs goal))" using assms(11) by blast
  with new_range_run [OF assms(1-6) refl assms(7-10)] show ?thesis by (auto simp: good_run_def word_le_nat_alt)
qed

text \<open>C36. When the file system has a run of free blocks as long as \<open>ext2fs_new_range\<close> is asked for, at the goal if that
  is fixed, the call returns such a run: free, at least that long, and going on to the requested length unless a block in use or the end
  of the file system comes first. When there is none and any length will do or the goal is fixed, it returns with the allocation error.\<close>

theorem new_range_correct:
  assumes "fs_inv fs" "no_hooks hooks" "fs_magic fs = EXT2_ET_MAGIC_EXT2FS_FILSYS" "fs_block_map fs = Some g" "zero_search_ok fs g"
    and "goal = 0 \<or> fs_fdb fs \<le> unat goal" "q = new_range_goal fs goal"
    and "0 < unat len" "fs_blocks fs + unat len \<le> 2 ^ 64" "flags AND NOT EXT2_NEWRANGE_ALL_FLAGS = 0"
    and "fs_blocks fs + fs_bpg fs \<le> 2 ^ 64"
  shows "if \<exists>p. free_run fs (gb_set g) p (p + wanted flags len) \<and> (fixed_goal flags \<longrightarrow> p = unat q)
    then \<exists>z n fs'. ext2fs_new_range hooks fs flags goal len None = Some (Inr (z, n), fs') \<and> fs_inv fs' \<and> fs_block_map fs' = Some g \<and>
      free_run fs (gb_set g) (unat z) (unat z + unat n) \<and> wanted flags len \<le> unat n \<and>
      full_run fs (gb_set g) len (unat z) (unat z + unat n) \<and> (fixed_goal flags \<longrightarrow> z = q)
    else fixed_goal flags \<or> \<not> min_length flags \<longrightarrow> ext2fs_new_range hooks fs flags goal len None = Some (Inl EXT2_ET_BLOCK_ALLOC_FAIL, fs)"
  using new_range_run [OF assms] by (auto simp: good_run_def split: if_splits)

theorem new_range_correct_witness:
  "\<exists>z n fs'. ext2fs_new_range ex_hooks ex_alloc_fs EXT2_NEWRANGE_MIN_LENGTH 20 4 None = Some (Inr (z, n), fs') \<and> fs_inv fs' \<and> 4 \<le> unat n"
proof -
  have "\<not> bit_at [0xFF, 0x0F, 0xFF, 0xFF, 0x81] n" if "12 \<le> n" "n < 16" for n
  proof -
    have "n = 12 \<or> n = 13 \<or> n = 14 \<or> n = 15" using that by presburger
    then show ?thesis by (elim disjE) (simp_all add: bit_at_def)
  qed
  then have "free_run ex_alloc_fs (gb_set ex_bmap) 12 (12 + wanted EXT2_NEWRANGE_MIN_LENGTH 4)"
    by (simp add: free_run_def wanted_def ex_block ex_bmap_ok)
  then have r: "\<exists>p. free_run ex_alloc_fs (gb_set ex_bmap) p (p + wanted EXT2_NEWRANGE_MIN_LENGTH 4) \<and>
      (fixed_goal EXT2_NEWRANGE_MIN_LENGTH \<longrightarrow> p = unat (20 :: u64))" by auto
  have q: "20 = (0 :: u64) \<or> fs_fdb ex_alloc_fs \<le> unat (20 :: u64)" "20 = new_range_goal ex_alloc_fs 20" by (simp_all add: new_range_goal_def)
  have "0 < unat (4 :: u64)" "fs_blocks ex_alloc_fs + unat (4 :: u64) \<le> 2 ^ 64" "EXT2_NEWRANGE_MIN_LENGTH AND NOT EXT2_NEWRANGE_ALL_FLAGS = 0"
    "fs_blocks ex_alloc_fs + fs_bpg ex_alloc_fs \<le> 2 ^ 64" by simp_all
  from new_range_correct [OF ex_fs_inv _ _ ex_zero_search_ok q this] r show ?thesis
    by (simp only: if_True ex_alloc_fields) (auto simp: wanted_def)
qed

section \<open>A search that does not end\<close>

lemma range_loop_none:
  assumes body: "\<And>f l s. (\<And>l' s'. I l' s' \<Longrightarrow> f l' s' = None) \<Longrightarrow> I l s \<Longrightarrow> range_body f sb flags goal len map' l s = None"
    and i: "I looped start"
  shows "new_range_loop sb flags goal len map' looped start = None"
proof (rule ccontr)
  assume "new_range_loop sb flags goal len map' looped start \<noteq> None"
  then obtain y where y: "new_range_loop sb flags goal len map' looped start = Some y" by blast
  have "(sb', fl, go, le, m) = (sb, flags, goal, len, map') \<longrightarrow> \<not> I lo st" if "new_range_loop sb' fl go le m lo st = Some y'" for sb' fl go le m lo st y'
  proof (rule new_range_loop.raw_induct [OF _ that], goal_cases)
    case (1 loop sb' fl go le m lo st y')
    show ?case
    proof
      assume e: "(sb', fl, go, le, m) = (sb, flags, goal, len, map')"
      then have eqs: "sb' = sb" "fl = flags" "go = goal" "le = len" "m = map'" by simp_all
      have "range_body (loop sb flags goal len map') sb flags goal len map' lo st = Some y'"
        using 1(2) unfolding eqs range_body_def .
      moreover have "loop sb flags goal len map' l' s' = None" if "I l' s'" for l' s'
        using 1(1) [of sb flags goal len map' l' s'] that by (cases "loop sb flags goal len map' l' s'") auto
      ultimately show "\<not> I lo st" using body by (metis option.distinct(1))
    qed
  qed
  with y i show False by blast
qed

text \<open>C39. A search for a minimal length never returns when no run is long enough, some block is free and the last
  block of the file system is in use: the end of the bitmap is then always reached without a free block, which starts the search
  over without noting that it has been through the file system before.\<close>

theorem new_range_diverges:
  assumes inv: "fs_inv fs" and h: "no_hooks hooks" "fs_magic fs = EXT2_ET_MAGIC_EXT2FS_FILSYS" "fs_block_map fs = Some g" and s: "zero_search_ok fs g"
    and goal: "goal = 0 \<or> fs_fdb fs \<le> unat goal"
    and len: "0 < unat len" "fs_blocks fs + unat len \<le> 2 ^ 64" and flags: "flags = EXT2_NEWRANGE_MIN_LENGTH"
    and none: "\<nexists>p. free_run fs (gb_set g) p (p + unat len)"
    and blk: "fs_block fs b" "\<not> block_used fs b" "block_used fs (fs_last fs)"
  shows "ext2fs_new_range hooks fs flags goal len None = None"
proof -
  have ok: "alloc_clusters_ok fs" "block_map_ok fs g" using inv h(3) by (auto simp: fs_inv_def blocks_inv_def)
  let ?q = "new_range_goal fs goal"
  have qb: "fs_block fs ?q"
    using goal geometry_okD(2) [of fs] ok(1) by (auto simp: new_range_goal_def fs_block_def alloc_clusters_ok_def word_le_nat_alt)
  have fl: "\<not> fixed_goal flags" "min_length flags" by (simp_all add: flags)
  have bf: "EXT2FS_B2C fs b \<notin> gb_set g" "EXT2FS_B2C fs (fs_last fs) \<in> gb_set g" using blk h(3) by (auto simp: block_used_def)
  have "new_range_loop (fs_super fs) flags ?q len (Some g) False ?q = None"
  proof (rule range_loop_none [where I = "\<lambda>l s. \<not> l \<and> fs_block fs s"])
    fix f :: "bool \<Rightarrow> u64 \<Rightarrow> (errcode + u64 \<times> u64) option" and l start
    assume f: "\<And>l' s'. \<not> l' \<and> fs_block fs s' \<Longrightarrow> f l' s' = None" and i: "\<not> l \<and> fs_block fs start"
    have gd: "\<not> l \<or> start \<le> ?q" and sb: "fs_block fs start" using i by simp_all
    show "range_body f (fs_super fs) flags ?q len (Some g) l start = None"
    proof (cases rule: range_body_round [OF ok s sb gd len, where flags = flags and f = f, case_names none some])
      case none
      have "start \<noteq> fs_first fs" using none(1) [OF blk(1)] bf fs_block_bounds(2) [OF ok(1), of b] blk(1) by auto
      with none(2) fl i f fs_block_bounds(3) [OF ok(1)] show ?thesis by simp
    next
      case r: (some z e)
      have "unat e \<noteq> unat z + unat len" using r(2) none by auto
      then have w: "\<not> unat len \<le> unat e - unat z" using r(2,3) by (auto simp: free_run_def)
      have "unat e \<noteq> fs_blocks fs" using r(2) bf(2) fs_block_bounds(1) [OF ok(1)] by (auto simp: free_run_def)
      with r(2) have "fs_block fs e" "unat e \<noteq> fs_blocks fs" by (auto simp: free_run_def fs_block_def)
      with r(6) w fl i f show ?thesis by simp
    qed
  qed (use qb in simp)
  with new_range_eq [OF h len(1), of flags goal] show ?thesis by (simp add: flags)
qed

lemma ex_no_run: "\<not> free_run ex_alloc_fs (gb_set ex_bmap) p (p + 8)"
proof
  assume r: "free_run ex_alloc_fs (gb_set ex_bmap) p (p + 8)"
  define k where "k = (p + 7) div 8"
  have k: "p \<le> 8 * k" "8 * k < p + 8" unfolding k_def by linarith+
  have p: "p + 8 \<le> 40" using r by (simp add: free_run_def)
  have "k = 0 \<or> k = 1 \<or> k = 2 \<or> k = 3 \<or> k = 4" using k p by linarith
  then have b: "bit_at [0xFF, 0x0F, 0xFF, 0xFF, 0x81] (8 * k)" by (elim disjE) (simp_all add: bit_at_def)
  have u: "unat (word_of_nat (8 * k) :: u64) = 8 * k" using k p by (simp only: unat_of_nat) simp
  then have "EXT2FS_B2C ex_alloc_fs (word_of_nat (8 * k)) \<notin> gb_set ex_bmap" using r k by (auto simp only: free_run_def)
  moreover have "8 * k < 40" using k p by linarith
  ultimately show False using u b by (simp only: ex_block ex_bmap_ok simp_thms)
qed

theorem new_range_diverges_witness:
  "ext2fs_new_range ex_hooks ex_alloc_fs EXT2_NEWRANGE_MIN_LENGTH 0 8 None = None"
proof -
  have "0 = (0 :: u64) \<or> fs_fdb ex_alloc_fs \<le> unat (0 :: u64)" "0 < unat (8 :: u64)" "fs_blocks ex_alloc_fs + unat (8 :: u64) \<le> 2 ^ 64"
    "\<nexists>p. free_run ex_alloc_fs (gb_set ex_bmap) p (p + unat (8 :: u64))" using ex_no_run by simp_all
  moreover have "fs_block ex_alloc_fs 12" "\<not> block_used ex_alloc_fs 12" "block_used ex_alloc_fs (fs_last ex_alloc_fs)"
    by (simp_all add: ex_block ex_block_used bit_at_def)
  ultimately show ?thesis using new_range_diverges [OF ex_fs_inv _ _ ex_zero_search_ok, of 0 8 EXT2_NEWRANGE_MIN_LENGTH 12] by simp
qed

end
