(* ===== verification/Alloc_Free_Blocks.thy ===== *)
theory Alloc_Free_Blocks
  imports Alloc_Range_Correct
begin

text \<open>
  Correctness of \<open>ext2fs_get_free_blocks2\<close> (alloc.c): which run it finds, when it fails, and when it never returns.
\<close>

section \<open>One round of the search\<close>











section \<open>Where the search goes\<close>















section \<open>The call\<close>





end
