(* ===== verification/Alloc_New_Inode.thy ===== *)
theory Alloc_New_Inode
  imports Alloc_Correct
begin

text \<open>
  Correctness of \<open>ext2fs_new_inode\<close> (alloc.c): the search returns, hands out a free inode, and fails only when there
  is none; initialising the bitmap of a group on the way changes neither the inodes in use nor the consistent state.
\<close>

section \<open>Searching the inode bitmap\<close>

text \<open>An extent tree without extents is the one case where the search for a zero misses.\<close>

lemma find_zero_any:
  assumes ok: "gb_ok g" and r: "gb_in g (drop_bit (gb_bits g) start)" "gb_in g (drop_bit (gb_bits g) end')" "start \<le> end'"
    and t: "\<And>b. g = Bitmap32 b \<Longrightarrow> end' \<noteq> 0xFFFFFFFF"
  shows "\<exists>r. ext2fs_find_first_zero_generic_bmap (Some g) start end' = Some r \<and>
    (search_result (\<lambda>x. drop_bit (gb_bits g) x \<notin> gb_set g) start end' r \<or> gb_set g = {} \<and> r = Inl ENOENT)"
proof (cases "\<exists>b. g = Bitmap64 b \<and> valid_rb b \<and> rb_root (rb_priv b) = Leaf")
  case False
  have "\<exists>r. ext2fs_find_first_zero_generic_bmap (Some g) start end' = Some r \<and>
      search_result (\<lambda>x. drop_bit (gb_bits g) x \<notin> gb_set g) start end' r"
    by (rule find_first_zero_generic [OF ok r]) (use t False in blast)+
  then show ?thesis by blast
next
  case True
  then obtain b where b: "g = Bitmap64 b" "valid_rb b" "rb_root (rb_priv b) = Leaf" by blast
  have v: "valid_64 b" "EXT2FS_IS_64_BITMAP (bm_magic b)" using ok b by auto
  have i: "bm_start b \<le> drop_bit (bm_cluster_bits b) start" "drop_bit (bm_cluster_bits b) end' \<le> bm_end b"
    using r b by (simp_all add: gb_in_def)
  have f: "ops_find_first_zero (bitmap_ops b) = Some rb_find_first_zero" using rb_kind [OF b(2)] by (simp add: ext2fs_blkmap64_rbtree_def)
  have s: "search_result (\<lambda>x. False) s e (rb_find_first_zero b s e)" if "in_range b s" "in_range b e" "s \<le> e" for s e
  proof -
    have "\<not> s - bm_start b > e - bm_start b"
      using that by (simp add: in_range_def word_le_nat_alt word_less_nat_alt unat_sub_if')
    then show ?thesis using b(3) by (simp add: rb_find_first_zero_def ext2fs_rb_empty_root_def search_result_def)
  qed
  from find_generic_64 [where search = ops_find_first_zero and f = rb_find_first_zero and P = "\<lambda>x. False", OF v r(3) i f s]
  obtain q where "ext2fs_find_first_zero_generic_bmap (Some g) start end' = Some q" "search_result (\<lambda>x. False) start end' q"
    by (auto simp: b(1) ext2fs_find_first_zero_generic_bmap_def)
  moreover have "gb_set g = {}" using root_not_empty [of b] b by auto
  ultimately show ?thesis by (cases q) (auto simp: search_result_def)
qed

text \<open>The inodes from \<open>i\<close> to \<open>j\<close> are in use, as far as the search can tell.\<close>

definition all_used :: "u64 set \<Rightarrow> nat \<Rightarrow> nat \<Rightarrow> bool" where
  "all_used S i j \<longleftrightarrow> S = {} \<or> (\<forall>ino :: u32. i \<le> unat ino \<longrightarrow> unat ino \<le> j \<longrightarrow> ucast ino \<in> S)"

lemma find_zero_inode:
  assumes g: "inode_map_ok fs g" and i: "1 \<le> unat i" "unat i \<le> unat u" "unat u \<le> unat (s_inodes_count (fs_super fs))"
    and c: "unat (s_inodes_count (fs_super fs)) < 2 ^ 32 - 1"
  shows "(\<exists>z. ext2fs_find_first_zero_inode_bitmap2 (Some g) i u = Some (Inr z) \<and> unat i \<le> unat z \<and> unat z \<le> unat u \<and> ucast z \<notin> gb_set g) \<or>
    ext2fs_find_first_zero_inode_bitmap2 (Some g) i u = Some (Inl ENOENT) \<and> all_used (gb_set g) (unat i) (unat u)"
proof -
  have k: "gb_ok g" "gb_bits g = 0" using g by (simp_all add: inode_map_ok_def)
  have gi: "gb_in g (ucast i)" "gb_in g (ucast u)" using g i by (simp_all add: inode_map_ok_def word_le_nat_alt)
  have u: "(ucast u :: u64) \<noteq> 0xFFFFFFFF" using i(3) c by (auto simp: word_unat_eq_iff)
  have le: "(ucast i :: u64) \<le> ucast u" using i(2) by (simp add: word_le_nat_alt)
  obtain r where r: "ext2fs_find_first_zero_generic_bmap (Some g) (ucast i) (ucast u) = Some r"
      "search_result (\<lambda>x. x \<notin> gb_set g) (ucast i) (ucast u) r \<or> gb_set g = {} \<and> r = Inl ENOENT"
    using find_zero_any [OF k(1), of "ucast i" "ucast u"] gi le u k(2) by auto
  have e: "ext2fs_find_first_zero_inode_bitmap2 (Some g) i u = Some (map_sum id ucast r)" using r(1) by (simp add: bitmap_inlines)
  show ?thesis
  proof (cases r)
    case (Inr z)
    then have z: "ucast i \<le> z" "z \<le> ucast u" "z \<notin> gb_set g" using r(2) by (auto simp: search_result_def)
    then have n: "unat i \<le> unat z" "unat z \<le> unat u" by (simp_all add: word_le_nat_alt)
    then have "unat (ucast z :: u32) = unat z" using unat_u32_less [of u] by (simp add: unat_ucast_32)
    moreover from this have "(ucast (ucast z :: u32) :: u64) = z" by (simp add: word_unat_eq_iff)
    ultimately show ?thesis using e Inr n z(3) by auto
  next
    case (Inl x)
    then have "x = ENOENT" "all_used (gb_set g) (unat i) (unat u)"
      using r(2) by (auto simp: search_result_def all_used_def word_le_nat_alt)
    then show ?thesis using e Inl by simp
  qed
qed

section \<open>Initialising the bitmap of a group\<close>

lemma unmark_free:
  assumes "gb_ok g" "gb_bits g = 0" "\<And>k. k < n \<Longrightarrow> ucast (ino + word_of_nat k) \<notin> gb_set g"
  shows "\<exists>g'. unmark_inodes n ino (Some g) = Some g' \<and> same_map g g'"
  using assms
proof (induction n arbitrary: g ino)
  case 0
  then show ?case by (simp add: same_map_def)
next
  case (Suc n)
  obtain r g2 where m: "ext2fs_unmark_generic_bmap (Some g) (ucast ino) = (r, g2)" by fastforce
  have nu: "ucast ino \<notin> gb_set g" using Suc.prems(3) [of 0] by simp
  have c: "ucast ino = drop_bit (gb_bits g) (ucast ino :: u64)" using Suc.prems(2) by simp
  from unmark_generic [OF Suc.prems(1) m c] obtain g1 where "g2 = Some g1" "gb_ok g1" "gb_same g g1"
      "gb_set g1 = (if gb_in g (ucast ino) then gb_set g - {ucast ino} else gb_set g)" by blast
  with nu have g1: "g2 = Some g1" "same_map g g1" by (simp_all add: same_map_def)
  have "ucast (ino + 1 + word_of_nat k) \<notin> gb_set g1" if "k < n" for k
    using Suc.prems(3) [of "Suc k"] that same_mapD(4) [OF g1(2)] by (simp add: add.assoc)
  with Suc.IH [of g1 "ino + 1"] same_mapD(1,2) [OF g1(2)] Suc.prems(2) obtain g'
    where "unmark_inodes n (ino + 1) (Some g1) = Some g'" "same_map g1 g'" by auto
  with g1 m same_map_trans show ?case by (auto simp: ext2fs_fast_unmark_inode_bitmap2_def)
qed

text \<open>The handle whose inode bitmap is the one that a call works on.\<close>

abbreviation with_imap :: "ext2_filsys \<Rightarrow> generic_bitmap \<Rightarrow> ext2_filsys" where
  "with_imap fs g \<equiv> fs\<lparr>fs_inode_map := Some g\<rparr>"

lemma group_desc_imap [simp]: "ext2fs_group_desc (fs\<lparr>fs_inode_map := m\<rparr>) grp = ext2fs_group_desc fs grp"
  by (simp add: ext2fs_group_desc_def)

lemma imap_commutes:
  "gd_upd f (fs\<lparr>fs_inode_map := m\<rparr>) grp = (gd_upd f fs grp)\<lparr>fs_inode_map := m\<rparr>"
  "ext2fs_group_desc_csum_set (fs\<lparr>fs_inode_map := m\<rparr>) grp = (ext2fs_group_desc_csum_set fs grp)\<lparr>fs_inode_map := m\<rparr>"
proof -
  show u: "gd_upd f (fs\<lparr>fs_inode_map := m\<rparr>) grp = (gd_upd f fs grp)\<lparr>fs_inode_map := m\<rparr>" for f by (simp add: gd_upd_def)
  have "ext2fs_group_desc_csum (fs\<lparr>fs_inode_map := m\<rparr>) grp = ext2fs_group_desc_csum fs grp" by (simp add: ext2fs_group_desc_csum_def Let_def)
  then show "ext2fs_group_desc_csum_set (fs\<lparr>fs_inode_map := m\<rparr>) grp = (ext2fs_group_desc_csum_set fs grp)\<lparr>fs_inode_map := m\<rparr>"
    by (simp add: csum_set_upd u cong: if_cong)
qed

lemma same_map_inv:
  assumes inv: "fs_inv (with_imap fs g)" and m: "same_map g g'"
  shows "fs_inv (with_imap fs g')"
proof -
  let ?a = "with_imap fs g" and ?b = "with_imap fs g'"
  have inv': "blocks_inv ?a" "inodes_inv ?a" "csums_ok ?a" using inv by (simp_all add: fs_inv_def)
  have fr: "frame ?a ?b" using frame_maps(1) [of ?a "Some g'"] by simp
  obtain gb where gb: "fs_block_map ?a = Some gb" "block_map_ok ?a gb" using inv'(1) by (auto simp: blocks_inv_def)
  have im: "inode_map_ok ?a g" using inv'(2) by (auto simp: inodes_inv_def)
  have im': "inode_map_ok ?a g'" using im m gb_sameD(4) same_mapD(1,2) [OF m] by (auto simp: inode_map_ok_def same_map_def)
  have "blocks_inv ?b" by (rule blocks_inv_frame [OF inv'(1) fr _ gb refl]) (use gb in simp_all)
  moreover have "inodes_inv ?b"
    by (rule inodes_inv_frame [OF inv'(2) fr _ _ im' same_mapD(4) [OF m]]) (auto intro!: inode_desc_frame [OF fr])
  ultimately show ?thesis using inv'(3) by (simp add: fs_inv_def)
qed

lemma check_uninit_inv:
  assumes inv: "fs_inv (with_imap fs g)" and r: "check_inode_uninit fs (Some g) grp = (fs', map')"
  shows "\<exists>g'. map' = Some g' \<and> same_map g g' \<and> fs_inv (with_imap fs' g') \<and> fs_super fs' = fs_super fs"
proof (cases "grp \<ge> fs_group_desc_count fs \<or> \<not> ext2fs_has_group_desc_csum fs \<or> ext2fs_bg_flags_test fs grp EXT2_BG_INODE_UNINIT = 0")
  case True
  have "gb_ok g" using inv by (auto simp: fs_inv_def inodes_inv_def inode_map_ok_def)
  then show ?thesis using True r inv by (auto simp: check_inode_uninit_def same_map_def)
next
  case False
  let ?a = "with_imap fs g" and ?ipg = "s_inodes_per_group (fs_super fs)"
  have ii: "inodes_inv ?a" using inv by (simp add: fs_inv_def)
  have ok: "inodes_ok fs" "inode_map_ok fs g" using ii by (auto simp: inodes_inv_def)
  have k: "gb_ok g" "gb_bits g = 0" using ok(2) by (simp_all add: inode_map_ok_def)
  have ig: "in_groups fs grp" using False by (simp add: in_groups_def not_le)
  have "inode_desc_ok ?a (gb_set g) grp" using ii ig False by (auto simp: inodes_inv_def)
  then have none: "{ino \<in> group_inodes fs grp. ino \<in> ucast -` gb_set g} = {}"
    using False by (simp add: inode_desc_ok_def ext2fs_bg_flags_test_def ext2fs_bg_flags_def)
  have "ucast (grp * ?ipg + 1 + word_of_nat n) \<notin> gb_set g" if n: "n < unat ?ipg" for n
  proof -
    have "(unat grp + 1) * unat ?ipg \<le> unat (fs_group_desc_count fs) * unat ?ipg"
      using ig by (intro mult_le_mono1) (simp add: in_groups_def word_less_nat_alt)
    then have b: "unat grp * unat ?ipg + unat ?ipg < 2 ^ 32 - 1" using ok(1) by (simp add: inodes_ok_def)
    have un: "unat (word_of_nat n :: u32) = n" using n unat_u32_less [of ?ipg] by (simp add: unat_word_of_nat)
    have "unat (grp * ?ipg + 1 + word_of_nat n) = unat grp * unat ?ipg + 1 + n"
      using b n un by (simp add: unat_word_ariths)
    then have "grp * ?ipg + 1 + word_of_nat n \<in> group_inodes fs grp" using n by (simp add: group_inodes_def)
    then show ?thesis using none by auto
  qed
  from unmark_free [OF k this] obtain g' where u: "unmark_inodes (unat ?ipg) (grp * ?ipg + 1) (Some g) = Some g'" "same_map g g'" by blast
  have inv2: "fs_inv (with_imap fs g')" by (rule same_map_inv [OF inv u(2)])
  let ?b = "with_imap fs g'"
  define fs1 where "fs1 = ext2fs_group_desc_csum_set (gd_upd (\<lambda>gdp. gdp\<lparr>bg_flags := bg_flags gdp AND (NOT EXT2_BG_INODE_UNINIT AND NOT EXT2_BG_BLOCK_UNINIT)\<rparr>) ?b grp) grp"
  have e: "with_imap fs' g' = stats_fs fs1 (s_free_blocks_count (fs_super ?b)) (s_free_blocks_hi (fs_super ?b)) (s_free_inodes_count (fs_super ?b)) (fs_flags fs')"
  proof -
    define fs2 where "fs2 = ext2fs_group_desc_csum_set (ext2fs_bg_flags_clear (ext2fs_bg_flags_clear fs grp EXT2_BG_INODE_UNINIT) grp EXT2_BG_BLOCK_UNINIT) grp"
    have go: "groups_ok fs" using ok(1) by (simp add: inodes_ok_def)
    have "ext2fs_bg_flags_clear (ext2fs_bg_flags_clear fs grp EXT2_BG_INODE_UNINIT) grp EXT2_BG_BLOCK_UNINIT =
        gd_upd (\<lambda>gdp. gdp\<lparr>bg_flags := bg_flags gdp AND (NOT EXT2_BG_INODE_UNINIT AND NOT EXT2_BG_BLOCK_UNINIT)\<rparr>) fs grp"
      unfolding ext2fs_bg_flags_clear_def by (simp add: gd_upd_upd [OF go ig] and.assoc)
    then have f1: "fs1 = with_imap fs2 g'" unfolding fs1_def fs2_def imap_commutes by simp
    have sb: "fs_super fs2 = fs_super fs"
      unfolding fs2_def writers(5,6) by (simp add: same_fsD(3) [OF gd_upd_same])
    have "fs' = ext2fs_mark_super_dirty (ext2fs_mark_ib_dirty fs2)"
      using r False u(1) by (simp add: check_inode_uninit_def Let_def fs2_def)
    then show ?thesis unfolding f1
      by (intro ext2_filsys.equality) (simp_all add: ext2fs_mark_super_dirty_def ext2fs_mark_ib_dirty_def stats_fs_def sb)
  qed
  have ig': "in_groups ?b grp" using ig by simp
  have "fs_super fs' = fs_super fs"
    using r False by (auto simp: check_inode_uninit_def Let_def ext2fs_mark_super_dirty_def ext2fs_mark_ib_dirty_def writers same_fsD(3) [OF gd_upd_same])
  moreover have "map' = Some g'" using r False u(1) by (simp add: check_inode_uninit_def Let_def)
  ultimately show ?thesis using clear_flags_inv(1) [OF inv2 ig' fs1_def e] u(2) by blast
qed

section \<open>The search\<close>

abbreviation inodes :: "ext2_super_block \<Rightarrow> nat" where
  "inodes sb \<equiv> unat (s_inodes_count sb)"

abbreviation first_inode :: "ext2_super_block \<Rightarrow> nat" where
  "first_inode sb \<equiv> unat (EXT2_FIRST_INODE sb)"

definition inode_numbers_ok :: "ext2_super_block \<Rightarrow> bool" where
  "inode_numbers_ok sb \<longleftrightarrow> 1 \<le> first_inode sb \<and> first_inode sb \<le> inodes sb \<and> 0 < unat (s_inodes_per_group sb) \<and>
     inodes sb + unat (s_inodes_per_group sb) < 2 ^ 32 - 1"

lemma inode_upto_bounds:
  assumes ok: "inode_numbers_ok sb" and i: "1 \<le> unat i" "unat i \<le> inodes sb"
  shows "unat i \<le> unat (inode_upto sb start i)" "unat (inode_upto sb start i) \<le> inodes sb"
    "unat i < unat start \<Longrightarrow> unat (inode_upto sb start i) < unat start"
proof -
  let ?ipg = "s_inodes_per_group sb"
  define m where "m = (i - 1) mod s_inodes_per_group sb"
  have m: "unat m < unat ?ipg" using ok by (simp add: m_def inode_numbers_ok_def unat_mod)
  have d: "unat (?ipg - m) = unat ?ipg - unat m" using m by (simp add: unat_sub_if')
  have "unat i + (unat ?ipg - unat m) < 2 ^ 32" using ok i(2) unfolding inode_numbers_ok_def by linarith
  then have u: "unat (i + (?ipg - m)) = unat i + (unat ?ipg - unat m)" by (simp add: unat_word_ariths(1) d)
  have s: "unat (start - 1) = unat start - 1" if "unat i < unat start" using that by (intro unat_minus_one) auto
  show "unat i \<le> unat (inode_upto sb start i)" "unat (inode_upto sb start i) \<le> inodes sb"
    using i m u s by (auto simp: inode_upto_def Let_def m_def [symmetric] word_less_nat_alt word_le_nat_alt)
  show "unat (inode_upto sb start i) < unat start" if "unat i < unat start"
    using i m u s that by (auto simp: inode_upto_def Let_def m_def [symmetric] word_less_nat_alt word_le_nat_alt)
qed

text \<open>What has been searched when the search is at \<open>i\<close>: the inodes from the start on, and after the turn those from the first one.\<close>

definition searched :: "ext2_super_block \<Rightarrow> u64 set \<Rightarrow> nat \<Rightarrow> nat \<Rightarrow> bool" where
  "searched sb S start i \<longleftrightarrow> (start \<le> i \<and> all_used S start (i - 1)) \<or>
     (i < start \<and> all_used S start (inodes sb) \<and> all_used S (first_inode sb) (i - 1))"

lemma all_used_join: "all_used S a b \<Longrightarrow> all_used S (Suc b) c \<Longrightarrow> all_used S a c"
  by (auto simp: all_used_def)

lemma all_used_empty: "j < i \<Longrightarrow> all_used S i j"
  by (auto simp: all_used_def)

definition rounds_left :: "ext2_super_block \<Rightarrow> nat \<Rightarrow> nat \<Rightarrow> nat" where
  "rounds_left sb start i = (if start \<le> i then 2 * inodes sb + 1 - i else start - i)"

text \<open>One round from \<open>i\<close> that finds nothing up to \<open>u\<close>: the next position.\<close>

lemma searched_step:
  assumes ok: "inode_numbers_ok sb" and i: "1 \<le> i" "i \<le> inodes sb" "i \<le> u" "u \<le> inodes sb" "i < start \<Longrightarrow> u < start"
    and st: "first_inode sb \<le> start" "start \<le> inodes sb" and s: "searched sb S start i" "all_used S i u"
    and n: "n = (if inodes sb < u + 1 then first_inode sb else u + 1)"
  shows "n = start \<and> all_used S (first_inode sb) (inodes sb) \<or>
    n \<noteq> start \<and> searched sb S start n \<and> rounds_left sb start n < rounds_left sb start i"
proof (cases "start \<le> i")
  case True
  then have "all_used S start (i - 1)" using s(1) by (simp add: searched_def)
  then have a: "all_used S start u" using all_used_join [of S start "i - 1" u] s(2) i(1) by simp
  show ?thesis
  proof (cases "inodes sb < u + 1")
    case False
    then have "n = u + 1" "n \<noteq> start" "start \<le> n" "n \<le> inodes sb" using n True i by auto
    then show ?thesis using a True i by (auto simp: searched_def rounds_left_def)
  next
    case last: True
    then have u: "u = inodes sb" "n = first_inode sb" using i(4) n by simp_all
    have e: "all_used S (first_inode sb) (first_inode sb - 1)" using ok by (intro all_used_empty) (simp add: inode_numbers_ok_def)
    show ?thesis using a u e st True i by (cases "first_inode sb = start") (auto simp: searched_def rounds_left_def)
  qed
next
  case False
  then have b: "all_used S start (inodes sb)" "all_used S (first_inode sb) (i - 1)" using s(1) by (simp_all add: searched_def)
  have a: "all_used S (first_inode sb) u" using all_used_join [OF b(2), of u] s(2) i(1) by simp
  have u: "u < start" "n = u + 1" using False i(5) n st(2) by simp_all
  show ?thesis
  proof (cases "n = start")
    case True
    then show ?thesis using all_used_join [OF a, of "inodes sb"] b(1) u by simp
  next
    case False
    then show ?thesis using a b u i(3) by (auto simp: searched_def rounds_left_def)
  qed
qed

lemma new_inode_loop_spec:
  assumes ok: "inode_numbers_ok (fs_super fs)" and inv: "fs_inv (with_imap fs g)"
    and i: "first_inode (fs_super fs) \<le> unat i" "unat i \<le> inodes (fs_super fs)"
    and st: "first_inode (fs_super fs) \<le> unat start" "unat start \<le> inodes (fs_super fs)"
    and s: "searched (fs_super fs) (gb_set g) (unat start) (unat i)"
  shows "\<exists>j fs' g'. new_inode_loop start fs (Some g) i = Some (Inr j, fs', Some g') \<and> same_map g g' \<and> fs_inv (with_imap fs' g') \<and>
    first_inode (fs_super fs) \<le> unat j \<and> unat j \<le> inodes (fs_super fs) \<and> fs_super fs' = fs_super fs \<and>
    (ucast j \<notin> gb_set g \<or> all_used (gb_set g) (first_inode (fs_super fs)) (inodes (fs_super fs)))"
  using assms
proof (induction "rounds_left (fs_super fs) (unat start) (unat i)" arbitrary: i fs g rule: less_induct)
  case less
  let ?sb = "fs_super fs" and ?u = "inode_upto (fs_super fs) start i"
  have i1: "1 \<le> unat i" using less.prems(1,3) by (simp add: inode_numbers_ok_def)
  obtain fs1 map1 where c: "check_inode_uninit fs (Some g) ((i - 1) div s_inodes_per_group ?sb) = (fs1, map1)" by fastforce
  obtain g1 where g1: "map1 = Some g1" "same_map g g1" "fs_inv (with_imap fs1 g1)" "fs_super fs1 = ?sb"
    using check_uninit_inv [OF less.prems(2) c] by blast
  have S: "gb_set g1 = gb_set g" using same_mapD(4) [OF g1(2)] by simp
  note ub = inode_upto_bounds [OF less.prems(1) i1 less.prems(4), of start]
  have im: "inode_map_ok fs1 g1" using g1(3) by (auto simp: fs_inv_def inodes_inv_def)
  have cnt: "inodes (fs_super fs1) < 2 ^ 32 - 1" using less.prems(1) g1(4) by (simp add: inode_numbers_ok_def)
  let ?n = "if ?u + 1 > s_inodes_count ?sb then EXT2_FIRST_INODE ?sb else ?u + 1"
  have "unat (?u + 1) = unat ?u + 1" using ub(2) less.prems(1) by (simp add: inode_numbers_ok_def unat_word_ariths)
  then have un: "unat ?n = (if inodes ?sb < unat ?u + 1 then first_inode ?sb else unat ?u + 1)" by (simp add: word_less_nat_alt)
  consider (found) z where "ext2fs_find_first_zero_inode_bitmap2 (Some g1) i ?u = Some (Inr z)" "unat i \<le> unat z" "unat z \<le> unat ?u" "ucast z \<notin> gb_set g"
    | (none) "ext2fs_find_first_zero_inode_bitmap2 (Some g1) i ?u = Some (Inl ENOENT)" "all_used (gb_set g) (unat i) (unat ?u)"
    using find_zero_inode [OF im i1 ub(1) _ cnt] ub(2) g1(4) S by auto
  then show ?case
  proof cases
    case found
    then have "new_inode_loop start fs (Some g) i = Some (Inr z, fs1, Some g1)"
      by (subst new_inode_loop.simps) (simp add: c g1(1))
    then show ?thesis using found g1 ub(2) less.prems(3) by auto
  next
    case none
    then have e: "new_inode_loop start fs (Some g) i = (if ?n \<noteq> start then new_inode_loop start fs1 (Some g1) ?n else Some (Inr ?n, fs1, Some g1))"
      by (subst new_inode_loop.simps) (simp add: c g1(1) Let_def del: if_split cong: if_cong)
    have step: "unat ?n = unat start \<and> all_used (gb_set g) (first_inode ?sb) (inodes ?sb) \<or>
        unat ?n \<noteq> unat start \<and> searched ?sb (gb_set g) (unat start) (unat ?n) \<and>
        rounds_left ?sb (unat start) (unat ?n) < rounds_left ?sb (unat start) (unat i)"
      by (rule searched_step [OF less.prems(1) i1 less.prems(4) ub less.prems(5-7) none(2) un])
    have nb: "first_inode ?sb \<le> unat ?n" "unat ?n \<le> inodes ?sb"
      using un ub less.prems(1,3) by (auto simp: inode_numbers_ok_def)
    show ?thesis
    proof (cases "?n = start")
      case True
      then have "all_used (gb_set g) (first_inode ?sb) (inodes ?sb)" using step by simp
      moreover have "new_inode_loop start fs (Some g) i = Some (Inr ?n, fs1, Some g1)" using e True by simp
      ultimately show ?thesis using nb g1 by blast
    next
      case False
      then have lt: "rounds_left (fs_super fs1) (unat start) (unat ?n) < rounds_left ?sb (unat start) (unat i)"
        and sr: "searched (fs_super fs1) (gb_set g1) (unat start) (unat ?n)" using step g1(4) S by (simp_all add: word_unat_eq_iff)
      have pr: "inode_numbers_ok (fs_super fs1)" "first_inode (fs_super fs1) \<le> unat ?n" "unat ?n \<le> inodes (fs_super fs1)"
        "first_inode (fs_super fs1) \<le> unat start" "unat start \<le> inodes (fs_super fs1)"
        using less.prems nb g1(4) by simp_all
      have "new_inode_loop start fs (Some g) i = new_inode_loop start fs1 (Some g1) ?n" using e False by simp
      with less.hyps [OF lt pr(1) g1(3) pr(2-5) sr] g1(4) S same_map_trans [OF g1(2)] show ?thesis by auto
    qed
  qed
qed

section \<open>The call\<close>

definition new_inode_start :: "ext2_super_block \<Rightarrow> u32 \<Rightarrow> u32" where
  "new_inode_start sb dir =
     (let start_inode = (if dir > 0 then (dir - 1) div s_inodes_per_group sb * s_inodes_per_group sb + 1 else 0)
      in if start_inode < EXT2_FIRST_INODE sb then EXT2_FIRST_INODE sb else start_inode)"

lemma new_inode_start_bounds:
  assumes ok: "inode_numbers_ok sb" and d: "dir \<le> s_inodes_count sb"
  shows "first_inode sb \<le> unat (new_inode_start sb dir)" "unat (new_inode_start sb dir) \<le> inodes sb"
proof -
  let ?ipg = "s_inodes_per_group sb"
  have "unat ((dir - 1) div ?ipg * ?ipg + 1) \<le> unat dir" if "dir > 0"
  proof -
    have p: "unat (dir - 1) = unat dir - 1" using that by (intro unat_minus_one) auto
    have le: "(unat dir - 1) div unat ?ipg * unat ?ipg \<le> unat dir - 1" by (rule div_times_less_eq_dividend)
    have pos: "0 < unat dir" using that by (simp add: word_less_nat_alt)
    have q: "unat ((dir - 1) div ?ipg) = (unat dir - 1) div unat ?ipg" by (simp only: unat_div p)
    have lt: "(unat dir - 1) div unat ?ipg * unat ?ipg < 2 ^ 32" using le unat_u32_less [of dir] by linarith
    have "unat ((dir - 1) div ?ipg * ?ipg) = (unat dir - 1) div unat ?ipg * unat ?ipg"
      using lt by (simp only: unat_word_ariths(2) q) simp
    then have "unat ((dir - 1) div ?ipg * ?ipg + 1) = ((unat dir - 1) div unat ?ipg * unat ?ipg + 1) mod 2 ^ 32"
      by (simp only: unat_word_ariths(1)) simp
    also have "\<dots> \<le> (unat dir - 1) div unat ?ipg * unat ?ipg + 1" by (rule mod_less_eq_dividend)
    also have "\<dots> \<le> unat dir" using le pos by linarith
    finally show ?thesis .
  qed
  then show "first_inode sb \<le> unat (new_inode_start sb dir)" "unat (new_inode_start sb dir) \<le> inodes sb"
    using ok d by (auto simp: new_inode_start_def Let_def inode_numbers_ok_def word_less_nat_alt word_le_nat_alt)
qed

lemma test_inode:
  assumes "inode_map_ok fs g" "1 \<le> unat ino" "unat ino \<le> inodes (fs_super fs)"
  obtains t g' where "ext2fs_test_inode_bitmap2 (Some g) ino = (t, Some g')" "same_map g g'" "t \<noteq> 0 \<longleftrightarrow> ucast ino \<in> gb_set g"
proof -
  have k: "gb_ok g" "gb_bits g = 0" "gb_in g (ucast ino)" using assms by (simp_all add: inode_map_ok_def word_le_nat_alt)
  obtain t g2 where e: "ext2fs_test_generic_bmap (Some g) (ucast ino) = (t, g2)" by fastforce
  from test_generic [OF k(1) e refl] k that e show thesis by (auto simp: bitmap_inlines same_map_def)
qed

text \<open>C37. On a consistent file system \<open>ext2fs_new_inode\<close> returns for every parent directory, and keeps the state consistent
  and the inodes in use. The inode it returns is free and not reserved, and when it fails with the allocation error every inode that is
  not reserved is in use.\<close>

theorem new_inode_correct:
  assumes "fs_inv fs" "fs_magic fs = EXT2_ET_MAGIC_EXT2FS_FILSYS" "inode_numbers_ok (fs_super fs)" "dir \<le> s_inodes_count (fs_super fs)"
    and "arg = Null_map \<or> arg = Fs_map"
  shows "\<exists>r fs'. ext2fs_new_inode fs dir arg = Some (r, fs', arg) \<and> fs_inv fs' \<and> (\<forall>ino. inode_in_use fs' ino \<longleftrightarrow> inode_in_use fs ino) \<and>
    (case r of
       Inr ino \<Rightarrow> EXT2_FIRST_INODE (fs_super fs) \<le> ino \<and> ino \<le> s_inodes_count (fs_super fs) \<and> \<not> inode_in_use fs ino
     | Inl e \<Rightarrow> e = EXT2_ET_INODE_ALLOC_FAIL \<and>
         (\<forall>ino. EXT2_FIRST_INODE (fs_super fs) \<le> ino \<longrightarrow> ino \<le> s_inodes_count (fs_super fs) \<longrightarrow> inode_in_use fs ino))"
proof -
  let ?sb = "fs_super fs" and ?s = "new_inode_start (fs_super fs) dir"
  obtain g where g: "fs_inode_map fs = Some g" "inode_map_ok fs g" using assms(1) by (auto simp: fs_inv_def inodes_inv_def)
  have w: "with_imap fs g = fs" using g(1) by simp
  note st = new_inode_start_bounds [OF assms(3,4)]
  have "searched ?sb (gb_set g) (unat ?s) (unat ?s)"
    using st assms(3) all_used_empty [of "unat ?s - 1" "unat ?s"] by (simp add: searched_def inode_numbers_ok_def)
  with new_inode_loop_spec [OF assms(3) _ st st] assms(1) w obtain j fs1 g1
    where l: "new_inode_loop ?s fs (Some g) ?s = Some (Inr j, fs1, Some g1)" "same_map g g1" "fs_inv (with_imap fs1 g1)"
      "first_inode ?sb \<le> unat j" "unat j \<le> inodes ?sb" "fs_super fs1 = ?sb"
      "ucast j \<notin> gb_set g \<or> all_used (gb_set g) (first_inode ?sb) (inodes ?sb)" by metis
  have S: "gb_set g1 = gb_set g" using same_mapD(4) [OF l(2)] by simp
  have im: "inode_map_ok fs1 g1" using l(3) by (auto simp: fs_inv_def inodes_inv_def)
  have j1: "1 \<le> unat j" "unat j \<le> inodes (fs_super fs1)" using l(4,5,6) assms(3) by (simp_all add: inode_numbers_ok_def)
  obtain t g2 where t: "ext2fs_test_inode_bitmap2 (Some g1) j = (t, Some g2)" "same_map g1 g2" "t \<noteq> 0 \<longleftrightarrow> ucast j \<in> gb_set g"
    by (rule test_inode [OF im j1]) (use S in simp)
  have inv: "fs_inv (with_imap fs1 g2)" by (rule same_map_inv [OF l(3) t(2)])
  have use: "inode_in_use (with_imap fs1 g2) ino \<longleftrightarrow> inode_in_use fs ino" for ino
    using g(1) same_mapD(4) [OF t(2)] S by (simp add: inode_in_use_def)
  have le: "\<not> ?s > s_inodes_count ?sb" using st(2) by (simp add: word_less_nat_alt)
  have res: "ext2fs_new_inode fs dir arg = Some (if t \<noteq> 0 then Inl EXT2_ET_INODE_ALLOC_FAIL else Inr j, with_imap fs1 g2, arg)"
    using assms(2,5) g(1) le l(1) t(1) unfolding ext2fs_new_inode_def Let_def new_inode_start_def [unfolded Let_def, symmetric]
    by (auto simp: map_of_arg_def arg_of_map_def)
  have "case if t \<noteq> 0 then Inl EXT2_ET_INODE_ALLOC_FAIL else Inr j of
      Inr ino \<Rightarrow> EXT2_FIRST_INODE ?sb \<le> ino \<and> ino \<le> s_inodes_count ?sb \<and> \<not> inode_in_use fs ino
    | Inl e \<Rightarrow> e = EXT2_ET_INODE_ALLOC_FAIL \<and> (\<forall>ino. EXT2_FIRST_INODE ?sb \<le> ino \<longrightarrow> ino \<le> s_inodes_count ?sb \<longrightarrow> inode_in_use fs ino)"
    using t(3) l(4,5,7) g(1) by (auto simp: inode_in_use_def all_used_def word_le_nat_alt)
  with res inv use show ?thesis by blast
qed

theorem new_inode_correct_witness:
  "\<exists>r fs'. ext2fs_new_inode ex_alloc_fs 2 Null_map = Some (r, fs', Null_map) \<and> fs_inv fs'"
proof -
  have "inode_numbers_ok (fs_super ex_alloc_fs)" "(2 :: u32) \<le> s_inodes_count (fs_super ex_alloc_fs)"
    by (simp_all add: inode_numbers_ok_def)
  from new_inode_correct [OF ex_fs_inv(1) _ this, of Null_map] show ?thesis by auto
qed

end
