(* ===== verification/Spec2Isabelle.thy ===== *)
theory Spec2Isabelle
  imports Bitmaps_Correct Gen_Bitmap_Run Alloc_Free_Blocks Alloc_New_Inode
begin

text \<open>
  Verification library for the bitmaps, block groups, checksums and allocator of \<open>libext2fs\<close>, the library of
  \<open>external/e2fsprogs/lib/ext2fs\<close> that reads and changes ext2, ext3 and ext4 file systems.

  \<^bold>\<open>The parts of the program.\<close> A file system keeps a bitmap of the blocks and one of the inodes
  in use. Callers use the named functions of \<open>bitmaps.c\<close> and the inline functions of
  \<open>bitops.h\<close>. They call the generic layer, \<open>gen_bitmap64.c\<close>, which takes a pointer to one of two
  layouts: the old 32-bit map of \<open>gen_bitmap.c\<close>, which is an array of bits, or the 64-bit map,
  which calls a back end through a table of operations (\<open>bmap64.h\<close>). There are two back ends:
  \<open>blkmap64_ba.c\<close>, an array of bits, and \<open>blkmap64_rb.c\<close>, the extents of marked bits in a
  red-black tree (\<open>rbtree.c\<close>) with cursors into it. A 64-bit block map has one bit for a cluster
  of blocks. \<open>blknum.c\<close> reads and writes the counters of the super block and of the group
  descriptors and computes which blocks a group has. \<open>csum.c\<close> computes, stores and verifies
  the checksums of the on-disk structures with the functions of \<open>crc16.c\<close> and \<open>crc32c.c\<close>. The
  allocator, \<open>alloc.c\<close>, searches the maps for free blocks and inodes; \<open>alloc_stats.c\<close> marks them
  and keeps the counters, flags and checksums of the groups and the counters of the super block.

  \<^bold>\<open>The theories.\<close>
  \<^item> \<open>Prelude\<close>: machine integers as words (\<open>u8\<close> to \<open>u64\<close>), error codes, bits of a byte array
    (\<open>bit_at\<close>), and the lemmas on words, lists and bits that the components share.
    \<open>Ext2_Err\<close>: the error codes.
  \<^item> \<open>Bitops\<close>: \<open>bitops.c\<close> and the inline functions on bits of \<open>bitops.h\<close>.
  \<^item> \<open>Rbtree\<close>: \<open>rbtree.c\<close>; a tree is a value, the way up through the parent pointers is the path
    that a descent has taken. The lemmas show that insertion and deletion keep the colours, the
    black heights and the order of the nodes.
  \<^item> \<open>Bmap64\<close>: the structure and the operation table of \<open>bmap64.h\<close>, the calls of the table as
    data, and the interface \<open>bmap_backend\<close>, a locale whose laws say what each entry of a table
    does to the set of marked bits and what it returns; the runs of calls are proved correct in
    it once. The back ends differ in what clearing a bit reports; a parameter of the locale says
    which of the two a back end does.
  \<^item> \<open>Blkmap64_BA\<close> and \<open>Blkmap64_BA_Correct\<close>: \<open>blkmap64_ba.c\<close>, with the address of the array as
    an argument because the searches read aligned words; the interpretation \<open>bitarray\<close>.
  \<^item> \<open>Blkmap64_RB\<close>: \<open>blkmap64_rb.c\<close> with its cursors; an extent carries its address.
    \<open>Blkmap64_RB_Inv\<close> has the invariant (sorted extents that cannot be merged, a balanced tree,
    valid cursors), \<open>Blkmap64_RB_Correct\<close> insertion, removal and lookup, \<open>Blkmap64_RB_Ops\<close> the
    operations of the table and the interpretation \<open>rbtree\<close>, \<open>Blkmap64_RB_Range\<close> searching,
    copying, resizing and the transfer to and from a buffer.
  \<^item> \<open>Gen_Bitmap\<close> and \<open>Gen_Bitmap_Correct\<close>: \<open>gen_bitmap.c\<close>.
  \<^item> \<open>Filsys\<close>: the fields of the super block, the group descriptor, the inode and the handle that
    the modelled functions use, with the macros on features, flags and clusters.
  \<^item> \<open>Blknum\<close> and \<open>Blknum_Correct\<close>: \<open>blknum.c\<close>. The locale \<open>group_field\<close> is the contract of a
    counter of a group descriptor; it has an interpretation for each of the four counters.
  \<^item> \<open>Gen_Bitmap64\<close> and \<open>Gen_Bitmap64_Correct\<close>: \<open>gen_bitmap64.c\<close>. A map stands for bounds, a
    cluster size and a set of clusters (\<open>gb_set\<close>). \<open>Gen_Bitmap_Run\<close> is the contract of the layer
    for its clients, the locale \<open>cluster_map\<close>, with its interpretation \<open>generic_map\<close>.
  \<^item> \<open>Bitmaps\<close> and \<open>Bitmaps_Correct\<close>: \<open>bitmaps.c\<close>, the inline functions of \<open>bitops.h\<close> on maps,
    and the counting and converting functions at the end of \<open>gen_bitmap64.c\<close>.
  \<^item> \<open>Bytes\<close>: reading and writing little-endian fields of a buffer.
  \<^item> \<open>Crc\<close>: cyclic redundancy checks bit by bit, their linearity and the changes they notice.
    \<open>Crc16\<close> is \<open>crc16.c\<close>; \<open>Crc32c_Table\<close> has the tables of \<open>crc32c_table.h\<close> and \<open>Crc32c\<close> is
    \<open>crc32c.c\<close>. Its locale \<open>crc_slices\<close> is the contract of tables for eight bytes at a time, with
    an interpretation for each of the two tables; both checks equal their bitwise variants.
  \<^item> \<open>Csum\<close> and \<open>Csum_Correct\<close>: \<open>csum.c\<close>, and the record lengths of \<open>dir_iterate.c\<close>. A structure
    that holds its own checksum is the locale \<open>csum_field\<close>, interpreted for the super block,
    the multiple-mount block, the attribute block and the group descriptor: what was set
    verifies. A change of a few neighbouring bytes of a bitmap or a descriptor does not.
    \<open>Gdt_Csum_Correct\<close> is \<open>ext2fs_set_gdt_csum\<close>, which returns, signs every descriptor and hides
    no used inode.
  \<^item> \<open>Alloc_Stats\<close>: \<open>alloc_stats.c\<close>; the callback pointers of the handle are the record
    \<open>alloc_hooks\<close>. \<open>Alloc\<close>: \<open>alloc.c\<close>; reading a bitmap and writing a block are \<open>alloc_io\<close>.
  \<^item> \<open>Alloc_Stats_Correct\<close> and \<open>Alloc_Inode_Correct\<close>: the block and the inode side of the
    invariant of the allocation state (the counter of each group is the number of its free
    clusters or inodes, the counter of the super block is their sum, and the flags and the count
    of never used inodes hide nothing in use) and that marking and releasing keep it.
    \<open>Alloc_Inv\<close> joins them with the checksums (\<open>fs_inv\<close>); the calls of a client are the step
    relation \<open>alloc_step\<close>, and every reachable state is consistent.
  \<^item> \<open>Alloc_Correct\<close>: the search for a block and its allocation. \<open>Alloc_Range_Correct\<close>: the search
    for a run, and when it never returns. \<open>Alloc_Free_Blocks\<close>: the search for a number of free
    blocks, and when it never returns. \<open>Alloc_New_Inode\<close>: the search for an inode, which returns
    for every parent directory.
  \<^item> \<open>Examples\<close> and \<open>Alloc_Examples\<close>: small maps and file systems on which the properties are
    applied.

  \<^bold>\<open>Conventions.\<close> A function that changes a structure returns the changed structure. Error codes
  are integers, 0 is success; a function that stores a result only when it succeeds returns a
  sum. \<open>mem\<close> says which allocations succeed and \<open>junk\<close> what fresh memory holds; the theorems hold
  for all of them. A loop that need not end is a \<open>partial_function\<close>, and \<open>None\<close> means that the
  call does not return; the theorems about searching, counting and converting show that it does
  return, or for which states it does not. No model has fuel. Warnings that the code prints are left out.

  \<^bold>\<open>Not modelled.\<close> The functions that read and write the disk (the I/O managers, opening and
  closing a file system, directories, extents of files, journals), the checker and the other
  programs, the libraries for devices, messages and identifiers, and the vendored trees beside
  e2fsprogs. The statistics printers of the back ends and their debug checks only print. In
  \<open>ext2fs_group_desc\<close> the branch that reads a descriptor from disk is taken as the absent case.
  \<open>ext2fs_find_inode_goal\<close> of \<open>alloc.c\<close> reads the extents of a file from disk and changes nothing.
  The table-driven variants of \<open>crc32c.c\<close> for fewer than 64 bits at a time are configured out, and
  the debug section of \<open>csum.c\<close> is test code.
\<close>




text \<open>C1. Whatever the layout and the back end of a bitmap, every sequence
  of calls of the generic layer, with range tests that stay within the map, returns what
  the same calls return on a set of clusters, and leaves the map holding that set. The
  result of clearing is whether the cluster was marked; for an extent tree it is whether
  the cluster or the one after it was.\<close>

theorem generic_run_refines:
  assumes "block_map g" "list_all (gb_call_ok g) cs"
  shows "\<exists>rs g'. gb_run cs (Some g) = (rs, Some g') \<and> block_map g' \<and> gb_same g g' \<and>
    cset_run (gb_wide g) (gb_start g) (gb_end g) (gb_bits g) cs (gb_set g) = (rs, gb_set g')"
  using generic_map.run_spec [OF assms] by (auto simp: gb_kin_def)

theorem generic_run_refines_witness:
  "\<exists>rs g'. gb_run [GMark 5, GUnmark 4, GTest 5, GMark_range 8 4, GTest_range 6 3] (Some ex_rb) = (rs, Some g') \<and> block_map g' \<and>
    cset_run True 0 15 0 [GMark 5, GUnmark 4, GTest 5, GMark_range 8 4, GTest_range 6 3] {} = (rs, gb_set g')"
proof -
  have "gb_covers ex_rb 6 3"
    unfolding gb_covers_def clusters_of_def by (auto simp: ex_rb_def gb_in_def word_le_nat_alt)
  then have "list_all (gb_call_ok ex_rb) [GMark 5, GUnmark 4, GTest 5, GMark_range 8 4, GTest_range 6 3]"
    by (simp add: range_args_def ex_rb_def)
  from generic_run_refines [OF ex_rb_ok(1) this] show ?thesis
    unfolding ex_rb_ok(2) by (auto simp: ex_rb_def is_tree_def)
qed

text \<open>C6. Two maps that cover the same clusters and hold the same set return the same
  results for every sequence of calls with range tests within the map, be they a 32-bit map,
  a bit array or an extent tree. If one is an extent tree and the other is not, no call may
  clear an unmarked cluster whose successor is marked: there the results differ.\<close>

theorem layouts_agree:
  assumes "block_map g" "block_map h" "gb_start g = gb_start h" "gb_end g = gb_end h" "gb_bits g = gb_bits h"
    and "gb_set g = gb_set h" "list_all (gb_call_ok g) cs"
    and "gb_wide g = gb_wide h \<or> clean_run (gb_start g) (gb_end g) (gb_bits g) cs (gb_set g)"
  shows "fst (gb_run cs (Some g)) = fst (gb_run cs (Some h))"
proof -
  have "gb_call_ok g = gb_call_ok h"
  proof
    fix c show "gb_call_ok g c = gb_call_ok h c"
      using assms(3-5) by (cases c) (simp_all add: gb_covers_def gb_in_def)
  qed
  moreover have "gb_spec_run g cs (gb_set g) = gb_spec_run h cs (gb_set h)"
  proof (cases "gb_wide g = gb_wide h")
    case False
    with assms(8) have c: "clean_run (gb_start g) (gb_end g) (gb_bits g) cs (gb_set g)" by blast
    show ?thesis using clean_run_wide [OF c, of "gb_wide g"] clean_run_wide [OF c, of "gb_wide h"] by (simp add: assms(3-6))
  qed (simp add: assms(3-6))
  ultimately show ?thesis using assms generic_map.run_spec [of g cs] generic_map.run_spec [of h cs] by auto
qed

theorem layouts_agree_witness:
  "fst (gb_run [GMark 3, GMark_range 2 9, GUnmark 7, GTest 7] (Some (ex_32 (replicate 8 0)))) =
   fst (gb_run [GMark 3, GMark_range 2 9, GUnmark 7, GTest 7] (Some ex_rb))"
proof (rule layouts_agree [OF ex_32_ok ex_rb_ok(1)])
  have e: "gb_set (ex_32 (replicate 8 0)) = {}" by (auto simp: ex_32_def marked_32_def bit_at_def in_32_def)
  then show "gb_set (ex_32 (replicate 8 0)) = gb_set ex_rb" by (simp add: ex_rb_ok(2))
  have "7 \<in> clusters_of 0 2 9" "covered 0 15 (clusters_of 0 2 9)"
    by (auto simp: clusters_of_iff covered_def word_le_nat_alt)
  then show "gb_wide (ex_32 (replicate 8 0)) = gb_wide ex_rb \<or>
      clean_run (gb_start (ex_32 (replicate 8 0))) (gb_end (ex_32 (replicate 8 0))) (gb_bits (ex_32 (replicate 8 0)))
        [GMark 3, GMark_range 2 9, GUnmark 7, GTest 7] (gb_set (ex_32 (replicate 8 0)))"
    unfolding e by (simp add: ex_32_def Let_def)
qed (simp_all add: ex_32_def ex_rb_def range_args_def)

text \<open>C2. On a freshly created extent-tree bitmap, every sequence of in-range
  calls returns what the same calls return on a set of bits, and leaves the
  map holding that set. Clearing a bit reports that bit and the one after it.\<close>

theorem rbtree_run_correct:
  assumes "header_ok bm" "rb_new_bmap mem bm = (0, bm0)" "list_all (call_ok bm0) cs"
    and "bm_run ext2fs_blkmap64_rbtree cs bm0 = (rs, bm')"
  shows "valid_rb bm' \<and> set_run True cs {} = (rs, marked_rb bm')"
  using rb_new_valid [OF assms(1,2)] rbtree.run_refines [OF _ assms(3,4)] by simp

theorem rbtree_run_correct_witness:
  "\<exists>bm0 rs bm'. rb_new_bmap True ex_hdr = (0, bm0) \<and>
     bm_run ext2fs_blkmap64_rbtree [Mark_call 5, Unmark_call 4, Test_call 5] bm0 = (rs, bm') \<and>
     set_run True [Mark_call 5, Unmark_call 4, Test_call 5] {} = (rs, marked_rb bm')"
proof -
  obtain rs bm' where r: "bm_run ext2fs_blkmap64_rbtree [Mark_call 5, Unmark_call 4, Test_call 5]
    (snd (rb_new_bmap True ex_hdr)) = (rs, bm')" by fastforce
  have "header_ok ex_hdr" by (simp add: header_ok_def ex_hdr_def)
  moreover have n: "rb_new_bmap True ex_hdr = (0, snd (rb_new_bmap True ex_hdr))"
    by (simp add: rb_new_bmap_def rb_alloc_private_data_def)
  moreover have "list_all (call_ok (snd (rb_new_bmap True ex_hdr))) [Mark_call 5, Unmark_call 4, Test_call 5]"
    by (simp add: rb_new_bmap_def rb_alloc_private_data_def in_range_def ex_hdr_def)
  ultimately have "set_run True [Mark_call 5, Unmark_call 4, Test_call 5] {} = (rs, marked_rb bm')"
    using rbtree_run_correct [OF _ _ _ r] by blast
  with n r show ?thesis by blast
qed

text \<open>C5. On a freshly created bit-array bitmap, every sequence of in-range calls
  returns what the same calls return on a set of bits, and leaves the map holding that set.
  Clearing a bit reports exactly that bit.\<close>

theorem bitarray_run_correct:
  assumes "header_ok bm" "ba_new_bmap mem junk bm = (0, bm0)" "list_all (call_ok bm0) cs"
    and "bm_run (ext2fs_blkmap64_bitarray addr) cs bm0 = (rs, bm')"
  shows "valid_ba bm' \<and> set_run False cs {} = (rs, marked_ba bm')"
  using bitarray.new_bmap_marked [OF assms(1)] assms(2) bitarray.run_refines [OF _ assms(3,4)] by simp

theorem bitarray_run_correct_witness:
  "\<exists>bm0 rs bm'. ba_new_bmap (\<lambda>_. True) (\<lambda>_. 7) ex_hdr = (0, bm0) \<and>
     bm_run (ext2fs_blkmap64_bitarray 3) [Mark_extent_call 5 9, Test_clear_call 1 6] bm0 = (rs, bm') \<and>
     set_run False [Mark_extent_call 5 9, Test_clear_call 1 6] {} = (rs, marked_ba bm')"
proof -
  let ?cs = "[Mark_extent_call 5 9, Test_clear_call 1 6]" and ?n = "ba_new_bmap (\<lambda>_. True) (\<lambda>_. 7) ex_hdr"
  obtain rs bm' where r: "bm_run (ext2fs_blkmap64_bitarray 3) ?cs (snd ?n) = (rs, bm')" by fastforce
  have "header_ok ex_hdr" by (simp add: header_ok_def ex_hdr_def)
  moreover have n: "?n = (0, snd ?n)" by (simp add: ba_new_bmap_def ba_alloc_private_data_def)
  moreover have "list_all (call_ok (snd ?n)) ?cs"
    by (simp add: ba_new_bmap_def ba_alloc_private_data_def range_ok_def ex_hdr_def)
  ultimately have "set_run False ?cs {} = (rs, marked_ba bm')" using bitarray_run_correct [OF _ _ _ r] by blast
  with n r show ?thesis by blast
qed

text \<open>C7. After any sequence of in-range calls the extent tree is balanced, its height
  at most twice the logarithm of the number of its extents, and the extents are sorted and
  apart from each other: no two of them could be merged.\<close>

theorem rb_run_balanced:
  assumes "valid_rb bm" "list_all (call_ok bm) cs" "bm_run ext2fs_blkmap64_rbtree cs bm = (rs, bm')"
  shows "2 ^ (rb_height (rb_root (rb_priv bm')) div 2) \<le> Suc (length (inorder (rb_root (rb_priv bm')))) \<and>
    sorted_wrt (\<lambda>x y. unat (ext_start x) + unat (ext_count x) < unat (ext_start y)) (inorder (rb_root (rb_priv bm')))"
proof -
  have v: "rb_inv (rb_priv bm')" using rbtree.run_refines [OF assms(1-3)] valid_rbD(2) by blast
  then have "2 ^ (rb_height (rb_root (rb_priv bm')) div 2) \<le> Suc (length (inorder (rb_root (rb_priv bm'))))"
    by (intro rb_height_log rb_baseD(3)) (simp add: rb_inv_def)
  with rb_inv_exts_ok [OF v] show ?thesis unfolding exts_ok_def by simp
qed

theorem rb_run_balanced_witness:
  "\<exists>rs bm'. bm_run ext2fs_blkmap64_rbtree [Mark_call 5, Mark_call 7, Unmark_call 6] (snd (rb_new_bmap True ex_hdr)) = (rs, bm') \<and>
     2 ^ (rb_height (rb_root (rb_priv bm')) div 2) \<le> Suc (length (inorder (rb_root (rb_priv bm'))))"
proof -
  let ?cs = "[Mark_call 5, Mark_call 7, Unmark_call 6]" and ?n = "snd (rb_new_bmap True ex_hdr)"
  obtain rs bm' where r: "bm_run ext2fs_blkmap64_rbtree ?cs ?n = (rs, bm')" by fastforce
  have n: "rb_new_bmap True ex_hdr = (0, ?n)" by (simp add: rb_new_bmap_def rb_alloc_private_data_def)
  have "valid_rb ?n" using rb_new_valid [OF _ n] by (simp add: header_ok_def ex_hdr_def)
  moreover have "list_all (call_ok ?n) ?cs"
    by (simp add: rb_new_bmap_def rb_alloc_private_data_def in_range_def ex_hdr_def)
  ultimately show ?thesis using rb_run_balanced [OF _ _ r] r by blast
qed

text \<open>C3. The search for a zero returns, and what it returns is the first block
  of the range that is not in use, or \<open>ENOENT\<close> when every block of the range is. The tree of
  an extent map must not be empty, and a 32-bit search must not end at the last number.\<close>

theorem find_first_zero_correct:
  assumes "gb_ok g" "gb_in g (drop_bit (gb_bits g) start)" "gb_in g (drop_bit (gb_bits g) end')" "start \<le> end'"
    and "\<And>b. g = Bitmap32 b \<Longrightarrow> end' \<noteq> 0xFFFFFFFF"
    and "\<And>b. g = Bitmap64 b \<Longrightarrow> valid_rb b \<Longrightarrow> rb_root (rb_priv b) \<noteq> Leaf"
  shows "\<exists>r. ext2fs_find_first_zero_generic_bmap (Some g) start end' = Some r \<and>
    search_result (\<lambda>x. drop_bit (gb_bits g) x \<notin> gb_set g) start end' r"
  using find_first_zero_generic [OF assms] .

theorem find_first_zero_correct_witness:
  "\<exists>r. ext2fs_find_first_zero_generic_bmap (Some (ex_ba [0xFF, 0x3])) 2 15 = Some r \<and>
    search_result (\<lambda>x. drop_bit 0 x \<notin> gb_set (ex_ba [0xFF, 0x3])) 2 15 r"
proof -
  have "gb_ok (ex_ba [0xFF, 0x3])" using ex_ba_ok [of "[0xFF, 0x3]"] by (simp add: block_map_def)
  from find_first_zero_correct [OF this, of 2 15] show ?thesis
    by (simp add: ex_ba_def gb_in_def valid_rb_def del: gb_set.simps)
qed

text \<open>C8. The search for a set bit returns the first block of the range that is in
  use, or \<open>ENOENT\<close>; for either layout and back end.\<close>

theorem find_first_set_correct:
  assumes "gb_ok g" "gb_in g (drop_bit (gb_bits g) start)" "gb_in g (drop_bit (gb_bits g) end')" "start \<le> end'"
    and "\<And>b. g = Bitmap32 b \<Longrightarrow> end' \<noteq> 0xFFFFFFFF"
  shows "\<exists>r. ext2fs_find_first_set_generic_bmap (Some g) start end' = Some r \<and>
    search_result (\<lambda>x. drop_bit (gb_bits g) x \<in> gb_set g) start end' r"
  using find_first_set_generic [OF assms] .

theorem find_first_set_correct_witness:
  "\<exists>r. ext2fs_find_first_set_generic_bmap (Some (ex_32 (replicate 8 0))) 2 15 = Some r \<and>
    search_result (\<lambda>x. drop_bit 0 x \<in> gb_set (ex_32 (replicate 8 0))) 2 15 r"
proof -
  have "gb_ok (ex_32 (replicate 8 0))" using ex_32_ok [of "replicate 8 0"] by (simp add: block_map_def)
  from find_first_set_correct [OF this, of 2 15] show ?thesis by (simp add: ex_32_def gb_in_def del: gb_set.simps)
qed

text \<open>C18. On a 32-bit map whose last bit has the largest number, the search for a set bit
  never returns when no bit is set: the counter wraps around.\<close>

theorem search_diverges:
  assumes "b32_end b = 0xFFFFFFFF" "b32_start b \<le> start" "\<forall>x. ext2fs_test_bit x (b32_bitmap b) = 0"
  shows "ext2fs_find_first_set_generic_bitmap b start 0xFFFFFFFF = None"
proof -
  have "start \<le> 0xFFFFFFFF" using unat_u32_less [of start] by (simp add: word_le_nat_alt)
  with assms show ?thesis
    unfolding ext2fs_find_first_set_generic_bitmap_def using find_first_32_diverges [of "\<lambda>r. r \<noteq> 0" b start]
    by (simp add: not_less)
qed

theorem search_diverges_witness:
  "ext2fs_find_first_set_generic_bitmap \<lparr>b32_magic = EXT2_ET_MAGIC_BLOCK_BITMAP, b32_start = 0, b32_end = 0xFFFFFFFF,
     b32_real_end = 0xFFFFFFFF, b32_description = None, b32_bitmap = replicate (2 ^ 29) 0, b32_base_error_code = 0\<rparr> 7 0xFFFFFFFF = None"
proof (rule search_diverges)
  have "unat (x :: u32) div 8 < 2 ^ 29" for x using unat_u32_less [of x] by simp
  then show "\<forall>x. ext2fs_test_bit x (b32_bitmap \<lparr>b32_magic = EXT2_ET_MAGIC_BLOCK_BITMAP, b32_start = 0, b32_end = 0xFFFFFFFF,
     b32_real_end = 0xFFFFFFFF, b32_description = None, b32_bitmap = replicate (2 ^ 29) 0, b32_base_error_code = 0\<rparr>) = 0"
    by (simp add: ext2fs_test_bit_def unat_drop_bit)
qed simp_all

text \<open>C12. A map that the generic layer creates is usable, covers the requested range, has the
  cluster size of the file system if it is a block map, and is empty; whatever fresh memory holds.\<close>

theorem new_map_empty:
  assumes "start \<le> end'" "end' \<le> real_end" "Suc (unat real_end) < 2 ^ 64" "EXT2FS_IS_64_BITMAP magic"
    and "fs_cluster_ratio_bits fs < 31" "ext2fs_alloc_generic_bmap mem junk fs magic t start end' real_end descr = Inr g"
  shows "gb_ok g \<and> gb_set g = {} \<and> bitmap_magic g = magic \<and> gb_start g = start \<and> gb_end g = end' \<and>
    gb_bits g = (if magic = EXT2_ET_MAGIC_BLOCK_BITMAP64 then fs_cluster_ratio_bits fs else 0)"
  using alloc_generic [OF assms] by blast

theorem new_map_empty_witness:
  "\<exists>g. ext2fs_alloc_generic_bmap (\<lambda>_. True) (\<lambda>_. 9) ex_fs EXT2_ET_MAGIC_BLOCK_BITMAP64 2 0 39 47 (Some ''b'') = Inr g \<and> gb_set g = {}"
proof -
  obtain g where g: "ext2fs_alloc_generic_bmap (\<lambda>_. True) (\<lambda>_. 9) ex_fs EXT2_ET_MAGIC_BLOCK_BITMAP64 2 0 39 47 (Some ''b'') = Inr g"
    by (simp add: ext2fs_alloc_generic_bmap_def new_ops_def rb_new_bmap_def rb_alloc_private_data_def)
  from new_map_empty [OF _ _ _ _ _ g] g show ?thesis by (simp add: EXT2FS_IS_64_BITMAP_def ex_fs_def)
qed

text \<open>C13. Creating a map fails only for an unknown type or for want of memory.\<close>

theorem new_map_errors:
  assumes "ext2fs_alloc_generic_bmap mem junk fs magic t start end' real_end descr = Inl e"
  shows "e = EINVAL \<and> t \<notin> {0, 1, 2, 3} \<or> e = EXT2_ET_NO_MEMORY \<and> (\<exists>i. \<not> mem i)"
  using alloc_generic_fails [OF assms] .

theorem new_map_errors_witness:
  "\<exists>e. ext2fs_alloc_generic_bmap (\<lambda>i. i < 2) (\<lambda>_. 9) ex_fs EXT2_ET_MAGIC_BLOCK_BITMAP64 1 0 39 47 (Some ''b'') = Inl e \<and>
    e = EXT2_ET_NO_MEMORY"
proof -
  obtain e where e: "ext2fs_alloc_generic_bmap (\<lambda>i. i < 2) (\<lambda>_. 9) ex_fs EXT2_ET_MAGIC_BLOCK_BITMAP64 1 0 39 47 (Some ''b'') = Inl e"
    by (simp add: ext2fs_alloc_generic_bmap_def new_ops_def ba_new_bmap_def ba_alloc_private_data_def)
  from new_map_errors [OF e] e show ?thesis by auto
qed

text \<open>C11. The copy of a map covers the same clusters and holds the same set, and the original is
  unchanged but for its cursors.\<close>

theorem copy_map:
  assumes "gb_ok g" "\<And>b. g = Bitmap32 b \<Longrightarrow> whole_32 b" "ext2fs_copy_generic_bmap mem junk (Some g) = (Inr g', Some g'')"
  shows "gb_ok g' \<and> gb_ok g'' \<and> gb_set g' = gb_set g \<and> gb_set g'' = gb_set g \<and> bitmap_magic g' = bitmap_magic g \<and>
    gb_start g' = gb_start g \<and> gb_end g' = gb_end g \<and> gb_bits g' = gb_bits g \<and> gb_same g g''"
  using copy_generic [OF assms] .

theorem copy_map_witness:
  "\<exists>g' g''. ext2fs_copy_generic_bmap (\<lambda>_. True) (\<lambda>_. 0) (Some (ex_ba [5, 1])) = (Inr g', Some g'') \<and>
    gb_set g' = gb_set (ex_ba [5, 1])"
proof -
  obtain g' g'' where c: "ext2fs_copy_generic_bmap (\<lambda>_. True) (\<lambda>_. 0) (Some (ex_ba [5, 1])) = (Inr g', Some g'')"
    by (simp add: ex_ba_def EXT2FS_IS_64_BITMAP_def bitmap_ops_def ba_copy_bmap_def ba_alloc_private_data_def Let_def)
  have "gb_ok (ex_ba [5, 1])" using ex_ba_ok [of "[5, 1]"] by (simp add: block_map_def)
  from copy_map [OF this _ c] c show ?thesis by (auto simp: ex_ba_def)
qed

text \<open>C10. After a resize the map covers the new range; a cluster of it is in the set exactly
  when it was in the set and not beyond the old end. No bit may be left beyond the real end of an
  array, which a resize to a smaller size does not guarantee.\<close>

theorem resize_map:
  assumes "gb_ok g" "gb_tight g" "gb_start g \<le> new_end" "new_end \<le> new_real_end" "Suc (unat new_real_end) < 2 ^ 64"
    and "\<And>b. g = Bitmap32 b \<Longrightarrow> \<not> above_32 new_real_end"
    and "ext2fs_resize_generic_bmap mem junk (Some g) new_end new_real_end = (0, g1)"
  shows "\<exists>g'. g1 = Some g' \<and> gb_ok g' \<and> bitmap_magic g' = bitmap_magic g \<and> gb_start g' = gb_start g \<and>
    gb_end g' = new_end \<and> gb_bits g' = gb_bits g \<and>
    (\<forall>c. gb_in g' c \<longrightarrow> (c \<in> gb_set g' \<longleftrightarrow> c \<in> gb_set g \<and> c \<le> gb_end g))"
  using resize_generic [OF assms] .

theorem resize_map_witness:
  "\<exists>g'. ext2fs_resize_generic_bmap (\<lambda>_. True) (\<lambda>_. 0) (Some ex_rb) 31 31 = (0, Some g') \<and> gb_end g' = 31"
proof -
  obtain g1 where r: "ext2fs_resize_generic_bmap (\<lambda>_. True) (\<lambda>_. 0) (Some ex_rb) 31 31 = (0, g1)"
    by (simp add: ex_rb_def EXT2FS_IS_64_BITMAP_def bitmap_ops_def rb_resize_bmap_def Let_def)
  have "gb_ok ex_rb" using ex_rb_ok by (simp add: block_map_def)
  from resize_map [OF this _ _ _ _ _ r] r show ?thesis by (auto simp: ex_rb_def)
qed


text \<open>C15. The comparison of two 32-bit maps returns 0 exactly when they cover the same
  range and agree on it; the padding after the end does not matter.\<close>

theorem compare_32_correct:
  assumes "valid_32 a" "valid_32 b" "b32_magic a = magic" "b32_magic b = magic" "neq \<noteq> 0" "b32_end a \<noteq> 0xFFFFFFFF"
  shows "ext2fs_compare_generic_bitmap magic neq (Some (Bitmap32 a)) (Some (Bitmap32 b)) =
    Some (if b32_start a = b32_start b \<and> b32_end a = b32_end b \<and>
      (\<forall>x. b32_start a \<le> x \<and> x \<le> b32_end a \<longrightarrow> (x \<in> marked_32 a \<longleftrightarrow> x \<in> marked_32 b)) then 0 else neq)"
  using compare_32 [OF assms] .

definition ex_b32 :: "u8 list \<Rightarrow> bitmap32" where
  "ex_b32 bs = \<lparr>b32_magic = EXT2_ET_MAGIC_BLOCK_BITMAP, b32_start = 0, b32_end = 15, b32_real_end = 15,
     b32_description = None, b32_bitmap = bs, b32_base_error_code = 0\<rparr>"

theorem compare_32_correct_witness:
  "ext2fs_compare_generic_bitmap EXT2_ET_MAGIC_BLOCK_BITMAP 7 (Some (Bitmap32 (ex_b32 [8, 1, 0, 0]))) (Some (Bitmap32 (ex_b32 [8, 1, 9, 9]))) =
    Some (if (\<forall>x. 0 \<le> x \<and> x \<le> 15 \<longrightarrow> (x \<in> marked_32 (ex_b32 [8, 1, 0, 0]) \<longleftrightarrow> x \<in> marked_32 (ex_b32 [8, 1, 9, 9]))) then 0 else 7)"
proof -
  have "valid_32 (ex_b32 [8, 1, 0, 0])" "valid_32 (ex_b32 [8, 1, 9, 9])" by (simp_all add: ex_b32_def valid_32_def b32_size_def)
  from compare_32_correct [OF this, of EXT2_ET_MAGIC_BLOCK_BITMAP 7] show ?thesis by (simp add: ex_b32_def)
qed

text \<open>C16. Bytes that are stored in the range of a 32-bit map are read back.\<close>

theorem set_get_range:
  assumes "valid_32 b" "b32_magic b = magic" "byte_range_ok b start num"
    and "(unat num + 7) div 8 \<le> length in'" "(unat num + 7) div 8 \<le> length out"
  shows "ext2fs_get_generic_bitmap_range (snd (ext2fs_set_generic_bitmap_range (Some (Bitmap32 b)) magic start num in'))
      magic start num out = (0, take ((unat num + 7) div 8) in' @ drop ((unat num + 7) div 8) out)"
  using set_get_range_32 [OF assms] .

theorem set_get_range_witness:
  "ext2fs_get_generic_bitmap_range (snd (ext2fs_set_generic_bitmap_range (Some (Bitmap32 (ex_b32 [0, 0, 0, 0])))
     EXT2_ET_MAGIC_BLOCK_BITMAP 8 8 [7])) EXT2_ET_MAGIC_BLOCK_BITMAP 8 8 [1, 2] = (0, [7, 2])"
proof -
  have "valid_32 (ex_b32 [0, 0, 0, 0])" by (simp add: ex_b32_def valid_32_def b32_size_def)
  from set_get_range [OF this, of EXT2_ET_MAGIC_BLOCK_BITMAP 8 8 "[7]" "[1, 2]"] show ?thesis
    by (simp add: ex_b32_def byte_range_ok_def)
qed

text \<open>C17. Bits that are added to an extent tree from a buffer are read back from it, together
  with those that were set before.\<close>

theorem rb_set_get_range:
  assumes "valid_rb bm" "bm_start bm \<le> start" "unat start + unat num \<le> Suc (unat (bm_real_end bm))"
    and "unat num < 2 ^ 31" "unat num \<le> 8 * length cp" "(unat num + 7) div 8 \<le> length out"
    and "rb_set_bmap_range bm start num cp = (rv, bm')" "marked_rb bm' \<noteq> {}"
    and "rb_get_bmap_range bm' start num out = (rv', out')"
  shows "rv = 0 \<and> rv' = 0 \<and> (\<forall>m < unat num. bit_at out' m \<longleftrightarrow> bit_at cp m \<or> start + word_of_nat m \<in> marked_rb bm)"
proof -
  note s = rb_set_range_valid [OF assms(1-5,7)]
  have h: "Suc (unat (bm_real_end bm)) < 2 ^ 64" using header_okD(3) [OF valid_rbD(1) [OF assms(1)]] .
  have ne: "rb_root (rb_priv bm') \<noteq> Leaf" using assms(8) by (auto simp: marked_rb_def rb_bits_def)
  have st: "bm_start bm' \<le> start" using s assms(2) same_headerD(2) [of bm bm'] by auto
  have g: "rv' = 0" "m < unat num \<Longrightarrow> bit_at out' m \<longleftrightarrow> start + word_of_nat m \<in> marked_rb bm'" for m
    using rb_get_range_spec [of bm', OF _ ne st _ _ assms(6,9)] s assms(3,4) h by auto
  have "bit_at out' m \<longleftrightarrow> bit_at cp m \<or> start + word_of_nat m \<in> marked_rb bm" if m: "m < unat num" for m
  proof -
    have "unat (start + word_of_nat m) = unat start + m"
      using m assms(3) h by (subst unat_plus_less) (simp_all add: unat_word_of_nat)
    then show ?thesis using s g(2) [OF m] m by auto
  qed
  with s g(1) show ?thesis by blast
qed

theorem rb_set_get_range_witness:
  "\<exists>bm' out'. rb_set_bmap_range (snd (rb_new_bmap True ex_hdr)) 3 8 [5] = (0, bm') \<and>
     rb_get_bmap_range bm' 3 8 [0] = (0, out') \<and> bit_at out' 0 \<and> \<not> bit_at out' 1 \<and> bit_at out' 2"
proof -
  let ?n = "snd (rb_new_bmap True ex_hdr)"
  have n: "rb_new_bmap True ex_hdr = (0, ?n)" by (simp add: rb_new_bmap_def rb_alloc_private_data_def)
  have v: "valid_rb ?n" "marked_rb ?n = {}" "bm_start ?n = 1" "bm_real_end ?n = 63"
    using rb_new_valid [OF _ n] by (simp_all add: header_ok_def ex_hdr_def rb_new_bmap_def rb_alloc_private_data_def)
  obtain rv bm' where s: "rb_set_bmap_range ?n 3 8 [5] = (rv, bm')" by fastforce
  obtain rv' out' where g: "rb_get_bmap_range bm' 3 8 [0] = (rv', out')" by fastforce
  have b5: "bit_at [5 :: u8] 0" "\<not> bit_at [5 :: u8] 1" "bit_at [5 :: u8] 2" by code_simp+
  have "3 \<in> marked_rb bm'" using rb_set_range_valid [OF v(1) _ _ _ _ s] v(3,4) b5(1) by simp
  then have "marked_rb bm' \<noteq> {}" by blast
  from rb_set_get_range [OF v(1) _ _ _ _ _ s this g] v(2,3,4) have
    "rv = 0 \<and> rv' = 0 \<and> (\<forall>m < 8. bit_at out' m \<longleftrightarrow> bit_at [5] m)" by simp
  with s g b5 show ?thesis by auto
qed

text \<open>C24. The group of a block is the one whose first and last block enclose it.\<close>

theorem group_of_block:
  assumes "geometry_ok fs" "unat (s_first_data_block (fs_super fs)) \<le> unat blk"
    and "unat blk < unat (ext2fs_blocks_count (fs_super fs))" "in_groups fs grp"
  shows "ext2fs_group_of_blk2 fs blk = grp \<longleftrightarrow>
    ext2fs_group_first_block2 fs grp \<le> blk \<and> blk \<le> ext2fs_group_last_block2 fs grp"
  using group_of_blk_iff [OF assms] .

lemma ex_fs_geometry: "geometry_ok ex_fs" "clusters_ok ex_fs" "groups_ok ex_fs"
  "unat (ext2fs_blocks_count (fs_super ex_fs)) = 40" "s_first_data_block (fs_super ex_fs) = 0"
  "unat (fs_group_desc_count ex_fs) = 3" "unat (s_blocks_per_group (fs_super ex_fs)) = 16"
  by (simp_all add: geometry_ok_def clusters_ok_def groups_ok_def ex_fs_def ex_sb_def ext2fs_blocks_count_def ext2fs_has_feature_64bit_def)

theorem group_of_block_witness:
  "ext2fs_group_of_blk2 ex_fs 20 = 1 \<longleftrightarrow> ext2fs_group_first_block2 ex_fs 1 \<le> 20 \<and> 20 \<le> ext2fs_group_last_block2 ex_fs 1"
  using group_of_block [OF ex_fs_geometry(1), of 20 1] ex_fs_geometry(4,5) by (simp add: in_groups_def ex_fs_def)

text \<open>C25. The numbers of blocks of the groups add up to the number of blocks of the file system
  after the first data block; the last group may be shorter.\<close>

theorem group_counts_total:
  assumes "geometry_ok fs" "unat (s_blocks_per_group (fs_super fs)) < 2 ^ 31"
  shows "(\<Sum>i<unat (fs_group_desc_count fs). ext2fs_group_blocks_count fs (word_of_nat i)) =
    int (unat (ext2fs_blocks_count (fs_super fs)) - unat (s_first_data_block (fs_super fs)))"
  using group_blocks_total [OF assms] .

theorem group_counts_total_witness:
  "(\<Sum>i<3. ext2fs_group_blocks_count ex_fs (word_of_nat i)) = 40"
  using group_counts_total [OF ex_fs_geometry(1)] ex_fs_geometry(4-7) by simp

text \<open>C26. A counter of a group that is written is read back, up to the 16 bits that a file
  system without the 64-bit feature has for it, and the other groups keep theirs.\<close>

theorem group_counter_roundtrip:
  assumes "groups_ok fs" "in_groups fs grp" "in_groups fs h"
  shows "ext2fs_bg_free_blocks_count (ext2fs_bg_free_blocks_count_set fs grp n) h =
    (if h = grp then low_32 (fs_super fs) n else ext2fs_bg_free_blocks_count fs h)"
  using free_blocks.get_set [OF assms] .

theorem group_counter_roundtrip_witness:
  "ext2fs_bg_free_blocks_count (ext2fs_bg_free_blocks_count_set ex_fs 1 70000) 1 = low_32 ex_sb 70000"
  using group_counter_roundtrip [OF ex_fs_geometry(3), of 1 1 70000] by (simp add: in_groups_def ex_fs_def)

text \<open>C27. A size that is stored in an inode is read back, for every size below \<open>2 ^ 63\<close>; a
  negative size is never stored.\<close>

theorem inode_size_set_get:
  assumes "ext2fs_inode_size_set fs inode sz = (0, fs', inode')" "sz < 2 ^ 63"
  shows "0 \<le> sz \<and> int (unat (EXT2_I_SIZE inode')) = sz"
  using inode_size_roundtrip [OF assms] .

definition ex_inode :: ext2_inode where
  "ex_inode = \<lparr>i_mode = 0x81A4, i_size = 0, i_blocks = 0, i_flags = 0, i_file_acl = 0, i_size_high = 0,
     l_i_blocks_hi = 0, l_i_file_acl_high = 0\<rparr>"

theorem inode_size_set_get_witness:
  "\<exists>fs' inode'. ext2fs_inode_size_set ex_fs ex_inode 5000000000 = (0, fs', inode') \<and> int (unat (EXT2_I_SIZE inode')) = 5000000000"
proof -
  obtain fs' inode' where r: "ext2fs_inode_size_set ex_fs ex_inode 5000000000 = (0, fs', inode')"
    by (simp add: ext2fs_inode_size_set_def size_feature_def ex_inode_def ext2fs_needs_large_file_feature_def Let_def
        ext2fs_has_feature_large_file_def ex_fs_def ex_sb_def)
  from inode_size_set_get [OF r] r show ?thesis by auto
qed

text \<open>C14. The block map of a file system covers the clusters of its blocks and is empty.\<close>

theorem new_block_map:
  assumes "geometry_ok fs" "clusters_ok fs" "fs_flags fs AND EXT2_FLAG_64BITS = 0 \<Longrightarrow> fs_cluster_ratio_bits fs = 0"
    and "ext2fs_allocate_block_bitmap mem junk fs descr = Inr b"
  shows "gb_ok b \<and> gb_set b = {} \<and> gb_bits b = fs_cluster_ratio_bits fs \<and>
    gb_start b = EXT2FS_B2C fs (ucast (s_first_data_block (fs_super fs))) \<and>
    gb_end b = EXT2FS_B2C fs (ext2fs_blocks_count (fs_super fs) - 1)"
  using allocate_block_bitmap_new [OF assms] by blast

theorem new_block_map_witness:
  "\<exists>b. ext2fs_allocate_block_bitmap (\<lambda>_. True) (\<lambda>_. 0) ex_fs None = Inr b \<and> gb_set b = {}"
proof -
  obtain b where b: "ext2fs_allocate_block_bitmap (\<lambda>_. True) (\<lambda>_. 0) ex_fs None = Inr b"
    by (simp add: ext2fs_allocate_block_bitmap_def ext2fs_alloc_generic_bmap_def new_ops_def rb_new_bmap_def
        rb_alloc_private_data_def ex_fs_def Let_def)
  from new_block_map [OF ex_fs_geometry(1,2) _ b] b show ?thesis by (simp add: ex_fs_def)
qed


text \<open>C9. Counting the blocks in use returns, whatever the unset local variable holds, and
  counts them all, provided the last block of the range is not in use on its own.\<close>

theorem count_used_correct:
  assumes "fs_block_map fs = Some g" "search_ok g end'" "gb_in g (drop_bit (gb_bits g) start)" "start < end'"
    and "used_block g (unat end') \<Longrightarrow> used_block g (unat end' - 1)"
  shows "ext2fs_count_used_clusters unset fs start end' =
    Some (Inr (EXT2FS_NUM_B2C fs (word_of_nat (card {n \<in> {unat start..unat end'}. used_block g n}))))"
proof -
  have "count_used_loop (Some g) end' start 0 unset = Some (0, 0 + word_of_nat (count_in (used_block g) (unat start) (unat end')))"
    using assms(3,4) less_imp_le [OF assms(4)]
    by (intro count_used_loop_counts [OF assms(2,5)]) (simp_all add: word_less_nat_alt)
  then show ?thesis by (simp add: ext2fs_count_used_clusters_def assms(1) count_in_def)
qed

theorem count_used_correct_witness:
  "ext2fs_count_used_clusters 99 ex_fs 0 15 =
    Some (Inr (EXT2FS_NUM_B2C ex_fs (word_of_nat (card {n \<in> {0..15}. used_block (ex_ba [3, 0]) n}))))"
proof -
  have "gb_ok (ex_ba [3, 0])" using ex_ba_ok [of "[3, 0]"] by (simp add: block_map_def)
  then have s: "search_ok (ex_ba [3, 0]) 15" by (simp add: search_ok_def gb_in_def) (simp add: ex_ba_def)
  have "\<not> bit_at [3, 0 :: u8] 15" by code_simp
  then have "\<not> used_block (ex_ba [3, 0]) (unat (15 :: u64))"
    unfolding used_block_word by (simp add: ex_ba_def marked_64_def marked_ba_def ba_priv_def)
  with count_used_correct [OF _ s, of ex_fs 0 99] show ?thesis
    by (simp add: ex_fs_def) (simp add: ex_ba_def gb_in_def)
qed

text \<open>A last block that is in use after a free one is not counted: blocks 13 and 15 are in use, and the count
  of the blocks 13 to 15 is 1.\<close>

lemma count_misses_last:
  "ext2fs_count_used_clusters 0 (ex_fs\<lparr>fs_block_map := Some (ex_ba [0, 0xA0])\<rparr>) 13 15 = Some (Inr 1)"
  by code_simp

text \<open>C4. Converting a map with a bit per block gives the map of the clusters that contain one of
  its blocks; if there is no memory for it the map is unchanged.\<close>

theorem convert_clusters:
  assumes "geometry_ok fs" "clusters_ok fs" "fs_cluster_ratio_bits fs \<noteq> 0" "fs_flags fs AND EXT2_FLAG_64BITS \<noteq> 0"
    and "subcluster_map fs b" "bm_start b < bm_real_end b"
  shows "\<exists>r g'. ext2fs_convert_subcluster_bitmap mem junk fs (Bitmap64 b) = Some (r, g') \<and>
    (r = 0 \<longrightarrow> gb_ok g' \<and> gb_bits g' = fs_cluster_ratio_bits fs \<and> gb_set g' = EXT2FS_B2C fs ` marked_64 b) \<and>
    (r \<noteq> 0 \<longrightarrow> g' = Bitmap64 b)"
  using convert_subcluster [OF assms] .

definition ex_big_fs :: ext2_filsys where
  "ex_big_fs = ex_fs\<lparr>fs_default_bitmap_type := 1, fs_cluster_ratio_bits := 2, fs_super := ex_sb\<lparr>s_clusters_per_group := 4\<rparr>\<rparr>"

definition ex_sub :: bmap64 where
  "ex_sub = \<lparr>bm_magic = EXT2_ET_MAGIC_BLOCK_BITMAP64, bm_start = 0, bm_end = 39, bm_real_end = 47,
     bm_cluster_bits = 0, bm_description = None, bm_private = BA_private [0x10, 0, 0, 0, 1, 0], bm_base_error_code = 0\<rparr>"

theorem convert_clusters_witness:
  "\<exists>r g'. ext2fs_convert_subcluster_bitmap (\<lambda>_. True) (\<lambda>_. 0) ex_big_fs (Bitmap64 ex_sub) = Some (r, g') \<and>
    gb_set g' = (if r = 0 then EXT2FS_B2C ex_big_fs ` marked_64 ex_sub else marked_64 ex_sub)"
proof -
  have f: "geometry_ok ex_big_fs" "clusters_ok ex_big_fs" "fs_cluster_ratio_bits ex_big_fs \<noteq> 0"
    "fs_flags ex_big_fs AND EXT2_FLAG_64BITS \<noteq> 0"
    by (simp_all add: ex_big_fs_def geometry_ok_def clusters_ok_def ex_fs_def ex_sb_def ext2fs_blocks_count_def
        ext2fs_has_feature_64bit_def)
  have b: "subcluster_map ex_big_fs ex_sub" "bm_start ex_sub < bm_real_end ex_sub"
    by (simp_all add: subcluster_map_def ex_sub_def ex_big_fs_def ex_fs_def ex_sb_def valid_64_def valid_ba_def
        header_ok_def ba_size_def EXT2FS_IS_64_BITMAP_def)
  from convert_clusters [OF f b, of "\<lambda>_. True" "\<lambda>_. 0"] obtain r g' where
    "ext2fs_convert_subcluster_bitmap (\<lambda>_. True) (\<lambda>_. 0) ex_big_fs (Bitmap64 ex_sub) = Some (r, g')"
    "r = 0 \<longrightarrow> gb_set g' = EXT2FS_B2C ex_big_fs ` marked_64 ex_sub" "r \<noteq> 0 \<longrightarrow> g' = Bitmap64 ex_sub" by blast
  then show ?thesis by (intro exI [of _ r] exI [of _ g']) simp
qed

text \<open>Where the code departs from what it means to do. The comparison of two 64-bit maps only looks at their
  last bits: maps that differ in bit 3 compare equal.\<close>

lemma compare_misses_difference:
  "map_option fst (ext2fs_compare_generic_bmap EXT2_ET_NEQ_BLOCK_BITMAP (Some (ex_ba [8, 0])) (Some (ex_ba [0, 0]))) = Some 0"
  by code_simp

text \<open>A bit beyond the end of a map that was made smaller comes back when the map is made larger.\<close>

lemma resize_stale_bit:
  "(case ext2fs_mark_generic_bmap (Some (ex_ba [0, 0])) 13 of (r, g) \<Rightarrow>
    case ext2fs_resize_generic_bmap (\<lambda>_. True) (\<lambda>_. 0) g 10 10 of (r1, g) \<Rightarrow>
    case ext2fs_resize_generic_bmap (\<lambda>_. True) (\<lambda>_. 0) g 15 15 of (r2, g) \<Rightarrow>
     (r, r1, r2, fst (ext2fs_test_generic_bmap g 13) \<noteq> 0)) = (0, 0, 0, True)"
  by code_simp

text \<open>The search for a zero finds none in an empty extent tree, where every bit is zero.\<close>

lemma empty_tree_no_zero: "ext2fs_find_first_zero_generic_bmap (Some ex_rb) 0 15 = Some (Inl ENOENT)"
  by code_simp

text \<open>Clearing a bit that is not set reports that it was, when the next bit is.\<close>

lemma unmark_reports_neighbour:
  "fst (ext2fs_unmark_generic_bmap (snd (ext2fs_mark_generic_bmap (Some ex_rb) 6)) 5) = 1"
  by code_simp

text \<open>Copying the bits out of an empty extent tree leaves the buffer as it was.\<close>

lemma empty_tree_get_range: "ext2fs_get_generic_bmap_range (Some ex_rb) 0 8 [0xAA] = (0, [0xAA])"
  by code_simp

text \<open>Storing zero bits clears them in a bit array, and does not in an extent tree.\<close>

lemma set_range_differs:
  "fst (ext2fs_test_generic_bmap (snd (ext2fs_set_generic_bmap_range (snd (ext2fs_mark_generic_bmap (Some (ex_ba [0, 0])) 3)) 0 8 [0])) 3) = 0"
  "fst (ext2fs_test_generic_bmap (snd (ext2fs_set_generic_bmap_range (snd (ext2fs_mark_generic_bmap (Some ex_rb) 3)) 0 8 [0])) 3) = 1"
  by code_simp+

text \<open>A range outside the map counts as free with a 64-bit map and as in use with a 32-bit map.\<close>

lemma range_outside_differs:
  "fst (ext2fs_test_block_bitmap_range2 (Some (ex_ba [0xFF, 0xFF])) 14 4) = EINVAL"
  "fst (ext2fs_test_block_bitmap_range2 (Some (ex_32 (replicate 8 0xFF))) 14 4) = 0"
  by code_simp+

end
